(* ===== verification/Prelude.thy ===== *)
theory Prelude
  imports Main "HOL-Library.Word" "HOL-Library.Char_ord" "HOL-Library.List_Lexorder"
    "HOL-Library.Product_Lexorder" "HOL-Library.Code_Target_Nat"
begin

text \<open>
  Shared vocabulary of the development. Go strings and byte slices are both sequences of
  bytes and are modelled as \<^typ>\<open>string\<close>; the order on them is the bytewise order of Go's
  \<open><\<close>. Fixed-width integers keep their width. An instant is the number of nanoseconds since
  the zero \<open>time.Time\<close>, so \<open>IsZero\<close> is equality with \<open>0\<close>; \<open>UTC()\<close> and \<open>Round(0)\<close> only drop
  the location and the monotonic reading and are the identity on instants. Fallible code
  returns a sum whose left injection is the source's error.

  The theory holds what several components use: first-error sequencing, ASCII classes, the
  decimal routines of \<open>strconv\<close>, hexadecimal encoding, and list facts.
\<close>

type_synonym bytes = string
type_synonym uint32 = "32 word"
type_synonym uint64 = "64 word"
type_synonym gotime = int
type_synonym duration = int

named_theorems result_simps \<open>first-error sequencing\<close>
named_theorems ascii_simps \<open>character classes and decimal text\<close>

abbreviation Millisecond :: duration where "Millisecond \<equiv> 1000000"
abbreviation Second :: duration where "Second \<equiv> 1000000000"
abbreviation Minute :: duration where "Minute \<equiv> 60000000000"

section \<open>Results\<close>

definition bind_res :: "'e + 'a \<Rightarrow> ('a \<Rightarrow> 'e + 'b) \<Rightarrow> 'e + 'b" where
  "bind_res r f = (case r of Inl e \<Rightarrow> Inl e | Inr x \<Rightarrow> f x)"

lemma bind_res_simps [simp, result_simps]:
  "bind_res (Inl e) f = Inl e"
  "bind_res (Inr x) f = f x"
  by (simp_all add: bind_res_def)

lemma bind_res_Inr_iff [result_simps]:
  "bind_res r f = Inr y \<longleftrightarrow> (\<exists>x. r = Inr x \<and> f x = Inr y)"
  by (cases r) simp_all

lemma bind_res_InrE:
  assumes "bind_res r f = Inr y"
  obtains x where "r = Inr x" and "f x = Inr y"
  using assms by (auto simp: bind_res_Inr_iff)

lemma if_Inl_eq_Inr [simp, result_simps]:
  "(if b then Inl e else r) = Inr y \<longleftrightarrow> \<not> b \<and> r = Inr y"
  by simp

section \<open>ASCII classes and decimal text\<close>

definition in_range :: "char \<Rightarrow> char \<Rightarrow> char \<Rightarrow> bool" where
  "in_range lo hi c \<longleftrightarrow> (of_char lo :: nat) \<le> of_char c \<and> (of_char c :: nat) \<le> of_char hi"

definition is_digit :: "char \<Rightarrow> bool" where
  "is_digit c \<longleftrightarrow> in_range CHR ''0'' CHR ''9'' c"

definition is_hexlow :: "char \<Rightarrow> bool" where
  "is_hexlow c \<longleftrightarrow> is_digit c \<or> in_range CHR ''a'' CHR ''f'' c"

definition is_lower :: "char \<Rightarrow> bool" where
  "is_lower c \<longleftrightarrow> in_range CHR ''a'' CHR ''z'' c"

definition is_upper :: "char \<Rightarrow> bool" where
  "is_upper c \<longleftrightarrow> in_range CHR ''A'' CHR ''Z'' c"

definition is_ascii :: "char \<Rightarrow> bool" where
  "is_ascii c \<longleftrightarrow> (of_char c :: nat) < 128"

lemmas class_defs = in_range_def is_digit_def is_hexlow_def is_lower_def is_upper_def is_ascii_def

definition digit_char :: "nat \<Rightarrow> char" where
  "digit_char d = char_of (48 + d)"

definition digit_val :: "char \<Rightarrow> nat" where
  "digit_val c = of_char c - 48"

lemma of_char_digit_char [ascii_simps]: "d < 10 \<Longrightarrow> (of_char (digit_char d) :: nat) = 48 + d"
  by (simp add: digit_char_def of_char_of)

lemma digit_val_digit_char [simp]: "d < 10 \<Longrightarrow> digit_val (digit_char d) = d"
  by (simp add: digit_val_def ascii_simps)

lemma is_digit_digit_char [simp]: "d < 10 \<Longrightarrow> is_digit (digit_char d)"
  by (simp add: is_digit_def in_range_def ascii_simps)

lemma is_digit_val_less: "is_digit c \<Longrightarrow> digit_val c < 10"
  by (auto simp: is_digit_def in_range_def digit_val_def)

lemma digit_char_digit_val [simp]: "is_digit c \<Longrightarrow> digit_char (digit_val c) = c"
  by (simp add: digit_char_def digit_val_def is_digit_def in_range_def)

lemma digit_char_0 [simp]: "digit_char 0 = CHR ''0''"
  by code_simp

lemma digit_val_0 [simp]: "digit_val CHR ''0'' = 0"
  by (simp add: digit_val_def)

lemma digit_val_eq_0: "is_digit c \<Longrightarrow> digit_val c = 0 \<longleftrightarrow> c = CHR ''0''"
  by (metis digit_char_0 digit_char_digit_val digit_val_0)

lemma digit_char_eq_0: "d < 10 \<Longrightarrow> digit_char d = CHR ''0'' \<longleftrightarrow> d = 0"
  by (metis digit_char_0 digit_val_0 digit_val_digit_char)

text \<open>\<open>strconv.FormatUint(n, 10)\<close>, \<open>strconv.Itoa\<close> on non-negative values, \<open>AppendUint\<close>.\<close>

fun nat_str :: "nat \<Rightarrow> string" where
  "nat_str n = (if n < 10 then [digit_char n] else nat_str (n div 10) @ [digit_char (n mod 10)])"

declare nat_str.simps [simp del]

definition int_str :: "int \<Rightarrow> string" where
  "int_str i = (if i < 0 then CHR ''-'' # nat_str (nat (- i)) else nat_str (nat i))"

definition dec_val :: "string \<Rightarrow> nat" where
  "dec_val s = foldl (\<lambda>a c. 10 * a + digit_val c) 0 s"

lemma dec_val_Nil [simp]: "dec_val [] = 0"
  by (simp add: dec_val_def)

lemma dec_val_snoc [simp]: "dec_val (s @ [c]) = 10 * dec_val s + digit_val c"
  by (simp add: dec_val_def)

lemma dec_val_single [simp]: "dec_val [c] = digit_val c"
  by (simp add: dec_val_def)

lemma nat_str_small: "n < 10 \<Longrightarrow> nat_str n = [digit_char n]"
  by (simp add: nat_str.simps)

lemma nat_str_step: "\<not> n < 10 \<Longrightarrow> nat_str n = nat_str (n div 10) @ [digit_char (n mod 10)]"
  by (subst nat_str.simps) simp

lemma nat_str_digits: "list_all is_digit (nat_str n)"
proof (induction n rule: nat_str.induct)
  case (1 n)
  then show ?case by (cases "n < 10") (simp_all add: nat_str_small nat_str_step)
qed

lemma nat_str_nonempty [simp]: "nat_str n \<noteq> []"
  by (subst nat_str.simps) simp

lemma dec_val_nat_str [simp]: "dec_val (nat_str n) = n"
proof (induction n rule: nat_str.induct)
  case (1 n)
  then show ?case by (cases "n < 10") (simp_all add: nat_str_small nat_str_step)
qed

lemma nat_str_inj: "nat_str m = nat_str n \<longleftrightarrow> m = n"
  by (metis dec_val_nat_str)

lemma nat_str_hd: "0 < n \<Longrightarrow> hd (nat_str n) \<noteq> CHR ''0''"
proof (induction n rule: nat_str.induct)
  case (1 n)
  show ?case
  proof (cases "n < 10")
    case True
    with "1.prems" show ?thesis by (simp add: nat_str_small digit_char_eq_0)
  next
    case False
    with "1.IH" show ?thesis by (simp add: nat_str_step hd_append)
  qed
qed

text \<open>A digit string without leading zeros is its own canonical form.\<close>

lemma nat_str_dec_val:
  assumes "list_all is_digit s" and "s \<noteq> []" and "hd s \<noteq> CHR ''0'' \<or> length s = 1"
  shows "nat_str (dec_val s) = s"
  using assms
proof (induction s rule: rev_induct)
  case Nil
  then show ?case by simp
next
  case (snoc c s)
  show ?case
  proof (cases "s = []")
    case True
    with snoc.prems show ?thesis by (simp add: nat_str_small is_digit_val_less)
  next
    case False
    with snoc.prems have hd: "hd s \<noteq> CHR ''0''" and ds: "list_all is_digit s" and c: "is_digit c"
      by auto
    have ih: "nat_str (dec_val s) = s" using snoc.IH ds False hd by simp
    have "dec_val s \<noteq> 0"
    proof
      assume "dec_val s = 0"
      with ih have "s = [CHR ''0'']" by (simp add: nat_str_small)
      with hd show False by simp
    qed
    with ih is_digit_val_less [OF c] c show ?thesis
      by (simp add: nat_str_step [of "10 * dec_val s + digit_val c"])
  qed
qed

lemma dec_val_bound: "list_all is_digit s \<Longrightarrow> dec_val s < 10 ^ length s"
proof (induction s rule: rev_induct)
  case Nil
  then show ?case by simp
next
  case (snoc c s)
  then have "dec_val s + 1 \<le> 10 ^ length s" and "digit_val c < 10"
    by (auto simp: is_digit_val_less)
  then show ?case by simp
qed

lemma dec_val_Cons: "dec_val (c # s) = digit_val c * 10 ^ length s + dec_val s"
proof (induction s rule: rev_induct)
  case Nil
  then show ?case by simp
next
  case (snoc d s)
  then show ?case
    by (simp add: dec_val_snoc [of "c # s" d, simplified] algebra_simps)
qed

lemma dec_val_ge:
  "is_digit c \<Longrightarrow> c \<noteq> CHR ''0'' \<Longrightarrow> 10 ^ length s \<le> dec_val (c # s)"
  using digit_val_eq_0 [of c] by (cases "digit_val c") (simp_all add: dec_val_Cons)

lemma nat_str_length_le: "0 < k \<Longrightarrow> n < 10 ^ k \<Longrightarrow> length (nat_str n) \<le> k"
proof (induction k arbitrary: n)
  case 0
  then show ?case by simp
next
  case (Suc k)
  show ?case
  proof (cases "n < 10")
    case True
    then show ?thesis by (simp add: nat_str_small)
  next
    case False
    with Suc.prems have "0 < k" by (cases k) auto
    moreover from Suc.prems have "n div 10 < 10 ^ k" by (simp add: less_mult_imp_div_less mult.commute)
    ultimately show ?thesis using Suc.IH [of "n div 10"] False by (simp add: nat_str_step)
  qed
qed

text \<open>\<open>strconv.ParseUint(s, 10, bits)\<close>: digits only, at least one, and in range.\<close>

definition parse_uint :: "nat \<Rightarrow> string \<Rightarrow> nat option" where
  "parse_uint bits s =
     (if s = [] \<or> \<not> list_all is_digit s then None
      else if dec_val s < 2 ^ bits then Some (dec_val s) else None)"

lemma parse_uint_nat_str: "n < 2 ^ bits \<Longrightarrow> parse_uint bits (nat_str n) = Some n"
  by (simp add: parse_uint_def nat_str_digits)

lemma parse_uint_SomeD:
  "parse_uint bits s = Some n \<Longrightarrow> n < 2 ^ bits \<and> n = dec_val s \<and> list_all is_digit s \<and> s \<noteq> []"
  by (auto simp: parse_uint_def split: if_splits)

section \<open>Hexadecimal encoding\<close>

definition hex_char :: "nat \<Rightarrow> char" where
  "hex_char d = (if d < 10 then char_of (48 + d) else char_of (87 + d))"

definition hex_byte :: "char \<Rightarrow> string" where
  "hex_byte b = [hex_char (of_char b div 16), hex_char (of_char b mod 16)]"

text \<open>\<open>hex.EncodeToString\<close>.\<close>

definition hex_encode :: "bytes \<Rightarrow> string" where
  "hex_encode bs = concat (map hex_byte bs)"

lemma is_hexlow_hex_char: "d < 16 \<Longrightarrow> is_hexlow (hex_char d)"
  by (auto simp: class_defs hex_char_def of_char_of)

lemma hex_encode_Nil [simp]: "hex_encode [] = []"
  by (simp add: hex_encode_def)

lemma hex_encode_Cons [simp]: "hex_encode (b # bs) = hex_byte b @ hex_encode bs"
  by (simp add: hex_encode_def)

lemma length_hex_encode [simp]: "length (hex_encode bs) = 2 * length bs"
  by (induction bs) (simp_all add: hex_byte_def)

lemma of_char_less_256: "(of_char (c :: char) :: nat) < 256"
  by simp

lemma of_char_div_16: "(of_char (c :: char) :: nat) div 16 < 16"
  using of_char_less_256 [of c] by linarith

lemma hexlow_hex_encode: "list_all is_hexlow (hex_encode bs)"
proof (induction bs)
  case Nil
  then show ?case by simp
next
  case (Cons b bs)
  then show ?case by (simp add: hex_byte_def is_hexlow_hex_char of_char_div_16)
qed

lemma hex_char_inj: "d < 16 \<Longrightarrow> e < 16 \<Longrightarrow> hex_char d = hex_char e \<longleftrightarrow> d = e"
proof -
  assume d: "d < 16" and e: "e < 16"
  have v: "(of_char (hex_char d) :: nat) = (if d < 10 then 48 + d else 87 + d)"
    and w: "(of_char (hex_char e) :: nat) = (if e < 10 then 48 + e else 87 + e)"
    using d e by (simp_all add: hex_char_def of_char_of)
  show ?thesis
  proof
    assume "hex_char d = hex_char e"
    then have "(if d < 10 then 48 + d else 87 + d) = (if e < 10 then 48 + e else 87 + e)"
      by (simp only: v [symmetric] w [symmetric])
    with d e show "d = e" by presburger
  qed simp
qed

lemma hex_byte_inj: "hex_byte b = hex_byte c \<longleftrightarrow> b = c"
proof
  assume "hex_byte b = hex_byte c"
  then have "(of_char b :: nat) div 16 = of_char c div 16"
    and "(of_char b :: nat) mod 16 = of_char c mod 16"
    by (simp_all add: hex_byte_def hex_char_inj of_char_div_16)
  then have "(of_char b :: nat) = of_char c" by (metis div_mult_mod_eq)
  then show "b = c" by simp
qed simp

lemma hex_encode_inj: "hex_encode bs = hex_encode cs \<Longrightarrow> bs = cs"
proof (induction bs arbitrary: cs)
  case Nil
  then show ?case by (cases cs) (simp_all add: hex_byte_def)
next
  case (Cons b bs)
  then obtain c cs' where cs: "cs = c # cs'" by (cases cs) (auto simp: hex_byte_def)
  with Cons.prems have "hex_byte b = hex_byte c" and "hex_encode bs = hex_encode cs'"
    by (simp_all add: hex_byte_def)
  with Cons.IH cs show ?case by (simp add: hex_byte_inj)
qed

section \<open>Lists\<close>

lemma append_delim_eq:
  assumes "d \<notin> set xs" and "d \<notin> set ys" and "xs @ d # us = ys @ d # vs"
  shows "xs = ys \<and> us = vs"
  using assms
proof (induction xs arbitrary: ys)
  case Nil
  then show ?case by (cases ys) auto
next
  case (Cons x xs)
  then show ?case by (cases ys) auto
qed

lemma list_all_not_in: "list_all P xs \<Longrightarrow> \<not> P d \<Longrightarrow> d \<notin> set xs"
  by (auto simp: list_all_iff)

lemma distinct_map_filter_fst:
  "distinct (map f xs) \<Longrightarrow> distinct (map f (filter P xs))"
  by (induction xs) auto

end
