(* ===== verification/Go_Regexp.thy ===== *)
theory Go_Regexp
  imports Prelude
begin

text \<open>
  The fragment of Go's \<open>regexp\<close> that the source uses: fully anchored sequences of literals,
  bounded character-class repetitions and capture groups. A pattern is data, so each pattern
  of the source is a definition that can be read against its Go literal. Matching enumerates
  all successes in Go's leftmost-first, greedy preference order; \<open>re_full\<close> keeps the
  first one that consumes the whole text, which is what \<open>^...$\<close> asks for.

  \<open>re_seq_sound\<close> and \<open>re_full_complete\<close> relate the matcher to the declarative reading
  \<open>seq_shape\<close> of a pattern: the text splits into pieces of the given shapes.
\<close>

datatype re =
    RLit string
  | RRep "char \<Rightarrow> bool" nat nat
  | RGroup "re list"

definition rep_splits :: "(char \<Rightarrow> bool) \<Rightarrow> nat \<Rightarrow> nat \<Rightarrow> string \<Rightarrow> (string \<times> string) list" where
  "rep_splits P lo hi s =
     map (\<lambda>k. (take k s, drop k s))
       (filter (\<lambda>k. k \<le> length s \<and> list_all P (take k s)) (rev [lo..<Suc hi]))"

fun re_match :: "re \<Rightarrow> string \<Rightarrow> (string \<times> string list \<times> string) list"
  and re_seq :: "re list \<Rightarrow> string \<Rightarrow> (string \<times> string list \<times> string) list" where
  "re_match (RLit l) s =
     (if take (length l) s = l then [(l, [], drop (length l) s)] else [])"
| "re_match (RRep P lo hi) s = map (\<lambda>(c, r). (c, [], r)) (rep_splits P lo hi s)"
| "re_match (RGroup rs) s = map (\<lambda>(c, k, r). (c, c # k, r)) (re_seq rs s)"
| "re_seq [] s = [([], [], s)]"
| "re_seq (p # ps) s =
     concat (map (\<lambda>(c1, k1, s1). map (\<lambda>(c2, k2, s2). (c1 @ c2, k1 @ k2, s2)) (re_seq ps s1))
       (re_match p s))"

definition re_full :: "re list \<Rightarrow> string \<Rightarrow> string list option" where
  "re_full ps s = (case filter (\<lambda>(c, k, r). r = []) (re_seq ps s) of
     [] \<Rightarrow> None | (c, k, r) # _ \<Rightarrow> Some k)"

text \<open>\<open>MatchString\<close> on an anchored pattern.\<close>

definition re_matches :: "re list \<Rightarrow> string \<Rightarrow> bool" where
  "re_matches ps s \<longleftrightarrow> re_full ps s \<noteq> None"

section \<open>Declarative reading\<close>

fun re_shape :: "re \<Rightarrow> string \<Rightarrow> string list \<Rightarrow> bool"
  and seq_shape :: "re list \<Rightarrow> string \<Rightarrow> string list \<Rightarrow> bool" where
  "re_shape (RLit l) c k \<longleftrightarrow> c = l \<and> k = []"
| "re_shape (RRep P lo hi) c k \<longleftrightarrow> lo \<le> length c \<and> length c \<le> hi \<and> list_all P c \<and> k = []"
| "re_shape (RGroup rs) c k \<longleftrightarrow> (\<exists>k'. seq_shape rs c k' \<and> k = c # k')"
| "seq_shape [] c k \<longleftrightarrow> c = [] \<and> k = []"
| "seq_shape (p # ps) c k \<longleftrightarrow>
     (\<exists>c1 c2 k1 k2. c = c1 @ c2 \<and> k = k1 @ k2 \<and> re_shape p c1 k1 \<and> seq_shape ps c2 k2)"

lemma set_rep_splits:
  "(c, r) \<in> set (rep_splits P lo hi s) \<longleftrightarrow>
     s = c @ r \<and> lo \<le> length c \<and> length c \<le> hi \<and> list_all P c"
proof
  assume "(c, r) \<in> set (rep_splits P lo hi s)"
  then obtain k where k: "lo \<le> k" "k \<le> hi" "k \<le> length s" "list_all P (take k s)"
    and c: "c = take k s" and r: "r = drop k s"
    by (auto simp: rep_splits_def)
  then have "length c = k" by simp
  with k c r show "s = c @ r \<and> lo \<le> length c \<and> length c \<le> hi \<and> list_all P c" by simp
next
  assume *: "s = c @ r \<and> lo \<le> length c \<and> length c \<le> hi \<and> list_all P c"
  then have "length c \<in> set (filter (\<lambda>k. k \<le> length s \<and> list_all P (take k s)) (rev [lo..<Suc hi]))"
    by (simp del: upt_Suc)
  moreover from * have "(c, r) = (\<lambda>k. (take k s, drop k s)) (length c)" by simp
  ultimately show "(c, r) \<in> set (rep_splits P lo hi s)"
    unfolding rep_splits_def set_map by (rule rev_image_eqI)
qed

lemma re_match_seq_iff:
  "(c, k, r) \<in> set (re_match p s) \<longleftrightarrow> s = c @ r \<and> re_shape p c k"
  "(c, k, r) \<in> set (re_seq ps s) \<longleftrightarrow> s = c @ r \<and> seq_shape ps c k"
proof (induction p s and ps s arbitrary: c k r and c k r rule: re_match_re_seq.induct)
  case (1 l s)
  then show ?case by simp (metis append_eq_conv_conj)
next
  case (2 P lo hi s)
  then show ?case by (auto simp: set_rep_splits)
next
  case (3 rs s)
  have "(c, k, r) \<in> set (re_match (RGroup rs) s) \<longleftrightarrow>
      (\<exists>k'. (c, k', r) \<in> set (re_seq rs s) \<and> k = c # k')"
    by (auto simp: image_iff Bex_def)
  then show ?case by (simp add: 3)
next
  case (4 s)
  then show ?case by auto
next
  case (5 p ps s)
  show ?case
  proof
    assume "(c, k, r) \<in> set (re_seq (p # ps) s)"
    then obtain c1 k1 s1 c2 k2 where 1: "(c1, k1, s1) \<in> set (re_match p s)"
      and 2: "(c2, k2, r) \<in> set (re_seq ps s1)" and c: "c = c1 @ c2" and k: "k = k1 @ k2"
      by auto
    from 1 "5.IH"(1) have "s = c1 @ s1" "re_shape p c1 k1" by auto
    moreover from 1 2 "5.IH"(2) have "s1 = c2 @ r" "seq_shape ps c2 k2" by (metis prod.collapse)+
    ultimately show "s = c @ r \<and> seq_shape (p # ps) c k" using c k by auto
  next
    assume *: "s = c @ r \<and> seq_shape (p # ps) c k"
    then obtain c1 c2 k1 k2 where c: "c = c1 @ c2" and k: "k = k1 @ k2"
      and 1: "re_shape p c1 k1" and 2: "seq_shape ps c2 k2" by auto
    from * c 1 "5.IH"(1) have m1: "(c1, k1, c2 @ r) \<in> set (re_match p s)" by simp
    then have "(c2, k2, r) \<in> set (re_seq ps (c2 @ r))"
      using "5.IH"(2) [OF m1 refl refl] 2 by simp
    with m1 c k show "(c, k, r) \<in> set (re_seq (p # ps) s)" by force
  qed
qed

lemmas re_seq_sound = re_match_seq_iff(2)

lemma re_full_SomeD: "re_full ps s = Some k \<Longrightarrow> seq_shape ps s k"
proof -
  assume "re_full ps s = Some k"
  then obtain c r rest where "filter (\<lambda>(c, k, r). r = []) (re_seq ps s) = (c, k, r) # rest"
    by (auto simp: re_full_def split: list.splits)
  then have "(c, k, r) \<in> set (filter (\<lambda>(c, k, r). r = []) (re_seq ps s))" by simp
  then show ?thesis by (auto simp: re_seq_sound)
qed

lemma re_full_complete: "seq_shape ps s k \<Longrightarrow> \<exists>k'. re_full ps s = Some k'"
proof -
  assume "seq_shape ps s k"
  then have "(s, k, []) \<in> set (re_seq ps s)" by (simp add: re_seq_sound)
  then have "filter (\<lambda>(c, k, r). r = []) (re_seq ps s) \<noteq> []"
    by (auto simp: filter_empty_conv)
  then show ?thesis by (auto simp: re_full_def split: list.splits)
qed

lemma re_full_unique:
  assumes "seq_shape ps s k" and "\<And>k'. seq_shape ps s k' \<Longrightarrow> k' = k"
  shows "re_full ps s = Some k"
  using re_full_complete [OF assms(1)] re_full_SomeD assms(2) by blast

lemma re_matches_iff: "re_matches ps s \<longleftrightarrow> (\<exists>k. seq_shape ps s k)"
  by (metis not_Some_eq re_full_SomeD re_full_complete re_matches_def)

lemma re_matchesI: "seq_shape ps s k \<Longrightarrow> re_matches ps s"
  by (auto simp: re_matches_iff)

lemma seq_shape_RLitI: "seq_shape ps c k \<Longrightarrow> seq_shape (RLit l # ps) (l @ c) k"
  by auto

lemma seq_shape_RRepI:
  "lo \<le> length c1 \<Longrightarrow> length c1 \<le> hi \<Longrightarrow> list_all P c1 \<Longrightarrow> seq_shape ps c2 k \<Longrightarrow>
     seq_shape (RRep P lo hi # ps) (c1 @ c2) k"
  by auto

lemma seq_shape_RGroupI:
  "seq_shape rs c1 k1 \<Longrightarrow> seq_shape ps c2 k2 \<Longrightarrow>
     seq_shape (RGroup rs # ps) (c1 @ c2) (c1 # k1 @ k2)"
  unfolding seq_shape.simps re_shape.simps by (metis append_Cons)

lemma seq_shape_RLit: "seq_shape (RLit l # ps) c k \<longleftrightarrow> (\<exists>c2. c = l @ c2 \<and> seq_shape ps c2 k)"
  by auto

lemma seq_shape_RRep:
  "seq_shape (RRep P lo hi # ps) c k \<longleftrightarrow>
     (\<exists>c1 c2. c = c1 @ c2 \<and> lo \<le> length c1 \<and> length c1 \<le> hi \<and> list_all P c1 \<and> seq_shape ps c2 k)"
  by auto

lemma seq_shape_RGroup:
  "seq_shape (RGroup rs # ps) c k \<longleftrightarrow>
     (\<exists>c1 c2 k1 k2. c = c1 @ c2 \<and> k = c1 # k1 @ k2 \<and> seq_shape rs c1 k1 \<and> seq_shape ps c2 k2)"
  unfolding seq_shape.simps re_shape.simps by (metis append_Cons)

lemma seq_shape_append:
  "seq_shape (ps @ qs) c k \<longleftrightarrow>
     (\<exists>c1 c2 k1 k2. c = c1 @ c2 \<and> k = k1 @ k2 \<and> seq_shape ps c1 k1 \<and> seq_shape qs c2 k2)"
proof (induction ps arbitrary: c k)
  case Nil
  then show ?case by simp
next
  case (Cons p ps)
  show ?case unfolding append_Cons seq_shape.simps Cons.IH by (metis append.assoc)
qed

lemmas seq_shape_iffs = seq_shape_RLit seq_shape_RRep seq_shape_RGroup

section \<open>Length bounds of a pattern\<close>

fun re_len :: "re \<Rightarrow> nat \<times> nat"
  and seq_len :: "re list \<Rightarrow> nat \<times> nat" where
  "re_len (RLit l) = (length l, length l)"
| "re_len (RRep P lo hi) = (lo, hi)"
| "re_len (RGroup rs) = seq_len rs"
| "seq_len [] = (0, 0)"
| "seq_len (p # ps) = (fst (re_len p) + fst (seq_len ps), snd (re_len p) + snd (seq_len ps))"

lemma shape_length:
  "re_shape p c k \<Longrightarrow> fst (re_len p) \<le> length c \<and> length c \<le> snd (re_len p)"
  "seq_shape ps c k \<Longrightarrow> fst (seq_len ps) \<le> length c \<and> length c \<le> snd (seq_len ps)"
proof (induction p c k and ps c k rule: re_shape_seq_shape.induct)
  case (5 p ps c k)
  then obtain c1 c2 k1 k2 where c: "c = c1 @ c2" "k = k1 @ k2" "re_shape p c1 k1" "seq_shape ps c2 k2"
    by auto
  with 5 have "fst (re_len p) \<le> length c1 \<and> length c1 \<le> snd (re_len p)" by blast
  moreover from 5 c have "fst (seq_len ps) \<le> length c2 \<and> length c2 \<le> snd (seq_len ps)" by blast
  ultimately show ?case using c by simp
qed auto

section \<open>Alphabet of a pattern\<close>

text \<open>Every character of a matched text belongs to a literal or to a class of the pattern.\<close>

fun re_char :: "re \<Rightarrow> char \<Rightarrow> bool"
  and seq_char :: "re list \<Rightarrow> char \<Rightarrow> bool" where
  "re_char (RLit l) x \<longleftrightarrow> x \<in> set l"
| "re_char (RRep P lo hi) x \<longleftrightarrow> P x"
| "re_char (RGroup rs) x \<longleftrightarrow> seq_char rs x"
| "seq_char [] x \<longleftrightarrow> False"
| "seq_char (p # ps) x \<longleftrightarrow> re_char p x \<or> seq_char ps x"

lemma shape_chars:
  "re_shape p c k \<Longrightarrow> x \<in> set c \<Longrightarrow> re_char p x"
  "seq_shape ps c k \<Longrightarrow> x \<in> set c \<Longrightarrow> seq_char ps x"
proof (induction p c k and ps c k rule: re_shape_seq_shape.induct)
  case (5 p ps c k)
  then obtain c1 c2 k1 k2 where "c = c1 @ c2" "k = k1 @ k2" "re_shape p c1 k1" "seq_shape ps c2 k2"
    by auto
  with 5 show ?case by auto
qed (auto simp: list_all_iff)

lemma re_matches_chars: "re_matches ps s \<Longrightarrow> x \<in> set s \<Longrightarrow> seq_char ps x"
  by (auto simp: re_matches_iff dest: shape_chars(2))

lemma re_matches_list_all:
  "re_matches ps s \<Longrightarrow> (\<And>x. seq_char ps x \<Longrightarrow> Q x) \<Longrightarrow> list_all Q s"
  by (auto simp: list_all_iff dest: re_matches_chars)

section \<open>Patterns shared by several packages\<close>

text \<open>\<open>^[0-9a-f]{8}-[0-9a-f]{4}-[0-9a-f]{4}-[0-9a-f]{4}-[0-9a-f]{12}$\<close>\<close>

definition uuidPattern :: "re list" where
  "uuidPattern =
     [RRep is_hexlow 8 8, RLit ''-'', RRep is_hexlow 4 4, RLit ''-'', RRep is_hexlow 4 4, RLit ''-'',
      RRep is_hexlow 4 4, RLit ''-'', RRep is_hexlow 12 12]"

text \<open>\<open>^sha256:[0-9a-f]{64}$\<close>\<close>

definition digestPattern :: "re list" where
  "digestPattern = [RLit ''sha256:'', RRep is_hexlow 64 64]"

lemma digestPattern_iff:
  "re_matches digestPattern s \<longleftrightarrow> (\<exists>h. s = ''sha256:'' @ h \<and> length h = 64 \<and> list_all is_hexlow h)"
  by (auto simp: re_matches_iff digestPattern_def)

lemma uuidPattern_length: "re_matches uuidPattern s \<Longrightarrow> length s = 36"
proof -
  assume "re_matches uuidPattern s"
  then obtain k where "seq_shape uuidPattern s k" by (auto simp: re_matches_iff)
  then have "fst (seq_len uuidPattern) \<le> length s \<and> length s \<le> snd (seq_len uuidPattern)"
    by (rule shape_length(2))
  then show ?thesis by (simp add: uuidPattern_def)
qed

lemma uuidPatternI:
  assumes "length a = 8" "length b = 4" "length c = 4" "length d = 4" "length e = 12"
    and "list_all is_hexlow (a @ b @ c @ d @ e)"
  shows "re_matches uuidPattern (a @ ''-'' @ b @ ''-'' @ c @ ''-'' @ d @ ''-'' @ e)"
proof -
  have "seq_shape uuidPattern (a @ ''-'' @ b @ ''-'' @ c @ ''-'' @ d @ ''-'' @ e @ []) []"
    unfolding uuidPattern_def
    by (intro seq_shape_RRepI seq_shape_RLitI) (use assms in simp_all)
  then show ?thesis by (simp add: re_matchesI)
qed

lemma uuidPattern_nonempty: "re_matches uuidPattern s \<Longrightarrow> s \<noteq> []"
  by (auto dest: uuidPattern_length)

lemma digestPattern_nonempty: "re_matches digestPattern s \<Longrightarrow> s \<noteq> []"
  by (auto simp: digestPattern_iff)

end
