(* ===== verification/Go_Netip.thy ===== *)
theory Go_Netip
  imports Go_Regexp
begin

text \<open>
  The part of \<open>net/netip\<close> the source uses on IPv4 text: \<open>ParseAddr\<close> followed by \<open>Is4\<close>,
  \<open>String\<close>, and the classification predicates. Every caller rejects an address that is not
  IPv4, so \<open>parse_addr4\<close> returns \<open>None\<close> both where Go reports an error and where it would
  return an IPv6 address.

  \<open>parse_addr4\<close> follows Go's field loop: no leading zeros, at most 255 per field, exactly
  four non-empty fields. The round-trip facts make \<open>addr.String() == text\<close> a tautology on
  accepted text, which is what canonical-form checks of the source rest on.
\<close>

datatype addr4 = Addr4 "8 word" "8 word" "8 word" "8 word"

fun octets :: "addr4 \<Rightarrow> (8 word) list" where
  "octets (Addr4 a b c d) = [a, b, c, d]"

text \<open>\<open>Addr.String\<close> on an IPv4 address.\<close>

fun addr_string :: "addr4 \<Rightarrow> string" where
  "addr_string (Addr4 a b c d) =
     nat_str (unat a) @ ''.'' @ nat_str (unat b) @ ''.'' @ nat_str (unat c) @ ''.'' @ nat_str (unat d)"

text \<open>
  One step per character, as the loop of \<open>parseIPv4Fields\<close>: \<open>v\<close> is the value and \<open>n\<close> the
  number of digits of the current field, \<open>fs\<close> the fields already stored, in reverse.
\<close>

fun parse_fields :: "nat \<Rightarrow> nat \<Rightarrow> nat list \<Rightarrow> string \<Rightarrow> nat list option" where
  "parse_fields v n fs [] =
     (if n = 0 \<or> length fs < 3 then None else Some (rev (v # fs)))"
| "parse_fields v n fs (c # cs) =
     (if is_digit c then
        if n = 1 \<and> v = 0 then None
        else if 10 * v + digit_val c > 255 then None
        else parse_fields (10 * v + digit_val c) (Suc n) fs cs
      else if c = CHR ''.'' then
        if n = 0 \<or> cs = [] then None
        else if length fs = 3 then None
        else parse_fields 0 0 (v # fs) cs
      else None)"

fun addr_of_fields :: "nat list \<Rightarrow> addr4 option" where
  "addr_of_fields [a, b, c, d] = Some (Addr4 (of_nat a) (of_nat b) (of_nat c) (of_nat d))"
| "addr_of_fields _ = None"

text \<open>
  \<open>ParseAddr\<close> dispatches on the first of \<open>.\<close>, \<open>:\<close> and \<open>%\<close>; only a dot leads to an IPv4
  parse.
\<close>

definition parse_addr4 :: "string \<Rightarrow> addr4 option" where
  "parse_addr4 s =
     (case dropWhile (\<lambda>c. c \<notin> {CHR ''.'', CHR '':'', CHR ''%''}) s of
        c # _ \<Rightarrow> if c = CHR ''.'' then Option.bind (parse_fields 0 0 [] s) addr_of_fields else None
      | [] \<Rightarrow> None)"

definition is_unspecified4 :: "addr4 \<Rightarrow> bool" where
  "is_unspecified4 a \<longleftrightarrow> a = Addr4 0 0 0 0"

fun is_loopback4 :: "addr4 \<Rightarrow> bool" where
  "is_loopback4 (Addr4 a b c d) \<longleftrightarrow> a = 127"

fun is_multicast4 :: "addr4 \<Rightarrow> bool" where
  "is_multicast4 (Addr4 a b c d) \<longleftrightarrow> 224 \<le> unat a \<and> unat a < 240"

fun is_link_local_unicast4 :: "addr4 \<Rightarrow> bool" where
  "is_link_local_unicast4 (Addr4 a b c d) \<longleftrightarrow> a = 169 \<and> b = 254"

text \<open>\<open>Addr.IsGlobalUnicast\<close> on an IPv4 address: private ranges count as global unicast.\<close>

definition is_global_unicast4 :: "addr4 \<Rightarrow> bool" where
  "is_global_unicast4 a \<longleftrightarrow>
     \<not> is_unspecified4 a \<and> a \<noteq> Addr4 255 255 255 255 \<and> \<not> is_loopback4 a \<and> \<not> is_multicast4 a \<and>
     \<not> is_link_local_unicast4 a"

section \<open>Round trips\<close>

lemma parse_fields_digits:
  assumes "list_all is_digit ds" and "dec_val (pre @ ds) \<le> 255"
    and "list_all is_digit pre" and "pre = [] \<or> hd pre \<noteq> CHR ''0'' \<or> ds = []"
    and "ds = [] \<or> pre \<noteq> [] \<or> hd ds \<noteq> CHR ''0'' \<or> length ds = 1"
  shows "parse_fields (dec_val pre) (length pre) fs (ds @ rest) =
    parse_fields (dec_val (pre @ ds)) (length (pre @ ds)) fs rest"
  using assms
proof (induction ds arbitrary: pre)
  case Nil
  then show ?case by simp
next
  case (Cons d ds)
  have step: "dec_val (pre @ [d]) = 10 * dec_val pre + digit_val d" by simp
  have lead: "\<not> (length pre = 1 \<and> dec_val pre = 0)"
  proof
    assume *: "length pre = 1 \<and> dec_val pre = 0"
    then obtain c where "pre = [c]" by (cases pre) auto
    with * Cons.prems show False using digit_val_eq_0 [of c] by simp
  qed
  have "dec_val (pre @ [d]) \<le> dec_val ((pre @ [d]) @ ds)"
  proof (induction ds rule: rev_induct)
    case Nil
    then show ?case by simp
  next
    case (snoc x xs)
    then show ?case
      by (simp only: append_assoc [symmetric] dec_val_snoc)
  qed
  then have le: "10 * dec_val pre + digit_val d \<le> 255" using Cons.prems(2) step by simp
  have "parse_fields (dec_val pre) (length pre) fs ((d # ds) @ rest) =
      parse_fields (dec_val (pre @ [d])) (length (pre @ [d])) fs (ds @ rest)"
    using Cons.prems(1) lead le step by auto
  also have "\<dots> = parse_fields (dec_val ((pre @ [d]) @ ds)) (length ((pre @ [d]) @ ds)) fs rest"
  proof (rule Cons.IH)
    show "pre @ [d] = [] \<or> hd (pre @ [d]) \<noteq> CHR ''0'' \<or> ds = []"
      using Cons.prems by (cases pre) auto
  qed (use Cons.prems in auto)
  finally show ?case by simp
qed

lemma nat_str_field:
  "hd (nat_str n) \<noteq> CHR ''0'' \<or> length (nat_str n) = 1"
  by (cases "n = 0") (simp_all add: nat_str_hd nat_str_small)

lemma parse_fields_nat_str:
  "n \<le> 255 \<Longrightarrow>
     parse_fields 0 0 fs (nat_str n @ rest) = parse_fields n (length (nat_str n)) fs rest"
  using parse_fields_digits [of "nat_str n" "[]" fs rest] nat_str_field [of n]
  by (simp add: nat_str_digits)

lemma unat_octet: "unat (a :: 8 word) \<le> 255"
  using unsigned_less [of a, where ?'a = nat] by simp

lemma parse_fields_addr_string:
  "parse_fields 0 0 [] (addr_string (Addr4 a b c d)) = Some [unat a, unat b, unat c, unat d]"
proof -
  have l: "length (nat_str n) \<noteq> 0" for n by simp
  have dot: "\<not> is_digit CHR ''.''" by code_simp
  show ?thesis
    using parse_fields_nat_str [of "unat d" "[unat c, unat b, unat a]" "[]"]
    by (simp add: parse_fields_nat_str unat_octet dot l del: length_0_conv)
qed

lemma digits_no_delim:
  "list_all is_digit s \<Longrightarrow> dropWhile (\<lambda>c. c \<notin> {CHR ''.'', CHR '':'', CHR ''%''}) (s @ CHR ''.'' # t) = CHR ''.'' # t"
proof -
  assume ds: "list_all is_digit s"
  have "\<not> is_digit CHR ''.''" "\<not> is_digit CHR '':''" "\<not> is_digit CHR ''%''" by code_simp+
  with ds have "\<forall>c \<in> set s. c \<notin> {CHR ''.'', CHR '':'', CHR ''%''}" by (auto simp: list_all_iff)
  then show ?thesis by (simp add: dropWhile_append2)
qed

theorem parse_addr_string: "parse_addr4 (addr_string a) = Some a"
proof (cases a)
  case (Addr4 w x y z)
  have "dropWhile (\<lambda>c. c \<notin> {CHR ''.'', CHR '':'', CHR ''%''}) (addr_string a) =
      CHR ''.'' # nat_str (unat x) @ ''.'' @ nat_str (unat y) @ ''.'' @ nat_str (unat z)"
    using Addr4 digits_no_delim [OF nat_str_digits [of "unat w"]] by simp
  then show ?thesis
    using parse_fields_addr_string [of w x y z] Addr4 by (simp add: parse_addr4_def)
qed

lemma addr_string_inj: "addr_string a = addr_string b \<longleftrightarrow> a = b"
  by (metis option.inject parse_addr_string)

text \<open>Conversely, accepted text is canonical.\<close>

definition field_text :: "nat \<Rightarrow> nat \<Rightarrow> string" where
  "field_text v n = (if n = 0 then [] else nat_str v)"

definition field_ok :: "nat \<Rightarrow> nat \<Rightarrow> bool" where
  "field_ok v n \<longleftrightarrow> (if n = 0 then v = 0 else v \<le> 255 \<and> length (nat_str v) = n)"

lemma nat_str_extend:
  assumes "field_ok v n" and "\<not> (n = 1 \<and> v = 0)" and "is_digit c"
  shows "nat_str (10 * v + digit_val c) = field_text v n @ [c]"
proof (cases "n = 0")
  case True
  with assms show ?thesis by (simp add: field_ok_def field_text_def nat_str_small is_digit_val_less)
next
  case False
  with assms(1) have n: "length (nat_str v) = n" by (simp add: field_ok_def)
  have "v \<noteq> 0"
  proof
    assume "v = 0"
    with n have "n = 1" by (simp add: nat_str_small)
    with \<open>v = 0\<close> assms(2) show False by simp
  qed
  with False is_digit_val_less [OF assms(3)] assms(3) show ?thesis
    by (simp add: nat_str_step [of "10 * v + digit_val c"] field_text_def)
qed

definition fields_text :: "nat list \<Rightarrow> string" where
  "fields_text fs = concat (map (\<lambda>f. nat_str f @ ''.'') fs)"

lemma parse_fields_canonical:
  assumes "parse_fields v n fs s = Some r" and "field_ok v n" and "list_all (\<lambda>f. f \<le> 255) fs"
    and "length fs \<le> 3"
  shows "length r = 4 \<and> list_all (\<lambda>f. f \<le> 255) r \<and>
    fields_text (rev fs) @ field_text v n @ s = fields_text (butlast r) @ nat_str (last r)"
  using assms
proof (induction v n fs s rule: parse_fields.induct)
  case (1 v n fs)
  then show ?case by (auto simp: field_ok_def field_text_def split: if_splits)
next
  case (2 v n fs c cs)
  show ?case
  proof (cases "is_digit c")
    case True
    with 2 have lead: "\<not> (n = 1 \<and> v = 0)" and le: "10 * v + digit_val c \<le> 255"
      and rec: "parse_fields (10 * v + digit_val c) (Suc n) fs cs = Some r"
      by (auto split: if_splits)
    have ext: "nat_str (10 * v + digit_val c) = field_text v n @ [c]"
      using nat_str_extend [OF 2(4) lead True] .
    then have "field_ok (10 * v + digit_val c) (Suc n)"
      using le 2(4) by (auto simp: field_ok_def field_text_def split: if_splits)
    with 2(1) [OF True lead] le rec 2(5,6)
    have "length r = 4 \<and> list_all (\<lambda>f. f \<le> 255) r \<and>
      fields_text (rev fs) @ field_text (10 * v + digit_val c) (Suc n) @ cs =
        fields_text (butlast r) @ nat_str (last r)" by simp
    with ext show ?thesis by (simp add: field_text_def)
  next
    case False
    with 2 have c: "c = CHR ''.''" and n: "n \<noteq> 0" and fs: "length fs \<noteq> 3"
      and rec: "parse_fields 0 0 (v # fs) cs = Some r" and cs: "cs \<noteq> []"
      by (auto split: if_splits)
    have "length r = 4 \<and> list_all (\<lambda>f. f \<le> 255) r \<and>
      fields_text (rev (v # fs)) @ field_text 0 0 @ cs = fields_text (butlast r) @ nat_str (last r)"
      using 2(2) [OF False c _ fs rec] n cs 2(4-6) fs by (auto simp: field_ok_def)
    then show ?thesis using n c by (simp add: fields_text_def field_text_def)
  qed
qed

theorem parse_addr4_canonical: "parse_addr4 s = Some a \<Longrightarrow> addr_string a = s"
proof -
  assume "parse_addr4 s = Some a"
  then obtain r where r: "parse_fields 0 0 [] s = Some r" and a: "addr_of_fields r = Some a"
    by (auto simp: parse_addr4_def bind_eq_Some_conv split: list.splits if_splits)
  from parse_fields_canonical [OF r] have len: "length r = 4" and le: "list_all (\<lambda>f. f \<le> 255) r"
    and s: "s = fields_text (butlast r) @ nat_str (last r)"
    by (simp_all add: field_ok_def fields_text_def field_text_def)
  from len obtain w x y z where rs: "r = [w, x, y, z]"
    by (auto simp: numeral_eq_Suc length_Suc_conv)
  have "unat (of_nat f :: 8 word) = f" if "f \<le> 255" for f
    using that by (simp add: unat_of_nat)
  with le rs a s show ?thesis by (auto simp: fields_text_def)
qed

lemma parse_addr4_iff: "parse_addr4 s = Some a \<longleftrightarrow> s = addr_string a"
  using parse_addr4_canonical parse_addr_string by blast

text \<open>
  The check \<open>err != nil || !address.Is4() || address.String() != text\<close> that several packages
  repeat, as a predicate.
\<close>

definition canonical_ipv4 :: "string \<Rightarrow> bool" where
  "canonical_ipv4 s \<longleftrightarrow> (case parse_addr4 s of None \<Rightarrow> False | Some a \<Rightarrow> addr_string a = s)"

lemma canonical_ipv4_iff: "canonical_ipv4 s \<longleftrightarrow> (\<exists>a. s = addr_string a)"
  by (auto simp: canonical_ipv4_def parse_addr4_iff parse_addr_string split: option.splits)

lemma addr_string_chars: "x \<in> set (addr_string a) \<Longrightarrow> is_digit x \<or> x = CHR ''.''"
  using nat_str_digits by (cases a) (auto simp: list_all_iff)

lemma addr_string_nonempty: "addr_string a \<noteq> []"
  by (cases a) simp

end
