(* ===== verification/Go_Sha256.thy ===== *)
theory Go_Sha256
  imports Go_Regexp
begin

unbundle bit_operations_syntax

text \<open>
  SHA-256 (FIPS 180-4) on byte strings, as \<open>crypto/sha256\<close> computes it, and the digest
  notation \<open>sha256:<hex>\<close> that every package of the source writes. The function is concrete:
  statements that depend on collision resistance say so by exhibiting a pair of distinct
  messages with one digest, never by assuming injectivity.

  The locale \<open>digest_fn\<close> is what the components rely on: 32 output bytes. It is interpreted
  on \<open>sha256\<close>.
\<close>

type_synonym hash_state = "uint32 list"

text \<open>
  The constants, by their definition in the standard: the first 32 bits of the fractional
  parts of the cube roots of the first 64 primes and of the square roots of the first eight.
\<close>

definition sha_primes :: "nat list" where
  "sha_primes = filter (\<lambda>n. list_all (\<lambda>d. n mod d \<noteq> 0) [2..<n]) [2..<312]"

fun int_root :: "nat \<Rightarrow> nat \<Rightarrow> int \<Rightarrow> int \<Rightarrow> int" where
  "int_root k 0 n r = r"
| "int_root k (Suc b) n r = (let r' = r + 2 ^ b in int_root k b n (if r' ^ k \<le> n then r' else r))"

definition root_fraction :: "nat \<Rightarrow> nat \<Rightarrow> uint32" where
  "root_fraction k p = word_of_int (int_root k 36 (int p * 2 ^ (32 * k)) 0)"

definition sha_k :: "uint32 list" where
  "sha_k = map (root_fraction 3) sha_primes"

definition sha_init :: hash_state where
  "sha_init = map (root_fraction 2) (take 8 sha_primes)"

lemma length_sha_init: "length sha_init = 8"
proof -
  let ?P = "\<lambda>n :: nat. list_all (\<lambda>d. n mod d \<noteq> 0) [2..<n]"
  have e: "(312 :: nat) = 20 + 292" by simp
  have "[2..<312] = [2..<20] @ [20..<312 :: nat]"
    unfolding e by (rule upt_add_eq_append) simp
  then have "\<exists>k. length sha_primes = length (filter ?P [2..<20]) + k"
    by (simp only: sha_primes_def filter_append length_append) blast
  moreover have "length (filter ?P [2..<20]) = 8" by code_simp
  ultimately show ?thesis by (auto simp only: sha_init_def length_map length_take)
qed

definition sha_ch :: "uint32 \<Rightarrow> uint32 \<Rightarrow> uint32 \<Rightarrow> uint32" where
  "sha_ch x y z = (x AND y) XOR (NOT x AND z)"

definition sha_maj :: "uint32 \<Rightarrow> uint32 \<Rightarrow> uint32 \<Rightarrow> uint32" where
  "sha_maj x y z = (x AND y) XOR (x AND z) XOR (y AND z)"

definition sha_rotr :: "nat \<Rightarrow> uint32 \<Rightarrow> uint32" where
  "sha_rotr n x = drop_bit n x OR push_bit (32 - n) x"

definition sha_bsig0 :: "uint32 \<Rightarrow> uint32" where
  "sha_bsig0 x = sha_rotr 2 x XOR sha_rotr 13 x XOR sha_rotr 22 x"

definition sha_bsig1 :: "uint32 \<Rightarrow> uint32" where
  "sha_bsig1 x = sha_rotr 6 x XOR sha_rotr 11 x XOR sha_rotr 25 x"

definition sha_ssig0 :: "uint32 \<Rightarrow> uint32" where
  "sha_ssig0 x = sha_rotr 7 x XOR sha_rotr 18 x XOR drop_bit 3 x"

definition sha_ssig1 :: "uint32 \<Rightarrow> uint32" where
  "sha_ssig1 x = sha_rotr 17 x XOR sha_rotr 19 x XOR drop_bit 10 x"

text \<open>Big-endian 32-bit words of a block, and the bytes of a word.\<close>

definition byte_word :: "char \<Rightarrow> uint32" where
  "byte_word c = word_of_int (of_char c)"

fun block_words :: "bytes \<Rightarrow> uint32 list" where
  "block_words (a # b # c # d # rest) =
     (push_bit 24 (byte_word a) OR push_bit 16 (byte_word b) OR push_bit 8 (byte_word c) OR byte_word d)
       # block_words rest"
| "block_words _ = []"

definition word_bytes :: "uint32 \<Rightarrow> bytes" where
  "word_bytes w =
     [char_of (uint (drop_bit 24 w)), char_of (uint (drop_bit 16 w)),
      char_of (uint (drop_bit 8 w)), char_of (uint w)]"

text \<open>
  The message schedule keeps the last sixteen words, most recent first; \<open>n\<close> counts the words
  still to produce.
\<close>

fun schedule :: "nat \<Rightarrow> uint32 list \<Rightarrow> uint32 list" where
  "schedule 0 ws = []"
| "schedule (Suc n) ws =
     (let w = sha_ssig1 (ws ! 1) + ws ! 6 + sha_ssig0 (ws ! 14) + ws ! 15
      in w # schedule n (w # take 15 ws))"

fun sha_round :: "hash_state \<Rightarrow> uint32 \<Rightarrow> uint32 \<Rightarrow> hash_state" where
  "sha_round [a, b, c, d, e, f, g, h] k w =
     (let t1 = h + sha_bsig1 e + sha_ch e f g + k + w;
          t2 = sha_bsig0 a + sha_maj a b c
      in [t1 + t2, a, b, c, d + t1, e, f, g])"
| "sha_round st k w = st"

fun sha_rounds :: "hash_state \<Rightarrow> uint32 list \<Rightarrow> uint32 list \<Rightarrow> hash_state" where
  "sha_rounds st (k # ks) (w # ws) = sha_rounds (sha_round st k w) ks ws"
| "sha_rounds st _ _ = st"

definition sha_block :: "hash_state \<Rightarrow> bytes \<Rightarrow> hash_state" where
  "sha_block st blk =
     (let ws = block_words blk in
      map2 (+) st (sha_rounds st sha_k (ws @ schedule 48 (rev ws))))"

text \<open>Padding: a one bit, zeros, and the bit length in eight bytes.\<close>

definition len_bytes :: "int \<Rightarrow> bytes" where
  "len_bytes n = map (\<lambda>i. char_of (n div 256 ^ i)) [7, 6, 5, 4, 3, 2, 1, 0 :: nat]"

definition sha_pad :: "bytes \<Rightarrow> bytes" where
  "sha_pad m = m @ char_of (128 :: int) #
     replicate ((119 - length m mod 64) mod 64) (char_of (0 :: int)) @ len_bytes (8 * int (length m))"

function sha_blocks :: "hash_state \<Rightarrow> bytes \<Rightarrow> hash_state" where
  "sha_blocks st m =
     (if length m < 64 then st else sha_blocks (sha_block st (take 64 m)) (drop 64 m))"
  by pat_completeness auto
termination
  by (relation "measure (\<lambda>(st, m). length m)") auto

declare sha_blocks.simps [simp del]

definition sha256 :: "bytes \<Rightarrow> bytes" where
  "sha256 m = concat (map word_bytes (sha_blocks sha_init (sha_pad m)))"

section \<open>Output length\<close>

lemma length_sha_round: "length (sha_round st k w) = length st"
  by (induction st k w rule: sha_round.induct) (simp_all add: Let_def)

lemma length_sha_rounds: "length (sha_rounds st ks ws) = length st"
  by (induction st ks ws rule: sha_rounds.induct) (simp_all add: length_sha_round)

lemma length_sha_block: "length (sha_block st blk) = length st"
  by (simp add: sha_block_def Let_def length_sha_rounds)

lemma length_sha_blocks: "length (sha_blocks st m) = length st"
proof (induction st m rule: sha_blocks.induct)
  case (1 st m)
  then show ?case
    by (cases "length m < 64") (simp_all add: sha_blocks.simps [of st m] length_sha_block)
qed

lemma length_sha256: "length (sha256 m) = 32"
proof -
  have "length (concat (map word_bytes ws)) = 4 * length ws" for ws
    by (induction ws) (simp_all add: word_bytes_def)
  then show ?thesis by (simp add: sha256_def length_sha_blocks length_sha_init)
qed

section \<open>Digests\<close>

text \<open>\<open>"sha256:" + hex.EncodeToString(sum[:])\<close>\<close>

definition digest_text :: "bytes \<Rightarrow> string" where
  "digest_text h = ''sha256:'' @ hex_encode h"

lemma digest_text_inj: "digest_text a = digest_text b \<longleftrightarrow> a = b"
  by (auto simp: digest_text_def dest: hex_encode_inj)

locale digest_fn =
  fixes hash :: "bytes \<Rightarrow> bytes"
  assumes length_hash: "length (hash m) = 32"
begin

lemma digest_matches: "re_matches digestPattern (digest_text (hash m))"
  by (simp add: digestPattern_iff digest_text_def length_hash hexlow_hex_encode)

lemma digest_nonempty: "digest_text (hash m) \<noteq> []"
  by (simp add: digest_text_def)

lemma digest_eq_collision:
  "digest_text (hash m) = digest_text (hash n) \<Longrightarrow> m = n \<or> (m \<noteq> n \<and> hash m = hash n)"
  by (auto simp: digest_text_inj)

end

interpretation sha: digest_fn sha256
  by unfold_locales (rule length_sha256)

end
