(* ===== verification/Go_Utf8.thy ===== *)
theory Go_Utf8
  imports Prelude
begin

text \<open>
  \<open>unicode/utf8\<close> on byte strings: the length of the well-formed sequence at the head,
  \<open>Valid\<close>, and \<open>EncodeRune\<close>.
\<close>

definition byte_val :: "char \<Rightarrow> int" where
  "byte_val c = int (of_char c)"

definition byte_in :: "int \<Rightarrow> int \<Rightarrow> char \<Rightarrow> bool" where
  "byte_in lo hi c \<longleftrightarrow> lo \<le> byte_val c \<and> byte_val c \<le> hi"

abbreviation is_cont :: "char \<Rightarrow> bool" where
  "is_cont \<equiv> byte_in 0x80 0xBF"

text \<open>
  The number of bytes of the valid sequence that starts the string, \<open>0\<close> if there is none:
  no overlong forms, no surrogates, nothing above U+10FFFF.
\<close>

fun utf8_len :: "bytes \<Rightarrow> nat" where
  "utf8_len [] = 0"
| "utf8_len (a # s) =
     (if byte_in 0 0x7F a then 1
      else if byte_in 0xC2 0xDF a then
        (case s of b # _ \<Rightarrow> if is_cont b then 2 else 0 | _ \<Rightarrow> 0)
      else if byte_in 0xE0 0xEF a then
        (case s of b # c # _ \<Rightarrow>
           if byte_in (if byte_in 0xE0 0xE0 a then 0xA0 else 0x80) (if byte_in 0xED 0xED a then 0x9F else 0xBF) b \<and>
              is_cont c then 3 else 0 | _ \<Rightarrow> 0)
      else if byte_in 0xF0 0xF4 a then
        (case s of b # c # d # _ \<Rightarrow>
           if byte_in (if byte_in 0xF0 0xF0 a then 0x90 else 0x80) (if byte_in 0xF4 0xF4 a then 0x8F else 0xBF) b \<and>
              is_cont c \<and> is_cont d then 4 else 0 | _ \<Rightarrow> 0)
      else 0)"

declare utf8_len.simps(2) [simp del]

lemma utf8_len_ascii: "byte_in 0 0x7F a \<Longrightarrow> utf8_len (a # s) = 1"
  by (simp add: utf8_len.simps(2))

lemma utf8_len_multi:
  assumes "\<not> byte_in 0 0x7F a" and "utf8_len (a # s) \<noteq> 0"
  obtains (two) b r where "s = b # r" "byte_in 0xC2 0xDF a" "is_cont b" "\<And>r. utf8_len (a # b # r) = 2"
    | (three) b c r where "s = b # c # r" "\<And>r. utf8_len (a # b # c # r) = 3"
    | (four) b c d r where "s = b # c # d # r" "\<And>r. utf8_len (a # b # c # d # r) = 4"
proof -
  consider "byte_in 0xC2 0xDF a" | "\<not> byte_in 0xC2 0xDF a" "byte_in 0xE0 0xEF a"
    | "\<not> byte_in 0xC2 0xDF a" "\<not> byte_in 0xE0 0xEF a" "byte_in 0xF0 0xF4 a"
    using assms by (auto simp: utf8_len.simps(2) split: if_splits)
  then show thesis
  proof cases
    case 1
    with assms obtain b r where "s = b # r" "is_cont b"
      by (auto simp: utf8_len.simps(2) split: list.splits if_splits)
    with 1 assms(1) two show thesis by (simp add: utf8_len.simps(2))
  next
    case 2
    let ?ok = "\<lambda>b c. byte_in (if byte_in 0xE0 0xE0 a then 0xA0 else 0x80) (if byte_in 0xED 0xED a then 0x9F else 0xBF) b \<and> is_cont c"
    from 2 assms obtain b c r where "s = b # c # r" "?ok b c"
      by (cases s; cases "tl s") (simp_all add: utf8_len.simps(2) split: if_split_asm)
    with 2 assms(1) three show thesis by (simp add: utf8_len.simps(2))
  next
    case 3
    let ?ok = "\<lambda>b c d. byte_in (if byte_in 0xF0 0xF0 a then 0x90 else 0x80) (if byte_in 0xF4 0xF4 a then 0x8F else 0xBF) b \<and> is_cont c \<and> is_cont d"
    from 3 assms obtain b c d r where "s = b # c # d # r" "?ok b c d"
      by (cases s; cases "tl s"; cases "tl (tl s)") (simp_all add: utf8_len.simps(2) split: if_split_asm)
    with 3 assms(1) four show thesis by (simp add: utf8_len.simps(2))
  qed
qed

lemma utf8_len_append: "utf8_len s \<noteq> 0 \<Longrightarrow> utf8_len (s @ t) = utf8_len s"
proof (cases s)
  case (Cons a r)
  assume n: "utf8_len s \<noteq> 0"
  show ?thesis
  proof (cases "byte_in 0 0x7F a")
    case True
    then show ?thesis by (simp add: Cons utf8_len_ascii)
  next
    case False
    from False n [unfolded Cons] show ?thesis by (cases rule: utf8_len_multi) (simp_all add: Cons)
  qed
qed simp

lemma utf8_len_le: "utf8_len s \<le> length s"
proof (cases s)
  case (Cons a r)
  show ?thesis
  proof (cases "byte_in 0 0x7F a \<or> utf8_len s = 0")
    case True
    then show ?thesis by (auto simp: Cons utf8_len_ascii)
  next
    case False
    then have "\<not> byte_in 0 0x7F a" "utf8_len (a # r) \<noteq> 0" by (auto simp: Cons)
    then show ?thesis by (cases rule: utf8_len_multi) (simp_all add: Cons)
  qed
qed simp

function utf8_valid :: "bytes \<Rightarrow> bool" where
  "utf8_valid s =
     (if s = [] then True else if utf8_len s = 0 then False else utf8_valid (drop (utf8_len s) s))"
  by auto

termination
  by (relation "measure length") auto

declare utf8_valid.simps [simp del]

lemma utf8_valid_Nil [simp]: "utf8_valid []"
  by (simp add: utf8_valid.simps)

lemma utf8_valid_ascii_Cons: "byte_in 0 0x7F a \<Longrightarrow> utf8_valid (a # s) \<longleftrightarrow> utf8_valid s"
  by (subst utf8_valid.simps) (simp add: utf8_len_ascii)

lemma is_ascii_byte: "is_ascii c \<longleftrightarrow> byte_in 0 0x7F c"
  unfolding is_ascii_def byte_in_def byte_val_def by linarith

lemma utf8_valid_ascii: "list_all is_ascii s \<Longrightarrow> utf8_valid s"
  by (induction s) (simp_all add: is_ascii_byte utf8_valid_ascii_Cons)

text \<open>\<open>utf8.EncodeRune\<close>\<close>

definition byte_of :: "int \<Rightarrow> char" where
  "byte_of i = char_of (nat i)"

definition encode_rune :: "int \<Rightarrow> bytes" where
  "encode_rune r =
     (if r < 0x80 then [byte_of r]
      else if r < 0x800 then [byte_of (0xC0 + r div 64), byte_of (0x80 + r mod 64)]
      else if r < 0x10000 then
        [byte_of (0xE0 + r div 4096), byte_of (0x80 + r div 64 mod 64), byte_of (0x80 + r mod 64)]
      else [byte_of (0xF0 + r div 262144), byte_of (0x80 + r div 4096 mod 64),
            byte_of (0x80 + r div 64 mod 64), byte_of (0x80 + r mod 64)])"

definition replacement_char :: bytes where
  "replacement_char = [CHR 0xEF, CHR 0xBF, CHR 0xBD]"

lemma byte_of_val [simp]: "byte_of (byte_val c) = c"
  by (simp add: byte_of_def byte_val_def)

end
