(* ===== verification/Policy_Candidate.thy ===== *)
theory Policy_Candidate
  imports Go_Netip Go_Sha256 Go_Utf8
begin

text \<open>
  The closed \<open>nft-blacklist-v1\<close> grammar of \<open>internal/policy\<close>: \<open>parser.go\<close> (\<open>Parse\<close>,
  \<open>ParseTTL\<close>, \<open>CanonicalTTL\<close>), \<open>artifact.go\<close> (\<open>CanonicalBytes\<close>, \<open>BuildArtifact\<close>) and the
  types of \<open>types.go\<close>. An accepted command is one fixed add statement on a global-unicast
  IPv4 target with a timeout between one minute and one day; parsing inverts canonical
  serialisation; \<open>BuildArtifact\<close> binds policy, candidate and command.
\<close>

section \<open>Types and constants (types.go)\<close>

definition PolicySchemaVersion :: string where "PolicySchemaVersion = ''response-policy-v1''"
definition CandidateSchemaVersion :: string where "CandidateSchemaVersion = ''nft-blacklist-v1''"
definition ActionBlockIP :: string where "ActionBlockIP = ''block_ip''"
definition MinTTLSeconds :: uint32 where "MinTTLSeconds = 60"
definition MaxTTLSeconds :: uint32 where "MaxTTLSeconds = 86400"
definition MaxEvidenceIDs :: nat where "MaxEvidenceIDs = 50"
definition MaxGeneratedBytes :: nat where "MaxGeneratedBytes = 256"

datatype policy_error =
    ErrorSyntax | ErrorTarget | ErrorTTL | ErrorSchema | ErrorAction | ErrorEvidence
  | ErrorTargetMismatch | ErrorTTLMismatch | ErrorCandidateMismatch

record policy =
  pol_SchemaVersion :: string
  pol_Action :: string
  pol_TargetIPv4 :: string
  pol_TTLSeconds :: uint32
  pol_EvidenceIDs :: "string list"

record candidate =
  cand_SchemaVersion :: string
  cand_TargetIPv4 :: string
  cand_TimeoutToken :: string
  cand_EvidenceIDs :: "string list"
  cand_GeneratedBytes :: bytes

text \<open>The zero \<open>netip.Addr\<close> is \<open>None\<close>.\<close>

record ast =
  ast_target :: "addr4 option"
  ast_ttlSeconds :: uint32
  ast_inputTTLToken :: string

definition ast_TargetIPv4 :: "ast \<Rightarrow> string" where
  "ast_TargetIPv4 a = (case ast_target a of None \<Rightarrow> ''invalid IP'' | Some x \<Rightarrow> addr_string x)"

record artifact =
  art_ast :: ast
  art_generatedBytes :: bytes
  art_generatedDigest :: string
  art_canonicalBytes :: bytes
  art_canonicalDigest :: string
  art_canonicalToken :: string
  art_evidenceIDs :: "string list"

definition Digest :: "bytes \<Rightarrow> string" where
  "Digest data = digest_text (sha256 data)"

section \<open>Parsing (parser.go)\<close>

definition is_nonzero_digit :: "char \<Rightarrow> bool" where
  "is_nonzero_digit c \<longleftrightarrow> in_range CHR ''1'' CHR ''9'' c"

definition is_ttl_unit :: "char \<Rightarrow> bool" where
  "is_ttl_unit c \<longleftrightarrow> c = CHR ''s'' \<or> c = CHR ''m'' \<or> c = CHR ''h''"

definition add_prefix :: string where
  "add_prefix = ''add element inet sentinelflow blacklist_ipv4 { ''"

definition dotted_re :: "re list" where
  "dotted_re = [RRep is_digit 1 3, RLit ''.'', RRep is_digit 1 3, RLit ''.'',
                RRep is_digit 1 3, RLit ''.'', RRep is_digit 1 3]"

definition ttl_number_re :: "re list" where
  "ttl_number_re = [RRep is_nonzero_digit 1 1, RRep is_digit 0 4]"

definition commandPattern :: "re list" where
  "commandPattern =
     [RLit add_prefix, RGroup dotted_re, RLit '' timeout '',
      RGroup (ttl_number_re @ [RRep is_ttl_unit 1 1]), RLit '' }'', RRep (\<lambda>c. c = CHR 0x0A) 0 1]"

definition ttlPattern :: "re list" where
  "ttlPattern = [RGroup ttl_number_re, RGroup [RRep is_ttl_unit 1 1]]"

definition unit_multiplier :: "string \<Rightarrow> uint64" where
  "unit_multiplier u = (if u = ''m'' then 60 else if u = ''h'' then 3600 else 1)"

definition ParseTTL :: "string \<Rightarrow> policy_error + uint32" where
  "ParseTTL token =
     (case re_full ttlPattern token of
        Some [number, u] \<Rightarrow>
          (case parse_uint 64 number of
             None \<Rightarrow> Inl ErrorTTL
           | Some v \<Rightarrow>
               let value = (of_nat v :: uint64); multiplier = unit_multiplier u
               in if (- 1) div multiplier < value then Inl ErrorTTL
                  else let seconds = value * multiplier in
                    if seconds < ucast MinTTLSeconds \<or> ucast MaxTTLSeconds < seconds then Inl ErrorTTL
                    else Inr (ucast seconds))
      | _ \<Rightarrow> Inl ErrorTTL)"

definition CanonicalTTL :: "uint32 \<Rightarrow> policy_error + string" where
  "CanonicalTTL seconds =
     (if seconds < MinTTLSeconds \<or> MaxTTLSeconds < seconds then Inl ErrorTTL
      else if seconds mod 3600 = 0 then Inr (nat_str (unat (seconds div 3600)) @ ''h'')
      else if seconds mod 60 = 0 then Inr (nat_str (unat (seconds div 60)) @ ''m'')
      else Inr (nat_str (unat seconds) @ ''s''))"

definition utf8_bom :: bytes where
  "utf8_bom = [CHR 0xEF, CHR 0xBB, CHR 0xBF]"

definition Parse :: "bytes \<Rightarrow> policy_error + ast" where
  "Parse generated =
     (if generated = [] \<or> MaxGeneratedBytes < length generated \<or> \<not> utf8_valid generated \<or>
         take 3 generated = utf8_bom then Inl ErrorSyntax
      else if list_ex (\<lambda>c. 0x7F < byte_val c \<or> byte_val c = 0) generated then Inl ErrorSyntax
      else case re_full commandPattern generated of
        Some [addressText, token] \<Rightarrow>
          (case parse_addr4 addressText of
             None \<Rightarrow> Inl ErrorTarget
           | Some address \<Rightarrow>
               if \<not> is_global_unicast4 address \<or> addr_string address \<noteq> addressText
               then Inl ErrorTarget
               else bind_res (ParseTTL token) (\<lambda>seconds.
                 Inr \<lparr>ast_target = Some address, ast_ttlSeconds = seconds, ast_inputTTLToken = token\<rparr>))
      | _ \<Rightarrow> Inl ErrorSyntax)"

section \<open>Canonical serialisation and the artifact (artifact.go)\<close>

definition add_command :: "string \<Rightarrow> string \<Rightarrow> bytes" where
  "add_command target token = add_prefix @ target @ '' timeout '' @ token @ '' }'' @ [CHR 0x0A]"

definition CanonicalBytes :: "ast \<Rightarrow> policy_error + bytes" where
  "CanonicalBytes a =
     (case ast_target a of
        None \<Rightarrow> Inl ErrorTarget
      | Some target \<Rightarrow>
          if \<not> is_global_unicast4 target \<or> addr_string target = [] then Inl ErrorTarget
          else bind_res (CanonicalTTL (ast_ttlSeconds a)) (\<lambda>token.
            Inr (add_command (addr_string target) token)))"

text \<open>The loop of \<open>validEvidenceIDs\<close>; \<open>prev\<close> is the previous identifier once there is one.\<close>

fun evidence_loop :: "string option \<Rightarrow> string list \<Rightarrow> bool" where
  "evidence_loop prev [] \<longleftrightarrow> True"
| "evidence_loop prev (x # xs) \<longleftrightarrow>
     re_matches uuidPattern x \<and> (case prev of None \<Rightarrow> True | Some p \<Rightarrow> p < x) \<and>
     evidence_loop (Some x) xs"

definition validEvidenceIDs :: "string list \<Rightarrow> bool" where
  "validEvidenceIDs ids \<longleftrightarrow> ids \<noteq> [] \<and> length ids \<le> MaxEvidenceIDs \<and> evidence_loop None ids"

definition BuildArtifact :: "policy \<Rightarrow> candidate \<Rightarrow> policy_error + artifact" where
  "BuildArtifact p c =
     (if pol_SchemaVersion p \<noteq> PolicySchemaVersion \<or> cand_SchemaVersion c \<noteq> CandidateSchemaVersion
      then Inl ErrorSchema
      else if pol_Action p \<noteq> ActionBlockIP then Inl ErrorAction
      else if \<not> validEvidenceIDs (pol_EvidenceIDs p) \<or> \<not> validEvidenceIDs (cand_EvidenceIDs c) \<or>
              pol_EvidenceIDs p \<noteq> cand_EvidenceIDs c then Inl ErrorEvidence
      else bind_res (Parse (cand_GeneratedBytes c)) (\<lambda>a.
        if cand_TargetIPv4 c \<noteq> ast_TargetIPv4 a \<or> pol_TargetIPv4 p \<noteq> ast_TargetIPv4 a
        then Inl ErrorTargetMismatch
        else if cand_TimeoutToken c \<noteq> ast_inputTTLToken a then Inl ErrorCandidateMismatch
        else if pol_TTLSeconds p \<noteq> ast_ttlSeconds a then Inl ErrorTTLMismatch
        else bind_res (CanonicalTTL (ast_ttlSeconds a)) (\<lambda>canonicalToken.
          bind_res (CanonicalBytes a) (\<lambda>canonical.
            Inr \<lparr>art_ast = a, art_generatedBytes = cand_GeneratedBytes c,
                 art_generatedDigest = Digest (cand_GeneratedBytes c),
                 art_canonicalBytes = canonical, art_canonicalDigest = Digest canonical,
                 art_canonicalToken = canonicalToken, art_evidenceIDs = pol_EvidenceIDs p\<rparr>))))"

section \<open>Tokens and commands, declaratively\<close>

definition ttl_number :: "string \<Rightarrow> bool" where
  "ttl_number s \<longleftrightarrow> s \<noteq> [] \<and> length s \<le> 5 \<and> list_all is_digit s \<and> hd s \<noteq> CHR ''0''"

definition ttl_token :: "string \<Rightarrow> bool" where
  "ttl_token t \<longleftrightarrow> (\<exists>s u. t = s @ [u] \<and> ttl_number s \<and> is_ttl_unit u)"

definition ttl_multiplier :: "char \<Rightarrow> nat" where
  "ttl_multiplier u = (if u = CHR ''m'' then 60 else if u = CHR ''h'' then 3600 else 1)"

lemma is_nonzero_digit_iff: "is_nonzero_digit c \<longleftrightarrow> is_digit c \<and> c \<noteq> CHR ''0''"
proof -
  have "(of_char c :: nat) = 48 \<longleftrightarrow> c = CHR ''0''"
    by (metis of_char_eq_iff digit_char_0 of_char_digit_char add_0_right zero_less_numeral)
  then show ?thesis by (auto simp: is_nonzero_digit_def is_digit_def in_range_def)
qed

lemma ttl_number_shape: "seq_shape ttl_number_re s k \<longleftrightarrow> ttl_number s \<and> k = []"
proof
  assume "seq_shape ttl_number_re s k"
  then obtain c1 c2 where "s = c1 @ c2" "length c1 = 1" "list_all is_nonzero_digit c1"
      "length c2 \<le> 4" "list_all is_digit c2" "k = []" by (auto simp: ttl_number_re_def)
  then show "ttl_number s \<and> k = []"
    by (auto simp: ttl_number_def is_nonzero_digit_iff length_Suc_conv)
next
  assume *: "ttl_number s \<and> k = []"
  then obtain d ds where s: "s = [d] @ ds @ []" by (cases s) (auto simp: ttl_number_def)
  then show "seq_shape ttl_number_re s k"
    unfolding s ttl_number_re_def
    by (intro seq_shape_RRepI) (use * s in \<open>auto simp: ttl_number_def is_nonzero_digit_iff\<close>)
qed

lemma ttl_unit_shape: "seq_shape [RRep is_ttl_unit 1 1] s k \<longleftrightarrow> (\<exists>u. s = [u] \<and> is_ttl_unit u) \<and> k = []"
  by (cases s; cases "tl s") auto

lemma ttlPattern_shape:
  "seq_shape ttlPattern t k \<longleftrightarrow> (\<exists>s u. t = s @ [u] \<and> ttl_number s \<and> is_ttl_unit u \<and> k = [s, [u]])"
  unfolding ttlPattern_def seq_shape_RGroup ttl_number_shape ttl_unit_shape by auto

lemma re_full_ttlPattern:
  "re_full ttlPattern t = Some k \<longleftrightarrow> (\<exists>s u. t = s @ [u] \<and> ttl_number s \<and> is_ttl_unit u \<and> k = [s, [u]])"
proof
  assume "re_full ttlPattern t = Some k"
  then show "\<exists>s u. t = s @ [u] \<and> ttl_number s \<and> is_ttl_unit u \<and> k = [s, [u]]"
    by (simp add: re_full_SomeD flip: ttlPattern_shape)
next
  assume r: "\<exists>s u. t = s @ [u] \<and> ttl_number s \<and> is_ttl_unit u \<and> k = [s, [u]]"
  show "re_full ttlPattern t = Some k"
    by (rule re_full_unique) (use r in \<open>auto simp: ttlPattern_shape\<close>)
qed

lemma ttl_token_shape:
  "seq_shape (ttl_number_re @ [RRep is_ttl_unit 1 1]) t k \<longleftrightarrow> ttl_token t \<and> k = []"
  unfolding seq_shape_append ttl_number_shape ttl_unit_shape ttl_token_def by auto

lemma seq_shape_no_groups: "seq_shape dotted_re a k \<Longrightarrow> k = []"
  unfolding dotted_re_def by auto

lemma commandPattern_shape:
  "seq_shape commandPattern g k \<longleftrightarrow>
     (\<exists>a t nl. g = add_prefix @ a @ '' timeout '' @ t @ '' }'' @ nl \<and> re_matches dotted_re a \<and>
        ttl_token t \<and> (nl = [] \<or> nl = [CHR 0x0A]) \<and> k = [a, t])"
proof -
  have nl: "seq_shape [RRep (\<lambda>c. c = CHR 0x0A) 0 1] nl k \<longleftrightarrow> (nl = [] \<or> nl = [CHR 0x0A]) \<and> k = []" for nl k
    by (cases nl; cases "tl nl") auto
  show ?thesis
    unfolding commandPattern_def seq_shape_RLit seq_shape_RGroup ttl_token_shape nl re_matches_iff
    using seq_shape_no_groups by fastforce
qed

lemma dotted_chars: "re_matches dotted_re a \<Longrightarrow> x \<in> set a \<Longrightarrow> is_digit x \<or> x = CHR ''.''"
  by (drule (1) re_matches_chars) (auto simp: dotted_re_def)

lemma ttl_token_chars: "ttl_token t \<Longrightarrow> x \<in> set t \<Longrightarrow> is_digit x \<or> is_ttl_unit x"
  by (auto simp: ttl_token_def ttl_number_def list_all_iff)

lemma space_class [simp]:
  "\<not> is_digit CHR '' ''" "\<not> is_ttl_unit CHR '' ''" "\<not> is_digit CHR 0x0A" "\<not> is_ttl_unit CHR 0x0A"
  by (simp_all add: class_defs is_ttl_unit_def)

lemma command_text_inj:
  assumes "add_prefix @ a @ '' timeout '' @ t @ '' }'' @ nl = add_prefix @ a' @ '' timeout '' @ t' @ '' }'' @ nl'"
    and "CHR '' '' \<notin> set a" "CHR '' '' \<notin> set a'" "CHR '' '' \<notin> set t" "CHR '' '' \<notin> set t'"
  shows "a = a' \<and> t = t'"
proof -
  from assms(1) have 1: "a @ CHR '' '' # (''timeout '' @ t @ '' }'' @ nl) =
      a' @ CHR '' '' # (''timeout '' @ t' @ '' }'' @ nl')" by simp
  note * = append_delim_eq [OF assms(2,3) 1]
  then have "t @ CHR '' '' # (''}'' @ nl) = t' @ CHR '' '' # (''}'' @ nl')" by simp
  from append_delim_eq [OF assms(4,5) this] * show ?thesis by simp
qed

lemma re_full_commandPattern:
  "re_full commandPattern g = Some k \<longleftrightarrow>
     (\<exists>a t nl. g = add_prefix @ a @ '' timeout '' @ t @ '' }'' @ nl \<and> re_matches dotted_re a \<and>
        ttl_token t \<and> (nl = [] \<or> nl = [CHR 0x0A]) \<and> k = [a, t])" (is "_ \<longleftrightarrow> ?R k")
proof
  assume "re_full commandPattern g = Some k"
  then show "?R k" by (subst commandPattern_shape [symmetric]) (rule re_full_SomeD)
next
  assume r: "?R k"
  have ns: "CHR '' '' \<notin> set a" "CHR '' '' \<notin> set t" if "re_matches dotted_re a" "ttl_token t" for a t
    using that dotted_chars [of a "CHR '' ''"] ttl_token_chars [of t "CHR '' ''"] by auto
  show "re_full commandPattern g = Some k"
  proof (rule re_full_unique)
    show "seq_shape commandPattern g k" using r by (simp only: commandPattern_shape)
  next
    fix k' assume "seq_shape commandPattern g k'"
    then have "?R k'" by (simp only: commandPattern_shape)
    with r command_text_inj ns show "k' = k" by metis
  qed
qed

section \<open>Time-to-live tokens\<close>

lemma ucast_of_nat_unat: "ucast x = of_nat (unat x)"
  by transfer simp

lemma ttl_value:
  assumes n: "ttl_number s" and u: "is_ttl_unit u"
  shows "ParseTTL (s @ [u]) =
    (let n = dec_val s * ttl_multiplier u in
     if 60 \<le> n \<and> n \<le> 86400 then Inr (of_nat n) else Inl ErrorTTL)"
proof -
  have full: "re_full ttlPattern (s @ [u]) = Some [s, [u]]"
    using n u by (simp add: re_full_ttlPattern)
  have b: "dec_val s < 10 ^ 5"
  proof -
    have "dec_val s < 10 ^ length s" using n dec_val_bound by (auto simp: ttl_number_def)
    also have "\<dots> \<le> 10 ^ 5" using n by (intro power_increasing) (auto simp: ttl_number_def)
    finally show ?thesis .
  qed
  have p: "parse_uint 64 s = Some (dec_val s)"
    using n b by (auto simp: parse_uint_def ttl_number_def)
  define m where "m = unit_multiplier [u]"
  have m: "unat m = ttl_multiplier u" "m = 1 \<or> m = 60 \<or> m = 3600"
    by (auto simp: m_def ttl_multiplier_def unit_multiplier_def)
  have v: "unat (of_nat (dec_val s) :: uint64) = dec_val s"
    using b by (simp add: unat_of_nat)
  have mb: "ttl_multiplier u \<le> 3600" by (simp add: ttl_multiplier_def)
  have sec: "unat (of_nat (dec_val s) * m) = dec_val s * ttl_multiplier u"
  proof -
    have "dec_val s * ttl_multiplier u \<le> 10 ^ 5 * 3600" using b mb by (intro mult_mono) auto
    then show ?thesis using m v by (subst unat_mult_lem [THEN iffD1]) auto
  qed
  have nover: "\<not> (- 1) div m < (of_nat (dec_val s) :: uint64)"
  proof -
    have "unat (- 1 :: uint64) = 2 ^ 64 - 1"
      by (simp add: unsigned_minus_1_eq_mask mask_eq_exp_minus_1)
    then have "(10 ^ 5 :: nat) \<le> unat ((- 1 :: uint64) div m)"
      using m(2) by (auto simp: unat_div_distrib)
    then show ?thesis using b v by (simp add: word_less_nat_alt)
  qed
  show ?thesis
    using nover
    by (simp add: ParseTTL_def full p Let_def m_def [symmetric] word_less_nat_alt MinTTLSeconds_def
        MaxTTLSeconds_def ucast_of_nat_unat sec del: of_nat_mult)
qed

lemma ParseTTL_iff:
  "ParseTTL t = Inr n \<longleftrightarrow>
     (\<exists>s u. t = s @ [u] \<and> ttl_number s \<and> is_ttl_unit u \<and> 60 \<le> dec_val s * ttl_multiplier u \<and>
        dec_val s * ttl_multiplier u \<le> 86400 \<and> n = of_nat (dec_val s * ttl_multiplier u))"
proof
  assume p: "ParseTTL t = Inr n"
  then obtain k where "re_full ttlPattern t = Some k"
    by (cases "re_full ttlPattern t") (simp_all add: ParseTTL_def)
  then obtain s u where *: "t = s @ [u]" "ttl_number s" "is_ttl_unit u"
    by (auto simp: re_full_ttlPattern)
  with p ttl_value [of s u] show "\<exists>s u. t = s @ [u] \<and> ttl_number s \<and> is_ttl_unit u \<and>
      60 \<le> dec_val s * ttl_multiplier u \<and> dec_val s * ttl_multiplier u \<le> 86400 \<and>
      n = of_nat (dec_val s * ttl_multiplier u)"
    by (auto simp: Let_def split: if_splits)
qed (auto simp: ttl_value)

lemma ParseTTL_token: "ParseTTL t = Inr n \<Longrightarrow> ttl_token t"
  by (auto simp: ParseTTL_iff ttl_token_def)

lemma ParseTTL_range: "ParseTTL t = Inr n \<Longrightarrow> 60 \<le> unat n \<and> unat n \<le> 86400"
proof -
  assume "ParseTTL t = Inr n"
  then obtain m :: nat where "60 \<le> m" "m \<le> 86400" "n = of_nat m" unfolding ParseTTL_iff by blast
  then show ?thesis by (simp add: unat_of_nat)
qed

lemma ParseTTL_error: "ParseTTL t = Inl e \<Longrightarrow> e = ErrorTTL"
  by (auto simp: ParseTTL_def Let_def split: option.splits list.splits if_splits)

definition ttl_in_range :: "uint32 \<Rightarrow> bool" where
  "ttl_in_range n \<longleftrightarrow> 60 \<le> unat n \<and> unat n \<le> 86400"

lemma ttl_in_range_word: "ttl_in_range n \<longleftrightarrow> MinTTLSeconds \<le> n \<and> n \<le> MaxTTLSeconds"
  by (simp add: ttl_in_range_def MinTTLSeconds_def MaxTTLSeconds_def word_le_nat_alt)

lemma ParseTTL_nat_str:
  assumes "0 < m" "m < 10 ^ 5" "is_ttl_unit u" "60 \<le> m * ttl_multiplier u" "m * ttl_multiplier u \<le> 86400"
  shows "ParseTTL (nat_str m @ [u]) = Inr (of_nat (m * ttl_multiplier u))"
proof -
  have "ttl_number (nat_str m)"
    using assms nat_str_length_le [of 5 m] nat_str_hd [of m]
    by (simp add: ttl_number_def nat_str_digits)
  with assms show ?thesis by (simp add: ttl_value)
qed

lemma CanonicalTTL_ParseTTL:
  assumes "ttl_in_range n"
  shows "\<exists>t. CanonicalTTL n = Inr t \<and> ParseTTL t = Inr n"
proof -
  have r: "\<not> (n < MinTTLSeconds \<or> MaxTTLSeconds < n)" using assms by (simp add: ttl_in_range_word not_less)
  have b: "60 \<le> unat n" "unat n \<le> 86400" using assms by (simp_all add: ttl_in_range_def)
  have zero: "w = 0 \<longleftrightarrow> unat w = 0" for w :: uint32 by (simp add: unat_eq_0)
  consider "n mod 3600 = 0" | "n mod 3600 \<noteq> 0" "n mod 60 = 0" | "n mod 3600 \<noteq> 0" "n mod 60 \<noteq> 0" by blast
  then show ?thesis
  proof cases
    case 1
    then have m: "unat n mod 3600 = 0" by (simp add: zero unat_mod_distrib)
    then have e: "unat n div 3600 * 3600 = unat n" using div_mult_mod_eq [of "unat n" 3600] by simp
    have "ParseTTL (nat_str (unat n div 3600) @ ''h'') = Inr n"
      using ParseTTL_nat_str [of "unat n div 3600" "CHR ''h''"] e b
      by (simp add: ttl_multiplier_def is_ttl_unit_def del: of_nat_mult)
    with 1 r show ?thesis by (simp add: CanonicalTTL_def unat_div_distrib)
  next
    case 2
    then have m: "unat n mod 60 = 0" by (simp add: zero unat_mod_distrib)
    then have e: "unat n div 60 * 60 = unat n" using div_mult_mod_eq [of "unat n" 60] by simp
    have "ParseTTL (nat_str (unat n div 60) @ ''m'') = Inr n"
      using ParseTTL_nat_str [of "unat n div 60" "CHR ''m''"] e b
      by (simp add: ttl_multiplier_def is_ttl_unit_def del: of_nat_mult)
    with 2 r show ?thesis by (simp add: CanonicalTTL_def unat_div_distrib)
  next
    case 3
    have "ParseTTL (nat_str (unat n) @ ''s'') = Inr n"
      using ParseTTL_nat_str [of "unat n" "CHR ''s''"] b
      by (simp add: ttl_multiplier_def is_ttl_unit_def)
    with 3 r show ?thesis by (simp add: CanonicalTTL_def)
  qed
qed

lemma CanonicalTTL_iff: "(\<exists>t. CanonicalTTL n = Inr t) \<longleftrightarrow> ttl_in_range n"
  using CanonicalTTL_ParseTTL [of n] by (auto simp: CanonicalTTL_def ttl_in_range_word)

lemma CanonicalTTL_Inr:
  "CanonicalTTL n = Inr t \<Longrightarrow> ttl_in_range n \<and> ParseTTL t = Inr n"
  using CanonicalTTL_ParseTTL [of n] CanonicalTTL_iff [of n] by auto

lemma CanonicalTTL_out_of_range: "\<not> ttl_in_range n \<Longrightarrow> CanonicalTTL n = Inl ErrorTTL"
  by (auto simp: CanonicalTTL_def ttl_in_range_word)

section \<open>Commands\<close>

definition is_add_command :: "addr4 \<Rightarrow> string \<Rightarrow> bytes \<Rightarrow> bool" where
  "is_add_command x t g \<longleftrightarrow>
     g = add_prefix @ addr_string x @ '' timeout '' @ t @ '' }'' \<or> g = add_command (addr_string x) t"

lemma addr_string_dotted: "re_matches dotted_re (addr_string x)"
proof (cases x)
  case (Addr4 a b c d)
  have f: "1 \<le> length (nat_str (unat y))" "length (nat_str (unat y)) \<le> 3" "list_all is_digit (nat_str (unat y))"
    for y :: "8 word"
    using nat_str_length_le [of 3 "unat y"] unat_octet [of y] nat_str_nonempty [of "unat y"]
    by (simp_all add: nat_str_digits Suc_le_eq)
  have "seq_shape dotted_re (nat_str (unat a) @ ''.'' @ nat_str (unat b) @ ''.'' @ nat_str (unat c) @ ''.'' @
      nat_str (unat d) @ []) []"
    unfolding dotted_re_def by (intro seq_shape_RRepI seq_shape_RLitI f) simp
  with Addr4 show ?thesis by (simp add: re_matchesI)
qed

lemma addr_string_length: "length (addr_string x) \<le> 15"
proof -
  obtain k where "seq_shape dotted_re (addr_string x) k" using addr_string_dotted by (auto simp: re_matches_iff)
  then show ?thesis using shape_length(2) by (fastforce simp: dotted_re_def)
qed

lemma ttl_token_length: "ttl_token t \<Longrightarrow> length t \<le> 6"
  by (auto simp: ttl_token_def ttl_number_def)

lemma is_add_command_ascii:
  assumes "is_add_command x t g" and "ttl_token t"
  shows "list_all (\<lambda>c. is_ascii c \<and> byte_val c \<noteq> 0) g"
proof -
  have "is_ascii c \<and> byte_val c \<noteq> 0" if "c \<in> set (addr_string x)" for c
    using addr_string_chars [OF that] by (auto simp: class_defs byte_val_def)
  moreover have "is_ascii c \<and> byte_val c \<noteq> 0" if "c \<in> set t" for c
    using ttl_token_chars [OF assms(2) that] by (auto simp: class_defs byte_val_def is_ttl_unit_def)
  moreover have "list_all (\<lambda>c. is_ascii c \<and> byte_val c \<noteq> 0) add_prefix"
    and "list_all (\<lambda>c. is_ascii c \<and> byte_val c \<noteq> 0) '' timeout ''"
    and "list_all (\<lambda>c. is_ascii c \<and> byte_val c \<noteq> 0) ('' }'' @ [CHR 0x0A])"
    by (simp_all add: add_prefix_def is_ascii_def byte_val_def)
  ultimately show ?thesis
    using assms(1) by (auto simp: is_add_command_def add_command_def list_all_iff)
qed

lemma add_command_guards:
  assumes "is_add_command x t g" and "ttl_token t"
  shows "g \<noteq> []" "length g \<le> MaxGeneratedBytes" "utf8_valid g" "take 3 g \<noteq> utf8_bom"
    "\<not> list_ex (\<lambda>c. 0x7F < byte_val c \<or> byte_val c = 0) g"
proof -
  note a = is_add_command_ascii [OF assms]
  show "g \<noteq> []" using assms(1) by (auto simp: is_add_command_def add_command_def add_prefix_def)
  show "length g \<le> MaxGeneratedBytes"
    using assms(1) addr_string_length [of x] ttl_token_length [OF assms(2)]
    by (auto simp: is_add_command_def add_command_def add_prefix_def MaxGeneratedBytes_def)
  show "utf8_valid g" using a by (auto simp: list_all_iff intro: utf8_valid_ascii)
  show "take 3 g \<noteq> utf8_bom"
    using assms(1) by (auto simp: is_add_command_def add_command_def add_prefix_def utf8_bom_def)
  show "\<not> list_ex (\<lambda>c. 0x7F < byte_val c \<or> byte_val c = 0) g"
    using a by (auto simp: list_all_iff list_ex_iff is_ascii_def byte_val_def)
qed

lemma re_full_add_command:
  "is_add_command x t g \<Longrightarrow> ttl_token t \<Longrightarrow> re_full commandPattern g = Some [addr_string x, t]"
  unfolding re_full_commandPattern is_add_command_def add_command_def using addr_string_dotted by auto

theorem Parse_iff:
  "Parse g = Inr a \<longleftrightarrow>
     (\<exists>x t n. is_add_command x t g \<and> is_global_unicast4 x \<and> ParseTTL t = Inr n \<and>
        a = \<lparr>ast_target = Some x, ast_ttlSeconds = n, ast_inputTTLToken = t\<rparr>)" (is "_ \<longleftrightarrow> ?R")
proof
  assume p: "Parse g = Inr a"
  then obtain k where k: "re_full commandPattern g = Some k"
    by (cases "re_full commandPattern g") (auto simp: Parse_def split: if_splits)
  then obtain s t where g: "g = add_prefix @ s @ '' timeout '' @ t @ '' }'' \<or> g = add_command s t"
    and k: "re_full commandPattern g = Some [s, t]"
    unfolding re_full_commandPattern add_command_def by force
  from p k obtain x n where "parse_addr4 s = Some x" "is_global_unicast4 x" "ParseTTL t = Inr n"
      "a = \<lparr>ast_target = Some x, ast_ttlSeconds = n, ast_inputTTLToken = t\<rparr>"
    by (auto simp: Parse_def bind_res_Inr_iff split: if_splits option.splits)
  with g show ?R by (auto simp: is_add_command_def parse_addr4_iff)
next
  assume ?R
  then obtain x t n where *: "is_add_command x t g" "is_global_unicast4 x" "ParseTTL t = Inr n"
      "a = \<lparr>ast_target = Some x, ast_ttlSeconds = n, ast_inputTTLToken = t\<rparr>" by blast
  then have t: "ttl_token t" by (simp add: ParseTTL_token)
  have "\<not> MaxGeneratedBytes < length g" using add_command_guards(2) [OF *(1) t] by simp
  with * add_command_guards [OF *(1) t] re_full_add_command [OF *(1) t] show "Parse g = Inr a"
    by (simp add: Parse_def parse_addr_string)
qed

lemma Parse_error:
  "Parse g = Inl e \<Longrightarrow> e = ErrorSyntax \<or> e = ErrorTarget \<or> e = ErrorTTL"
  by (auto simp: Parse_def bind_res_def split: if_splits option.splits list.splits sum.splits
      dest: ParseTTL_error)

lemma CanonicalBytes_iff:
  "CanonicalBytes a = Inr c \<longleftrightarrow>
     (\<exists>x t. ast_target a = Some x \<and> is_global_unicast4 x \<and> CanonicalTTL (ast_ttlSeconds a) = Inr t \<and>
        c = add_command (addr_string x) t)"
  by (auto simp: CanonicalBytes_def bind_res_Inr_iff addr_string_nonempty split: option.splits)

lemma Parse_CanonicalBytes:
  assumes "CanonicalBytes a = Inr c"
  shows "\<exists>t. CanonicalTTL (ast_ttlSeconds a) = Inr t \<and> Parse c = Inr (a\<lparr>ast_inputTTLToken := t\<rparr>)"
proof -
  obtain x t where x: "ast_target a = Some x" "is_global_unicast4 x"
    and t: "CanonicalTTL (ast_ttlSeconds a) = Inr t" and c: "c = add_command (addr_string x) t"
    using assms by (auto simp: CanonicalBytes_iff)
  have "is_add_command x t c" by (simp add: is_add_command_def c)
  moreover have "ParseTTL t = Inr (ast_ttlSeconds a)" using CanonicalTTL_Inr [OF t] by simp
  ultimately have "Parse c = Inr \<lparr>ast_target = Some x, ast_ttlSeconds = ast_ttlSeconds a, ast_inputTTLToken = t\<rparr>"
    unfolding Parse_iff using x by blast
  with x t show ?thesis by (cases a) simp
qed

lemma CanonicalBytes_Parse:
  assumes "Parse g = Inr a"
  obtains x t where "ast_target a = Some x" "is_global_unicast4 x" "ttl_in_range (ast_ttlSeconds a)"
    "CanonicalTTL (ast_ttlSeconds a) = Inr t" "CanonicalBytes a = Inr (add_command (addr_string x) t)"
proof -
  from assms obtain x t n where p: "is_global_unicast4 x" "ParseTTL t = Inr n"
      "a = \<lparr>ast_target = Some x, ast_ttlSeconds = n, ast_inputTTLToken = t\<rparr>"
    by (auto simp: Parse_iff)
  then have r: "ttl_in_range n" using ParseTTL_range by (simp add: ttl_in_range_def)
  then obtain t' where "CanonicalTTL n = Inr t'" using CanonicalTTL_iff by blast
  with p r that show ?thesis by (auto simp: CanonicalBytes_iff)
qed

lemma evidence_loop_iff:
  "evidence_loop prev ids \<longleftrightarrow> list_all (re_matches uuidPattern) ids \<and>
     sorted_wrt (<) ids \<and> (case prev of None \<Rightarrow> True | Some p \<Rightarrow> \<forall>x \<in> set ids. p < x)"
proof (induction ids arbitrary: prev)
  case Nil
  then show ?case by (simp split: option.split)
next
  case (Cons x ids)
  then show ?case by (auto split: option.splits intro: less_trans)
qed

lemma validEvidenceIDs_iff:
  "validEvidenceIDs ids \<longleftrightarrow>
     ids \<noteq> [] \<and> length ids \<le> 50 \<and> list_all (re_matches uuidPattern) ids \<and> sorted_wrt (<) ids"
  by (auto simp: validEvidenceIDs_def evidence_loop_iff MaxEvidenceIDs_def)

section \<open>Correctness of the candidate boundary\<close>

text \<open>
  C17: \<open>Parse\<close> accepts exactly one statement form, byte for byte: the fixed add prefix, a canonical
  global-unicast IPv4 address, one timeout token worth 60 to 86400 seconds, the closing brace and at
  most one line feed. Nothing else (a second statement, another table, extra spaces) is accepted, and
  everything of this form is; the returned tree holds precisely that address, value and token.
\<close>

theorem Parse_accepts_exactly:
  "Parse g = Inr a \<longleftrightarrow>
     (\<exists>x s u nl. g = ''add element inet sentinelflow blacklist_ipv4 { '' @ addr_string x @ '' timeout '' @
          s @ [u] @ '' }'' @ nl \<and> (nl = [] \<or> nl = [CHR 0x0A]) \<and>
        is_global_unicast4 x \<and> ttl_number s \<and> is_ttl_unit u \<and>
        60 \<le> dec_val s * ttl_multiplier u \<and> dec_val s * ttl_multiplier u \<le> 86400 \<and>
        a = \<lparr>ast_target = Some x, ast_ttlSeconds = of_nat (dec_val s * ttl_multiplier u),
             ast_inputTTLToken = s @ [u]\<rparr>)"
  unfolding Parse_iff ParseTTL_iff is_add_command_def add_command_def add_prefix_def
  by (rule iffI; elim exE conjE disjE; simp; blast)

text \<open>
  C24: Canonicalisation is a retraction onto canonical commands. Whatever \<open>Parse\<close> accepts can be
  serialised; the canonical bytes end in one line feed, parse back to the same target and the same number
  of seconds, and serialise to themselves.
\<close>

theorem canonical_bytes_stable:
  assumes "Parse g = Inr a"
  shows "\<exists>c b. CanonicalBytes a = Inr c \<and> last c = CHR 0x0A \<and> Parse c = Inr b \<and>
    ast_target b = ast_target a \<and> ast_ttlSeconds b = ast_ttlSeconds a \<and> CanonicalBytes b = Inr c"
proof -
  obtain x t where c: "CanonicalBytes a = Inr (add_command (addr_string x) t)"
    using assms by (rule CanonicalBytes_Parse)
  from Parse_CanonicalBytes [OF this] obtain t' where
    "Parse (add_command (addr_string x) t) = Inr (a\<lparr>ast_inputTTLToken := t'\<rparr>)" by blast
  moreover from c have "CanonicalBytes (a\<lparr>ast_inputTTLToken := t'\<rparr>) = Inr (add_command (addr_string x) t)"
    by (simp add: CanonicalBytes_iff)
  moreover have "last (add_command (addr_string x) t) = CHR 0x0A" by (simp add: add_command_def)
  ultimately show ?thesis using c by fastforce
qed

definition sample_command :: bytes where
  "sample_command = ''add element inet sentinelflow blacklist_ipv4 { 198.51.100.20 timeout 30m }''"

lemma sample_Parse:
  "Parse sample_command =
     Inr \<lparr>ast_target = Some (Addr4 198 51 100 20), ast_ttlSeconds = 1800, ast_inputTTLToken = ''30m''\<rparr>"
  by code_simp

theorem canonical_bytes_stable_witness:
  "\<exists>c b. CanonicalBytes \<lparr>ast_target = Some (Addr4 198 51 100 20), ast_ttlSeconds = 1800,
      ast_inputTTLToken = ''30m''\<rparr> = Inr c \<and> last c = CHR 0x0A \<and> Parse c = Inr b \<and>
    ast_target b = Some (Addr4 198 51 100 20) \<and> ast_ttlSeconds b = 1800 \<and> CanonicalBytes b = Inr c"
  using canonical_bytes_stable [OF sample_Parse] by simp

text \<open>
  Distinct canonical commands enforce distinct blocks: the canonical bytes determine the target
  address and the duration, so a digest over them binds both.
\<close>

theorem canonical_bytes_injective:
  "CanonicalBytes a = Inr c \<Longrightarrow> CanonicalBytes b = Inr c \<Longrightarrow>
     ast_target a = ast_target b \<and> ast_ttlSeconds a = ast_ttlSeconds b"
proof -
  assume "CanonicalBytes a = Inr c" and "CanonicalBytes b = Inr c"
  then obtain s t where "Inr (a\<lparr>ast_inputTTLToken := s\<rparr>) = (Inr (b\<lparr>ast_inputTTLToken := t\<rparr>) :: policy_error + ast)"
    using Parse_CanonicalBytes by metis
  then show ?thesis by (cases a; cases b) simp
qed

definition sample_ast :: ast where
  "sample_ast = \<lparr>ast_target = Some (Addr4 198 51 100 20), ast_ttlSeconds = 1800, ast_inputTTLToken = ''1800s''\<rparr>"

theorem canonical_bytes_injective_witness:
  "\<exists>c. CanonicalBytes sample_ast = Inr c \<and> CanonicalBytes (sample_ast\<lparr>ast_inputTTLToken := ''30m''\<rparr>) = Inr c \<and>
     ast_target sample_ast = ast_target (sample_ast\<lparr>ast_inputTTLToken := ''30m''\<rparr>) \<and>
     ast_ttlSeconds sample_ast = ast_ttlSeconds (sample_ast\<lparr>ast_inputTTLToken := ''30m''\<rparr>)"
proof -
  let ?c = "add_command ''198.51.100.20'' ''30m''"
  have "CanonicalBytes sample_ast = Inr ?c" "CanonicalBytes (sample_ast\<lparr>ast_inputTTLToken := ''30m''\<rparr>) = Inr ?c"
    by code_simp+
  with canonical_bytes_injective [OF this] show ?thesis by blast
qed

text \<open>
  C18: \<open>BuildArtifact\<close> succeeds exactly on consistent inputs and returns exactly the bound artifact:
  both schema versions and the action are the frozen constants, the two evidence lists are the same
  non-empty, at most 50 long, strictly sorted list of identifiers, policy and candidate name the address
  that the command names, the candidate's token is the command's token, the policy's duration is the
  token's value, and the artifact carries the received bytes, the canonical bytes and a digest of each.
\<close>

theorem BuildArtifact_accepts_exactly:
  "BuildArtifact p c = Inr art \<longleftrightarrow>
     pol_SchemaVersion p = ''response-policy-v1'' \<and> cand_SchemaVersion c = ''nft-blacklist-v1'' \<and>
     pol_Action p = ''block_ip'' \<and>
     pol_EvidenceIDs p = cand_EvidenceIDs c \<and> pol_EvidenceIDs p \<noteq> [] \<and> length (pol_EvidenceIDs p) \<le> 50 \<and>
     list_all (re_matches uuidPattern) (pol_EvidenceIDs p) \<and> sorted_wrt (<) (pol_EvidenceIDs p) \<and>
     (\<exists>x n token.
        Parse (cand_GeneratedBytes c) =
          Inr \<lparr>ast_target = Some x, ast_ttlSeconds = n, ast_inputTTLToken = cand_TimeoutToken c\<rparr> \<and>
        cand_TargetIPv4 c = addr_string x \<and> pol_TargetIPv4 p = addr_string x \<and> pol_TTLSeconds p = n \<and>
        CanonicalTTL n = Inr token \<and>
        art = \<lparr>art_ast = \<lparr>ast_target = Some x, ast_ttlSeconds = n, ast_inputTTLToken = cand_TimeoutToken c\<rparr>,
               art_generatedBytes = cand_GeneratedBytes c,
               art_generatedDigest = Digest (cand_GeneratedBytes c),
               art_canonicalBytes = add_command (addr_string x) token,
               art_canonicalDigest = Digest (add_command (addr_string x) token),
               art_canonicalToken = token, art_evidenceIDs = pol_EvidenceIDs p\<rparr>)" (is "?L \<longleftrightarrow> ?R")
proof
  assume ?L
  then obtain a token canonical where
      guards: "pol_SchemaVersion p = PolicySchemaVersion" "cand_SchemaVersion c = CandidateSchemaVersion"
        "pol_Action p = ActionBlockIP" "validEvidenceIDs (pol_EvidenceIDs p)" "pol_EvidenceIDs p = cand_EvidenceIDs c"
    and a: "Parse (cand_GeneratedBytes c) = Inr a"
    and eqs: "cand_TargetIPv4 c = ast_TargetIPv4 a" "pol_TargetIPv4 p = ast_TargetIPv4 a"
        "cand_TimeoutToken c = ast_inputTTLToken a" "pol_TTLSeconds p = ast_ttlSeconds a"
    and t: "CanonicalTTL (ast_ttlSeconds a) = Inr token" and cb: "CanonicalBytes a = Inr canonical"
    and art: "art = \<lparr>art_ast = a, art_generatedBytes = cand_GeneratedBytes c,
       art_generatedDigest = Digest (cand_GeneratedBytes c), art_canonicalBytes = canonical,
       art_canonicalDigest = Digest canonical, art_canonicalToken = token, art_evidenceIDs = pol_EvidenceIDs p\<rparr>"
    unfolding BuildArtifact_def if_Inl_eq_Inr bind_res_Inr_iff by auto
  from cb t obtain x where x: "ast_target a = Some x" "canonical = add_command (addr_string x) token"
    by (auto simp: CanonicalBytes_iff)
  then have a': "a = \<lparr>ast_target = Some x, ast_ttlSeconds = pol_TTLSeconds p, ast_inputTTLToken = cand_TimeoutToken c\<rparr>"
    using eqs by simp
  have tgt: "ast_TargetIPv4 a = addr_string x" by (simp add: ast_TargetIPv4_def x)
  have "pol_EvidenceIDs p \<noteq> [] \<and> length (pol_EvidenceIDs p) \<le> 50 \<and>
      list_all (re_matches uuidPattern) (pol_EvidenceIDs p) \<and> sorted_wrt (<) (pol_EvidenceIDs p)"
    using guards(4) by (simp add: validEvidenceIDs_iff)
  moreover have "CanonicalTTL (pol_TTLSeconds p) = Inr token" using t eqs by simp
  ultimately show ?R
    using guards(1-3,5) a [unfolded a'] eqs(1,2) [unfolded tgt] art [unfolded a' x]
    unfolding PolicySchemaVersion_def CandidateSchemaVersion_def ActionBlockIP_def by metis
next
  assume r: ?R
  then obtain x n token where p: "Parse (cand_GeneratedBytes c) =
      Inr \<lparr>ast_target = Some x, ast_ttlSeconds = n, ast_inputTTLToken = cand_TimeoutToken c\<rparr>"
      "CanonicalTTL n = Inr token" "cand_TargetIPv4 c = addr_string x" "pol_TargetIPv4 p = addr_string x"
      "pol_TTLSeconds p = n" by blast
  from CanonicalBytes_Parse [OF p(1)] p(2) have
    "CanonicalBytes \<lparr>ast_target = Some x, ast_ttlSeconds = n, ast_inputTTLToken = cand_TimeoutToken c\<rparr> =
       Inr (add_command (addr_string x) token)" by auto
  with r p show ?L
    by (auto simp: BuildArtifact_def validEvidenceIDs_iff ast_TargetIPv4_def PolicySchemaVersion_def
        CandidateSchemaVersion_def ActionBlockIP_def)
qed

end
