(* ===== verification/Nft_Candidate.thy ===== *)
theory Nft_Candidate
  imports Policy_Candidate
begin

text \<open>
  \<open>internal/enforcement/nftvalidate/candidate.go\<close>: the enforcement side parses generated
  commands with its own copy of the grammar, because it must not trust the control plane.
  The lemmas show that the two implementations agree on every input: same accepted
  commands, same target, seconds and canonical bytes, and matching rejections.
\<close>

datatype nft_error =
    ErrorCandidateSyntax | ErrorTarget | ErrorTargetDenied | ErrorTTL | ErrorTTLMismatch
  | ErrorBaseContract | ErrorLiveSchema | ErrorSchemaDigest

record nft_artifact =
  nft_target :: addr4
  nft_ttlSeconds :: uint32
  nft_inputTTLToken :: string
  nft_canonicalToken :: string
  nft_generated :: bytes
  nft_generatedDigest :: string
  nft_canonical :: bytes
  nft_canonicalDigest :: string

definition nft_MinTTLSeconds :: uint32 where "nft_MinTTLSeconds = 60"
definition nft_MaxTTLSeconds :: uint32 where "nft_MaxTTLSeconds = 86400"
definition MaxCandidateBytes :: nat where "MaxCandidateBytes = 256"

definition nft_digest :: "bytes \<Rightarrow> string" where
  "nft_digest data = ''sha256:'' @ hex_encode (sha256 data)"

definition candidatePattern :: "re list" where
  "candidatePattern =
     [RLit ''add element inet sentinelflow blacklist_ipv4 { '',
      RGroup [RRep is_digit 1 3, RLit ''.'', RRep is_digit 1 3, RLit ''.'',
              RRep is_digit 1 3, RLit ''.'', RRep is_digit 1 3],
      RLit '' timeout '',
      RGroup [RRep is_nonzero_digit 1 1, RRep is_digit 0 4, RRep is_ttl_unit 1 1],
      RLit '' }'',
      RRep (\<lambda>c. c = CHR 0x0A) 0 1]"

definition nft_ttlPattern :: "re list" where
  "nft_ttlPattern =
     [RGroup [RRep is_nonzero_digit 1 1, RRep is_digit 0 4], RGroup [RRep is_ttl_unit 1 1]]"

definition parseTTL :: "string \<Rightarrow> nft_error + uint32" where
  "parseTTL token =
     (case re_full nft_ttlPattern token of
        Some [number, u] \<Rightarrow>
          (case parse_uint 64 number of
             None \<Rightarrow> Inl ErrorTTL
           | Some v \<Rightarrow>
               let value = (of_nat v :: uint64);
                   multiplier = (if u = ''m'' then 60 else if u = ''h'' then 3600 else 1 :: uint64)
               in if (- 1) div multiplier < value then Inl ErrorTTL
                  else let seconds = value * multiplier in
                    if seconds < ucast nft_MinTTLSeconds \<or> ucast nft_MaxTTLSeconds < seconds
                    then Inl ErrorTTL
                    else Inr (ucast seconds))
      | _ \<Rightarrow> Inl ErrorTTL)"

definition canonicalTTL :: "uint32 \<Rightarrow> nft_error + string" where
  "canonicalTTL seconds =
     (if seconds < nft_MinTTLSeconds \<or> nft_MaxTTLSeconds < seconds then Inl ErrorTTL
      else if seconds mod 3600 = 0 then Inr (nat_str (unat (seconds div 3600)) @ ''h'')
      else if seconds mod 60 = 0 then Inr (nat_str (unat (seconds div 60)) @ ''m'')
      else Inr (nat_str (unat seconds) @ ''s''))"

definition Canonicalize :: "bytes \<Rightarrow> uint32 \<Rightarrow> nft_error + nft_artifact" where
  "Canonicalize generated policyTTLSeconds =
     (if policyTTLSeconds < nft_MinTTLSeconds \<or> nft_MaxTTLSeconds < policyTTLSeconds then Inl ErrorTTL
      else if generated = [] \<or> MaxCandidateBytes < length generated \<or> \<not> utf8_valid generated \<or>
         take 3 generated = [CHR 0xEF, CHR 0xBB, CHR 0xBF] then Inl ErrorCandidateSyntax
      else if list_ex (\<lambda>c. byte_val c = 0 \<or> 0x7F < byte_val c) generated then Inl ErrorCandidateSyntax
      else case re_full candidatePattern generated of
        Some [targetText, inputToken] \<Rightarrow>
          (case parse_addr4 targetText of
             None \<Rightarrow> Inl ErrorTarget
           | Some target \<Rightarrow>
               if \<not> is_global_unicast4 target \<or> addr_string target \<noteq> targetText then Inl ErrorTarget
               else bind_res (parseTTL inputToken) (\<lambda>seconds.
                 if seconds \<noteq> policyTTLSeconds then Inl ErrorTTLMismatch
                 else bind_res (canonicalTTL seconds) (\<lambda>canonicalToken.
                   let canonical = ''add element inet sentinelflow blacklist_ipv4 { '' @ targetText @
                         '' timeout '' @ canonicalToken @ '' }'' @ [CHR 0x0A]
                   in Inr \<lparr>nft_target = target, nft_ttlSeconds = seconds, nft_inputTTLToken = inputToken,
                           nft_canonicalToken = canonicalToken, nft_generated = generated,
                           nft_generatedDigest = nft_digest generated, nft_canonical = canonical,
                           nft_canonicalDigest = nft_digest canonical\<rparr>)))
      | _ \<Rightarrow> Inl ErrorCandidateSyntax)"

section \<open>Agreement with the control-plane parser\<close>

text \<open>How the two packages' rejections correspond.\<close>

fun nft_error_of :: "policy_error \<Rightarrow> nft_error" where
  "nft_error_of policy_error.ErrorSyntax = ErrorCandidateSyntax"
| "nft_error_of policy_error.ErrorTarget = ErrorTarget"
| "nft_error_of policy_error.ErrorTTL = ErrorTTL"
| "nft_error_of _ = ErrorCandidateSyntax"

definition map_err :: "('e \<Rightarrow> 'f) \<Rightarrow> 'e + 'a \<Rightarrow> 'f + 'a" where
  "map_err f r = (case r of Inl e \<Rightarrow> Inl (f e) | Inr x \<Rightarrow> Inr x)"

lemma map_err_simps [simp]: "map_err f (Inl e) = Inl (f e)" "map_err f (Inr x) = Inr x"
  by (simp_all add: map_err_def)

lemma nft_patterns: "candidatePattern = commandPattern" "nft_ttlPattern = ttlPattern"
  by (simp_all add: candidatePattern_def commandPattern_def nft_ttlPattern_def ttlPattern_def
      dotted_re_def ttl_number_re_def add_prefix_def)

lemma nft_limits: "nft_MinTTLSeconds = MinTTLSeconds" "nft_MaxTTLSeconds = MaxTTLSeconds"
  "MaxCandidateBytes = MaxGeneratedBytes"
  by (simp_all add: nft_MinTTLSeconds_def nft_MaxTTLSeconds_def MinTTLSeconds_def MaxTTLSeconds_def
      MaxCandidateBytes_def MaxGeneratedBytes_def)

lemma parseTTL_eq: "parseTTL token = map_err nft_error_of (ParseTTL token)"
proof -
  have pair: "parseTTL token = map_err nft_error_of (ParseTTL token)"
    if "re_full ttlPattern token = Some [n, u]" for n u
    using that by (simp add: parseTTL_def ParseTTL_def nft_patterns nft_limits unit_multiplier_def Let_def
        split: option.split)
  show ?thesis
  proof (cases "re_full ttlPattern token")
    case None
    then show ?thesis by (simp add: parseTTL_def ParseTTL_def nft_patterns)
  next
    case (Some k)
    then have "\<exists>n u. k = [n, u]" by (auto simp: re_full_ttlPattern)
    with Some pair show ?thesis by blast
  qed
qed

lemma canonicalTTL_eq: "canonicalTTL n = map_err nft_error_of (CanonicalTTL n)"
  by (simp add: canonicalTTL_def CanonicalTTL_def nft_limits)

text \<open>
  C10: The enforcement-side parser and the control-plane parser agree on every byte string and every
  policy duration. \<open>Canonicalize\<close> rejects a duration outside 60 to 86400; otherwise it rejects exactly
  what \<open>Parse\<close> rejects, with the corresponding code; otherwise it rejects a duration that differs from
  the command's; and otherwise returns the target, token and canonical bytes of \<open>policy.CanonicalBytes\<close>.
\<close>

theorem Canonicalize_agrees_with_Parse:
  "Canonicalize g n =
     (if \<not> ttl_in_range n then Inl ErrorTTL
      else case Parse g of
        Inl e \<Rightarrow> Inl (nft_error_of e)
      | Inr a \<Rightarrow>
          if ast_ttlSeconds a \<noteq> n then Inl ErrorTTLMismatch
          else bind_res (map_err nft_error_of (CanonicalTTL n)) (\<lambda>token.
            bind_res (map_err nft_error_of (CanonicalBytes a)) (\<lambda>c.
              Inr \<lparr>nft_target = the (ast_target a), nft_ttlSeconds = n, nft_inputTTLToken = ast_inputTTLToken a,
                   nft_canonicalToken = token, nft_generated = g, nft_generatedDigest = Digest g,
                   nft_canonical = c, nft_canonicalDigest = Digest c\<rparr>)))"
proof (cases "ttl_in_range n")
  case False
  then show ?thesis by (auto simp: Canonicalize_def nft_limits ttl_in_range_word)
next
  case r: True
  then have nr: "\<not> (n < MinTTLSeconds \<or> MaxTTLSeconds < n)" by (simp add: ttl_in_range_word not_less)
  obtain token where token: "CanonicalTTL n = Inr token" using r CanonicalTTL_iff by blast
  have guard: "list_ex (\<lambda>c. byte_val c = 0 \<or> 0x7F < byte_val c) g = list_ex (\<lambda>c. 0x7F < byte_val c \<or> byte_val c = 0) g"
    by (auto simp: list_ex_iff)
  show ?thesis
  proof (cases "re_full commandPattern g")
    case None
    with r nr show ?thesis by (simp add: Canonicalize_def Parse_def nft_limits nft_patterns guard utf8_bom_def)
  next
    case (Some k)
    then obtain s t where "k = [s, t]" by (auto simp: re_full_commandPattern)
    with Some have m: "re_full commandPattern g = Some [s, t]" by simp
    show ?thesis
      using r nr token
      by (cases "parse_addr4 s"; cases "ParseTTL t")
        (auto simp: Canonicalize_def Parse_def nft_limits nft_patterns guard utf8_bom_def m parseTTL_eq
          canonicalTTL_eq CanonicalBytes_def addr_string_nonempty parse_addr_string add_command_def add_prefix_def
          nft_digest_def Digest_def digest_text_def Let_def dest: parse_addr4_canonical)
  qed
qed

end
