(* ===== verification/Go_Json.thy ===== *)
theory Go_Json
  imports Go_Utf8
begin

text \<open>
  The part of \<open>encoding/json\<close> the source relies on: string escaping as done by \<open>json.Marshal\<close>,
  the JSON grammar accepted by \<open>json.Decoder\<close>, string unquoting (escapes, surrogate pairs,
  replacement of ill-formed UTF-8), and decoding into a struct with unknown fields refused.
  Documents are values of \<open>json\<close>; object members keep their order.

  \<open>json_str_quote\<close> and \<open>parse_doc_print\<close> are the round trips: what the source's hand-written
  canonical encoders emit is read back as the same value.
\<close>

datatype json =
    JNull
  | JBool bool
  | JNum string
  | JStr bytes
  | JArr "json list"
  | JObj "(bytes \<times> json) list"

section \<open>Strings\<close>

definition QUOTE :: char where "QUOTE = CHR 0x22"
definition BSLASH :: char where "BSLASH = CHR 0x5C"

text \<open>One ASCII byte as \<open>json.Marshal\<close> writes it (HTML escaping is on).\<close>

definition short_escapes :: "(char \<times> char) list" where
  "short_escapes =
     [(CHR 0x22, CHR 0x22), (CHR 0x5C, CHR 0x5C), (CHR 0x08, CHR ''b''), (CHR 0x0C, CHR ''f''),
      (CHR 0x0A, CHR ''n''), (CHR 0x0D, CHR ''r''), (CHR 0x09, CHR ''t'')]"

definition html_safe :: "char \<Rightarrow> bool" where
  "html_safe c \<longleftrightarrow> byte_in 0x20 0x7F c \<and> c \<notin> {CHR 0x22, CHR 0x5C, CHR ''<'', CHR ''>'', CHR ''&''}"

definition escape_ascii :: "char \<Rightarrow> string" where
  "escape_ascii c =
     (if html_safe c then [c]
      else case map_of short_escapes c of
        Some e \<Rightarrow> [BSLASH, e]
      | None \<Rightarrow> BSLASH # ''u00'' @ hex_byte c)"

function quote_body :: "bytes \<Rightarrow> string" where
  "quote_body s =
     (case s of
        [] \<Rightarrow> []
      | c # r \<Rightarrow>
          if byte_in 0 0x7F c then escape_ascii c @ quote_body r
          else if utf8_len s = 0 then BSLASH # ''ufffd'' @ quote_body r
          else if take 3 s = [CHR 0xE2, CHR 0x80, CHR 0xA8] then BSLASH # ''u2028'' @ quote_body (drop 3 s)
          else if take 3 s = [CHR 0xE2, CHR 0x80, CHR 0xA9] then BSLASH # ''u2029'' @ quote_body (drop 3 s)
          else take (utf8_len s) s @ quote_body (drop (utf8_len s) s))"
  by auto

termination
  by (relation "measure length") auto

declare quote_body.simps [simp del]

text \<open>\<open>json.Marshal\<close> of a string.\<close>

definition json_quote :: "bytes \<Rightarrow> string" where
  "json_quote s = QUOTE # quote_body s @ [QUOTE]"

definition hex_digit_val :: "char \<Rightarrow> int option" where
  "hex_digit_val c =
     (if byte_in 48 57 c then Some (byte_val c - 48)
      else if byte_in 97 102 c then Some (byte_val c - 87)
      else if byte_in 65 70 c then Some (byte_val c - 55)
      else None)"

definition getu4 :: "string \<Rightarrow> (int \<times> string) option" where
  "getu4 s =
     (case s of
        a # b # c # d # r \<Rightarrow>
          (case (hex_digit_val a, hex_digit_val b, hex_digit_val c, hex_digit_val d) of
             (Some w, Some x, Some y, Some z) \<Rightarrow> Some (((w * 16 + x) * 16 + y) * 16 + z, r)
           | _ \<Rightarrow> None)
      | _ \<Rightarrow> None)"

definition simple_escape :: "char \<Rightarrow> char option" where
  "simple_escape e =
     map_of [(CHR 0x22, CHR 0x22), (CHR 0x5C, CHR 0x5C), (CHR ''/'', CHR ''/''), (CHR ''b'', CHR 0x08),
             (CHR ''f'', CHR 0x0C), (CHR ''n'', CHR 0x0A), (CHR ''r'', CHR 0x0D), (CHR ''t'', CHR 0x09)] e"

definition prepend :: "bytes \<Rightarrow> (bytes \<times> 'a) option \<Rightarrow> (bytes \<times> 'a) option" where
  "prepend p r = map_option (\<lambda>(b, rest). (p @ b, rest)) r"

text \<open>The rune after a high surrogate, when it completes a pair: the rune and the rest.\<close>

definition low_surrogate :: "int \<Rightarrow> string \<Rightarrow> (int \<times> string) option" where
  "low_surrogate hi s =
     (case s of
        a # b # r \<Rightarrow>
          if a = BSLASH \<and> b = CHR ''u'' \<and> hi < 0xDC00 then
            (case getu4 r of
               Some (lo, r') \<Rightarrow>
                 if 0xDC00 \<le> lo \<and> lo < 0xE000
                 then Some ((hi - 0xD800) * 1024 + (lo - 0xDC00) + 0x10000, r') else None
             | None \<Rightarrow> None)
          else None
      | _ \<Rightarrow> None)"

lemma getu4_length: "getu4 s = Some (v, r) \<Longrightarrow> length r < length s"
  by (auto simp: getu4_def split: list.splits option.splits)

lemma low_surrogate_length: "low_surrogate h s = Some (v, r) \<Longrightarrow> length r < length s"
  by (auto simp: low_surrogate_def split: list.splits option.splits if_splits dest: getu4_length)

text \<open>The text after an opening quote: the unquoted bytes and what follows the closing quote.\<close>

function json_str :: "string \<Rightarrow> (bytes \<times> string) option" where
  "json_str s =
     (case s of
        [] \<Rightarrow> None
      | c # r \<Rightarrow>
          if c = QUOTE then Some ([], r)
          else if c = BSLASH then
            (case r of
               [] \<Rightarrow> None
             | e # r1 \<Rightarrow>
                 if e = CHR ''u'' then
                   (case getu4 r1 of
                      None \<Rightarrow> None
                    | Some (v, r2) \<Rightarrow>
                        if 0xD800 \<le> v \<and> v < 0xE000 then
                          (case low_surrogate v r2 of
                             Some (w, r3) \<Rightarrow> prepend (encode_rune w) (json_str r3)
                           | None \<Rightarrow> prepend replacement_char (json_str r2))
                        else prepend (encode_rune v) (json_str r2))
                 else case simple_escape e of
                   None \<Rightarrow> None
                 | Some b \<Rightarrow> prepend [b] (json_str r1))
          else if byte_in 0 0x1F c then None
          else if byte_in 0x20 0x7F c then prepend [c] (json_str r)
          else if utf8_len s = 0 then prepend replacement_char (json_str r)
          else prepend (take (utf8_len s) s) (json_str (drop (utf8_len s) s)))"
  by auto

termination
  by (relation "measure length") (auto dest!: getu4_length low_surrogate_length)

declare json_str.simps [simp del]

section \<open>Documents\<close>

definition is_ws :: "char \<Rightarrow> bool" where
  "is_ws c \<longleftrightarrow> c = CHR '' '' \<or> c = CHR 0x09 \<or> c = CHR 0x0D \<or> c = CHR 0x0A"

definition skip_ws :: "string \<Rightarrow> string" where
  "skip_ws s = dropWhile is_ws s"

definition num_int :: "string \<Rightarrow> (string \<times> string) option" where
  "num_int s =
     (case s of
        [] \<Rightarrow> None
      | c # r \<Rightarrow> if c = CHR ''0'' then Some ([c], r)
                 else if is_digit c then Some (takeWhile is_digit s, dropWhile is_digit s) else None)"

definition num_digits :: "string \<Rightarrow> (string \<times> string) option" where
  "num_digits s = (if takeWhile is_digit s = [] then None else Some (takeWhile is_digit s, dropWhile is_digit s))"

definition num_frac :: "string \<Rightarrow> (string \<times> string) option" where
  "num_frac s =
     (case s of
        c # r \<Rightarrow> if c = CHR ''.'' then map_option (\<lambda>(d, r'). (c # d, r')) (num_digits r) else Some ([], s)
      | [] \<Rightarrow> Some ([], s))"

definition num_exp :: "string \<Rightarrow> (string \<times> string) option" where
  "num_exp s =
     (case s of
        c # r \<Rightarrow>
          if c = CHR ''e'' \<or> c = CHR ''E'' then
            (case r of
               g # r1 \<Rightarrow>
                 if g = CHR ''+'' \<or> g = CHR ''-'' then map_option (\<lambda>(d, r'). (c # g # d, r')) (num_digits r1)
                 else map_option (\<lambda>(d, r'). (c # d, r')) (num_digits r)
             | [] \<Rightarrow> None)
          else Some ([], s)
      | [] \<Rightarrow> Some ([], s))"

text \<open>A number literal, kept as its text.\<close>

definition scan_number :: "string \<Rightarrow> (string \<times> string) option" where
  "scan_number s =
     (let (sg, r0) = (if take 1 s = ''-'' then (''-'', drop 1 s) else ([], s)) in
      case num_int r0 of
        None \<Rightarrow> None
      | Some (i, r1) \<Rightarrow>
          (case num_frac r1 of
             None \<Rightarrow> None
           | Some (f, r2) \<Rightarrow>
               (case num_exp r2 of
                  None \<Rightarrow> None
                | Some (e, r3) \<Rightarrow> Some (sg @ i @ f @ e, r3))))"

text \<open>
  The grammar, with fuel for the nesting and the length of lists; twice the length of the text
  is always enough (\<open>parse_fuel\<close>).
\<close>

fun parse_value :: "nat \<Rightarrow> string \<Rightarrow> (json \<times> string) option"
  and parse_elems :: "nat \<Rightarrow> string \<Rightarrow> (json list \<times> string) option"
  and parse_members :: "nat \<Rightarrow> string \<Rightarrow> ((bytes \<times> json) list \<times> string) option" where
  "parse_value 0 s = None"
| "parse_value (Suc n) s =
     (case skip_ws s of
        [] \<Rightarrow> None
      | c # r \<Rightarrow>
          if c = CHR ''{'' then
            (if take 1 (skip_ws r) = ''}'' then Some (JObj [], drop 1 (skip_ws r))
             else map_option (\<lambda>(ms, r'). (JObj ms, r')) (parse_members n r))
          else if c = CHR ''['' then
            (if take 1 (skip_ws r) = '']'' then Some (JArr [], drop 1 (skip_ws r))
             else map_option (\<lambda>(vs, r'). (JArr vs, r')) (parse_elems n r))
          else if c = QUOTE then map_option (\<lambda>(b, r'). (JStr b, r')) (json_str r)
          else if take 4 (c # r) = ''true'' then Some (JBool True, drop 4 (c # r))
          else if take 5 (c # r) = ''false'' then Some (JBool False, drop 5 (c # r))
          else if take 4 (c # r) = ''null'' then Some (JNull, drop 4 (c # r))
          else map_option (\<lambda>(t, r'). (JNum t, r')) (scan_number (c # r)))"
| "parse_elems 0 s = None"
| "parse_elems (Suc n) s =
     (case parse_value n s of
        None \<Rightarrow> None
      | Some (v, r) \<Rightarrow>
          (case skip_ws r of
             [] \<Rightarrow> None
           | c # r' \<Rightarrow>
               if c = CHR '']'' then Some ([v], r')
               else if c = CHR '','' then map_option (\<lambda>(vs, r''). (v # vs, r'')) (parse_elems n r')
               else None))"
| "parse_members 0 s = None"
| "parse_members (Suc n) s =
     (case skip_ws s of
        [] \<Rightarrow> None
      | q # s1 \<Rightarrow>
          if q \<noteq> QUOTE then None
          else case json_str s1 of
            None \<Rightarrow> None
          | Some (k, s2) \<Rightarrow>
              (case skip_ws s2 of
                 [] \<Rightarrow> None
               | c # s3 \<Rightarrow>
                   if c \<noteq> CHR '':'' then None
                   else case parse_value n s3 of
                     None \<Rightarrow> None
                   | Some (v, s4) \<Rightarrow>
                       (case skip_ws s4 of
                          [] \<Rightarrow> None
                        | d # s5 \<Rightarrow>
                            if d = CHR ''}'' then Some ([(k, v)], s5)
                            else if d = CHR '','' then
                              map_option (\<lambda>(ms, r). ((k, v) # ms, r)) (parse_members n s5)
                            else None)))"

text \<open>One value and nothing but white space after it.\<close>

definition parse_doc :: "string \<Rightarrow> json option" where
  "parse_doc s =
     (case parse_value (2 * length s + 2) s of
        Some (j, r) \<Rightarrow> if skip_ws r = [] then Some j else None
      | None \<Rightarrow> None)"

text \<open>No object of the document repeats a member name.\<close>

fun unique_names :: "json \<Rightarrow> bool" where
  "unique_names (JArr vs) \<longleftrightarrow> list_all unique_names vs"
| "unique_names (JObj ms) \<longleftrightarrow> distinct (map fst ms) \<and> list_all (\<lambda>m. unique_names (snd m)) ms"
| "unique_names _ \<longleftrightarrow> True"

section \<open>Decoding into structs\<close>

text \<open>
  Field names match exactly or under Unicode simple folding. The field names of the source are
  ASCII, so the only non-ASCII runes that can match are U+017F and U+212A.
\<close>

fun fold_name :: "bytes \<Rightarrow> bytes" where
  "fold_name [] = []"
| "fold_name (a # s) =
     (if is_upper a then byte_of (byte_val a + 32) # fold_name s
      else if a = CHR 0xC5 \<and> take 1 s = [CHR 0xBF] then CHR ''s'' # fold_name (drop 1 s)
      else if a = CHR 0xE2 \<and> take 2 s = [CHR 0x84, CHR 0xAA] then CHR ''k'' # fold_name (drop 2 s)
      else a # fold_name s)"

type_synonym 'r setter = "json \<Rightarrow> 'r \<Rightarrow> 'r option"

definition find_field :: "(string \<times> 'r setter) list \<Rightarrow> bytes \<Rightarrow> 'r setter option" where
  "find_field specs k =
     (case map_of specs k of
        Some f \<Rightarrow> Some f
      | None \<Rightarrow> map_of (map (\<lambda>(n, f). (fold_name n, f)) specs) (fold_name k))"

fun decode_members :: "(string \<times> 'r setter) list \<Rightarrow> (bytes \<times> json) list \<Rightarrow> 'r \<Rightarrow> 'r option" where
  "decode_members specs [] r = Some r"
| "decode_members specs ((k, v) # ms) r =
     (case find_field specs k of
        None \<Rightarrow> None
      | Some f \<Rightarrow> (case f v r of None \<Rightarrow> None | Some r' \<Rightarrow> decode_members specs ms r'))"

definition decode_struct :: "(string \<times> 'r setter) list \<Rightarrow> 'r setter" where
  "decode_struct specs j r =
     (case j of JObj ms \<Rightarrow> decode_members specs ms r | JNull \<Rightarrow> Some r | _ \<Rightarrow> None)"

definition set_string :: "(string \<Rightarrow> 'r \<Rightarrow> 'r) \<Rightarrow> 'r setter" where
  "set_string upd j r = (case j of JStr s \<Rightarrow> Some (upd s r) | JNull \<Rightarrow> Some r | _ \<Rightarrow> None)"

definition set_uint :: "nat \<Rightarrow> (nat \<Rightarrow> 'r \<Rightarrow> 'r) \<Rightarrow> 'r setter" where
  "set_uint bits upd j r =
     (case j of JNum t \<Rightarrow> map_option (\<lambda>n. upd n r) (parse_uint bits t) | JNull \<Rightarrow> Some r | _ \<Rightarrow> None)"

text \<open>A pointer field: \<open>null\<close> sets it to nil.\<close>

definition set_string_ptr :: "(string option \<Rightarrow> 'r \<Rightarrow> 'r) \<Rightarrow> 'r setter" where
  "set_string_ptr upd j r = (case j of JStr s \<Rightarrow> Some (upd (Some s) r) | JNull \<Rightarrow> Some (upd None r) | _ \<Rightarrow> None)"

definition set_uint_ptr :: "nat \<Rightarrow> (nat option \<Rightarrow> 'r \<Rightarrow> 'r) \<Rightarrow> 'r setter" where
  "set_uint_ptr bits upd j r =
     (case j of JNum t \<Rightarrow> map_option (\<lambda>n. upd (Some n) r) (parse_uint bits t) | JNull \<Rightarrow> Some (upd None r) | _ \<Rightarrow> None)"

text \<open>
  Elements of a \<open>[]string\<close> that holds \<open>old\<close>: \<open>null\<close> leaves an element as it is, the zero string
  when it is new.
\<close>

fun string_elems :: "string list \<Rightarrow> json list \<Rightarrow> string list option" where
  "string_elems old [] = Some []"
| "string_elems old (v # vs) =
     (case v of
        JStr s \<Rightarrow> map_option (\<lambda>r. s # r) (string_elems (drop 1 old) vs)
      | JNull \<Rightarrow> map_option (\<lambda>r. concat (take 1 old) # r) (string_elems (drop 1 old) vs)
      | _ \<Rightarrow> None)"

definition set_strings :: "('r \<Rightarrow> string list) \<Rightarrow> (string list \<Rightarrow> 'r \<Rightarrow> 'r) \<Rightarrow> 'r setter" where
  "set_strings get upd j r =
     (case j of
        JArr vs \<Rightarrow> map_option (\<lambda>ss. upd ss r) (string_elems (get r) vs)
      | JNull \<Rightarrow> Some (upd [] r)
      | _ \<Rightarrow> None)"

section \<open>Strings round-trip\<close>

lemma prepend_Some [simp]: "prepend p (Some (b, r)) = Some (p @ b, r)"
  by (simp add: prepend_def)

lemma byte_val_bounds: "0 \<le> byte_val c" "byte_val c < 256"
  using of_char_less_256 [of c] by (simp_all add: byte_val_def)

lemma hex_char_val: "d < 16 \<Longrightarrow> hex_digit_val (hex_char d) = Some (int d)"
  by (auto simp: hex_digit_val_def byte_in_def byte_val_def hex_char_def of_char_of)

lemma getu4_hex_byte: "getu4 (CHR ''0'' # CHR ''0'' # hex_byte c @ r) = Some (byte_val c, r)"
proof -
  have z: "hex_digit_val CHR ''0'' = Some 0" by code_simp
  have "int (of_char c div 16) * 16 + int (of_char c mod 16) = byte_val c"
    unfolding byte_val_def by (metis div_mult_mod_eq of_nat_add of_nat_mult of_nat_numeral)
  then show ?thesis
    by (simp add: getu4_def hex_byte_def z hex_char_val of_char_div_16)
qed

lemma json_str_plain: "byte_in 0x20 0x7F c \<Longrightarrow> c \<noteq> QUOTE \<Longrightarrow> c \<noteq> BSLASH \<Longrightarrow> json_str (c # r) = prepend [c] (json_str r)"
  by (subst json_str.simps) (simp add: byte_in_def)

lemma json_str_escape:
  "simple_escape e = Some b \<Longrightarrow> json_str (BSLASH # e # r) = prepend [b] (json_str r)"
  by (subst json_str.simps) (auto simp: BSLASH_def QUOTE_def simple_escape_def split: if_splits)

lemma json_str_u:
  "getu4 r = Some (v, r') \<Longrightarrow> v < 0xD800 \<Longrightarrow> json_str (BSLASH # CHR ''u'' # r) = prepend (encode_rune v) (json_str r')"
  by (subst json_str.simps) (simp add: BSLASH_def QUOTE_def)

lemma short_escapes_simple: "map_of short_escapes c = Some e \<Longrightarrow> simple_escape e = Some c"
  by (auto simp: short_escapes_def simple_escape_def split: if_splits)

lemma json_str_ascii:
  assumes "byte_in 0 0x7F c"
  shows "json_str (escape_ascii c @ r) = prepend [c] (json_str r)"
proof (cases "html_safe c")
  case True
  then have "byte_in 0x20 0x7F c" "c \<noteq> QUOTE" "c \<noteq> BSLASH"
    by (auto simp: html_safe_def QUOTE_def BSLASH_def)
  with True show ?thesis by (simp add: escape_ascii_def json_str_plain)
next
  case False
  show ?thesis
  proof (cases "map_of short_escapes c")
    case (Some e)
    with False show ?thesis by (simp add: escape_ascii_def json_str_escape short_escapes_simple)
  next
    case None
    have "encode_rune (byte_val c) = [c]"
      using assms by (simp add: encode_rune_def byte_in_def)
    moreover have "json_str (BSLASH # CHR ''u'' # CHR ''0'' # CHR ''0'' # hex_byte c @ r) =
        prepend (encode_rune (byte_val c)) (json_str r)"
      using assms byte_val_bounds [of c] by (intro json_str_u getu4_hex_byte) simp
    ultimately show ?thesis using None False by (simp add: escape_ascii_def)
  qed
qed

lemma json_str_multi:
  assumes "\<not> byte_in 0 0x7F a" and "utf8_len (a # s) \<noteq> 0"
  shows "json_str (take (utf8_len (a # s)) (a # s) @ x) = prepend (take (utf8_len (a # s)) (a # s)) (json_str x)"
proof -
  have c: "a \<noteq> QUOTE" "a \<noteq> BSLASH" "\<not> byte_in 0 0x1F a" "\<not> byte_in 0x20 0x7F a"
    using assms(1) by (auto simp: QUOTE_def BSLASH_def byte_in_def byte_val_def)
  show ?thesis
    using assms by (cases rule: utf8_len_multi) (simp_all add: json_str.simps [of "a # _"] c)
qed

lemma json_str_separators:
  "json_str (BSLASH # ''u2028'' @ x) = prepend [CHR 0xE2, CHR 0x80, CHR 0xA8] (json_str x)"
  "json_str (BSLASH # ''u2029'' @ x) = prepend [CHR 0xE2, CHR 0x80, CHR 0xA9] (json_str x)"
proof -
  have h: "hex_digit_val CHR ''2'' = Some 2" "hex_digit_val CHR ''0'' = Some 0" "hex_digit_val CHR ''8'' = Some 8"
    "hex_digit_val CHR ''9'' = Some 9" by code_simp+
  have e: "encode_rune 0x2028 = [CHR 0xE2, CHR 0x80, CHR 0xA8]" "encode_rune 0x2029 = [CHR 0xE2, CHR 0x80, CHR 0xA9]"
    by code_simp+
  have "getu4 (''2028'' @ x) = Some (0x2028, x)" "getu4 (''2029'' @ x) = Some (0x2029, x)"
    by (simp_all add: getu4_def h)
  then show "json_str (BSLASH # ''u2028'' @ x) = prepend [CHR 0xE2, CHR 0x80, CHR 0xA8] (json_str x)"
    and "json_str (BSLASH # ''u2029'' @ x) = prepend [CHR 0xE2, CHR 0x80, CHR 0xA9] (json_str x)"
    using json_str_u e by (fastforce simp: e)+
qed

lemma separator_len:
  "take 3 s = [CHR 0xE2, CHR 0x80, CHR 0xA8] \<or> take 3 s = [CHR 0xE2, CHR 0x80, CHR 0xA9] \<Longrightarrow> utf8_len s = 3"
  by (cases s; cases "tl s"; cases "tl (tl s)") (auto simp: utf8_len.simps(2) byte_in_def byte_val_def)

lemma quote_body_multi:
  assumes "\<not> byte_in 0 0x7F a" and "utf8_len (a # r) \<noteq> 0" and s: "s = a # r"
  shows "quote_body s =
    (if take 3 s = [CHR 0xE2, CHR 0x80, CHR 0xA8] then BSLASH # ''u2028'' @ quote_body (drop 3 s)
     else if take 3 s = [CHR 0xE2, CHR 0x80, CHR 0xA9] then BSLASH # ''u2029'' @ quote_body (drop 3 s)
     else take (utf8_len s) s @ quote_body (drop (utf8_len s) s))"
  unfolding s using assms(1,2) by (subst quote_body.simps) (simp only: list.case if_False)

theorem json_str_quote: "utf8_valid s \<Longrightarrow> json_str (quote_body s @ QUOTE # rest) = Some (s, rest)"
proof (induction s rule: utf8_valid.induct)
  case (1 s)
  show ?case
  proof (cases s)
    case Nil
    then show ?thesis by (simp add: quote_body.simps json_str.simps)
  next
    case (Cons a r)
    let ?n = "utf8_len s"
    have n: "?n \<noteq> 0" and v: "utf8_valid (drop ?n s)"
      using iffD1 [OF utf8_valid.simps "1.prems"] Cons by (simp_all split: if_split_asm)
    from "1.IH" n v Cons have ih: "json_str (quote_body (drop ?n s) @ QUOTE # rest) = Some (drop ?n s, rest)" by simp
    show ?thesis
    proof (cases "byte_in 0 0x7F a")
      case True
      with ih Cons show ?thesis
        by (simp add: quote_body.simps [of "a # r"] json_str_ascii utf8_len_ascii)
    next
      case False
      note q = quote_body_multi [OF False _ Cons, folded Cons, OF n]
      have piece: ?thesis
        if "quote_body s = e @ quote_body (drop ?n s)" and "\<And>x. json_str (e @ x) = prepend (take ?n s) (json_str x)" for e
        by (simp add: that ih)
      consider (ls) "take 3 s = [CHR 0xE2, CHR 0x80, CHR 0xA8]"
        | (ps) "take 3 s = [CHR 0xE2, CHR 0x80, CHR 0xA9]" "take 3 s \<noteq> [CHR 0xE2, CHR 0x80, CHR 0xA8]"
        | (plain) "take 3 s \<noteq> [CHR 0xE2, CHR 0x80, CHR 0xA8]" "take 3 s \<noteq> [CHR 0xE2, CHR 0x80, CHR 0xA9]" by blast
      then show ?thesis
      proof cases
        case ls
        then have l: "?n = 3" by (blast intro: separator_len)
        show ?thesis
          by (rule piece [of "BSLASH # ''u2028''"]) (use json_str_separators(1) in \<open>simp_all add: q l ls\<close>)
      next
        case ps
        then have l: "?n = 3" by (blast intro: separator_len)
        show ?thesis
          by (rule piece [of "BSLASH # ''u2029''"])
            (use json_str_separators(2) in \<open>simp_all add: q l ps(1)\<close>)
      next
        case plain
        show ?thesis
          by (rule piece [of "take ?n s"])
            (use plain json_str_multi [OF False, of r, folded Cons] n in \<open>simp_all only: q if_False not_False_eq_True\<close>)
      qed
    qed
  qed
qed

section \<open>Documents round-trip\<close>

fun commas :: "string list \<Rightarrow> string" where
  "commas [] = []"
| "commas [x] = x"
| "commas (x # y # ys) = x @ CHR '','' # commas (y # ys)"

text \<open>The compact text of a document, as canonical encoders write it.\<close>

fun json_print :: "json \<Rightarrow> string" where
  "json_print JNull = ''null''"
| "json_print (JBool b) = (if b then ''true'' else ''false'')"
| "json_print (JNum t) = t"
| "json_print (JStr s) = json_quote s"
| "json_print (JArr vs) = CHR ''['' # commas (map json_print vs) @ '']''"
| "json_print (JObj ms) =
     CHR ''{'' # commas (map (\<lambda>m. json_quote (fst m) @ CHR '':'' # json_print (snd m)) ms) @ ''}''"

fun wf_json :: "json \<Rightarrow> bool" where
  "wf_json (JNum t) \<longleftrightarrow> (\<exists>n. t = nat_str n)"
| "wf_json (JStr s) \<longleftrightarrow> utf8_valid s"
| "wf_json (JArr vs) \<longleftrightarrow> list_all wf_json vs"
| "wf_json (JObj ms) \<longleftrightarrow> list_all (\<lambda>m. utf8_valid (fst m) \<and> wf_json (snd m)) ms"
| "wf_json _ \<longleftrightarrow> True"

definition delim_start :: "string \<Rightarrow> bool" where
  "delim_start r \<longleftrightarrow> r = [] \<or> hd r \<in> {CHR '','', CHR '']'', CHR ''}''}"

lemma delim_start_simps [simp]:
  "delim_start []" "delim_start (CHR '','' # r)" "delim_start (CHR '']'' # r)" "delim_start (CHR ''}'' # r)"
  by (simp_all add: delim_start_def)

lemma scan_number_nat_str:
  assumes "delim_start r"
  shows "scan_number (nat_str n @ r) = Some (nat_str n, r)"
proof -
  have nd: "r = [] \<or> (\<exists>c r'. r = c # r' \<and> \<not> is_digit c \<and> c \<noteq> CHR ''.'' \<and> c \<noteq> CHR ''e'' \<and> c \<noteq> CHR ''E'')"
    using assms by (cases r) (auto simp: delim_start_def class_defs)
  have tw: "takeWhile is_digit (nat_str n @ r) = nat_str n" "dropWhile is_digit (nat_str n @ r) = r"
    using nat_str_digits [of n] nd by (auto simp: list_all_iff takeWhile_append dropWhile_append)
  obtain c s where s: "nat_str n = c # s" "is_digit c"
    using nat_str_nonempty [of n] nat_str_digits [of n] by (cases "nat_str n") auto
  have "c = CHR ''0'' \<Longrightarrow> s = []"
    using s nat_str_hd [of n] by (cases "n = 0") (auto simp: nat_str_small)
  then have "num_int (nat_str n @ r) = Some (nat_str n, r)"
    using s tw by (auto simp: num_int_def)
  moreover have "num_frac r = Some ([], r)" "num_exp r = Some ([], r)"
    using nd by (auto simp: num_frac_def num_exp_def)
  moreover have "c \<noteq> CHR ''-''" using s by (auto simp: class_defs)
  ultimately show ?thesis using s by (simp add: scan_number_def)
qed

lemma digit_not_structural:
  assumes "is_digit c"
  shows "\<not> is_ws c" "c \<noteq> CHR ''{''" "c \<noteq> CHR ''[''" "c \<noteq> QUOTE" "c \<noteq> CHR ''t''" "c \<noteq> CHR ''f''" "c \<noteq> CHR ''n''"
    "c \<noteq> CHR '']''" "c \<noteq> CHR ''}''"
  using assms by (auto simp: class_defs is_ws_def QUOTE_def)

lemma skip_ws_Cons: "\<not> is_ws c \<Longrightarrow> skip_ws (c # r) = c # r"
  by (simp add: skip_ws_def)

lemma not_ws [simp]:
  "\<not> is_ws QUOTE" "\<not> is_ws CHR ''{''" "\<not> is_ws CHR ''[''" "\<not> is_ws CHR ''}''" "\<not> is_ws CHR '']''"
  "\<not> is_ws CHR '',''" "\<not> is_ws CHR '':''" "\<not> is_ws CHR ''n''" "\<not> is_ws CHR ''t''" "\<not> is_ws CHR ''f''"
  by (simp_all add: is_ws_def QUOTE_def)

lemma QUOTE_distinct [simp]:
  "QUOTE \<noteq> CHR ''{''" "QUOTE \<noteq> CHR ''[''" "QUOTE \<noteq> CHR ''}''" "QUOTE \<noteq> CHR '']''"
  "CHR ''n'' \<noteq> QUOTE" "CHR ''t'' \<noteq> QUOTE" "CHR ''f'' \<noteq> QUOTE"
  by (simp_all add: QUOTE_def)

lemma json_print_start: "wf_json j \<Longrightarrow> \<exists>c s. json_print j = c # s \<and> \<not> is_ws c \<and> c \<noteq> CHR '']'' \<and> c \<noteq> CHR ''}''"
proof (cases j)
  case (JNum t)
  assume "wf_json j"
  then obtain n where "t = nat_str n" using JNum by auto
  moreover obtain c s where "nat_str n = c # s" "is_digit c"
    using nat_str_nonempty [of n] nat_str_digits [of n] by (cases "nat_str n") auto
  ultimately show ?thesis using JNum digit_not_structural by auto
qed (auto simp: json_quote_def is_ws_def QUOTE_def)

definition value_ok :: "json \<Rightarrow> bool" where
  "value_ok j \<longleftrightarrow> (\<forall>n r. length (json_print j) < n \<longrightarrow> delim_start r \<longrightarrow> parse_value n (json_print j @ r) = Some (j, r))"

lemma value_okD: "value_ok j \<Longrightarrow> length (json_print j) < n \<Longrightarrow> delim_start r \<Longrightarrow> parse_value n (json_print j @ r) = Some (j, r)"
  by (simp add: value_ok_def)

lemma value_okI: "(\<And>n r. delim_start r \<Longrightarrow> parse_value (Suc n) (json_print j @ r) = Some (j, r)) \<Longrightarrow> value_ok j"
  unfolding value_ok_def by (metis gr0_conv_Suc less_nat_zero_code not_gr_zero)

lemma skip_ws_delims [simp]:
  "skip_ws (CHR '','' # r) = CHR '','' # r" "skip_ws (CHR '']'' # r) = CHR '']'' # r"
  "skip_ws (CHR ''}'' # r) = CHR ''}'' # r" "skip_ws (CHR '':'' # r) = CHR '':'' # r"
  "skip_ws (QUOTE # r) = QUOTE # r" "skip_ws [] = []"
  by (simp_all add: skip_ws_def)

lemma parse_elems_print:
  assumes "vs \<noteq> []" and "\<And>v. v \<in> set vs \<Longrightarrow> value_ok v" and "length (commas (map json_print vs)) + 1 < n"
  shows "parse_elems n (commas (map json_print vs) @ CHR '']'' # r) = Some (vs, r)"
  using assms
proof (induction vs arbitrary: n rule: induct_list012)
  case (2 v)
  then obtain k where n: "n = Suc k" by (cases n) auto
  with 2 have "parse_value k (json_print v @ CHR '']'' # r) = Some (v, CHR '']'' # r)" by (intro value_okD) auto
  then show ?case by (simp add: n)
next
  case (3 v w vs)
  then obtain k where n: "n = Suc k" by (cases n) auto
  let ?rest = "commas (map json_print (w # vs)) @ CHR '']'' # r"
  from 3 n have "parse_value k (json_print v @ CHR '','' # ?rest) = Some (v, CHR '','' # ?rest)" by (intro value_okD) auto
  moreover from 3 n have "parse_elems k ?rest = Some (w # vs, r)" by (intro "3.IH"(2)) auto
  ultimately show ?case by (simp add: n)
qed simp

abbreviation member_text :: "bytes \<times> json \<Rightarrow> string" where
  "member_text m \<equiv> json_quote (fst m) @ CHR '':'' # json_print (snd m)"

lemma parse_member_print:
  assumes "utf8_valid (fst m)" "value_ok (snd m)" "length (member_text m) < Suc n" "delim_start r"
  shows "parse_members (Suc n) (member_text m @ r) =
    (case skip_ws r of
       [] \<Rightarrow> None
     | d # s5 \<Rightarrow>
         if d = CHR ''}'' then Some ([m], s5)
         else if d = CHR '','' then map_option (\<lambda>(ms, r). (m # ms, r)) (parse_members n s5) else None)"
proof -
  have "parse_value n (json_print (snd m) @ r) = Some (snd m, r)"
    using assms by (intro value_okD) (auto simp: json_quote_def)
  moreover have "json_str (quote_body (fst m) @ QUOTE # CHR '':'' # json_print (snd m) @ r) =
      Some (fst m, CHR '':'' # json_print (snd m) @ r)" using assms(1) by (rule json_str_quote)
  ultimately show ?thesis by (simp add: json_quote_def split: list.split)
qed

lemma parse_members_print:
  assumes "ms \<noteq> []" and "\<And>m. m \<in> set ms \<Longrightarrow> utf8_valid (fst m) \<and> value_ok (snd m)"
    and "length (commas (map member_text ms)) + 1 < n"
  shows "parse_members n (commas (map member_text ms) @ CHR ''}'' # r) = Some (ms, r)"
  using assms
proof (induction ms arbitrary: n rule: induct_list012)
  case (2 m)
  then obtain k where n: "n = Suc k" by (cases n) auto
  from 2 have "length (member_text m) < Suc k" by (simp add: n)
  with 2 show ?case by (simp add: n parse_member_print del: parse_members.simps append_assoc)
next
  case (3 m m' ms)
  then obtain k where n: "n = Suc k" by (cases n) auto
  let ?rest = "commas (map member_text (m' # ms)) @ CHR ''}'' # r"
  have "parse_members k ?rest = Some (m' # ms, r)" using 3 n by (intro "3.IH"(2)) auto
  moreover have "parse_members (Suc k) (member_text m @ CHR '','' # ?rest) =
      map_option (\<lambda>(ms, r). (m # ms, r)) (parse_members k ?rest)"
    using 3 n by (subst parse_member_print) auto
  ultimately show ?case by (simp add: n del: parse_members.simps)
qed simp

lemma commas_start:
  "vs \<noteq> [] \<Longrightarrow> (\<And>v. v \<in> set vs \<Longrightarrow> \<exists>c s. v = c # s \<and> \<not> is_ws c \<and> c \<noteq> x) \<Longrightarrow>
     \<exists>c s. commas vs = c # s \<and> \<not> is_ws c \<and> c \<noteq> x"
  by (induction vs rule: induct_list012) fastforce+

theorem parse_value_print: "wf_json j \<Longrightarrow> value_ok j"
proof (induction j)
  case (JNum t)
  then obtain k where t: "t = nat_str k" by auto
  obtain c s where cs: "nat_str k = c # s" "is_digit c"
    using nat_str_nonempty [of k] nat_str_digits [of k] by (cases "nat_str k") auto
  have "parse_value (Suc n) (nat_str k @ r) = Some (JNum (nat_str k), r)" if "delim_start r" for n r
    using scan_number_nat_str [OF that, of k] digit_not_structural [OF cs(2)] cs(1)
    by (simp add: skip_ws_Cons)
  then show ?case unfolding t by (intro value_okI) simp
next
  case (JStr s)
  then have "parse_value (Suc n) (json_quote s @ r) = Some (JStr s, r)" for n r
    using json_str_quote [of s r] by (simp add: json_quote_def)
  then show ?case by (intro value_okI) simp
next
  case (JArr vs)
  show ?case unfolding value_ok_def
  proof (intro allI impI)
    fix n r assume l: "length (json_print (JArr vs)) < n" and "delim_start r"
    then obtain k where n: "n = Suc k" by (cases n) auto
    show "parse_value n (json_print (JArr vs) @ r) = Some (JArr vs, r)"
    proof (cases "vs = []")
      case False
      have ok: "\<And>v. v \<in> set vs \<Longrightarrow> value_ok v" using JArr by (auto simp: list_all_iff)
      have "\<exists>c s. commas (map json_print vs) = c # s \<and> \<not> is_ws c \<and> c \<noteq> CHR '']''"
        using False JArr.prems by (intro commas_start) (auto simp: list_all_iff dest!: json_print_start)
      moreover have "parse_elems k (commas (map json_print vs) @ CHR '']'' # r) = Some (vs, r)"
        using False ok l n by (intro parse_elems_print) auto
      ultimately show ?thesis by (auto simp: n skip_ws_Cons)
    qed (simp add: n skip_ws_Cons)
  qed
next
  case (JObj ms)
  show ?case unfolding value_ok_def
  proof (intro allI impI)
    fix n r assume l: "length (json_print (JObj ms)) < n" and "delim_start r"
    then obtain k where n: "n = Suc k" by (cases n) auto
    show "parse_value n (json_print (JObj ms) @ r) = Some (JObj ms, r)"
    proof (cases "ms = []")
      case False
      have ok: "\<And>m. m \<in> set ms \<Longrightarrow> utf8_valid (fst m) \<and> value_ok (snd m)"
        using JObj by (auto simp: list_all_iff snds.simps)
      have "\<exists>c s. commas (map member_text ms) = c # s \<and> \<not> is_ws c \<and> c \<noteq> CHR ''}''"
        using False by (intro commas_start) (auto simp: json_quote_def)
      moreover have "parse_members k (commas (map member_text ms) @ CHR ''}'' # r) = Some (ms, r)"
        using False ok l n by (intro parse_members_print) auto
      ultimately show ?thesis by (auto simp: n skip_ws_Cons simp del: parse_members.simps)
    qed (simp add: n skip_ws_Cons)
  qed
next
  case JNull
  show ?case by (rule value_okI) (simp add: skip_ws_Cons)
next
  case (JBool b)
  show ?case by (rule value_okI) (cases b; simp add: skip_ws_Cons)
qed

theorem parse_doc_print: "wf_json j \<Longrightarrow> parse_doc (json_print j) = Some j"
  using value_okD [OF parse_value_print, of j "2 * length (json_print j) + 2" "[]"]
  by (simp add: parse_doc_def)

section \<open>The fuel is enough\<close>

lemma skip_ws_length: "length (skip_ws s) \<le> length s"
  by (simp add: skip_ws_def length_dropWhile_le)

lemma prepend_rest: "prepend p x = Some (b, r) \<Longrightarrow> \<exists>b'. x = Some (b', r)"
  by (cases x) (auto simp: prepend_def)

lemma json_str_step:
  assumes "json_str s = Some (b, r)"
  shows "s = QUOTE # r \<or> (\<exists>p u. prepend p (json_str u) = Some (b, r) \<and> length u < length s)"
proof (cases s)
  case Nil
  with assms show ?thesis by (simp add: json_str.simps)
next
  case (Cons c t)
  note eq = assms [unfolded json_str.simps [of s]]
  have u: "length v < length s" if "t = x # w" "getu4 w = Some (y, v)" for x w y v
    using getu4_length [OF that(2)] that(1) Cons by simp
  have l: "length v' < length s" if "t = x # w" "getu4 w = Some (y, v)" "low_surrogate y v = Some (z, v')" for x w y v z v'
    using low_surrogate_length [OF that(3)] u [OF that(1,2)] by simp
  show ?thesis
  proof (cases "c = BSLASH")
    case True
    then have "c \<noteq> QUOTE" by (simp add: BSLASH_def QUOTE_def)
    then obtain e w where t: "t = e # w" using eq True Cons by (cases t) auto
    show ?thesis
    proof (cases "e = CHR ''u''")
      case True
      then obtain y v where g: "getu4 w = Some (y, v)"
        using eq \<open>c = BSLASH\<close> \<open>c \<noteq> QUOTE\<close> Cons t
        by (cases "getu4 w") auto
      with True eq \<open>c = BSLASH\<close> \<open>c \<noteq> QUOTE\<close> Cons t u [OF t g] l [OF t g] show ?thesis
        by (auto split: if_split_asm option.split_asm)
    next
      case False
      with eq \<open>c = BSLASH\<close> \<open>c \<noteq> QUOTE\<close> Cons t show ?thesis
        by (simp split: option.split_asm) (metis less_SucI lessI)
    qed
  next
    case False
    have "\<exists>p u. prepend p (json_str u) = Some (b, r) \<and> length u < length s"
      if "prepend p (json_str (drop k s)) = Some (b, r)" "k \<noteq> 0" for p k
      using that Cons by (intro exI [of _ p] exI [of _ "drop k s"]) simp
    from this [of _ "utf8_len s"] this [of _ 1] eq False Cons show ?thesis
      by (auto split: if_split_asm)
  qed
qed

lemma json_str_length: "json_str s = Some (b, r) \<Longrightarrow> length r < length s"
proof (induction "length s" arbitrary: s b rule: less_induct)
  case less
  from json_str_step [OF less.prems] show ?case
    using less.hyps by (metis length_Cons lessI less_trans prepend_rest)
qed

lemma num_digits_length: "num_digits s = Some (t, r) \<Longrightarrow> length r < length s"
proof -
  assume "num_digits s = Some (t, r)"
  then have "takeWhile is_digit s \<noteq> []" "r = dropWhile is_digit s" by (auto simp: num_digits_def split: if_splits)
  then show ?thesis
    using arg_cong [OF takeWhile_dropWhile_id [of is_digit s], of length] by (cases "takeWhile is_digit s") auto
qed

lemma scan_number_length: "scan_number s = Some (t, r) \<Longrightarrow> length r < length s"
proof -
  assume a: "scan_number s = Some (t, r)"
  define r0 where "r0 = (if take 1 s = ''-'' then drop 1 s else s)"
  obtain i r1 f r2 e where n: "num_int r0 = Some (i, r1)" "num_frac r1 = Some (f, r2)" "num_exp r2 = Some (e, r)"
    using a by (auto simp: scan_number_def r0_def split: if_splits option.splits)
  have "length r \<le> length r2"
    using n(3) by (auto simp: num_exp_def split: list.splits if_splits dest!: num_digits_length)
  also have "\<dots> \<le> length r1"
    using n(2) by (auto simp: num_frac_def split: list.splits if_splits dest!: num_digits_length)
  also have "\<dots> < length r0"
    using n(1) by (auto simp: num_int_def length_dropWhile_le less_Suc_eq_le split: list.splits if_splits)
  also have "\<dots> \<le> length s" by (simp add: r0_def)
  finally show ?thesis .
qed

lemma skip_ws_Cons_length: "skip_ws s = c # r \<Longrightarrow> length r < length s"
  using skip_ws_length [of s] by simp

lemma parse_length:
  "parse_value n s = Some (j, r) \<Longrightarrow> length r < length s"
  "parse_elems n s = Some (vs, r) \<Longrightarrow> length r < length s"
  "parse_members n s = Some (ms, r) \<Longrightarrow> length r < length s"
proof (induction n s and n s and n s arbitrary: j r and vs r and ms r
    rule: parse_value_parse_elems_parse_members.induct)
  case (2 n s)
  then obtain c t where s: "skip_ws s = c # t" by (cases "skip_ws s") auto
  note l = skip_ws_Cons_length [OF s]
  have d: "length (skip_ws t) - Suc 0 \<le> length t" using skip_ws_length [of t] by simp
  from 2 s l d show ?case
    by (auto split: if_split_asm dest!: json_str_length scan_number_length)
      (blast intro: le_less_trans less_trans)+
next
  case (4 n s)
  then obtain v t c u where v: "parse_value n s = Some (v, t)" and t: "skip_ws t = c # u"
    by (auto split: option.split_asm list.split_asm)
  have "length t < length s" using "4.IH"(1) v by blast
  moreover have "length u < length t" using t by (rule skip_ws_Cons_length)
  ultimately show ?case using "4.prems" "4.IH"(2) [OF v refl t] v t
    by (auto split: if_split_asm dest: less_trans)
next
  case (6 n s)
  then obtain q s1 where s: "skip_ws s = q # s1" "q = QUOTE" by (auto split: list.split_asm if_split_asm)
  with 6 obtain k s2 where k: "json_str s1 = Some (k, s2)" by (auto split: option.split_asm)
  with 6 s obtain c s3 where c: "skip_ws s2 = c # s3" "c = CHR '':''" by (auto split: list.split_asm if_split_asm)
  with 6 s k obtain v s4 where v: "parse_value n s3 = Some (v, s4)" by (auto split: option.split_asm)
  with 6 s k c obtain d s5 where d: "skip_ws s4 = d # s5" by (auto split: list.split_asm)
  have "length s1 < length s" "length s2 < length s1" "length s3 < length s2" "length s5 < length s4"
    using s(1) k c(1) d by (auto dest: skip_ws_Cons_length json_str_length)
  moreover have "length s4 < length s3" using 6 s k c v by auto
  ultimately have l: "length s5 < length s" by linarith
  show ?case
  proof (cases "d = CHR ''}''")
    case True
    with 6 s k c v d l show ?thesis by auto
  next
    case False
    with 6 s k c v d obtain ms' where "parse_members n s5 = Some (ms', r)" "d = CHR '',''"
      by (auto split: if_split_asm)
    then have "length r < length s5" using 6 s k c v d False by auto
    with l show ?thesis by simp
  qed
qed simp_all

text \<open>
  More fuel than twice the length changes nothing, so \<open>parse_doc\<close> rejects for syntax only.
\<close>

lemma parse_fuel:
  "2 * length s < n \<Longrightarrow> 2 * length s < m \<Longrightarrow> parse_value n s = parse_value m s"
  "2 * length s + 1 < n \<Longrightarrow> 2 * length s + 1 < m \<Longrightarrow> parse_elems n s = parse_elems m s"
  "2 * length s < n \<Longrightarrow> 2 * length s < m \<Longrightarrow> parse_members n s = parse_members m s"
proof (induction n s and n s and n s arbitrary: m and m and m
    rule: parse_value_parse_elems_parse_members.induct)
  case (2 n s)
  obtain k where m: "m = Suc k" using "2.prems" by (cases m) auto
  show ?case
  proof (cases "skip_ws s")
    case Nil
    then show ?thesis by (simp add: m)
  next
    case (Cons c t)
    note l = skip_ws_Cons_length [OF Cons]
    have "parse_members n t = parse_members k t" if "c = CHR ''{''" "take 1 (skip_ws t) \<noteq> ''}''"
      by (intro "2.IH"(1) [OF Cons]) (use that "2.prems" l m in auto)
    moreover have "parse_elems n t = parse_elems k t" if "c = CHR ''[''" "take 1 (skip_ws t) \<noteq> '']''"
      by (intro "2.IH"(2) [OF Cons]) (use that "2.prems" l m in auto)
    ultimately show ?thesis by (simp add: m Cons)
  qed
next
  case (4 n s)
  obtain k where m: "m = Suc k" using "4.prems" by (cases m) auto
  have v: "parse_value n s = parse_value k s" by (intro "4.IH"(1)) (use "4.prems" m in auto)
  show ?case
  proof (cases "parse_value n s")
    case (Some p)
    then obtain j t where p: "parse_value n s = Some (j, t)" by (cases p) auto
    note l = parse_length(1) [OF p]
    have "parse_elems n u = parse_elems k u" if "skip_ws t = c # u" "c \<noteq> CHR '']''" "c = CHR '',''" for c u
      by (intro "4.IH"(2) [OF p refl that(1)])
        (use that "4.prems" m l skip_ws_Cons_length [OF that(1)] in auto)
    moreover have "parse_value k s = Some (j, t)" using v p by simp
    ultimately show ?thesis using p by (simp add: m split: list.split)
  qed (use v m in simp)
next
  case (6 n s)
  obtain k where m: "m = Suc k" using "6.prems" by (cases m) auto
  show ?case
  proof (cases "skip_ws s")
    case Nil
    then show ?thesis by (simp add: m)
  next
    case (Cons q s1)
    note l1 = skip_ws_Cons_length [OF Cons]
    have pv: "parse_value n s3 = parse_value k s3"
      if "q = QUOTE" "json_str s1 = Some (b, s2)" "skip_ws s2 = c # s3" "c = CHR '':''" for b s2 c s3
      by (intro "6.IH"(1) [OF Cons _ that(2) refl that(3)])
        (use that "6.prems" m l1 json_str_length [OF that(2)] skip_ws_Cons_length [OF that(3)] in auto)
    have pm: "parse_members n s5 = parse_members k s5"
      if "q = QUOTE" "json_str s1 = Some (b, s2)" "skip_ws s2 = c # s3" "c = CHR '':''"
        "parse_value n s3 = Some (v, s4)" "skip_ws s4 = d # s5" "d \<noteq> CHR ''}''" "d = CHR '',''" for b s2 c s3 v s4 d s5
      by (intro "6.IH"(2) [OF Cons _ that(2) refl that(3) _ that(5) refl that(6)])
        (use that "6.prems" m l1 json_str_length [OF that(2)] skip_ws_Cons_length [OF that(3)]
          parse_length(1) [OF that(5)] skip_ws_Cons_length [OF that(6)] in auto)
    show ?thesis
      using pv pm by (simp add: m Cons split: option.split list.split)
  qed
qed simp_all

section \<open>Plain strings\<close>

text \<open>Texts over the contract alphabets need no escaping.\<close>

lemma quote_body_safe: "list_all html_safe s \<Longrightarrow> quote_body s = s"
proof (induction s)
  case Nil
  then show ?case by (simp add: quote_body.simps)
next
  case (Cons c s)
  then have "byte_in 0 0x7F c" by (auto simp: html_safe_def byte_in_def)
  with Cons show ?case by (simp add: quote_body.simps [of "c # s"] escape_ascii_def)
qed

lemma html_safe_ascii: "html_safe c \<Longrightarrow> is_ascii c"
  by (auto simp: html_safe_def is_ascii_byte byte_in_def)

lemma utf8_valid_safe: "list_all html_safe s \<Longrightarrow> utf8_valid s"
  by (rule utf8_valid_ascii) (auto simp: list_all_iff html_safe_ascii)

lemma json_quote_safe: "list_all html_safe s \<Longrightarrow> json_quote s = QUOTE # s @ [QUOTE]"
  by (simp add: json_quote_def quote_body_safe)

lemma html_safe_classes:
  "is_digit c \<Longrightarrow> html_safe c" "is_hexlow c \<Longrightarrow> html_safe c" "is_lower c \<Longrightarrow> html_safe c" "is_upper c \<Longrightarrow> html_safe c"
  by (auto simp: html_safe_def class_defs byte_in_def byte_val_def)

lemma html_safe_marks [simp]:
  "html_safe CHR ''-''" "html_safe CHR '':''" "html_safe CHR ''.''" "html_safe CHR ''_''" "html_safe CHR ''T''"
  "html_safe CHR ''Z''" "html_safe CHR '' ''"
  by (simp_all add: html_safe_def byte_in_def byte_val_def)

end
