(* ===== verification/Go_Time.thy ===== *)
theory Go_Time
  imports Prelude "HOL-Library.Monad_Syntax"
begin

text \<open>
  The part of Go's \<open>time\<close> package that reaches persisted or signed bytes: the proleptic
  Gregorian calendar, \<open>Year\<close>, \<open>Format\<close> and \<open>Parse\<close> for the layouts \<open>RFC3339Nano\<close> and
  \<open>2006-01-02T15:04:05.000Z\<close>, and saturating \<open>Sub\<close>. A \<open>time.Time\<close> whose location matters is
  an instant with the zone offset in seconds; everywhere else it is the instant.

  \<open>civil_days_of\<close> shows the calendar conversion exact; \<open>parse_format_rfc3339\<close> and
  \<open>parse_format_millis\<close> are the round trips for years 1 to 9999 (for milliseconds: on whole
  milliseconds); \<open>format_rfc3339_inj\<close> shows that the nanosecond format is injective in every year.
\<close>

section \<open>Calendar\<close>

definition is_leap :: "int \<Rightarrow> bool" where
  "is_leap y \<longleftrightarrow> y mod 4 = 0 \<and> (y mod 100 \<noteq> 0 \<or> y mod 400 = 0)"

definition days_before_year :: "int \<Rightarrow> int" where
  "days_before_year y = 365 * (y - 1) + (y - 1) div 4 - (y - 1) div 100 + (y - 1) div 400"

definition month_lengths :: "int \<Rightarrow> int list" where
  "month_lengths y = [31, if is_leap y then 29 else 28, 31, 30, 31, 30, 31, 31, 30, 31, 30, 31]"

definition days_of_civil :: "int \<Rightarrow> nat \<Rightarrow> int \<Rightarrow> int" where
  "days_of_civil y m d = days_before_year y + sum_list (take (m - 1) (month_lengths y)) + d - 1"

text \<open>The year of a day number, through the 400, 100, 4 and 1 year cycles.\<close>

definition year_of_days :: "int \<Rightarrow> int" where
  "year_of_days n =
     (let n400 = n div 146097; r = n mod 146097;
          n100 = min 3 (r div 36524); r = r - 36524 * n100;
          n4 = r div 1461; r = r mod 1461;
          n1 = min 3 (r div 365)
      in 400 * n400 + 100 * n100 + 4 * n4 + n1 + 1)"

fun month_split :: "int list \<Rightarrow> int \<Rightarrow> nat \<Rightarrow> nat \<times> int" where
  "month_split [] d m = (m, d + 1)"
| "month_split (l # ls) d m = (if d < l then (m, d + 1) else month_split ls (d - l) (Suc m))"

definition civil_of_days :: "int \<Rightarrow> int \<times> nat \<times> int" where
  "civil_of_days n = (let y = year_of_days n; md = month_split (month_lengths y) (n - days_before_year y) 1
     in (y, fst md, snd md))"

lemma year_cycle:
  fixes a b c e :: int
  assumes "0 \<le> b" "b \<le> 3" "0 \<le> c" "c \<le> 24" "0 \<le> e" "e \<le> 3"
  shows "days_before_year (400 * a + 100 * b + 4 * c + e + 1) = 146097 * a + 36524 * b + 1461 * c + 365 * e"
proof -
  let ?k = "400 * a + 100 * b + 4 * c + e"
  have "?k div 4 = 100 * a + 25 * b + c"
    using assms by (intro int_div_pos_eq [of _ _ _ e]) auto
  moreover have "?k div 100 = 4 * a + b"
    using assms by (intro int_div_pos_eq [of _ _ _ "4 * c + e"]) auto
  moreover have "?k div 400 = a"
    using assms by (intro int_div_pos_eq [of _ _ _ "100 * b + 4 * c + e"]) auto
  ultimately show ?thesis by (simp add: days_before_year_def)
qed

lemma div_pred:
  fixes y k :: int
  assumes "0 < k"
  shows "(y - 1) div k = y div k - (if k dvd y then 1 else 0)"
proof (cases "k dvd y")
  case True
  then have "y - 1 = k * (y div k - 1) + (k - 1)" by (simp add: algebra_simps)
  then have "(y - 1) div k = y div k - 1" using assms by (intro int_div_pos_eq [of _ _ _ "k - 1"]) auto
  with True show ?thesis by simp
next
  case False
  then have "0 < y mod k" using assms by (simp add: dvd_eq_mod_eq_0 order_le_neq_trans)
  moreover have "y - 1 = k * (y div k) + (y mod k - 1)" by simp
  moreover have "y mod k < k" using assms by simp
  ultimately have "(y - 1) div k = y div k" by (intro int_div_pos_eq [of _ _ _ "y mod k - 1"]) auto
  with False show ?thesis by simp
qed

lemma days_before_year_Suc:
  "days_before_year (y + 1) = days_before_year y + (if is_leap y then 366 else 365)"
proof -
  have "100 dvd y" if "400 dvd y" using dvd_trans [OF _ that, of 100] by simp
  moreover have "4 dvd y" if "100 dvd y" using dvd_trans [OF _ that, of 4] by simp
  ultimately show ?thesis
    by (simp add: days_before_year_def is_leap_def div_pred dvd_eq_mod_eq_0 [symmetric])
qed

lemma year_of_days_bounds:
  "days_before_year (year_of_days n) \<le> n \<and> n < days_before_year (year_of_days n + 1)"
proof -
  define a r1 b r2 c r3 e where v: "a = n div 146097" "r1 = n mod 146097" "b = min 3 (r1 div 36524)"
    "r2 = r1 - 36524 * b" "c = r2 div 1461" "r3 = r2 mod 1461" "e = min 3 (r3 div 365)"
  have y: "year_of_days n = 400 * a + 100 * b + 4 * c + e + 1"
    by (simp add: year_of_days_def Let_def v)
  have r1: "0 \<le> r1" "r1 < 146097" "n = 146097 * a + r1" by (simp_all add: v)
  have "36524 * (r1 div 36524) \<le> r1" "r1 < 36524 * (r1 div 36524) + 36524" "0 \<le> r1 div 36524"
    using mult_div_mod_eq [of 36524 r1] pos_mod_bound [of 36524 r1] pos_mod_sign [of 36524 r1] r1(1)
    by (simp_all add: pos_imp_zdiv_nonneg_iff)
  then have b: "0 \<le> b" "b \<le> 3" "0 \<le> r2" "r2 \<le> 36524" "b < 3 \<Longrightarrow> r2 < 36524"
    using r1 by (auto simp: v(3,4) min_def split: if_splits)
  have "1461 * c + r3 = r2" by (simp add: v)
  moreover have r3: "0 \<le> r3" "r3 < 1461" by (simp_all add: v)
  ultimately have c: "0 \<le> c" "c \<le> 24" "r2 = 1461 * c + r3"
    using b by (auto simp: v(5) pos_imp_zdiv_nonneg_iff)
  have "365 * (r3 div 365) \<le> r3" "r3 < 365 * (r3 div 365) + 365" "0 \<le> r3 div 365"
    using mult_div_mod_eq [of 365 r3] pos_mod_bound [of 365 r3] pos_mod_sign [of 365 r3] r3(1)
    by (simp_all add: pos_imp_zdiv_nonneg_iff)
  then have e: "0 \<le> e" "e \<le> 3" "365 * e \<le> r3" "e < 3 \<Longrightarrow> r3 < 365 * e + 365"
    by (auto simp: v(7) min_def split: if_splits)
  note dy = year_cycle [OF b(1,2) c(1,2) e(1,2), of a, folded y]
  have n: "n = 146097 * a + 36524 * b + 1461 * c + r3" using r1 c by (simp add: v(4))
  have lo: "days_before_year (year_of_days n) \<le> n" using dy n e by linarith
  have "n - days_before_year (year_of_days n) < (if is_leap (year_of_days n) then 366 else 365)"
  proof (cases "e = 3")
    case False
    then have "r3 < 365 * e + 365" using e by simp
    then show ?thesis using dy n by simp
  next
    case True
    have "year_of_days n = 4 * (100 * a + 25 * b + c + 1)" by (simp add: y True)
    then have m4: "4 dvd year_of_days n" by (metis dvd_triv_left)
    consider "c < 24" | "c = 24" "b < 3" | "c = 24" "b = 3" using b c by linarith
    then show ?thesis
    proof cases
      case 1
      have "\<not> 100 dvd year_of_days n"
      proof
        assume "100 dvd year_of_days n"
        moreover have "year_of_days n = 100 * (4 * a + b) + (4 * c + 4)" by (simp add: y True)
        ultimately have "100 dvd 4 * c + 4" by (metis dvd_add_right_iff dvd_triv_left)
        with 1 c zdvd_not_zless [of "4 * c + 4" 100] show False by simp
      qed
      with m4 have "is_leap (year_of_days n)" by (simp add: is_leap_def dvd_eq_mod_eq_0)
      then show ?thesis using dy n r3 True by simp
    next
      case 2
      then have "r2 < 36524" using b by simp
      with 2 c have "r3 < 1460" by simp
      then show ?thesis using dy n True by simp
    next
      case 3
      then have "year_of_days n = 400 * (a + 1)" by (simp add: y True)
      then have "400 dvd year_of_days n" by (metis dvd_triv_left)
      with m4 have "is_leap (year_of_days n)" by (simp add: is_leap_def dvd_eq_mod_eq_0)
      then show ?thesis using dy n r3 True by simp
    qed
  qed
  with lo show ?thesis by (simp add: days_before_year_Suc)
qed

lemma month_split_inverse:
  "month_split ls d m0 = (m, dd) \<Longrightarrow> 0 \<le> d \<Longrightarrow> d < sum_list ls \<Longrightarrow>
     m0 \<le> m \<and> m < m0 + length ls \<and> 1 \<le> dd \<and> dd \<le> ls ! (m - m0) \<and> sum_list (take (m - m0) ls) + dd - 1 = d"
proof (induction ls d m0 rule: month_split.induct)
  case (2 l ls d m0)
  show ?case
  proof (cases "d < l")
    case False
    then have ih: "Suc m0 \<le> m \<and> m < Suc m0 + length ls \<and> 1 \<le> dd \<and> dd \<le> ls ! (m - Suc m0) \<and>
        sum_list (take (m - Suc m0) ls) + dd - 1 = d - l"
      using 2 by (intro "2.IH") simp_all
    then obtain k where k: "m = Suc m0 + k" using le_Suc_ex by blast
    from ih have "sum_list (take k ls) + dd - 1 = d - l" by (simp add: k)
    with ih show ?thesis by (simp add: k)
  qed (use 2 in auto)
qed simp

lemma length_month_lengths: "length (month_lengths y) = 12"
  by (simp add: month_lengths_def)

lemma sum_month_lengths: "sum_list (month_lengths y) = (if is_leap y then 366 else 365)"
  by (simp add: month_lengths_def)

lemma civil_days_of:
  assumes "civil_of_days n = (y, m, d)"
  shows "days_of_civil y m d = n \<and> y = year_of_days n \<and> 1 \<le> m \<and> m \<le> 12 \<and> 1 \<le> d \<and> d \<le> month_lengths y ! (m - 1)"
proof -
  have y: "y = year_of_days n" and md: "month_split (month_lengths y) (n - days_before_year y) 1 = (m, d)"
    using assms by (auto simp: civil_of_days_def Let_def prod_eq_iff)
  have "0 \<le> n - days_before_year y" "n - days_before_year y < sum_list (month_lengths y)"
    using year_of_days_bounds [of n] days_before_year_Suc [of y] by (auto simp: y sum_month_lengths)
  from month_split_inverse [OF md this] y show ?thesis
    by (simp add: days_of_civil_def length_month_lengths)
qed

lemma days_before_year_mono: "y \<le> z \<Longrightarrow> days_before_year y \<le> days_before_year z"
  by (induction rule: int_ge_induct) (simp_all add: days_before_year_Suc add_increasing2)

lemma year_of_days_ge: "days_before_year y \<le> n \<Longrightarrow> y \<le> year_of_days n"
  using days_before_year_mono [of "year_of_days n + 1" y] year_of_days_bounds [of n] by linarith

lemma year_of_days_less: "n < days_before_year y \<Longrightarrow> year_of_days n < y"
  using days_before_year_mono [of y "year_of_days n"] year_of_days_bounds [of n] by linarith

section \<open>Instants\<close>

abbreviation Day :: duration where "Day \<equiv> 86400000000000"

text \<open>\<open>t.Year()\<close> of an instant seen at a zone offset of \<open>off\<close> seconds.\<close>

definition Year :: "gotime \<Rightarrow> int \<Rightarrow> int" where
  "Year t off = year_of_days ((t + off * Second) div Day)"

text \<open>\<open>t.Sub(u)\<close>: the difference, saturated to the range of a \<open>time.Duration\<close>.\<close>

definition Sub :: "gotime \<Rightarrow> gotime \<Rightarrow> duration" where
  "Sub t u = max (- (2 ^ 63)) (min (2 ^ 63 - 1) (t - u))"

lemma Sub_greater: "0 \<le> d \<Longrightarrow> d < 2 ^ 63 - 1 \<Longrightarrow> d < Sub t u \<longleftrightarrow> d < t - u"
  by (auto simp: Sub_def)

text \<open>The first instant of year 10000.\<close>

definition year_10000 :: gotime where
  "year_10000 = days_before_year 10000 * Day"

definition four_digit_time :: "gotime \<Rightarrow> bool" where
  "four_digit_time t \<longleftrightarrow> 0 \<le> t \<and> t < year_10000"

lemma le_div_int: "0 < (k :: int) \<Longrightarrow> q \<le> n div k \<longleftrightarrow> q * k \<le> n"
proof
  assume k: "0 < k" and "q \<le> n div k"
  then have "q * k \<le> n div k * k" by simp
  also have "\<dots> \<le> n" using k by (simp flip: minus_mod_eq_div_mult)
  finally show "q * k \<le> n" .
next
  assume k: "0 < k" and "q * k \<le> n"
  then have "q * k div k \<le> n div k" by (simp only: zdiv_mono1)
  with k show "q \<le> n div k" by simp
qed

lemma div_less_int: "0 < (k :: int) \<Longrightarrow> n div k < q \<longleftrightarrow> n < q * k"
  using le_div_int [of k q n] by linarith

lemma days_before_year_1: "days_before_year 1 = 0"
  by (simp add: days_before_year_def)

lemma Year_range: "four_digit_time t \<Longrightarrow> 1 \<le> Year t 0 \<and> Year t 0 \<le> 9999"
proof -
  assume t: "four_digit_time t"
  have "days_before_year 1 \<le> t div Day"
    using t by (simp add: days_before_year_1 four_digit_time_def pos_imp_zdiv_nonneg_iff)
  then have "1 \<le> year_of_days (t div Day)" by (rule year_of_days_ge)
  moreover have "t div Day < days_before_year 10000"
    using t by (simp only: div_less_int four_digit_time_def year_10000_def)
  then have "year_of_days (t div Day) < 10000" by (rule year_of_days_less)
  ultimately show ?thesis by (simp add: Year_def)
qed

lemma Year_four_digit: "1 \<le> Year t 0 \<Longrightarrow> Year t 0 \<le> 9999 \<Longrightarrow> four_digit_time t"
proof -
  assume y: "1 \<le> Year t 0" "Year t 0 \<le> 9999"
  note b = year_of_days_bounds [of "t div Day"]
  have "days_before_year 1 \<le> days_before_year (Year t 0)" using y by (intro days_before_year_mono)
  then have "0 \<le> t div Day" using b by (simp add: Year_def days_before_year_1)
  then have "0 \<le> t" by (simp add: pos_imp_zdiv_nonneg_iff)
  moreover have "days_before_year (Year t 0 + 1) \<le> days_before_year 10000"
    using y by (intro days_before_year_mono) simp
  then have "t div Day < days_before_year 10000" using b by (simp add: Year_def)
  then have "t < days_before_year 10000 * Day" by (simp only: div_less_int)
  ultimately show ?thesis by (simp add: four_digit_time_def year_10000_def)
qed

section \<open>Fixed-width decimals\<close>

fun digits :: "nat \<Rightarrow> nat \<Rightarrow> string" where
  "digits 0 n = []"
| "digits (Suc k) n = digits k (n div 10) @ [digit_char (n mod 10)]"

lemma length_digits [simp]: "length (digits k n) = k"
  by (induction k arbitrary: n) simp_all

lemma digits_all: "list_all is_digit (digits k n)"
  by (induction k arbitrary: n) simp_all

lemma dec_val_digits: "dec_val (digits k n) = n mod 10 ^ k"
proof (induction k arbitrary: n)
  case (Suc k)
  then show ?case by (simp add: mod_mult2_eq)
qed simp

lemma digits_2: "digits 2 n = [digit_char (n div 10 mod 10), digit_char (n mod 10)]"
  by (simp add: numeral_2_eq_2)

text \<open>\<open>appendInt(b, x, width)\<close>\<close>

definition append_int :: "int \<Rightarrow> nat \<Rightarrow> string" where
  "append_int x width =
     (let s = nat_str (nat \<bar>x\<bar>) in (if x < 0 then ''-'' else []) @ replicate (width - length s) CHR ''0'' @ s)"

lemma digits_small: "n < 10 \<Longrightarrow> digits (Suc k) n = replicate k CHR ''0'' @ [digit_char n]"
proof (induction k arbitrary: n)
  case (Suc k)
  have "digits (Suc (Suc k)) n = digits (Suc k) 0 @ [digit_char n]" using Suc.prems by simp
  also have "digits (Suc k) 0 = replicate k CHR ''0'' @ [digit_char 0]" by (rule Suc.IH) simp
  finally show ?case by (simp add: replicate_append_same)
qed simp

lemma digits_nat_str: "0 < k \<Longrightarrow> n < 10 ^ k \<Longrightarrow> replicate (k - length (nat_str n)) CHR ''0'' @ nat_str n = digits k n"
proof (induction k arbitrary: n)
  case (Suc k)
  show ?case
  proof (cases "n < 10")
    case True
    then show ?thesis using digits_small [of n k] by (simp add: nat_str_small)
  next
    case False
    with Suc.prems have k: "0 < k" by (cases k) auto
    have "n div 10 < 10 ^ k" using Suc.prems by (simp add: less_mult_imp_div_less mult.commute)
    with Suc.IH [OF k, of "n div 10"] False show ?thesis by (simp add: nat_str_step)
  qed
qed simp

lemma append_int_digits: "0 < k \<Longrightarrow> 0 \<le> x \<Longrightarrow> x < 10 ^ k \<Longrightarrow> append_int x k = digits k (nat x)"
  using digits_nat_str [of k "nat x"] by (simp add: append_int_def Let_def nat_less_iff)

section \<open>Formatting\<close>

definition clock_text :: "gotime \<Rightarrow> string" where
  "clock_text t =
     (case civil_of_days (t div Day) of (y, m, d) \<Rightarrow>
        append_int y 4 @ ''-'' @ append_int (int m) 2 @ ''-'' @ append_int d 2 @ ''T'' @
        append_int (t mod Day div Second div 3600) 2 @ '':'' @
        append_int (t mod Day div Second div 60 mod 60) 2 @ '':'' @
        append_int (t mod Day div Second mod 60) 2)"

definition trim_zeros :: "string \<Rightarrow> string" where
  "trim_zeros s = rev (dropWhile (\<lambda>c. c = CHR ''0'') (rev s))"

text \<open>\<open>t.UTC().Format(time.RFC3339Nano)\<close>\<close>

definition format_rfc3339 :: "gotime \<Rightarrow> string" where
  "format_rfc3339 t =
     clock_text t @
     (let ns = t mod Second in if ns = 0 then [] else CHR ''.'' # trim_zeros (digits 9 (nat ns))) @ ''Z''"

text \<open>\<open>t.UTC().Format("2006-01-02T15:04:05.000Z")\<close>\<close>

definition format_millis :: "gotime \<Rightarrow> string" where
  "format_millis t = clock_text t @ ''.'' @ digits 3 (nat (t mod Second div Millisecond)) @ ''Z''"

section \<open>Parsing\<close>

text \<open>\<open>getnum(value, fixed)\<close>\<close>

definition getnum :: "bool \<Rightarrow> string \<Rightarrow> (int \<times> string) option" where
  "getnum fixed s =
     (case s of
        [] \<Rightarrow> None
      | a # r \<Rightarrow>
          if \<not> is_digit a then None
          else case r of
            b # r' \<Rightarrow> if is_digit b then Some (int (dec_val [a, b]), r')
                     else if fixed then None else Some (int (digit_val a), r)
          | [] \<Rightarrow> if fixed then None else Some (int (digit_val a), r))"

definition lit :: "char \<Rightarrow> string \<Rightarrow> string option" where
  "lit c s = (case s of a # r \<Rightarrow> if a = c then Some r else None | [] \<Rightarrow> None)"

definition year4 :: "string \<Rightarrow> (int \<times> string) option" where
  "year4 s = (if 4 \<le> length s \<and> list_all is_digit (take 4 s)
     then Some (int (dec_val (take 4 s)), drop 4 s) else None)"

text \<open>The fields up to the seconds, common to both layouts: days, seconds of the day, and the rest.\<close>

definition parse_clock :: "string \<Rightarrow> (int \<times> int \<times> string) option" where
  "parse_clock s = do {
     (y, s) \<leftarrow> year4 s; s \<leftarrow> lit CHR ''-'' s;
     (mo, s) \<leftarrow> getnum True s; s \<leftarrow> lit CHR ''-'' s;
     (d, s) \<leftarrow> getnum True s; s \<leftarrow> lit CHR ''T'' s;
     (h, s) \<leftarrow> getnum False s; s \<leftarrow> lit CHR '':'' s;
     (mi, s) \<leftarrow> getnum True s; s \<leftarrow> lit CHR '':'' s;
     (sec, s) \<leftarrow> getnum True s;
     if 1 \<le> mo \<and> mo \<le> 12 \<and> h < 24 \<and> mi < 60 \<and> sec < 60 \<and> 1 \<le> d \<and> d \<le> month_lengths y ! (nat mo - 1)
     then Some (days_of_civil y (nat mo) d, h * 3600 + mi * 60 + sec, s) else None }"

definition frac9 :: "string \<Rightarrow> int \<times> string" where
  "frac9 s =
     (case s of
        p # c # r \<Rightarrow>
          if (p = CHR ''.'' \<or> p = CHR '','') \<and> is_digit c
          then let ds = takeWhile is_digit (c # r); v = take 9 ds
               in (int (dec_val v) * 10 ^ (9 - length v), dropWhile is_digit (c # r))
          else (0, s)
      | _ \<Rightarrow> (0, s))"

definition zone :: "string \<Rightarrow> int option" where
  "zone s =
     (if s = ''Z'' then Some 0
      else case s of
        [sg, h1, h2, c, m1, m2] \<Rightarrow>
          if (sg = CHR ''+'' \<or> sg = CHR ''-'') \<and> is_digit h1 \<and> is_digit h2 \<and> c = CHR '':'' \<and>
             is_digit m1 \<and> is_digit m2 \<and> dec_val [h1, h2] \<le> 24 \<and> dec_val [m1, m2] \<le> 60
          then let off = (int (dec_val [h1, h2]) * 60 + int (dec_val [m1, m2])) * 60
               in Some (if sg = CHR ''-'' then - off else off)
          else None
      | _ \<Rightarrow> None)"

text \<open>\<open>time.Parse(time.RFC3339Nano, s)\<close>: the instant and its zone offset.\<close>

definition parse_rfc3339 :: "string \<Rightarrow> (gotime \<times> int) option" where
  "parse_rfc3339 s = do {
     (days, secs, s) \<leftarrow> parse_clock s;
     off \<leftarrow> zone (snd (frac9 s));
     Some (days * Day + secs * Second + fst (frac9 s) - off * Second, off) }"

text \<open>\<open>atoi\<close> on a fraction field: an optional sign, then digits.\<close>

definition frac_field :: "string \<Rightarrow> int option" where
  "frac_field v =
     (case v of
        [] \<Rightarrow> None
      | c # r \<Rightarrow>
          if c = CHR ''+'' then (if list_all is_digit r then Some (int (dec_val r)) else None)
          else if c = CHR ''-'' then (if list_all is_digit r \<and> dec_val r = 0 then Some 0 else None)
          else if list_all is_digit v then Some (int (dec_val v)) else None)"

text \<open>\<open>time.Parse("2006-01-02T15:04:05.000Z", s)\<close>\<close>

definition parse_millis :: "string \<Rightarrow> gotime option" where
  "parse_millis s = do {
     (days, secs, s) \<leftarrow> parse_clock s;
     (if 4 \<le> length s \<and> (hd s = CHR ''.'' \<or> hd s = CHR '','') \<and> drop 4 s = ''Z''
      then do { ms \<leftarrow> frac_field (take 3 (tl s)); Some (days * Day + secs * Second + ms * Millisecond) }
      else None) }"

section \<open>Round trips\<close>

lemma getnum_digits: "n < 100 \<Longrightarrow> getnum f (digits 2 n @ r) = Some (int n, r)"
  using dec_val_digits [of 2 n] by (simp add: getnum_def digits_2)

lemma year4_digits: "n < 10000 \<Longrightarrow> year4 (digits 4 n @ r) = Some (int n, r)"
  by (simp add: year4_def digits_all dec_val_digits)

lemma lit_Cons [simp]: "lit c (c # r) = Some r"
  by (simp add: lit_def)

lemma month_length_bounds: "1 \<le> m \<Longrightarrow> m \<le> 12 \<Longrightarrow> month_lengths y ! (m - 1) \<le> 31"
proof -
  assume "1 \<le> m" "m \<le> 12"
  then have "month_lengths y ! (m - 1) \<in> set (month_lengths y)" by (simp add: length_month_lengths)
  then show ?thesis by (auto simp: month_lengths_def)
qed

lemma seconds_of_day: "0 \<le> t mod Day div Second \<and> t mod Day div Second < 86400"
  by (simp add: pos_imp_zdiv_nonneg_iff div_less_int)

lemma clock_split: "(x :: int) div 3600 * 3600 + x div 60 mod 60 * 60 + x mod 60 = x"
proof -
  have "x div 3600 = x div 60 div 60" using zdiv_zmult2_eq [of 60 x 60] by simp
  then show ?thesis using mult_div_mod_eq [of 60 "x div 60"] mult_div_mod_eq [of 60 x] by linarith
qed

lemma getnum_digits_int: "0 \<le> z \<Longrightarrow> z < 100 \<Longrightarrow> getnum f (digits 2 (nat z) @ q) = Some (z, q)"
  using getnum_digits [of "nat z" f q] by (simp add: nat_less_iff)

lemma parse_clock_fields:
  assumes "0 \<le> y" "y < 10 ^ 4" "1 \<le> m" "m \<le> 12" "1 \<le> d" "d \<le> month_lengths y ! (m - 1)"
    and "0 \<le> h" "h < 24" "0 \<le> mi" "mi < 60" "0 \<le> sec" "sec < 60"
  shows "parse_clock (append_int y 4 @ ''-'' @ append_int (int m) 2 @ ''-'' @ append_int d 2 @ ''T'' @
      append_int h 2 @ '':'' @ append_int mi 2 @ '':'' @ append_int sec 2 @ r) =
    Some (days_of_civil y m d, h * 3600 + mi * 60 + sec, r)"
proof -
  have "d \<le> 31" using assms month_length_bounds [of m y] by linarith
  moreover have "year4 (digits 4 (nat y) @ q) = Some (y, q)" for q
    using assms year4_digits [of "nat y" q] by (simp add: nat_less_iff)
  moreover have "getnum True (digits 2 m @ q) = Some (int m, q)" for q
    using assms getnum_digits [of m True q] by simp
  ultimately show ?thesis
    using assms by (simp add: append_int_digits parse_clock_def getnum_digits_int)
qed

text \<open>The years that are written with exactly four digits; year 0 is the year before year 1.\<close>

definition printable_year :: "gotime \<Rightarrow> bool" where
  "printable_year t \<longleftrightarrow> 0 \<le> Year t 0 \<and> Year t 0 \<le> 9999"

lemma four_digit_printable: "four_digit_time t \<Longrightarrow> printable_year t"
  using Year_range [of t] by (simp add: printable_year_def)

lemma parse_clock_text:
  assumes "printable_year t"
  shows "parse_clock (clock_text t @ r) = Some (t div Day, t mod Day div Second, r)"
proof -
  obtain y m d where c: "civil_of_days (t div Day) = (y, m, d)" by (metis prod_cases3)
  from civil_days_of [OF c] have inv: "days_of_civil y m d = t div Day" "1 \<le> m" "m \<le> 12" "1 \<le> d"
      "d \<le> month_lengths y ! (m - 1)" and y: "y = Year t 0" by (auto simp: Year_def)
  have yr: "0 \<le> y" "y < 10 ^ 4" using assms by (auto simp: y printable_year_def)
  obtain x where x: "t mod Day div Second = x" "0 \<le> x" "x < 86400" using seconds_of_day by blast
  have h: "0 \<le> x div 3600" "x div 3600 < 24" using x by (simp_all only: pos_imp_zdiv_nonneg_iff div_less_int)
  have m: "0 \<le> x div 60 mod 60" "x div 60 mod 60 < 60" "0 \<le> x mod 60" "x mod 60 < 60" by simp_all
  from parse_clock_fields [OF yr inv(2-5) h m, of r] show ?thesis
    by (simp only: clock_text_def c prod.case x(1) append_assoc inv(1) clock_split)
qed

lemma instant_split: "(t :: int) div Day * Day + t mod Day div Second * Second + t mod Second = t"
proof -
  have "t mod Day mod Second = t mod Second" by (rule mod_mod_cancel) simp
  then have "t mod Day div Second * Second + t mod Second = t mod Day"
    using div_mult_mod_eq [of "t mod Day" Second] by simp
  then show ?thesis using div_mult_mod_eq [of t Day] by linarith
qed

lemma dec_val_zeros: "dec_val (v @ replicate k CHR ''0'') = dec_val v * 10 ^ k"
proof (induction k)
  case (Suc k)
  have "dec_val (v @ replicate (Suc k) CHR ''0'') = dec_val ((v @ replicate k CHR ''0'') @ ''0'')"
    by (simp add: replicate_append_same)
  also have "\<dots> = 10 * dec_val (v @ replicate k CHR ''0'')" by (simp only: dec_val_snoc digit_val_0 add_0_right)
  finally show ?case using Suc by simp
qed simp

lemma trim_zeros_append: "\<exists>k. s = trim_zeros s @ replicate k CHR ''0''"
proof -
  have "takeWhile (\<lambda>c. c = CHR ''0'') (rev s) = replicate (length (takeWhile (\<lambda>c. c = CHR ''0'') (rev s))) CHR ''0''"
    by (rule replicate_eqI [symmetric, THEN sym]) (auto dest: set_takeWhileD)
  then show ?thesis
    unfolding trim_zeros_def by (metis rev_append rev_replicate rev_rev_ident takeWhile_dropWhile_id)
qed

lemma frac9_trim:
  assumes "0 < n" and "n < 10 ^ 9"
  shows "frac9 (CHR ''.'' # trim_zeros (digits 9 n) @ ''Z'') = (int n, ''Z'')"
proof -
  obtain k where k: "digits 9 n = trim_zeros (digits 9 n) @ replicate k CHR ''0''" using trim_zeros_append by blast
  define v where "v = trim_zeros (digits 9 n)"
  have ds: "list_all is_digit v" using k digits_all [of 9 n] by (metis list_all_append v_def)
  have len: "length v + k = 9" using arg_cong [OF k, of length] by (simp add: v_def)
  have val: "dec_val v * 10 ^ k = n"
    using arg_cong [OF k, of dec_val] assms(2) by (simp add: v_def dec_val_zeros dec_val_digits)
  have ne: "v \<noteq> []" using val assms by auto
  have z: "\<not> is_digit CHR ''Z''" by (simp add: class_defs)
  have "takeWhile is_digit (v @ ''Z'') = v" "dropWhile is_digit (v @ ''Z'') = ''Z''"
    using ds z by (simp_all add: list_all_iff takeWhile_append dropWhile_append)
  moreover obtain c r where "v = c # r" "is_digit c" using ne ds by (cases v) auto
  moreover have "9 - length v = k" using len by simp
  ultimately show ?thesis
    using len val by (auto simp: frac9_def v_def [symmetric] Let_def)
qed

lemma frac9_fraction:
  "frac9 ((let ns = t mod Second in if ns = 0 then [] else CHR ''.'' # trim_zeros (digits 9 (nat ns))) @ ''Z'') =
     (t mod Second, ''Z'')"
proof (cases "t mod Second = 0")
  case True
  then show ?thesis by (simp add: frac9_def)
next
  case False
  then have "0 < t mod Second" by (simp add: order_le_neq_trans)
  with frac9_trim [of "nat (t mod Second)"] False show ?thesis by (simp add: Let_def nat_less_iff)
qed

theorem parse_format_rfc3339:
  assumes "four_digit_time t"
  shows "parse_rfc3339 (format_rfc3339 t) = Some (t, 0)"
  using parse_clock_text [OF four_digit_printable [OF assms]] instant_split [of t] frac9_fraction [of t]
  by (simp add: parse_rfc3339_def format_rfc3339_def zone_def)

theorem parse_format_millis:
  assumes "four_digit_time t" and "t mod Millisecond = 0"
  shows "parse_millis (format_millis t) = Some t"
proof -
  define ms where "ms = t mod Second div Millisecond"
  have ms: "0 \<le> ms" "ms < 1000" by (simp_all add: ms_def pos_imp_zdiv_nonneg_iff div_less_int)
  have "t mod Second mod Millisecond = t mod Millisecond" by (rule mod_mod_cancel) simp
  then have e: "ms * Millisecond = t mod Second"
    using div_mult_mod_eq [of "t mod Second" Millisecond] assms(2) by (simp add: ms_def)
  obtain a b c where d: "digits 3 (nat ms) = [a, b, c]" "list_all is_digit [a, b, c]"
    using digits_all [of 3 "nat ms"] by (simp add: numeral_3_eq_3)
  have v: "int (dec_val [a, b, c]) = ms"
    using dec_val_digits [of 3 "nat ms"] ms by (simp add: d nat_less_iff flip: nat_mod_distrib)
  have "a \<noteq> CHR ''+'' \<and> a \<noteq> CHR ''-''" using d(2) by (auto simp: class_defs)
  then show ?thesis
    using parse_clock_text [OF four_digit_printable [OF assms(1)]] instant_split [of t] e d v
    by (simp add: parse_millis_def format_millis_def frac_field_def ms_def [symmetric] del: dec_val_single)
qed

section \<open>The text determines the instant\<close>

text \<open>
  In every year, also before year 0 and after 9999, where the text has a sign or more digits and cannot be
  parsed back.
\<close>

lemma digit_run_split:
  assumes "list_all is_digit a" "list_all is_digit b" "\<not> is_digit c" "a @ c # r = b @ c # s"
  shows "a = b \<and> r = s"
proof -
  have "takeWhile is_digit (a @ c # r) = a" "takeWhile is_digit (b @ c # s) = b"
    using assms(1-3) by (simp_all add: list_all_iff takeWhile_append)
  then have "a = b" using assms(4) by simp
  then show ?thesis using assms(4) by simp
qed

lemma dec_val_leading_zeros: "dec_val (replicate k CHR ''0'' @ s) = dec_val s"
  by (induction k) (simp_all add: dec_val_Cons)

lemma year_text_split:
  assumes "append_int x 4 @ CHR ''-'' # r = append_int y 4 @ CHR ''-'' # s"
  shows "x = y \<and> r = s"
proof -
  define p where "p z = replicate (4 - length (nat_str (nat \<bar>z\<bar>))) CHR ''0'' @ nat_str (nat \<bar>z\<bar>)" for z :: int
  have a: "append_int z 4 = (if z < 0 then ''-'' else []) @ p z" for z by (simp add: append_int_def p_def Let_def)
  have d: "list_all is_digit (p z)" for z
    using nat_str_digits [of "nat \<bar>z\<bar>"] by (auto simp: p_def list_all_iff class_defs)
  have v: "dec_val (p z) = nat \<bar>z\<bar>" for z by (simp add: p_def dec_val_leading_zeros)
  have ne: "p z \<noteq> []" for z by (simp add: p_def)
  have m: "\<not> is_digit CHR ''-''" by (simp add: class_defs)
  have h: "\<exists>c q. p z = c # q \<and> c \<noteq> CHR ''-''" for z
    using ne [of z] d [of z] m by (cases "p z") auto
  have sg: "x < 0 \<longleftrightarrow> y < 0" using assms h [of x] h [of y] by (auto simp: a split: if_splits)
  then have "p x @ CHR ''-'' # r = p y @ CHR ''-'' # s" using assms by (auto simp: a split: if_splits)
  from digit_run_split [OF d d m this] have "p x = p y" "r = s" by blast+
  moreover from this(1) have "nat \<bar>x\<bar> = nat \<bar>y\<bar>" using v by metis
  ultimately show ?thesis using sg by auto
qed

lemma two_digits_split:
  assumes "0 \<le> x" "x < 100" "0 \<le> y" "y < 100" "append_int x 2 @ r = append_int y 2 @ s"
  shows "x = y \<and> r = s"
proof -
  have e: "append_int x 2 = digits 2 (nat x)" "append_int y 2 = digits 2 (nat y)"
    using assms by (simp_all add: append_int_digits)
  have "digits 2 (nat x) = digits 2 (nat y)" "r = s" using assms(5) by (simp_all add: e append_eq_append_conv)
  moreover from this(1) have "nat x mod 10 ^ 2 = nat y mod 10 ^ 2" using dec_val_digits by metis
  ultimately show ?thesis using assms by auto
qed

theorem format_rfc3339_inj:
  assumes "format_rfc3339 t = format_rfc3339 u"
  shows "t = u"
proof -
  let ?f = "\<lambda>t. (let ns = t mod Second in if ns = 0 then [] else CHR ''.'' # trim_zeros (digits 9 (nat ns))) @ ''Z''"
  have dd: "1 \<le> d \<and> d \<le> 31" "0 < m" "m \<le> 12" if "civil_of_days n = (y, m, d)" for n y m d
    using civil_days_of [OF that] month_length_bounds [of m y] by auto
  obtain y m d where c: "civil_of_days (t div Day) = (y, m, d)" by (metis prod_cases3)
  obtain y' m' d' where c': "civil_of_days (u div Day) = (y', m', d')" by (metis prod_cases3)
  obtain x where x: "t mod Day div Second = x" "0 \<le> x" "x < 86400" using seconds_of_day by blast
  obtain x' where x': "u mod Day div Second = x'" "0 \<le> x'" "x' < 86400" using seconds_of_day by blast
  have b: "0 \<le> x div 3600" "x div 3600 < 100" "0 \<le> x' div 3600" "x' div 3600 < 100"
    "0 \<le> x div 60 mod 60" "x div 60 mod 60 < 100" "0 \<le> x' div 60 mod 60" "x' div 60 mod 60 < 100"
    "0 \<le> x mod 60" "x mod 60 < 100" "0 \<le> x' mod 60" "x' mod 60 < 100"
    using x x' by auto
  have md: "0 \<le> int m" "int m < 100" "0 \<le> int m'" "int m' < 100" "0 \<le> d" "d < 100" "0 \<le> d'" "d' < 100"
    using dd [OF c] dd [OF c'] by auto
  from assms have "append_int y 4 @ CHR ''-'' # append_int (int m) 2 @ CHR ''-'' # append_int d 2 @ CHR ''T'' #
      append_int (x div 3600) 2 @ CHR '':'' # append_int (x div 60 mod 60) 2 @ CHR '':'' # append_int (x mod 60) 2 @ ?f t =
    append_int y' 4 @ CHR ''-'' # append_int (int m') 2 @ CHR ''-'' # append_int d' 2 @ CHR ''T'' #
      append_int (x' div 3600) 2 @ CHR '':'' # append_int (x' div 60 mod 60) 2 @ CHR '':'' # append_int (x' mod 60) 2 @ ?f u"
    by (simp only: format_rfc3339_def clock_text_def c c' prod.case x(1) x'(1) append_assoc append_Cons append_Nil)
  from year_text_split [OF this] have y: "y = y'" and r1: "append_int (int m) 2 @ CHR ''-'' # append_int d 2 @ CHR ''T'' #
      append_int (x div 3600) 2 @ CHR '':'' # append_int (x div 60 mod 60) 2 @ CHR '':'' # append_int (x mod 60) 2 @ ?f t =
    append_int (int m') 2 @ CHR ''-'' # append_int d' 2 @ CHR ''T'' #
      append_int (x' div 3600) 2 @ CHR '':'' # append_int (x' div 60 mod 60) 2 @ CHR '':'' # append_int (x' mod 60) 2 @ ?f u"
    by blast+
  note r2 = two_digits_split [OF md(1-4) r1]
  note r3 = two_digits_split [OF md(5-8) list.inject [THEN iffD1, THEN conjunct2, OF r2 [THEN conjunct2]]]
  note r4 = two_digits_split [OF b(1-4) list.inject [THEN iffD1, THEN conjunct2, OF r3 [THEN conjunct2]]]
  note r5 = two_digits_split [OF b(5-8) list.inject [THEN iffD1, THEN conjunct2, OF r4 [THEN conjunct2]]]
  note r6 = two_digits_split [OF b(9-12) list.inject [THEN iffD1, THEN conjunct2, OF r5 [THEN conjunct2]]]
  have "t mod Second = u mod Second" using frac9_fraction [of t] frac9_fraction [of u] r6 by (metis prod.inject)
  moreover have "x = x'" using r4 r5 r6 clock_split [of x] clock_split [of x'] by metis
  moreover have "m = m'" "d = d'" using r2 r3 by simp_all
  then have "t div Day = u div Day" using y civil_days_of [OF c] civil_days_of [OF c'] by metis
  ultimately show ?thesis using instant_split [of t] instant_split [of u] x(1) x'(1) by metis
qed

section \<open>The zone of a formatted instant\<close>

lemma lit_suffix: "lit c s = Some r \<Longrightarrow> \<exists>p. s = p @ r"
  by (auto simp: lit_def split: list.splits if_splits)

lemma getnum_suffix: "getnum f s = Some (n, r) \<Longrightarrow> \<exists>p. s = p @ r"
  by (auto simp: getnum_def split: list.splits if_splits)

lemma year4_suffix: "year4 s = Some (n, r) \<Longrightarrow> \<exists>p. s = p @ r"
  by (auto simp: year4_def split: if_splits) (metis append_take_drop_id)

lemma suffix_trans: "\<exists>p. s = p @ r \<Longrightarrow> \<exists>p. r = p @ q \<Longrightarrow> \<exists>p. s = p @ (q :: string)"
  by (metis append.assoc)

lemma parse_clock_suffix: "parse_clock s = Some (d, n, r) \<Longrightarrow> \<exists>p. s = p @ r"
  unfolding parse_clock_def
  by (auto simp: bind_eq_Some_conv split: if_splits
      dest!: lit_suffix getnum_suffix year4_suffix)

lemma frac9_suffix: "\<exists>p. s = p @ snd (frac9 s)"
proof (cases s rule: list.exhaust)
  case (Cons a t)
  show ?thesis
  proof (cases t)
    case (Cons c u)
    have "\<exists>p. a # c # u = p @ dropWhile is_digit u"
      by (rule exI [of _ "a # c # takeWhile is_digit u"]) simp
    with \<open>s = a # t\<close> Cons show ?thesis
      by (cases "(a = CHR ''.'' \<or> a = CHR '','') \<and> is_digit c") (auto simp: frac9_def Let_def)
  qed (use Cons in \<open>simp add: frac9_def\<close>)
qed (simp add: frac9_def)

lemma zone_Z: "zone (p @ ''Z'') = Some off \<Longrightarrow> off = 0"
proof -
  assume z: "zone (p @ ''Z'') = Some off"
  have nz: "\<not> is_digit CHR ''Z''" by (simp add: class_defs)
  show ?thesis
  proof (cases "p = []")
    case False
    then have "p @ ''Z'' \<noteq> ''Z''" by simp
    with z obtain a b c d e f where "p @ ''Z'' = [a, b, c, d, e, f]" "is_digit f"
      by (auto simp: zone_def split: list.splits if_splits)
    then have "f = CHR ''Z''" by (metis last.simps last_snoc list.distinct(1))
    with \<open>is_digit f\<close> nz show ?thesis by simp
  qed (use z in \<open>simp add: zone_def\<close>)
qed

lemma parse_rfc3339_offset:
  assumes "parse_rfc3339 (format_rfc3339 t) = Some (u, off)"
  shows "off = 0"
proof -
  obtain d n r where c: "parse_clock (format_rfc3339 t) = Some (d, n, r)" and z: "zone (snd (frac9 r)) = Some off"
    using assms by (auto simp: parse_rfc3339_def bind_eq_Some_conv)
  obtain p where p: "format_rfc3339 t = p @ snd (frac9 r)"
    using suffix_trans [OF parse_clock_suffix [OF c] frac9_suffix [of r]] by blast
  have ne: "snd (frac9 r) \<noteq> []" using z by (auto simp: zone_def)
  have "last (format_rfc3339 t) = CHR ''Z''" by (simp add: format_rfc3339_def)
  then have "last (snd (frac9 r)) = CHR ''Z''" using p ne by simp
  then obtain q where "snd (frac9 r) = q @ ''Z''" using ne by (metis append_butlast_last_id)
  with z show ?thesis by (simp add: zone_Z)
qed

lemma millis_fraction:
  assumes "t mod Millisecond = 0"
  shows "frac9 (CHR ''.'' # digits 3 (nat (t mod Second div Millisecond)) @ ''Z'') = (t mod Second, ''Z'')"
proof -
  define ms where "ms = t mod Second div Millisecond"
  have ms: "0 \<le> ms" "ms < 1000" by (simp_all add: ms_def pos_imp_zdiv_nonneg_iff div_less_int)
  have "t mod Second mod Millisecond = t mod Millisecond" by (rule mod_mod_cancel) simp
  then have e: "ms * Millisecond = t mod Second"
    using div_mult_mod_eq [of "t mod Second" Millisecond] assms by (simp add: ms_def)
  obtain a b c where d: "digits 3 (nat ms) = [a, b, c]" "is_digit a" "is_digit b" "is_digit c"
    using digits_all [of 3 "nat ms"] by (simp add: numeral_3_eq_3)
  have v: "int (dec_val [a, b, c]) = ms"
    using dec_val_digits [of 3 "nat ms"] ms by (simp add: d nat_less_iff)
  have "\<not> is_digit CHR ''Z''" by (simp add: class_defs)
  then have "frac9 (CHR ''.'' # [a, b, c] @ ''Z'') = (int (dec_val [a, b, c]) * Millisecond, ''Z'')"
    using d by (simp add: frac9_def Let_def)
  then show ?thesis unfolding ms_def [symmetric] d(1) v e .
qed

theorem parse_rfc3339_millis:
  assumes "printable_year t" and "t mod Millisecond = 0"
  shows "parse_rfc3339 (format_millis t) = Some (t, 0)"
  using parse_clock_text [OF assms(1)] instant_split [of t] millis_fraction [OF assms(2)]
  by (simp add: parse_rfc3339_def format_millis_def zone_def)

end
