(* ===== verification/Contract_Text.thy ===== *)
theory Contract_Text
  imports Go_Json Go_Netip Go_Time
begin

text \<open>
  The contract alphabets: identifiers, digests, addresses and timestamps consist of characters
  that \<open>json.Marshal\<close> copies unchanged. Struct decoding facts shared by the canonical
  encodings are here too.
\<close>

section \<open>Contract alphabets\<close>

lemma uuid_safe: "re_matches uuidPattern s \<Longrightarrow> list_all html_safe s"
  by (erule re_matches_list_all) (auto simp: uuidPattern_def html_safe_classes)

lemma digest_safe: "re_matches digestPattern s \<Longrightarrow> list_all html_safe s"
proof -
  assume "re_matches digestPattern s"
  then obtain h where h: "s = ''sha256:'' @ h" "list_all is_hexlow h" by (auto simp: digestPattern_iff)
  have "list_all html_safe ''sha256:''" by code_simp
  moreover have "list_all html_safe h" using h(2) by (auto simp: list_all_iff html_safe_classes)
  ultimately show ?thesis unfolding h(1) by (simp only: list_all_append)
qed

lemma addr_safe: "canonical_ipv4 s \<Longrightarrow> list_all html_safe s"
  by (auto simp: canonical_ipv4_iff list_all_iff html_safe_classes dest!: addr_string_chars)

lemma html_safe_zero: "html_safe CHR ''0''"
  by code_simp

lemma append_int_safe: "list_all html_safe (append_int x k)"
  using html_safe_zero nat_str_digits [of "nat \<bar>x\<bar>"]
  by (auto simp: append_int_def Let_def list_all_iff html_safe_classes)

lemma clock_text_safe: "list_all html_safe (clock_text t)"
  by (simp add: clock_text_def append_int_safe split: prod.split)

lemma trim_zeros_subset: "set (trim_zeros s) \<subseteq> set s"
  by (auto simp: trim_zeros_def dest: set_dropWhileD)

lemma format_rfc3339_safe: "list_all html_safe (format_rfc3339 t)"
proof -
  have "list_all html_safe (trim_zeros (digits 9 n))" for n
    using trim_zeros_subset [of "digits 9 n"] digits_all [of 9 n] by (auto simp: list_all_iff html_safe_classes)
  then show ?thesis by (simp add: format_rfc3339_def clock_text_safe Let_def)
qed

lemma contract_valid:
  "re_matches uuidPattern s \<Longrightarrow> utf8_valid s" "re_matches digestPattern s \<Longrightarrow> utf8_valid s"
  "canonical_ipv4 s \<Longrightarrow> utf8_valid s" "utf8_valid (format_rfc3339 t)"
  by (simp_all add: utf8_valid_safe uuid_safe digest_safe addr_safe format_rfc3339_safe)

lemma json_quote_length: "list_all html_safe s \<Longrightarrow> length (json_quote s) = length s + 2"
  by (simp add: json_quote_safe)

lemma length_append_int: "0 < k \<Longrightarrow> 0 \<le> x \<Longrightarrow> x < 10 ^ k \<Longrightarrow> length (append_int x k) = k"
  by (simp add: append_int_digits)

lemma length_clock_text: "printable_year t \<Longrightarrow> length (clock_text t) = 19"
proof -
  assume t: "printable_year t"
  obtain y m d where c: "civil_of_days (t div Day) = (y, m, d)" by (metis prod_cases3)
  from civil_days_of [OF c] have inv: "1 \<le> m" "m \<le> 12" "1 \<le> d" "d \<le> month_lengths y ! (m - 1)"
    and y: "y = Year t 0" by (auto simp: Year_def)
  have d: "d \<le> 31" using inv month_length_bounds [of m y] by linarith
  have yr: "0 \<le> y" "y < 10 ^ 4" using t by (auto simp: y printable_year_def)
  obtain x where x: "t mod Day div Second = x" "0 \<le> x" "x < 86400" using seconds_of_day by blast
  have h: "0 \<le> x div 3600" "x div 3600 < 24" using x by (simp_all only: pos_imp_zdiv_nonneg_iff div_less_int)
  have "length (append_int (x div 60 mod 60) 2) = 2" "length (append_int (x mod 60) 2) = 2"
    by (rule length_append_int; simp add: less_trans [OF pos_mod_bound])+
  with h yr d inv show ?thesis by (simp add: clock_text_def c x(1) length_append_int)
qed

lemma length_format_rfc3339: "four_digit_time t \<Longrightarrow> length (format_rfc3339 t) \<le> 30"
proof -
  assume t: "four_digit_time t"
  have "length (trim_zeros (digits 9 n)) \<le> 9" for n
    using length_dropWhile_le [of "\<lambda>c. c = CHR ''0''" "rev (digits 9 n)"] by (simp add: trim_zeros_def)
  then show ?thesis by (simp add: format_rfc3339_def length_clock_text [OF four_digit_printable [OF t]] Let_def)
qed

lemma length_commas: "(\<And>x. x \<in> set xs \<Longrightarrow> length x \<le> k) \<Longrightarrow> length (commas xs) \<le> length xs * (k + 1)"
proof (induction xs rule: commas.induct)
  case (2 x)
  then have "length x \<le> k" by simp
  then show ?case by simp
next
  case (3 x y ys)
  then have "length x \<le> k" "length (commas (y # ys)) \<le> length (y # ys) * (k + 1)" by auto
  then show ?case by simp
qed simp

lemma digest_length: "re_matches digestPattern s \<Longrightarrow> length s = 71"
  by (auto simp: digestPattern_iff)

lemma quoted_length:
  "re_matches uuidPattern s \<Longrightarrow> length (json_quote s) = 38"
  "re_matches digestPattern s \<Longrightarrow> length (json_quote s) = 73"
  by (simp_all add: json_quote_length uuid_safe digest_safe uuidPattern_length digest_length)

section \<open>Decoding helpers\<close>

lemma string_elems_JStr: "string_elems old (map JStr xs) = Some xs"
  by (induction xs arbitrary: old) simp_all

lemma set_string_JStr [simp]: "set_string upd (JStr s) r = Some (upd s r)"
  by (simp add: set_string_def)

lemma set_strings_JStr [simp]: "set_strings get upd (JArr (map JStr xs)) r = Some (upd xs r)"
  by (simp add: set_strings_def string_elems_JStr)

lemma set_uint_nat_str [simp]: "n < 2 ^ bits \<Longrightarrow> set_uint bits upd (JNum (nat_str n)) r = Some (upd n r)"
  by (simp add: set_uint_def parse_uint_nat_str)

lemma set_string_ptr_simps [simp]:
  "set_string_ptr upd (JStr s) r = Some (upd (Some s) r)" "set_string_ptr upd JNull r = Some (upd None r)"
  by (simp_all add: set_string_ptr_def)

lemma set_uint_ptr_simps [simp]:
  "n < 2 ^ bits \<Longrightarrow> set_uint_ptr bits upd (JNum (nat_str n)) r = Some (upd (Some n) r)"
  "set_uint_ptr bits upd JNull r = Some (upd None r)"
  by (simp_all add: set_uint_ptr_def parse_uint_nat_str)

lemma decode_member:
  "map_of specs k = Some f \<Longrightarrow> f v r = Some r' \<Longrightarrow> decode_members specs ((k, v) # ms) r = decode_members specs ms r'"
  by (simp add: find_field_def)

lemma unat_less_32: "unat (x :: uint32) < 2 ^ 32"
  using unsigned_less [of x, where ?'a = nat] by simp

lemma unat_less_64: "unat (x :: uint64) < 2 ^ 64"
  using unsigned_less [of x, where ?'a = nat] by simp

end
