(* ===== verification/Policy_Response.thy ===== *)
theory Policy_Response
  imports Policy_Candidate Contract_Text
begin

text \<open>
  \<open>internal/policy/response_policy.go\<close> and \<open>state.go\<close>: the immutable response-policy-v1
  object, its canonical JSON bytes and digest, strict parsing of those bytes, the revision of a
  policy, and the compare-and-swap lifecycle of its state row.
\<close>

section \<open>The policy object (response_policy.go)\<close>

definition MaxPolicyBytes :: nat where "MaxPolicyBytes = 8 * 1024"
definition MaxInt32 :: uint32 where "MaxInt32 = 2147483647"

datatype policy_error_code =
    PolicyErrorEncoding | PolicyErrorCanonical | PolicyErrorSchema | PolicyErrorID
  | PolicyErrorVersion | PolicyErrorIncident | PolicyErrorAnalysis | PolicyErrorAction
  | PolicyErrorTarget | PolicyErrorTTL | PolicyErrorDigest | PolicyErrorEvidence
  | PolicyErrorCreatedAt | PolicyErrorRevision | PolicyErrorState | PolicyErrorTransition
  | PolicyErrorStateRevision

text \<open>\<open>CreatedAt\<close> is an instant and the offset of its location in seconds.\<close>

record response_policy =
  rp_SchemaVersion :: string
  rp_PolicyID :: string
  rp_PolicyVersion :: uint32
  rp_IncidentID :: string
  rp_AnalysisID :: string
  rp_Action :: string
  rp_TargetIPv4 :: string
  rp_TTLSeconds :: uint32
  rp_EvidenceSnapshotDigest :: string
  rp_EvidenceIDs :: "string list"
  rp_RationaleDigest :: string
  rp_CreatedAt :: "gotime \<times> int"

record checked_policy =
  cp_value :: response_policy
  cp_canonical :: bytes
  cp_digest :: string

text \<open>The digit loop of \<open>appendUint32\<close>, from the least significant digit.\<close>

function uint32_loop :: "uint32 \<Rightarrow> string \<Rightarrow> string" where
  "uint32_loop value buffer =
     (if value = 0 then buffer
      else uint32_loop (value div 10) (digit_char (unat (value mod 10)) # buffer))"
  by auto

termination
proof (relation "measure (\<lambda>(v, _). unat v)", goal_cases)
  case (2 v buffer)
  then have "0 < unat v" by (simp add: unat_gt_0)
  then show ?case by (simp add: unat_div_distrib)
qed simp

definition appendUint32 :: "uint32 \<Rightarrow> string" where
  "appendUint32 value = (if value = 0 then ''0'' else uint32_loop value [])"

fun evidence_json :: "nat \<Rightarrow> string list \<Rightarrow> string" where
  "evidence_json i [] = []"
| "evidence_json i (x # xs) = (if 0 < i then '','' else []) @ json_quote x @ evidence_json (Suc i) xs"

definition marshalResponsePolicyJCS :: "response_policy \<Rightarrow> bytes" where
  \<open>marshalResponsePolicyJCS v =
     ''{"action":'' @ json_quote (rp_Action v) @
     '',"analysis_id":'' @ json_quote (rp_AnalysisID v) @
     '',"created_at":'' @ json_quote (format_rfc3339 (fst (rp_CreatedAt v))) @
     '',"evidence_ids":['' @ evidence_json 0 (rp_EvidenceIDs v) @
     ''],"evidence_snapshot_digest":'' @ json_quote (rp_EvidenceSnapshotDigest v) @
     '',"incident_id":'' @ json_quote (rp_IncidentID v) @
     '',"policy_id":'' @ json_quote (rp_PolicyID v) @
     '',"policy_version":'' @ appendUint32 (rp_PolicyVersion v) @
     '',"rationale_digest":'' @ json_quote (rp_RationaleDigest v) @
     '',"schema_version":'' @ json_quote (rp_SchemaVersion v) @
     '',"target_ipv4":'' @ json_quote (rp_TargetIPv4 v) @
     '',"ttl_seconds":'' @ appendUint32 (rp_TTLSeconds v) @ ''}''\<close>

definition CheckResponsePolicy :: "response_policy \<Rightarrow> policy_error_code + checked_policy" where
  "CheckResponsePolicy v =
     (if rp_SchemaVersion v \<noteq> PolicySchemaVersion then Inl PolicyErrorSchema
      else if \<not> re_matches uuidPattern (rp_PolicyID v) then Inl PolicyErrorID
      else if rp_PolicyVersion v = 0 \<or> MaxInt32 < rp_PolicyVersion v then Inl PolicyErrorVersion
      else if \<not> re_matches uuidPattern (rp_IncidentID v) then Inl PolicyErrorIncident
      else if \<not> re_matches uuidPattern (rp_AnalysisID v) then Inl PolicyErrorAnalysis
      else if rp_Action v \<noteq> ActionBlockIP then Inl PolicyErrorAction
      else if \<not> canonical_ipv4 (rp_TargetIPv4 v) then Inl PolicyErrorTarget
      else if rp_TTLSeconds v < MinTTLSeconds \<or> MaxTTLSeconds < rp_TTLSeconds v then Inl PolicyErrorTTL
      else if \<not> re_matches digestPattern (rp_EvidenceSnapshotDigest v) \<or>
              \<not> re_matches digestPattern (rp_RationaleDigest v) then Inl PolicyErrorDigest
      else if \<not> validEvidenceIDs (rp_EvidenceIDs v) then Inl PolicyErrorEvidence
      else case rp_CreatedAt v of (t, off) \<Rightarrow>
        if t = 0 \<or> Year t off < 1 \<or> 9999 < Year t off then Inl PolicyErrorCreatedAt
        else let frozen = v\<lparr>rp_CreatedAt := (t, 0)\<rparr>; canonical = marshalResponsePolicyJCS frozen
             in Inr \<lparr>cp_value = frozen, cp_canonical = canonical, cp_digest = Digest canonical\<rparr>)"

record response_policy_wire =
  w_SchemaVersion :: string
  w_PolicyID :: string
  w_PolicyVersion :: uint32
  w_IncidentID :: string
  w_AnalysisID :: string
  w_Action :: string
  w_TargetIPv4 :: string
  w_TTLSeconds :: uint32
  w_EvidenceSnapshotDigest :: string
  w_EvidenceIDs :: "string list"
  w_RationaleDigest :: string
  w_CreatedAt :: string

definition zero_wire :: response_policy_wire where
  "zero_wire = \<lparr>w_SchemaVersion = [], w_PolicyID = [], w_PolicyVersion = 0, w_IncidentID = [],
     w_AnalysisID = [], w_Action = [], w_TargetIPv4 = [], w_TTLSeconds = 0,
     w_EvidenceSnapshotDigest = [], w_EvidenceIDs = [], w_RationaleDigest = [], w_CreatedAt = []\<rparr>"

definition wire_fields :: "(string \<times> response_policy_wire setter) list" where
  "wire_fields =
     [(''schema_version'', set_string (\<lambda>x. w_SchemaVersion_update (\<lambda>_. x))),
      (''policy_id'', set_string (\<lambda>x. w_PolicyID_update (\<lambda>_. x))),
      (''policy_version'', set_uint 32 (\<lambda>x. w_PolicyVersion_update (\<lambda>_. of_nat x))),
      (''incident_id'', set_string (\<lambda>x. w_IncidentID_update (\<lambda>_. x))),
      (''analysis_id'', set_string (\<lambda>x. w_AnalysisID_update (\<lambda>_. x))),
      (''action'', set_string (\<lambda>x. w_Action_update (\<lambda>_. x))),
      (''target_ipv4'', set_string (\<lambda>x. w_TargetIPv4_update (\<lambda>_. x))),
      (''ttl_seconds'', set_uint 32 (\<lambda>x. w_TTLSeconds_update (\<lambda>_. of_nat x))),
      (''evidence_snapshot_digest'', set_string (\<lambda>x. w_EvidenceSnapshotDigest_update (\<lambda>_. x))),
      (''evidence_ids'', set_strings w_EvidenceIDs (\<lambda>x. w_EvidenceIDs_update (\<lambda>_. x))),
      (''rationale_digest'', set_string (\<lambda>x. w_RationaleDigest_update (\<lambda>_. x))),
      (''created_at'', set_string (\<lambda>x. w_CreatedAt_update (\<lambda>_. x)))]"

text \<open>
  \<open>rejectDuplicateJSONNames\<close> followed by a strict \<open>Decode\<close> and \<open>requireJSONEOF\<close>: one document,
  no repeated member name at any depth.
\<close>

definition decode_unique :: "bytes \<Rightarrow> json option" where
  "decode_unique data =
     (case parse_doc data of
        None \<Rightarrow> None
      | Some j \<Rightarrow> if unique_names j then Some j else None)"

definition ParseCanonicalResponsePolicy :: "bytes \<Rightarrow> policy_error_code + checked_policy" where
  "ParseCanonicalResponsePolicy data =
     (if data = [] \<or> MaxPolicyBytes < length data then Inl PolicyErrorEncoding
      else case decode_unique data of
        None \<Rightarrow> Inl PolicyErrorEncoding
      | Some j \<Rightarrow>
          (case decode_struct wire_fields j zero_wire of
             None \<Rightarrow> Inl PolicyErrorEncoding
           | Some wire \<Rightarrow>
               (case parse_rfc3339 (w_CreatedAt wire) of
                  None \<Rightarrow> Inl PolicyErrorCreatedAt
                | Some createdAt \<Rightarrow>
                    bind_res (CheckResponsePolicy
                      \<lparr>rp_SchemaVersion = w_SchemaVersion wire, rp_PolicyID = w_PolicyID wire,
                       rp_PolicyVersion = w_PolicyVersion wire, rp_IncidentID = w_IncidentID wire,
                       rp_AnalysisID = w_AnalysisID wire, rp_Action = w_Action wire,
                       rp_TargetIPv4 = w_TargetIPv4 wire, rp_TTLSeconds = w_TTLSeconds wire,
                       rp_EvidenceSnapshotDigest = w_EvidenceSnapshotDigest wire,
                       rp_EvidenceIDs = w_EvidenceIDs wire, rp_RationaleDigest = w_RationaleDigest wire,
                       rp_CreatedAt = createdAt\<rparr>)
                      (\<lambda>checked. if data \<noteq> cp_canonical checked then Inl PolicyErrorCanonical
                                 else Inr checked))))"

definition ReviseResponsePolicy :: "checked_policy \<Rightarrow> response_policy \<Rightarrow> policy_error_code + checked_policy" where
  "ReviseResponsePolicy previous nxt =
     (let prior = cp_value previous in
      if cp_canonical previous = [] \<or> cp_digest previous = [] \<or>
         rp_PolicyID nxt \<noteq> rp_PolicyID prior \<or> rp_IncidentID nxt \<noteq> rp_IncidentID prior \<or>
         rp_PolicyVersion prior = MaxInt32 \<or> rp_PolicyVersion nxt \<noteq> rp_PolicyVersion prior + 1 \<or>
         \<not> fst (rp_CreatedAt prior) < fst (rp_CreatedAt nxt)
      then Inl PolicyErrorRevision
      else bind_res (CheckResponsePolicy nxt) (\<lambda>checked.
        if cp_digest checked = cp_digest previous \<or> cp_canonical checked = cp_canonical previous
        then Inl PolicyErrorRevision else Inr checked))"

section \<open>Canonical bytes\<close>

lemma uint32_loop_nat_str: "0 < unat v \<Longrightarrow> uint32_loop v b = nat_str (unat v) @ b"
proof (induction v b rule: uint32_loop.induct)
  case (1 v b)
  have d: "unat (v div 10) = unat v div 10" "unat (v mod 10) = unat v mod 10"
    by (simp_all add: unat_div_distrib unat_mod_distrib)
  have v: "v \<noteq> 0" using "1.prems" by auto
  show ?case
  proof (cases "unat v < 10")
    case True
    then have "v div 10 = 0" using d(1) by (metis div_less unat_eq_0)
    moreover have "uint32_loop 0 c = c" for c by (subst uint32_loop.simps) simp
    ultimately show ?thesis using v True by (subst uint32_loop.simps) (simp add: nat_str_small d)
  next
    case False
    then have "0 < unat (v div 10)" by (simp add: d)
    then have "uint32_loop (v div 10) (digit_char (unat (v mod 10)) # b) =
        nat_str (unat v div 10) @ digit_char (unat v mod 10) # b"
      using "1.IH" [OF v] by (simp add: d)
    with v False show ?thesis by (subst uint32_loop.simps) (simp add: nat_str_step)
  qed
qed

lemma appendUint32_nat_str: "appendUint32 v = nat_str (unat v)"
  using uint32_loop_nat_str [of v "[]"] by (auto simp: appendUint32_def nat_str_small unat_gt_0)

text \<open>The document a policy denotes.\<close>

definition policy_doc :: "response_policy \<Rightarrow> json" where
  "policy_doc v = JObj
     [(''action'', JStr (rp_Action v)), (''analysis_id'', JStr (rp_AnalysisID v)),
      (''created_at'', JStr (format_rfc3339 (fst (rp_CreatedAt v)))),
      (''evidence_ids'', JArr (map JStr (rp_EvidenceIDs v))),
      (''evidence_snapshot_digest'', JStr (rp_EvidenceSnapshotDigest v)),
      (''incident_id'', JStr (rp_IncidentID v)), (''policy_id'', JStr (rp_PolicyID v)),
      (''policy_version'', JNum (nat_str (unat (rp_PolicyVersion v)))),
      (''rationale_digest'', JStr (rp_RationaleDigest v)),
      (''schema_version'', JStr (rp_SchemaVersion v)), (''target_ipv4'', JStr (rp_TargetIPv4 v)),
      (''ttl_seconds'', JNum (nat_str (unat (rp_TTLSeconds v))))]"

lemma evidence_json_commas:
  "evidence_json i xs = (if 0 < i \<and> xs \<noteq> [] then '','' else []) @ commas (map json_quote xs)"
proof (induction i xs rule: evidence_json.induct)
  case (2 i x xs)
  then show ?case by (cases xs) auto
qed simp

lemma policy_keys:
  \<open>json_quote ''action'' = ''"action"''\<close>
  \<open>json_quote ''analysis_id'' = ''"analysis_id"''\<close>
  \<open>json_quote ''created_at'' = ''"created_at"''\<close>
  \<open>json_quote ''evidence_ids'' = ''"evidence_ids"''\<close>
  \<open>json_quote ''evidence_snapshot_digest'' = ''"evidence_snapshot_digest"''\<close>
  \<open>json_quote ''incident_id'' = ''"incident_id"''\<close>
  \<open>json_quote ''policy_id'' = ''"policy_id"''\<close>
  \<open>json_quote ''policy_version'' = ''"policy_version"''\<close>
  \<open>json_quote ''rationale_digest'' = ''"rationale_digest"''\<close>
  \<open>json_quote ''schema_version'' = ''"schema_version"''\<close>
  \<open>json_quote ''target_ipv4'' = ''"target_ipv4"''\<close>
  \<open>json_quote ''ttl_seconds'' = ''"ttl_seconds"''\<close>
  by code_simp+

lemma marshal_print: "marshalResponsePolicyJCS v = json_print (policy_doc v)"
proof -
  have e: "evidence_json 0 (rp_EvidenceIDs v) = commas (map json_quote (rp_EvidenceIDs v))"
    by (simp add: evidence_json_commas)
  have m: "map (json_print \<circ> JStr) xs = map json_quote xs" for xs by simp
  show ?thesis
    unfolding marshalResponsePolicyJCS_def policy_doc_def e appendUint32_nat_str
    by (simp add: policy_keys m)
qed

section \<open>Reading canonical bytes back\<close>

lemma decode_policy_doc:
  "decode_struct wire_fields (policy_doc v) zero_wire =
     Some \<lparr>w_SchemaVersion = rp_SchemaVersion v, w_PolicyID = rp_PolicyID v, w_PolicyVersion = rp_PolicyVersion v,
       w_IncidentID = rp_IncidentID v, w_AnalysisID = rp_AnalysisID v, w_Action = rp_Action v,
       w_TargetIPv4 = rp_TargetIPv4 v, w_TTLSeconds = rp_TTLSeconds v,
       w_EvidenceSnapshotDigest = rp_EvidenceSnapshotDigest v, w_EvidenceIDs = rp_EvidenceIDs v,
       w_RationaleDigest = rp_RationaleDigest v, w_CreatedAt = format_rfc3339 (fst (rp_CreatedAt v))\<rparr>"
  unfolding decode_struct_def policy_doc_def
  by (simp add: find_field_def wire_fields_def zero_wire_def unat_less_32 [simplified])

definition policy_ok :: "response_policy \<Rightarrow> bool" where
  "policy_ok v \<longleftrightarrow>
     rp_SchemaVersion v = PolicySchemaVersion \<and> re_matches uuidPattern (rp_PolicyID v) \<and>
     rp_PolicyVersion v \<noteq> 0 \<and> rp_PolicyVersion v \<le> MaxInt32 \<and>
     re_matches uuidPattern (rp_IncidentID v) \<and> re_matches uuidPattern (rp_AnalysisID v) \<and>
     rp_Action v = ActionBlockIP \<and> canonical_ipv4 (rp_TargetIPv4 v) \<and>
     ttl_in_range (rp_TTLSeconds v) \<and> re_matches digestPattern (rp_EvidenceSnapshotDigest v) \<and>
     re_matches digestPattern (rp_RationaleDigest v) \<and> validEvidenceIDs (rp_EvidenceIDs v) \<and>
     fst (rp_CreatedAt v) \<noteq> 0 \<and> 1 \<le> Year (fst (rp_CreatedAt v)) (snd (rp_CreatedAt v)) \<and>
     Year (fst (rp_CreatedAt v)) (snd (rp_CreatedAt v)) \<le> 9999"

definition checked_of :: "response_policy \<Rightarrow> checked_policy" where
  "checked_of v = \<lparr>cp_value = v, cp_canonical = marshalResponsePolicyJCS v,
     cp_digest = Digest (marshalResponsePolicyJCS v)\<rparr>"

abbreviation to_utc :: "response_policy \<Rightarrow> response_policy" where
  "to_utc v \<equiv> v\<lparr>rp_CreatedAt := (fst (rp_CreatedAt v), 0)\<rparr>"

lemma CheckResponsePolicy_iff: "CheckResponsePolicy v = Inr c \<longleftrightarrow> policy_ok v \<and> c = checked_of (to_utc v)"
  unfolding CheckResponsePolicy_def policy_ok_def ttl_in_range_word checked_of_def
  by (auto simp: Let_def not_less split: prod.split if_split_asm)

lemma policy_doc_wf: "policy_ok v \<Longrightarrow> wf_json (policy_doc v) \<and> unique_names (policy_doc v)"
proof -
  assume ok: "policy_ok v"
  have c: "utf8_valid PolicySchemaVersion" "utf8_valid ActionBlockIP" by code_simp+
  have k: "\<forall>k \<in> fst ` set (case policy_doc v of JObj ms \<Rightarrow> ms). utf8_valid k"
    unfolding policy_doc_def by (simp; intro conjI; code_simp)
  have e: "list_all utf8_valid (rp_EvidenceIDs v)"
    using ok by (auto simp: policy_ok_def validEvidenceIDs_iff list_all_iff contract_valid)
  have s: "utf8_valid (rp_PolicyID v)" "utf8_valid (rp_IncidentID v)" "utf8_valid (rp_AnalysisID v)"
      "utf8_valid (rp_TargetIPv4 v)" "utf8_valid (rp_EvidenceSnapshotDigest v)" "utf8_valid (rp_RationaleDigest v)"
    using ok by (auto simp: policy_ok_def contract_valid)
  show ?thesis
    using ok c k e s contract_valid(4)
    by (auto simp: policy_doc_def policy_ok_def list_all_iff)
qed

lemma addr_length: "canonical_ipv4 s \<Longrightarrow> length s \<le> 15"
  by (auto simp: canonical_ipv4_iff addr_string_length)

lemma uint32_text_length: "length (appendUint32 v) \<le> 10"
proof -
  have "unat v < 10 ^ 10" using unat_less_32 [of v] by simp
  then show ?thesis using nat_str_length_le [of 10 "unat v"] by (simp add: appendUint32_nat_str)
qed

lemma canonical_length:
  assumes ok: "policy_ok v" and t: "four_digit_time (fst (rp_CreatedAt v))"
  shows "length (marshalResponsePolicyJCS v) \<le> MaxPolicyBytes"
proof -
  have ev: "length (evidence_json 0 (rp_EvidenceIDs v)) \<le> 50 * 39"
  proof -
    have "length (json_quote x) \<le> 38" if "x \<in> set (rp_EvidenceIDs v)" for x
      using ok that by (auto simp: policy_ok_def validEvidenceIDs_iff list_all_iff quoted_length)
    then have "length (commas (map json_quote (rp_EvidenceIDs v))) \<le> length (rp_EvidenceIDs v) * (38 + 1)"
      using length_commas [of "map json_quote (rp_EvidenceIDs v)" 38] by auto
    also have "\<dots> \<le> 50 * 39" using ok by (auto simp: policy_ok_def validEvidenceIDs_iff)
    finally show ?thesis by (simp add: evidence_json_commas)
  qed
  have fixed: "length (json_quote (rp_PolicyID v)) = 38" "length (json_quote (rp_IncidentID v)) = 38"
      "length (json_quote (rp_AnalysisID v)) = 38" "length (json_quote (rp_EvidenceSnapshotDigest v)) = 73"
      "length (json_quote (rp_RationaleDigest v)) = 73" "length (json_quote (rp_TargetIPv4 v)) \<le> 17"
    using ok by (auto simp: policy_ok_def quoted_length json_quote_length addr_safe addr_length)
  have lits: "length (json_quote (rp_SchemaVersion v)) = 20" "length (json_quote (rp_Action v)) = 10"
    using ok by (simp_all add: policy_ok_def) (code_simp)+
  have time: "length (json_quote (format_rfc3339 (fst (rp_CreatedAt v)))) \<le> 32"
    using length_format_rfc3339 [OF t] by (simp add: json_quote_length format_rfc3339_safe)
  show ?thesis
    unfolding marshalResponsePolicyJCS_def MaxPolicyBytes_def
    using ev fixed lits time uint32_text_length [of "rp_PolicyVersion v"] uint32_text_length [of "rp_TTLSeconds v"]
    by simp
qed

lemma decode_unique_canonical: "policy_ok v \<Longrightarrow> decode_unique (marshalResponsePolicyJCS v) = Some (policy_doc v)"
  using policy_doc_wf [of v] by (simp add: decode_unique_def marshal_print parse_doc_print)

lemma marshal_nonempty: "marshalResponsePolicyJCS v \<noteq> []"
  by (simp add: marshalResponsePolicyJCS_def)

text \<open>Parsing the bytes of an accepted policy always reaches the timestamp.\<close>

lemma ParseCanonical_marshal:
  assumes "policy_ok v" and "length (marshalResponsePolicyJCS v) \<le> MaxPolicyBytes"
  shows "ParseCanonicalResponsePolicy (marshalResponsePolicyJCS v) =
    (case parse_rfc3339 (format_rfc3339 (fst (rp_CreatedAt v))) of
       None \<Rightarrow> Inl PolicyErrorCreatedAt
     | Some createdAt \<Rightarrow>
         bind_res (CheckResponsePolicy (v\<lparr>rp_CreatedAt := createdAt\<rparr>))
           (\<lambda>checked. if marshalResponsePolicyJCS v \<noteq> cp_canonical checked then Inl PolicyErrorCanonical
                      else Inr checked))"
  using assms marshal_nonempty [of v]
  by (cases v) (simp add: ParseCanonicalResponsePolicy_def decode_unique_canonical decode_policy_doc not_less
      split: option.split)

definition utc_policy :: "response_policy \<Rightarrow> bool" where
  "utc_policy v \<longleftrightarrow> policy_ok v \<and> snd (rp_CreatedAt v) = 0"

lemma utc_policy_round_trip:
  assumes "utc_policy v"
  shows "ParseCanonicalResponsePolicy (marshalResponsePolicyJCS v) = Inr (checked_of v)"
proof -
  have ok: "policy_ok v" and off: "rp_CreatedAt v = (fst (rp_CreatedAt v), 0)"
    using assms by (auto simp: utc_policy_def prod_eq_iff)
  have t: "four_digit_time (fst (rp_CreatedAt v))"
    using ok off by (auto simp: policy_ok_def intro!: Year_four_digit) (metis snd_conv)+
  have v: "v\<lparr>rp_CreatedAt := (fst (rp_CreatedAt v), 0)\<rparr> = v" using off by (cases v) simp
  have "CheckResponsePolicy v = Inr (checked_of v)"
    unfolding CheckResponsePolicy_iff using ok v by simp
  then show ?thesis
    using ParseCanonical_marshal [OF ok canonical_length [OF ok t]] parse_format_rfc3339 [OF t] v
    by (simp add: checked_of_def)
qed

section \<open>Acceptance\<close>

lemma ParseCanonical_iff:
  "ParseCanonicalResponsePolicy data = Inr c \<longleftrightarrow>
     (\<exists>v. utc_policy v \<and> data = marshalResponsePolicyJCS v \<and> c = checked_of v)"
proof
  assume p: "ParseCanonicalResponsePolicy data = Inr c"
  then obtain j wire t off where j: "decode_unique data = Some j" "decode_struct wire_fields j zero_wire = Some wire"
      "parse_rfc3339 (w_CreatedAt wire) = Some (t, off)" and len: "length data \<le> MaxPolicyBytes"
    by (auto simp: ParseCanonicalResponsePolicy_def split: if_splits option.splits)
  then obtain v where v: "CheckResponsePolicy v = Inr c" "data = cp_canonical c" "rp_CreatedAt v = (t, off)"
    using p by (auto simp: ParseCanonicalResponsePolicy_def bind_res_Inr_iff split: if_splits)
  then have ok: "policy_ok v" and c: "c = checked_of (to_utc v)" by (simp_all add: CheckResponsePolicy_iff)
  have doc: "policy_doc (to_utc v) = policy_doc v" by (simp add: policy_doc_def)
  have data: "data = marshalResponsePolicyJCS v" using v(2) by (simp add: c checked_of_def marshal_print doc)
  have "w_CreatedAt wire = format_rfc3339 t"
    using j(1,2) v(3) decode_unique_canonical [OF ok] decode_policy_doc [of v] by (auto simp: data)
  then have "off = 0" using j(3) parse_rfc3339_offset by simp
  then have u: "to_utc v = v" and z: "snd (rp_CreatedAt v) = 0" using v(3) by (cases v; simp)+
  show "\<exists>v. utc_policy v \<and> data = marshalResponsePolicyJCS v \<and> c = checked_of v"
    by (rule exI [of _ v]) (simp add: utc_policy_def ok z data c [unfolded u])
qed (auto simp: utc_policy_round_trip)

lemma marshal_to_utc: "marshalResponsePolicyJCS (to_utc v) = marshalResponsePolicyJCS v"
  by (simp add: marshal_print policy_doc_def)

lemma marshal_injective:
  assumes "policy_ok v" "policy_ok w" "marshalResponsePolicyJCS v = marshalResponsePolicyJCS w"
  shows "to_utc v = to_utc w"
proof -
  have "policy_doc v = policy_doc w"
    using decode_unique_canonical [OF assms(1)] decode_unique_canonical [OF assms(2)] assms(3) by simp
  then have "rp_EvidenceIDs v = rp_EvidenceIDs w" "rp_PolicyVersion v = rp_PolicyVersion w" "rp_TTLSeconds v = rp_TTLSeconds w"
      "fst (rp_CreatedAt v) = fst (rp_CreatedAt w)" "rp_Action v = rp_Action w" "rp_AnalysisID v = rp_AnalysisID w"
      "rp_EvidenceSnapshotDigest v = rp_EvidenceSnapshotDigest w" "rp_IncidentID v = rp_IncidentID w"
      "rp_PolicyID v = rp_PolicyID w" "rp_RationaleDigest v = rp_RationaleDigest w" "rp_SchemaVersion v = rp_SchemaVersion w"
      "rp_TargetIPv4 v = rp_TargetIPv4 w"
    by (auto simp: policy_doc_def nat_str_inj inj_map_eq_map inj_def dest: format_rfc3339_inj unsigned_word_eqI)
  then show ?thesis by (cases v; cases w) simp
qed

definition sample_policy :: response_policy where
  "sample_policy = \<lparr>rp_SchemaVersion = ''response-policy-v1'',
     rp_PolicyID = ''018f0000-0000-7000-8000-000000000001'', rp_PolicyVersion = 1,
     rp_IncidentID = ''018f0000-0000-7000-8000-000000000002'',
     rp_AnalysisID = ''018f0000-0000-7000-8000-000000000003'', rp_Action = ''block_ip'',
     rp_TargetIPv4 = ''198.51.100.20'', rp_TTLSeconds = 1800,
     rp_EvidenceSnapshotDigest = ''sha256:'' @ replicate 64 CHR ''a'',
     rp_EvidenceIDs = [''018f0000-0000-7000-8000-000000000004''],
     rp_RationaleDigest = ''sha256:'' @ replicate 64 CHR ''b'', rp_CreatedAt = (63900000000123000000, 0)\<rparr>"

lemma sample_policy_ok: "utc_policy sample_policy"
  unfolding utc_policy_def policy_ok_def by code_simp

text \<open>
  C19: Strict parsing of response-policy-v1 accepts exactly the canonical encodings of valid policies:
  \<open>ParseCanonicalResponsePolicy\<close> succeeds on a byte string if and only if the bytes are the canonical
  JSON of some policy that satisfies every check of \<open>CheckResponsePolicy\<close> with its creation time in UTC,
  and it then returns that policy, those bytes and their digest. Reordered keys, extra white space, other
  number or time spellings, duplicate or unknown members are all rejected.
\<close>

theorem ParseCanonical_accepts_exactly:
  "ParseCanonicalResponsePolicy data = Inr c \<longleftrightarrow>
     (\<exists>v. CheckResponsePolicy v = Inr c \<and> snd (rp_CreatedAt v) = 0 \<and> data = cp_canonical c)"
proof
  assume "ParseCanonicalResponsePolicy data = Inr c"
  then obtain v where "utc_policy v" "data = marshalResponsePolicyJCS v" "c = checked_of v"
    by (auto simp: ParseCanonical_iff)
  moreover from this have "to_utc v = v" by (cases v) (auto simp: utc_policy_def prod_eq_iff)
  ultimately show "\<exists>v. CheckResponsePolicy v = Inr c \<and> snd (rp_CreatedAt v) = 0 \<and> data = cp_canonical c"
    by (auto simp: CheckResponsePolicy_iff utc_policy_def checked_of_def intro!: exI [of _ v])
next
  assume "\<exists>v. CheckResponsePolicy v = Inr c \<and> snd (rp_CreatedAt v) = 0 \<and> data = cp_canonical c"
  then obtain v where v: "policy_ok v" "c = checked_of (to_utc v)" "snd (rp_CreatedAt v) = 0" "data = cp_canonical c"
    by (auto simp: CheckResponsePolicy_iff)
  then have "to_utc v = v" by (cases v) (auto simp: prod_eq_iff)
  with v show "ParseCanonicalResponsePolicy data = Inr c"
    by (auto simp: ParseCanonical_iff utc_policy_def checked_of_def intro!: exI [of _ v])
qed

text \<open>
  C25: A policy digest binds the whole policy. Of any two policies that \<open>CheckResponsePolicy\<close> accepts, the
  digests coincide exactly when the policies agree in every field (the creation times as instants, whatever
  zone they were given in), or when their two canonical byte strings are different and collide under SHA-256.
\<close>

theorem policy_digest_binds:
  assumes "CheckResponsePolicy v = Inr c" and "CheckResponsePolicy w = Inr d"
  shows "cp_digest c = cp_digest d \<longleftrightarrow>
    to_utc v = to_utc w \<or> cp_canonical c \<noteq> cp_canonical d \<and> sha256 (cp_canonical c) = sha256 (cp_canonical d)"
proof -
  have c: "policy_ok v" "policy_ok w" "c = checked_of (to_utc v)" "d = checked_of (to_utc w)"
    using assms by (simp_all add: CheckResponsePolicy_iff)
  have b: "cp_canonical c = marshalResponsePolicyJCS v" "cp_canonical d = marshalResponsePolicyJCS w"
    unfolding c(3,4) by (simp_all add: checked_of_def marshal_to_utc)
  have "cp_digest c = cp_digest d \<longleftrightarrow> sha256 (cp_canonical c) = sha256 (cp_canonical d)"
    by (simp add: c(3,4) checked_of_def Digest_def digest_text_inj)
  moreover have "cp_canonical c = cp_canonical d \<longleftrightarrow> to_utc v = to_utc w"
    unfolding b using marshal_injective [OF c(1,2)] marshal_to_utc by metis
  ultimately show ?thesis by auto
qed

definition zoned_policy :: response_policy where
  "zoned_policy = sample_policy\<lparr>rp_CreatedAt := (63900000000123000000, 32400)\<rparr>"

definition longer_policy :: response_policy where
  "longer_policy = sample_policy\<lparr>rp_TTLSeconds := 3600\<rparr>"

lemma sample_policies_ok: "policy_ok sample_policy" "policy_ok zoned_policy" "policy_ok longer_policy"
proof -
  show ok: "policy_ok sample_policy" using sample_policy_ok by (simp add: utc_policy_def)
  have "1 \<le> Year 63900000000123000000 32400" "Year 63900000000123000000 32400 \<le> 9999" "ttl_in_range 3600" by code_simp+
  with ok show "policy_ok zoned_policy" "policy_ok longer_policy"
    by (simp_all add: policy_ok_def zoned_policy_def longer_policy_def)
qed

theorem policy_digest_binds_witness:
  "\<exists>c d e. CheckResponsePolicy sample_policy = Inr c \<and> CheckResponsePolicy zoned_policy = Inr d \<and>
     CheckResponsePolicy longer_policy = Inr e \<and> cp_digest c = cp_digest d \<and>
     (cp_digest c = cp_digest e \<longrightarrow> cp_canonical c \<noteq> cp_canonical e \<and> sha256 (cp_canonical c) = sha256 (cp_canonical e))"
proof -
  obtain c d e where c: "CheckResponsePolicy sample_policy = Inr c" "CheckResponsePolicy zoned_policy = Inr d"
      "CheckResponsePolicy longer_policy = Inr e" using sample_policies_ok by (simp add: CheckResponsePolicy_iff)
  have "to_utc sample_policy = to_utc zoned_policy" "to_utc sample_policy \<noteq> to_utc longer_policy"
    by (simp_all add: zoned_policy_def longer_policy_def sample_policy_def)
  then have "cp_digest c = cp_digest d"
      "cp_digest c = cp_digest e \<longrightarrow> cp_canonical c \<noteq> cp_canonical e \<and> sha256 (cp_canonical c) = sha256 (cp_canonical e)"
    using policy_digest_binds [OF c(1,2)] policy_digest_binds [OF c(1,3)] by simp_all
  with c show ?thesis by (intro exI conjI)
qed

section \<open>Revisions\<close>

text \<open>One accepted revision, and what it changes.\<close>

inductive revises :: "checked_policy \<Rightarrow> checked_policy \<Rightarrow> bool" where
  revision: "ReviseResponsePolicy p v = Inr q \<Longrightarrow> revises p q"

inductive_cases revisesE: "revises p q"

abbreviation created :: "checked_policy \<Rightarrow> gotime" where
  "created p \<equiv> fst (rp_CreatedAt (cp_value p))"

abbreviation version_of :: "checked_policy \<Rightarrow> nat" where
  "version_of p \<equiv> unat (rp_PolicyVersion (cp_value p))"

lemma revise_Inr:
  assumes "ReviseResponsePolicy p v = Inr q"
  shows "policy_ok v \<and> q = checked_of (to_utc v) \<and> version_of q = version_of p + 1 \<and>
    rp_PolicyID (cp_value q) = rp_PolicyID (cp_value p) \<and> rp_IncidentID (cp_value q) = rp_IncidentID (cp_value p) \<and>
    created p < created q \<and> cp_digest q \<noteq> cp_digest p \<and> cp_canonical q \<noteq> cp_canonical p"
proof -
  have c: "CheckResponsePolicy v = Inr q" and g: "rp_PolicyID v = rp_PolicyID (cp_value p)"
      "rp_IncidentID v = rp_IncidentID (cp_value p)" "rp_PolicyVersion v = rp_PolicyVersion (cp_value p) + 1"
      "created p < fst (rp_CreatedAt v)" "cp_digest q \<noteq> cp_digest p" "cp_canonical q \<noteq> cp_canonical p"
    using assms by (auto simp: ReviseResponsePolicy_def Let_def bind_res_Inr_iff split: if_splits)
  from c have ok: "policy_ok v" and q: "q = checked_of (to_utc v)" by (simp_all add: CheckResponsePolicy_iff)
  have "rp_PolicyVersion v \<noteq> 0" using ok by (simp add: policy_ok_def)
  then have "unat (rp_PolicyVersion v) = unat (rp_PolicyVersion (cp_value p)) + 1"
    using g(3) by (metis Suc_eq_plus1 add.commute unatSuc)
  with ok q g show ?thesis by (simp add: checked_of_def)
qed

text \<open>
  C26: Revisions of a policy form a history that only moves forward. Along any chain of accepted revisions
  the policy and incident identifiers stay the same, the version grows by exactly one per revision (it
  never wraps), and the creation time strictly increases; so no chain returns to an earlier version.
\<close>

theorem revision_chain_forward:
  "revises\<^sup>+\<^sup>+ p q \<Longrightarrow>
     rp_PolicyID (cp_value q) = rp_PolicyID (cp_value p) \<and> rp_IncidentID (cp_value q) = rp_IncidentID (cp_value p) \<and>
     version_of p < version_of q \<and> created p < created q"
proof (induction rule: tranclp_induct)
  case (base q)
  then show ?case by (auto elim!: revisesE dest: revise_Inr)
next
  case (step q r)
  from step.hyps(2) have "version_of r = version_of q + 1" "created q < created r"
      "rp_PolicyID (cp_value r) = rp_PolicyID (cp_value q)" "rp_IncidentID (cp_value r) = rp_IncidentID (cp_value q)"
    by (auto elim!: revisesE dest: revise_Inr)
  with step.IH show ?case by auto
qed

definition next_policy :: response_policy where
  "next_policy = sample_policy\<lparr>rp_PolicyVersion := 2, rp_TTLSeconds := 3600, rp_CreatedAt := (63900000001123000000, 0)\<rparr>"

definition stored_policy :: checked_policy where
  "stored_policy = \<lparr>cp_value = sample_policy, cp_canonical = ''{}'', cp_digest = ''sha256:0''\<rparr>"

lemma next_policy_ok: "policy_ok next_policy"
  unfolding policy_ok_def by code_simp

lemma sample_revision: "revises stored_policy (checked_of next_policy)"
proof (rule revision)
  have "to_utc next_policy = next_policy" by (simp add: next_policy_def)
  then have c: "CheckResponsePolicy next_policy = Inr (checked_of next_policy)"
    using next_policy_ok by (simp add: CheckResponsePolicy_iff)
  have d: "length (cp_digest (checked_of next_policy)) = 71" "71 < length (cp_canonical (checked_of next_policy))"
    using digest_length [OF sha.digest_matches] by (simp_all add: checked_of_def Digest_def marshalResponsePolicyJCS_def)
  then have ne: "cp_digest (checked_of next_policy) \<noteq> ''sha256:0''" "cp_canonical (checked_of next_policy) \<noteq> ''{}''" by auto
  show "ReviseResponsePolicy stored_policy next_policy = Inr (checked_of next_policy)"
    unfolding ReviseResponsePolicy_def c
    using ne by (simp add: stored_policy_def next_policy_def sample_policy_def MaxInt32_def)
qed

theorem revision_chain_forward_witness:
  "revises\<^sup>+\<^sup>+ stored_policy (checked_of next_policy) \<and>
   rp_PolicyID (cp_value (checked_of next_policy)) = rp_PolicyID (cp_value stored_policy) \<and>
   rp_IncidentID (cp_value (checked_of next_policy)) = rp_IncidentID (cp_value stored_policy) \<and>
   version_of stored_policy < version_of (checked_of next_policy) \<and>
   created stored_policy < created (checked_of next_policy)"
proof -
  have "revises\<^sup>+\<^sup>+ stored_policy (checked_of next_policy)" using sample_revision by (rule tranclp.r_into_trancl)
  with revision_chain_forward [OF this] show ?thesis by blast
qed

text \<open>What makes a policy the next version of a checked one.\<close>

definition continues :: "checked_policy \<Rightarrow> response_policy \<Rightarrow> bool" where
  "continues p v \<longleftrightarrow> rp_PolicyID v = rp_PolicyID (cp_value p) \<and> rp_IncidentID v = rp_IncidentID (cp_value p) \<and>
     unat (rp_PolicyVersion v) = version_of p + 1 \<and> unat (rp_PolicyVersion v) < 2 ^ 31 \<and> created p < fst (rp_CreatedAt v)"

lemma CheckResponsePolicy_no_revision: "CheckResponsePolicy v \<noteq> Inl PolicyErrorRevision"
  by (auto simp: CheckResponsePolicy_def Let_def split: prod.split)

lemma revise_cases:
  assumes "CheckResponsePolicy u = Inr p"
  shows "ReviseResponsePolicy p v =
    (if \<not> continues p v then Inl PolicyErrorRevision
     else case CheckResponsePolicy v of Inl e \<Rightarrow> Inl e
       | Inr q \<Rightarrow> if cp_digest q = cp_digest p then Inl PolicyErrorRevision else Inr q)"
proof -
  have p: "policy_ok u" "p = checked_of (to_utc u)" using assms by (simp_all add: CheckResponsePolicy_iff)
  have ne: "cp_canonical p \<noteq> []" "cp_digest p \<noteq> []"
    using digest_length [OF sha.digest_matches, of "marshalResponsePolicyJCS (to_utc u)"]
    by (simp_all add: p(2) checked_of_def marshal_nonempty) (auto simp: Digest_def)
  have le: "version_of p \<le> 2147483647" using p by (simp add: policy_ok_def checked_of_def MaxInt32_def word_le_nat_alt)
  have s: "unat (rp_PolicyVersion (cp_value p) + 1) = version_of p + 1"
    using le by (subst unat_add_lem [THEN iffD1]) auto
  have m: "rp_PolicyVersion (cp_value p) = MaxInt32 \<longleftrightarrow> version_of p = 2147483647"
    by (auto simp: MaxInt32_def word_unat_eq_iff)
  have n: "rp_PolicyVersion v = rp_PolicyVersion (cp_value p) + 1 \<longleftrightarrow> unat (rp_PolicyVersion v) = version_of p + 1"
    using s by (simp add: word_unat_eq_iff)
  have g: "continues p v \<longleftrightarrow> rp_PolicyID v = rp_PolicyID (cp_value p) \<and> rp_IncidentID v = rp_IncidentID (cp_value p) \<and>
      rp_PolicyVersion (cp_value p) \<noteq> MaxInt32 \<and> rp_PolicyVersion v = rp_PolicyVersion (cp_value p) + 1 \<and>
      created p < fst (rp_CreatedAt v)"
    unfolding continues_def m n using le by auto
  have "cp_canonical q = cp_canonical p \<Longrightarrow> cp_digest q = cp_digest p" if "CheckResponsePolicy v = Inr q" for q
    using that p(2) by (auto simp: CheckResponsePolicy_iff checked_of_def)
  then show ?thesis using ne
    by (auto simp: ReviseResponsePolicy_def g Let_def bind_res_def split: sum.splits)
qed

text \<open>
  C27: Every outcome of a revision of a checked policy. It is accepted exactly when the new policy is the next
  version of the old one (same policy and incident, version one higher and below 2 ^ 31, created later), passes
  every check, and its canonical bytes, which always differ from the old ones, do not collide with them under
  SHA-256. It is refused with the revision error exactly when it is not the next version or its bytes collide,
  and with another error exactly when it is the next version and \<open>CheckResponsePolicy\<close> refuses it with that error.
\<close>

theorem revise_outcomes:
  assumes "CheckResponsePolicy u = Inr p"
  shows "(ReviseResponsePolicy p v = Inr q \<longleftrightarrow>
       continues p v \<and> CheckResponsePolicy v = Inr q \<and> sha256 (cp_canonical q) \<noteq> sha256 (cp_canonical p)) \<and>
    (ReviseResponsePolicy p v = Inl PolicyErrorRevision \<longleftrightarrow> \<not> continues p v \<or>
       (\<exists>q. CheckResponsePolicy v = Inr q \<and> cp_canonical q \<noteq> cp_canonical p \<and> sha256 (cp_canonical q) = sha256 (cp_canonical p))) \<and>
    (e \<noteq> PolicyErrorRevision \<longrightarrow>
       (ReviseResponsePolicy p v = Inl e \<longleftrightarrow> continues p v \<and> CheckResponsePolicy v = Inl e))"
proof -
  have d: "cp_digest q = cp_digest p \<longleftrightarrow> sha256 (cp_canonical q) = sha256 (cp_canonical p)"
    if "CheckResponsePolicy v = Inr q" for q
    using that assms by (auto simp: CheckResponsePolicy_iff checked_of_def Digest_def digest_text_inj)
  have n: "cp_canonical q \<noteq> cp_canonical p" if "continues p v" "CheckResponsePolicy v = Inr q" for q
  proof
    assume "cp_canonical q = cp_canonical p"
    then have "to_utc v = to_utc u"
      using that(2) assms marshal_injective [of v u] by (simp add: CheckResponsePolicy_iff checked_of_def marshal_to_utc)
    from arg_cong [OF this, of rp_PolicyVersion] have "rp_PolicyVersion v = rp_PolicyVersion u" by simp
    moreover have "cp_value p = to_utc u" using assms by (simp add: CheckResponsePolicy_iff checked_of_def)
    ultimately show False using that(1) by (simp add: continues_def)
  qed
  show ?thesis
  proof (cases "CheckResponsePolicy v")
    case (Inl f)
    then show ?thesis unfolding revise_cases [OF assms] using CheckResponsePolicy_no_revision [of v] by auto
  next
    case (Inr r)
    then show ?thesis unfolding revise_cases [OF assms] using d [OF Inr] n [OF _ Inr] by auto
  qed
qed

theorem revise_outcomes_witness:
  "\<exists>p q. CheckResponsePolicy sample_policy = Inr p \<and> CheckResponsePolicy next_policy = Inr q \<and>
     (sha256 (cp_canonical q) \<noteq> sha256 (cp_canonical p) \<longrightarrow> ReviseResponsePolicy p next_policy = Inr q) \<and>
     ReviseResponsePolicy p longer_policy = Inl PolicyErrorRevision \<and>
     ReviseResponsePolicy p (next_policy\<lparr>rp_Action := ''observe''\<rparr>) = Inl PolicyErrorAction"
proof -
  let ?p = "checked_of sample_policy" and ?w = "next_policy\<lparr>rp_Action := ''observe''\<rparr>"
  have p: "CheckResponsePolicy sample_policy = Inr ?p"
    using sample_policies_ok(1) by (simp add: CheckResponsePolicy_iff) (simp add: sample_policy_def)
  have q: "CheckResponsePolicy next_policy = Inr (checked_of (to_utc next_policy))"
    using next_policy_ok by (simp add: CheckResponsePolicy_iff)
  have "CheckResponsePolicy ?w = Inl PolicyErrorAction"
    using next_policy_ok by (simp add: CheckResponsePolicy_def policy_ok_def not_less) (simp add: ActionBlockIP_def)
  moreover have "continues ?p next_policy" "continues ?p ?w" "\<not> continues ?p longer_policy"
    by (simp_all add: continues_def checked_of_def next_policy_def longer_policy_def sample_policy_def)
  ultimately have "ReviseResponsePolicy ?p ?w = Inl PolicyErrorAction"
      "ReviseResponsePolicy ?p longer_policy = Inl PolicyErrorRevision"
      "sha256 (cp_canonical (checked_of (to_utc next_policy))) \<noteq> sha256 (cp_canonical ?p) \<longrightarrow>
         ReviseResponsePolicy ?p next_policy = Inr (checked_of (to_utc next_policy))"
    using revise_outcomes [OF p, of ?w _ PolicyErrorAction] revise_outcomes [OF p, of longer_policy]
      revise_outcomes [OF p, of next_policy] q by simp_all
  with p q show ?thesis by (intro exI conjI)
qed

text \<open>
  C28: The year check looks at the policy's own time zone while the canonical text is written in UTC. A
  creation time in year 9999 at a zone west of Greenwich that is already year 10000 in UTC is accepted,
  and the canonical bytes produced for it are rejected by strict parsing.
\<close>

theorem year_check_before_utc:
  "\<exists>c. CheckResponsePolicy (sample_policy\<lparr>rp_CreatedAt := (year_10000, - 3600)\<rparr>) = Inr c \<and>
     ParseCanonicalResponsePolicy (cp_canonical c) = Inl PolicyErrorCreatedAt"
proof -
  let ?v = "sample_policy\<lparr>rp_CreatedAt := (year_10000, - 3600)\<rparr>"
  have y: "year_10000 \<noteq> 0" "1 \<le> Year year_10000 (- 3600)" "Year year_10000 (- 3600) \<le> 9999" by code_simp+
  have ok: "policy_ok ?v" using sample_policy_ok y by (simp add: utc_policy_def policy_ok_def)
  have f: "format_rfc3339 year_10000 = ''10000-01-01T00:00:00Z''" by code_simp
  have p: "parse_rfc3339 ''10000-01-01T00:00:00Z'' = None" by code_simp
  have l: "length (marshalResponsePolicyJCS ?v) \<le> MaxPolicyBytes" by code_simp
  have "marshalResponsePolicyJCS (to_utc ?v) = marshalResponsePolicyJCS ?v" by (simp add: marshal_print policy_doc_def)
  then have "cp_canonical (checked_of (to_utc ?v)) = marshalResponsePolicyJCS ?v" by (simp add: checked_of_def)
  moreover have "ParseCanonicalResponsePolicy (marshalResponsePolicyJCS ?v) = Inl PolicyErrorCreatedAt"
    using ParseCanonical_marshal [OF ok l] by (simp add: f p)
  moreover have "CheckResponsePolicy ?v = Inr (checked_of (to_utc ?v))" using ok by (simp add: CheckResponsePolicy_iff)
  ultimately show ?thesis by metis
qed

end
