(* ===== verification/Cas_Machine.thy ===== *)
theory Cas_Machine
  imports Prelude
begin

text \<open>
  The interface of a versioned row: an operation names the revision it read, and is refused
  when the row has moved on. Writers are serialised by the store, so a history is the list of
  requests in the order they reach the row; a refused request leaves the row unchanged.

  Inside the locale: revisions never go back, a request whose revision was used up is refused,
  and of any number of requests that read the same revision at most one changes the row.
\<close>

definition cas_apply :: "('s \<Rightarrow> uint64 \<Rightarrow> 'i \<Rightarrow> 'e + 's) \<Rightarrow> 's \<Rightarrow> uint64 \<times> 'i \<Rightarrow> 's" where
  "cas_apply op s c = (case op s (fst c) (snd c) of Inl e \<Rightarrow> s | Inr s' \<Rightarrow> s')"

definition cas_run :: "('s \<Rightarrow> uint64 \<Rightarrow> 'i \<Rightarrow> 'e + 's) \<Rightarrow> 's \<Rightarrow> (uint64 \<times> 'i) list \<Rightarrow> 's" where
  "cas_run op = foldl (cas_apply op)"

lemma cas_run_simps [simp]:
  "cas_run op s [] = s" "cas_run op s (c # cs) = cas_run op (cas_apply op s c) cs"
  by (simp_all add: cas_run_def)

locale cas_machine =
  fixes rev_of :: "'s \<Rightarrow> uint64"
    and op :: "'s \<Rightarrow> uint64 \<Rightarrow> 'i \<Rightarrow> 'e + 's"
  assumes op_current: "op s r i = Inr s' \<Longrightarrow> r = rev_of s"
    and op_advance: "op s r i = Inr s' \<Longrightarrow> s' \<noteq> s \<Longrightarrow> unat (rev_of s') = Suc (unat (rev_of s))"
begin

lemma stale_refused: "op s r i = Inr s' \<Longrightarrow> s' \<noteq> s \<Longrightarrow> op s' r j \<noteq> Inr t"
  using op_current op_advance by (metis n_not_Suc_n)

lemma apply_cases: "cas_apply op s c = s \<or> (fst c = rev_of s \<and> unat (rev_of (cas_apply op s c)) = Suc (unat (rev_of s)))"
  by (cases "op s (fst c) (snd c)") (auto simp: cas_apply_def dest: op_current op_advance)

lemma run_monotone: "unat (rev_of s) \<le> unat (rev_of (cas_run op s cs))"
proof (induction cs arbitrary: s)
  case (Cons c cs)
  have "unat (rev_of s) \<le> unat (rev_of (cas_apply op s c))" using apply_cases [of s c] by auto
  also have "\<dots> \<le> unat (rev_of (cas_run op (cas_apply op s c) cs))" by (rule Cons.IH)
  finally show ?case by simp
qed simp

lemma behind_unchanged: "\<forall>c \<in> set cs. unat (fst c) < unat (rev_of s) \<Longrightarrow> cas_run op s cs = s"
proof (induction cs)
  case (Cons c cs)
  then have "cas_apply op s c = s" using apply_cases [of s c] by auto
  with Cons show ?case by simp
qed simp

lemma one_winner:
  assumes "\<forall>c \<in> set cs. fst c = r"
  shows "cas_run op s cs = s \<or>
    (\<exists>a c b. cs = a @ c # b \<and> cas_run op s a = s \<and> cas_run op s cs = cas_apply op s c)"
  using assms
proof (induction cs)
  case (Cons c cs)
  show ?case
  proof (cases "cas_apply op s c = s")
    case True
    with Cons consider "cas_run op s cs = s"
      | a d b where "cs = a @ d # b" "cas_run op s a = s" "cas_run op s cs = cas_apply op s d" by auto
    then show ?thesis
    proof cases
      case 2
      with True show ?thesis by (intro disjI2 exI [of _ "c # a"] exI [of _ d] exI [of _ b]) simp
    qed (simp add: True)
  next
    case False
    then have "fst c = rev_of s" "unat (rev_of (cas_apply op s c)) = Suc (unat (rev_of s))"
      using apply_cases [of s c] by auto
    with Cons.prems have "cas_run op (cas_apply op s c) cs = cas_apply op s c"
      by (intro behind_unchanged) auto
    then show ?thesis by (intro disjI2 exI [of _ "[]"] exI [of _ c] exI [of _ cs]) simp
  qed
qed simp

end

end
