(* ===== verification/Policy_Lifecycle.thy ===== *)
theory Policy_Lifecycle
  imports Policy_Response Cas_Machine
begin

text \<open>
  \<open>internal/policy/state.go\<close>: the thirteen policy states, the allowed transitions, and the
  compare-and-swap \<open>Transition\<close> on a state row. States are Go strings; an unknown string is a
  value that the code has to refuse.
\<close>

type_synonym policy_state = string

definition PolicyStateDraft :: policy_state where "PolicyStateDraft = ''draft''"
definition PolicyStateValidating :: policy_state where "PolicyStateValidating = ''validating''"
definition PolicyStateValid :: policy_state where "PolicyStateValid = ''valid''"
definition PolicyStateInvalid :: policy_state where "PolicyStateInvalid = ''invalid''"
definition PolicyStateStale :: policy_state where "PolicyStateStale = ''stale''"
definition PolicyStateApproved :: policy_state where "PolicyStateApproved = ''approved''"
definition PolicyStateRejected :: policy_state where "PolicyStateRejected = ''rejected''"
definition PolicyStateQueued :: policy_state where "PolicyStateQueued = ''queued''"
definition PolicyStateActive :: policy_state where "PolicyStateActive = ''active''"
definition PolicyStateExpired :: policy_state where "PolicyStateExpired = ''expired''"
definition PolicyStateFailed :: policy_state where "PolicyStateFailed = ''failed''"
definition PolicyStateRevoked :: policy_state where "PolicyStateRevoked = ''revoked''"
definition PolicyStateIndeterminate :: policy_state where "PolicyStateIndeterminate = ''indeterminate''"

lemmas state_defs = PolicyStateDraft_def PolicyStateValidating_def PolicyStateValid_def
  PolicyStateInvalid_def PolicyStateStale_def PolicyStateApproved_def PolicyStateRejected_def
  PolicyStateQueued_def PolicyStateActive_def PolicyStateExpired_def PolicyStateFailed_def
  PolicyStateRevoked_def PolicyStateIndeterminate_def

definition allowedPolicyTransitions :: "(policy_state \<times> policy_state list) list" where
  "allowedPolicyTransitions =
     [(PolicyStateDraft, [PolicyStateValidating, PolicyStateStale]),
      (PolicyStateValidating, [PolicyStateValid, PolicyStateInvalid, PolicyStateStale]),
      (PolicyStateValid, [PolicyStateApproved, PolicyStateRejected, PolicyStateStale]),
      (PolicyStateApproved, [PolicyStateQueued, PolicyStateStale]),
      (PolicyStateQueued, [PolicyStateActive, PolicyStateFailed, PolicyStateIndeterminate, PolicyStateStale]),
      (PolicyStateActive, [PolicyStateExpired, PolicyStateFailed, PolicyStateRevoked, PolicyStateIndeterminate]),
      (PolicyStateIndeterminate, [PolicyStateActive, PolicyStateExpired, PolicyStateFailed, PolicyStateRevoked])]"

definition allPolicyStates :: "policy_state list" where
  "allPolicyStates =
     [PolicyStateDraft, PolicyStateValidating, PolicyStateValid, PolicyStateInvalid, PolicyStateStale,
      PolicyStateApproved, PolicyStateRejected, PolicyStateQueued, PolicyStateActive, PolicyStateExpired,
      PolicyStateFailed, PolicyStateRevoked, PolicyStateIndeterminate]"

definition validPolicyState :: "policy_state \<Rightarrow> bool" where
  "validPolicyState s \<longleftrightarrow> s \<in> set allPolicyStates"

definition CanTransitionPolicy :: "policy_state \<Rightarrow> policy_state \<Rightarrow> bool" where
  "CanTransitionPolicy current nxt \<longleftrightarrow>
     (case map_of allowedPolicyTransitions current of None \<Rightarrow> False | Some ns \<Rightarrow> nxt \<in> set ns)"

record policy_lifecycle =
  pl_policyID :: string
  pl_policyVersion :: uint32
  pl_state :: policy_state
  pl_revision :: uint64

definition NewPolicyLifecycle :: "checked_policy \<Rightarrow> policy_error_code + policy_lifecycle" where
  "NewPolicyLifecycle p =
     (let v = cp_value p in
      if cp_canonical p = [] \<or> cp_digest p = [] \<or> \<not> re_matches uuidPattern (rp_PolicyID v) \<or>
         rp_PolicyVersion v = 0 then Inl PolicyErrorState
      else Inr \<lparr>pl_policyID = rp_PolicyID v, pl_policyVersion = rp_PolicyVersion v,
                pl_state = PolicyStateDraft, pl_revision = 1\<rparr>)"

definition RestorePolicyLifecycle ::
    "string \<Rightarrow> uint32 \<Rightarrow> policy_state \<Rightarrow> uint64 \<Rightarrow> policy_error_code + policy_lifecycle" where
  "RestorePolicyLifecycle policyID policyVersion st revision =
     (if \<not> re_matches uuidPattern policyID \<or> policyVersion = 0 \<or> MaxInt32 < policyVersion \<or>
         revision = 0 \<or> \<not> validPolicyState st then Inl PolicyErrorState
      else Inr \<lparr>pl_policyID = policyID, pl_policyVersion = policyVersion, pl_state = st, pl_revision = revision\<rparr>)"

definition Transition ::
    "policy_lifecycle \<Rightarrow> uint64 \<Rightarrow> policy_state \<Rightarrow> policy_error_code + policy_lifecycle" where
  "Transition l expectedRevision nxt =
     (if expectedRevision = 0 \<or> expectedRevision \<noteq> pl_revision l then Inl PolicyErrorStateRevision
      else if \<not> validPolicyState (pl_state l) \<or> \<not> validPolicyState nxt then Inl PolicyErrorState
      else if nxt = pl_state l then Inr l
      else if \<not> CanTransitionPolicy (pl_state l) nxt \<or> pl_revision l = - 1 then Inl PolicyErrorTransition
      else Inr (l\<lparr>pl_state := nxt, pl_revision := pl_revision l + 1\<rparr>))"

section \<open>The row is a compare-and-swap machine\<close>

lemma unat_succ: "(w :: uint64) \<noteq> - 1 \<Longrightarrow> unat (w + 1) = Suc (unat w)"
  by (metis add.commute add.inverse_inverse add_eq_0_iff unatSuc)

lemma Transition_Inr:
  "Transition l r nxt = Inr l' \<longleftrightarrow>
     r \<noteq> 0 \<and> r = pl_revision l \<and> validPolicyState (pl_state l) \<and> validPolicyState nxt \<and>
     (nxt = pl_state l \<and> l' = l \<or>
      nxt \<noteq> pl_state l \<and> CanTransitionPolicy (pl_state l) nxt \<and> pl_revision l \<noteq> - 1 \<and>
        l' = l\<lparr>pl_state := nxt, pl_revision := pl_revision l + 1\<rparr>)"
  by (auto simp: Transition_def)

interpretation pol: cas_machine pl_revision Transition
proof
  fix l r nxt l' assume t: "Transition l r nxt = Inr l'"
  then show "r = pl_revision l" by (simp add: Transition_Inr)
  assume "l' \<noteq> l"
  with t show "unat (pl_revision l') = Suc (unat (pl_revision l))" by (auto simp: Transition_Inr unat_succ)
qed

section \<open>Which states can follow which\<close>

definition allowed_pairs :: "(policy_state \<times> policy_state) list" where
  "allowed_pairs = concat (map (\<lambda>(s, ns). map (Pair s) ns) allowedPolicyTransitions)"

lemma CanTransition_pairs: "CanTransitionPolicy s t \<longleftrightarrow> (s, t) \<in> set allowed_pairs"
proof -
  have d: "distinct (map fst allowedPolicyTransitions)" by code_simp
  have "(s, t) \<in> set allowed_pairs \<longleftrightarrow> (\<exists>ns. (s, ns) \<in> set allowedPolicyTransitions \<and> t \<in> set ns)"
    by (force simp: allowed_pairs_def)
  also have "\<dots> \<longleftrightarrow> CanTransitionPolicy s t"
    unfolding CanTransitionPolicy_def map_of_eq_Some_iff [OF d, symmetric] by (auto split: option.split)
  finally show ?thesis by simp
qed

definition terminalStates :: "policy_state list" where
  "terminalStates = [PolicyStateInvalid, PolicyStateStale, PolicyStateRejected, PolicyStateExpired,
     PolicyStateFailed, PolicyStateRevoked]"

definition enforcedStates :: "policy_state list" where
  "enforcedStates = [PolicyStateQueued, PolicyStateActive, PolicyStateExpired, PolicyStateFailed,
     PolicyStateRevoked, PolicyStateIndeterminate]"

text \<open>The gates a state lies behind.\<close>

definition behind :: "policy_state \<Rightarrow> policy_state list" where
  "behind s = (if s \<in> set enforcedStates then [PolicyStateApproved, PolicyStateValid, PolicyStateValidating]
     else if s = PolicyStateApproved \<or> s = PolicyStateRejected then [PolicyStateValid, PolicyStateValidating]
     else if s = PolicyStateValid \<or> s = PolicyStateInvalid then [PolicyStateValidating] else [])"

lemma behind_step: "CanTransitionPolicy s t \<Longrightarrow> set (behind t) \<subseteq> insert s (set (behind s))"
proof -
  have "list_all (\<lambda>(s, t). list_all (\<lambda>g. g = s \<or> g \<in> set (behind s)) (behind t)) allowed_pairs" by code_simp
  moreover assume "CanTransitionPolicy s t"
  ultimately show ?thesis by (auto simp: CanTransition_pairs list_all_iff)
qed

text \<open>The states a row has been through, newest first.\<close>

inductive history :: "policy_state list \<Rightarrow> policy_lifecycle \<Rightarrow> bool" where
  created: "NewPolicyLifecycle p = Inr l \<Longrightarrow> history [pl_state l] l"
| moved: "history h l \<Longrightarrow> Transition l r nxt = Inr l' \<Longrightarrow> history (pl_state l' # h) l'"

lemma history_invariant:
  "history h l \<Longrightarrow> set (behind (pl_state l)) \<subseteq> set h \<and> pl_state l \<in> set h \<and> validPolicyState (pl_state l)"
proof (induction rule: history.induct)
  case (created p l)
  then have "pl_state l = PolicyStateDraft" by (auto simp: NewPolicyLifecycle_def Let_def split: if_splits)
  moreover have "behind PolicyStateDraft = []" "validPolicyState PolicyStateDraft" by code_simp+
  ultimately show ?case by simp
next
  case (moved h l r nxt l')
  then consider "l' = l" | "CanTransitionPolicy (pl_state l) (pl_state l')" "validPolicyState (pl_state l')"
    by (auto simp: Transition_Inr)
  then show ?case
  proof cases
    case 2
    with behind_step [OF 2(1)] moved.IH show ?thesis by auto
  qed (use moved.IH in auto)
qed

text \<open>
  C9: No enforcement without approval. However a policy row is driven, from its creation as a draft through
  any sequence of accepted transitions, it can be queued, active, expired, failed, revoked or indeterminate
  only if it was validating, valid and approved before.
\<close>

theorem enforcement_needs_approval:
  "history h l \<Longrightarrow> pl_state l \<in> set enforcedStates \<Longrightarrow>
     PolicyStateApproved \<in> set h \<and> PolicyStateValid \<in> set h \<and> PolicyStateValidating \<in> set h"
  using history_invariant [of h l] by (simp add: behind_def)

definition row_at :: "policy_state \<Rightarrow> uint64 \<Rightarrow> policy_lifecycle" where
  "row_at s r = \<lparr>pl_policyID = ''018f0000-0000-7000-8000-000000000001'', pl_policyVersion = 1, pl_state = s, pl_revision = r\<rparr>"

lemma sample_history:
  "history [''queued'', ''approved'', ''valid'', ''validating'', ''draft''] (row_at ''queued'' 5)"
proof -
  have "NewPolicyLifecycle stored_policy = Inr (row_at ''draft'' 1)" by code_simp
  then have 1: "history [''draft''] (row_at ''draft'' 1)"
    using created [of stored_policy "row_at ''draft'' 1"] by (simp add: row_at_def)
  have "Transition (row_at ''draft'' 1) 1 ''validating'' = Inr (row_at ''validating'' 2)"
      "Transition (row_at ''validating'' 2) 2 ''valid'' = Inr (row_at ''valid'' 3)"
      "Transition (row_at ''valid'' 3) 3 ''approved'' = Inr (row_at ''approved'' 4)"
      "Transition (row_at ''approved'' 4) 4 ''queued'' = Inr (row_at ''queued'' 5)" by code_simp+
  from this(1,2,3,4) [THEN moved [rotated]] 1 show ?thesis by (simp add: row_at_def)
qed

theorem enforcement_needs_approval_witness:
  "history [''queued'', ''approved'', ''valid'', ''validating'', ''draft''] (row_at ''queued'' 5) \<and>
   PolicyStateApproved \<in> set [''queued'', ''approved'', ''valid'', ''validating'', ''draft'']"
proof -
  have "pl_state (row_at ''queued'' 5) \<in> set enforcedStates" by code_simp
  from enforcement_needs_approval [OF sample_history this] sample_history show ?thesis by blast
qed

text \<open>
  \<open>Transition\<close> is a compare-and-swap without lost updates. Of any number of requests that read the
  same revision of a row, in whatever order they arrive, at most one changes the row: the final row is
  either the row they all read or the result of the first request that succeeds.
\<close>

theorem transition_one_winner:
  "cas_run Transition l (map (Pair r) nexts) = l \<or>
     (\<exists>a nxt b. nexts = a @ nxt # b \<and> cas_run Transition l (map (Pair r) a) = l \<and>
        Transition l r nxt = Inr (cas_run Transition l (map (Pair r) nexts)))"
proof (cases "cas_run Transition l (map (Pair r) nexts) = l")
  case False
  then obtain a c b where s: "map (Pair r) nexts = a @ c # b" "cas_run Transition l a = l"
      "cas_run Transition l (map (Pair r) nexts) = cas_apply Transition l c"
    using pol.one_winner [of "map (Pair r) nexts" r l] by auto
  then obtain xs nxt ys where n: "nexts = xs @ nxt # ys" "a = map (Pair r) xs" "c = (r, nxt)"
    by (auto simp: map_eq_append_conv)
  have "Transition l r nxt = Inr (cas_apply Transition l c)"
    using False s(3) n(3) by (cases "Transition l r nxt") (auto simp: cas_apply_def)
  with s n show ?thesis by metis
qed simp

text \<open>
  Terminal states are final and revisions never wrap. An accepted transition either repeats the current
  state and changes nothing, or advances the revision by exactly one (as a number) along an allowed edge;
  a row in an invalid, stale, rejected, expired, failed or revoked state can never change again.
\<close>

theorem transition_accepts_exactly:
  "Transition l r nxt = Inr l' \<longleftrightarrow>
     r = pl_revision l \<and> r \<noteq> 0 \<and> validPolicyState (pl_state l) \<and> validPolicyState nxt \<and>
     (if nxt = pl_state l then l' = l
      else pl_state l \<notin> set terminalStates \<and> (pl_state l, nxt) \<in> set allowed_pairs \<and>
           unat (pl_revision l') = Suc (unat (pl_revision l)) \<and>
           l' = l\<lparr>pl_state := nxt, pl_revision := pl_revision l'\<rparr>)"
proof -
  have "list_all (\<lambda>(s, t). s \<notin> set terminalStates) allowed_pairs" by code_simp
  then have t: "s \<notin> set terminalStates" if "(s, t) \<in> set allowed_pairs" for s t using that by (auto simp: list_all_iff)
  have u: "w \<noteq> - 1 \<and> v = w + 1 \<longleftrightarrow> unat v = Suc (unat w)" for v w :: uint64
  proof
    assume e: "unat v = Suc (unat w)"
    have "w \<noteq> - 1"
    proof
      assume "w = - 1"
      then have "unat w = 2 ^ 64 - 1" by (simp add: unsigned_minus_1_eq_mask mask_eq_exp_minus_1)
      with e unat_less_64 [of v] show False by simp
    qed
    with e show "w \<noteq> - 1 \<and> v = w + 1" by (metis unat_succ unsigned_word_eqI)
  qed (auto simp: unat_succ)
  have r: "l' = l\<lparr>pl_state := nxt, pl_revision := v\<rparr> \<longleftrightarrow> pl_revision l' = v \<and> l' = l\<lparr>pl_state := nxt, pl_revision := pl_revision l'\<rparr>" for v
    by (cases l; cases l') auto
  show ?thesis
  proof (cases "nxt = pl_state l")
    case True
    then show ?thesis by (auto simp: Transition_Inr)
  next
    case False
    have "Transition l r nxt = Inr l' \<longleftrightarrow> r \<noteq> 0 \<and> r = pl_revision l \<and> validPolicyState (pl_state l) \<and>
        validPolicyState nxt \<and> (pl_state l, nxt) \<in> set allowed_pairs \<and>
        (pl_revision l \<noteq> - 1 \<and> pl_revision l' = pl_revision l + 1) \<and> l' = l\<lparr>pl_state := nxt, pl_revision := pl_revision l'\<rparr>"
      using False r [of "pl_revision l + 1"] unfolding Transition_Inr CanTransition_pairs by blast
    with False t show ?thesis unfolding u by metis
  qed
qed

text \<open>
  A live row is never stuck: from every non-terminal state, unless the revision counter is exhausted,
  one accepted transition leads to a terminal state.
\<close>

theorem transition_can_finish:
  "validPolicyState (pl_state l) \<Longrightarrow> pl_state l \<notin> set terminalStates \<Longrightarrow> pl_revision l \<noteq> 0 \<Longrightarrow> pl_revision l \<noteq> - 1 \<Longrightarrow>
     \<exists>nxt l'. Transition l (pl_revision l) nxt = Inr l' \<and> pl_state l' \<in> set terminalStates"
proof -
  have "list_all (\<lambda>s. s \<in> set terminalStates \<or> list_ex (\<lambda>t. CanTransitionPolicy s t) terminalStates) allPolicyStates"
    by code_simp
  moreover have v: "validPolicyState t" if "t \<in> set terminalStates" for t
    using that by (auto simp: terminalStates_def validPolicyState_def allPolicyStates_def)
  moreover assume a: "validPolicyState (pl_state l)" "pl_state l \<notin> set terminalStates" "pl_revision l \<noteq> 0" "pl_revision l \<noteq> - 1"
  ultimately obtain t where t: "t \<in> set terminalStates" "CanTransitionPolicy (pl_state l) t"
    by (auto simp: validPolicyState_def list_all_iff list_ex_iff)
  then have "t \<noteq> pl_state l" using a by auto
  with a t v [OF t(1)] show ?thesis by (auto simp: Transition_Inr intro!: exI [of _ t])
qed

theorem transition_can_finish_witness:
  "\<exists>nxt l'. Transition (row_at ''active'' 6) 6 nxt = Inr l' \<and> pl_state l' \<in> set terminalStates"
proof -
  have "validPolicyState (pl_state (row_at ''active'' 6))" "pl_state (row_at ''active'' 6) \<notin> set terminalStates"
    "pl_revision (row_at ''active'' 6) \<noteq> 0" "pl_revision (row_at ''active'' 6) \<noteq> - 1" by code_simp+
  from transition_can_finish [OF this] show ?thesis by (simp add: row_at_def)
qed

end
