(* ===== verification/Keyed_Input.thy ===== *)
theory Keyed_Input
  imports Prelude "HOL-Library.Multiset"
begin

text \<open>
  The input loop that several packages share: values are checked one by one, collected in a
  map by identifier, an identical duplicate is dropped, a conflicting one is an error, and the
  collected values are sorted by a key that is different for different identifiers.

  \<open>collect\<close> is that loop. In the locale \<open>keyed_input\<close> it is shown to depend on the set of
  the values only: any order and any number of identical duplicates give the same result.
\<close>

fun collect :: "('a \<Rightarrow> 'k) \<Rightarrow> (nat \<Rightarrow> 'a \<Rightarrow> 'e option) \<Rightarrow> ('a \<Rightarrow> 'a \<Rightarrow> bool) \<Rightarrow> (nat \<Rightarrow> 'a \<Rightarrow> 'e) \<Rightarrow>
    nat \<Rightarrow> 'a list \<Rightarrow> 'a list \<Rightarrow> 'e + 'a list" where
  "collect key bad same conflict i acc [] = Inr acc"
| "collect key bad same conflict i acc (v # vs) =
     (case bad i v of
        Some e \<Rightarrow> Inl e
      | None \<Rightarrow>
          (case find (\<lambda>u. key u = key v) acc of
             Some previous \<Rightarrow>
               if \<not> same previous v then Inl (conflict i v)
               else collect key bad same conflict (Suc i) acc vs
           | None \<Rightarrow> collect key bad same conflict (Suc i) (acc @ [v]) vs))"

lemma fresh:
  assumes "find (\<lambda>u. key u = key v) acc = None" "inj_on key (set acc)" "distinct acc"
  shows "inj_on key (set (acc @ [v])) \<and> distinct (acc @ [v])"
proof -
  have "\<forall>u \<in> set acc. key u \<noteq> key v" using assms(1) by (simp add: find_None_iff)
  then show ?thesis using assms(2,3) by (auto simp: inj_on_insert)
qed

locale keyed_input =
  fixes key :: "'a \<Rightarrow> 'k"
    and bad :: "nat \<Rightarrow> 'a \<Rightarrow> 'e option"
    and same :: "'a \<Rightarrow> 'a \<Rightarrow> bool"
    and conflict :: "nat \<Rightarrow> 'a \<Rightarrow> 'e"
    and order :: "'a \<Rightarrow> 'o :: linorder"
    and ok :: "'a \<Rightarrow> bool"
  assumes same_eq: "same u v \<longleftrightarrow> u = v"
    and bad_ok: "bad i v = None \<longleftrightarrow> ok v"
    and order_key: "order u = order v \<Longrightarrow> key u = key v"
begin

lemma collect_Inr:
  "inj_on key (set acc) \<Longrightarrow> distinct acc \<Longrightarrow>
     (\<exists>r. collect key bad same conflict i acc vs = Inr r) \<longleftrightarrow> list_all ok vs \<and> inj_on key (set acc \<union> set vs)"
proof (induction vs arbitrary: i acc)
  case (Cons v vs)
  show ?case
  proof (cases "ok v")
    case True
    then have b: "bad i v = None" by (simp add: bad_ok)
    show ?thesis
    proof (cases "find (\<lambda>u. key u = key v) acc")
      case None
      then have "inj_on key (set (acc @ [v]))" "distinct (acc @ [v])" using fresh [OF None Cons.prems] by blast+
      from Cons.IH [OF this] b None True show ?thesis by (simp add: insert_commute Un_insert_left)
    next
      case (Some u)
      then have u: "u \<in> set acc" "key u = key v" by (auto simp: find_Some_iff)
      show ?thesis
      proof (cases "u = v")
        case True
        then have "insert v (set acc \<union> set vs) = set acc \<union> set vs" using u by auto
        with Cons.IH [OF Cons.prems] b Some True \<open>ok v\<close> same_eq [of u v] show ?thesis by simp
      next
        case False
        then have "\<not> inj_on key (set acc \<union> set (v # vs))" using u by (auto simp: inj_on_def)
        with False Some b same_eq [of u v] show ?thesis by simp
      qed
    qed
  next
    case False
    then obtain e where "bad i v = Some e" using bad_ok by fastforce
    with False show ?thesis by simp
  qed
qed simp

lemma collect_result:
  "collect key bad same conflict i acc vs = Inr r \<Longrightarrow> inj_on key (set acc) \<Longrightarrow> distinct acc \<Longrightarrow>
     set r = set acc \<union> set vs \<and> distinct r"
proof (induction vs arbitrary: i acc)
  case (Cons v vs)
  then have b: "bad i v = None" by (cases "bad i v") auto
  show ?case
  proof (cases "find (\<lambda>u. key u = key v) acc")
    case None
    then have "inj_on key (set (acc @ [v]))" "distinct (acc @ [v])"
      using fresh [OF None Cons.prems(2,3)] by blast+
    with Cons.IH [of "Suc i" "acc @ [v]"] Cons.prems b None show ?thesis by auto
  next
    case (Some u)
    with Cons.prems b same_eq [of u v] have "u = v" "collect key bad same conflict (Suc i) acc vs = Inr r"
      by (auto split: if_splits)
    moreover have "u \<in> set acc" using Some by (auto simp: find_Some_iff)
    ultimately show ?thesis using Cons.IH Cons.prems by auto
  qed
qed simp

lemma order_inj: "inj_on key A \<Longrightarrow> inj_on order A"
  by (meson inj_on_def order_key)

lemma sorted_result_unique:
  assumes "set r = set s" "distinct r" "distinct s" "inj_on key (set r)"
  shows "sort_key order r = sort_key order s"
proof (rule sort_key_inj_key_eq)
  show "mset r = mset (sort_key order s)" using assms by (simp add: set_eq_iff_mset_eq_distinct)
qed (use assms order_inj in auto)

lemma collect_all:
  "(\<exists>r. collect key bad same conflict 0 [] vs = Inr r) \<longleftrightarrow> list_all ok vs \<and> inj_on key (set vs)"
  using collect_Inr [of "[]"] by simp

theorem collect_set_only:
  assumes "set vs = set ws" and "collect key bad same conflict 0 [] vs = Inr r"
  shows "\<exists>s. collect key bad same conflict 0 [] ws = Inr s \<and> sort_key order s = sort_key order r"
proof -
  have ok: "list_all ok vs" "inj_on key (set vs)" using collect_all assms(2) by blast+
  then have "list_all ok ws" "inj_on key (set ws)" using assms(1) by (simp_all add: list_all_iff)
  then obtain s where s: "collect key bad same conflict 0 [] ws = Inr s" using collect_all by blast
  have "set r = set vs" "distinct r" "set s = set ws" "distinct s"
    using collect_result [OF assms(2)] collect_result [OF s] by auto
  then have "sort_key order s = sort_key order r" using sorted_result_unique ok assms(1) by metis
  with s show ?thesis by blast
qed

text \<open>Already collected and sorted input is a fixed point.\<close>

lemma collect_sorted:
  assumes "collect key bad same conflict 0 [] vs = Inr r"
  shows "set (sort_key order r) = set vs \<and> distinct (sort_key order r) \<and> sorted (map order (sort_key order r)) \<and>
    list_all ok (sort_key order r) \<and> inj_on key (set (sort_key order r))"
  using collect_result [OF assms] collect_all assms by (auto simp: list_all_iff)

end

end
