(* ===== verification/Canonical_Lines.thy ===== *)
theory Canonical_Lines
  imports Go_Sha256 Go_Utf8
begin

text \<open>
  Length-prefixed canonical lines (\<open>writeCanonicalLine\<close> of \<open>internal/detection/digest.go\<close>) and
  version 8 identifiers made from a digest. Lines are an injective encoding of string lists,
  so a digest over them is bound to the strings, up to a collision of the hash.
\<close>

definition sha256Digest :: "bytes \<Rightarrow> string" where
  "sha256Digest v = ''sha256:'' @ hex_encode (sha256 v)"

definition writeCanonicalLine :: "string \<Rightarrow> bytes" where
  "writeCanonicalLine v = nat_str (length v) @ '':'' @ v @ [CHR 0x0A]"

definition canonicalLines :: "string list \<Rightarrow> bytes" where
  "canonicalLines vs = concat (map writeCanonicalLine vs)"

definition mask_byte :: "8 word \<Rightarrow> 8 word \<Rightarrow> char \<Rightarrow> char" where
  "mask_byte keep set_bits c = byte_of (uint (or (and (word_of_int (byte_val c)) keep) set_bits))"

definition uuidV8FromDigest :: "bytes \<Rightarrow> string" where
  "uuidV8FromDigest h =
     (let b = take 16 h; b = b[6 := mask_byte 0x0F 0x80 (b ! 6)]; b = b[8 := mask_byte 0x3F 0x80 (b ! 8)]
      in hex_encode (take 4 b) @ ''-'' @ hex_encode (take 2 (drop 4 b)) @ ''-'' @ hex_encode (take 2 (drop 6 b)) @ ''-'' @
         hex_encode (take 2 (drop 8 b)) @ ''-'' @ hex_encode (drop 10 b))"

section \<open>Lines\<close>

lemma sha256Digest_eq: "sha256Digest v = digest_text (sha256 v)"
  by (simp add: sha256Digest_def digest_text_def)

lemma sha256Digest_matches: "re_matches digestPattern (sha256Digest v)"
  by (simp add: sha256Digest_eq sha.digest_matches)

lemma sha256Digest_inj: "sha256Digest v = sha256Digest w \<longleftrightarrow> sha256 v = sha256 w"
  by (simp add: sha256Digest_eq digest_text_inj)

lemma nat_str_no_colon: "CHR '':'' \<notin> set (nat_str n)"
  using nat_str_digits [of n] by (auto simp: list_all_iff class_defs)

lemma int_str_inj: "int_str i = int_str j \<longleftrightarrow> i = j"
proof -
  have "nat_str n \<noteq> CHR ''-'' # s" for n s
    using nat_str_digits [of n] by (cases "nat_str n") (auto simp: class_defs)
  then have "CHR ''-'' # s \<noteq> nat_str n" for n s by metis
  with \<open>\<And>s n. nat_str n \<noteq> CHR ''-'' # s\<close> show ?thesis
    by (auto simp: int_str_def nat_str_inj)
qed

lemma writeCanonicalLine_append:
  assumes "writeCanonicalLine v @ s = writeCanonicalLine w @ t"
  shows "v = w \<and> s = t"
proof -
  have "nat_str (length v) @ CHR '':'' # (v @ CHR 0x0A # s) = nat_str (length w) @ CHR '':'' # (w @ CHR 0x0A # t)"
    using assms by (simp add: writeCanonicalLine_def)
  from append_delim_eq [OF nat_str_no_colon nat_str_no_colon this]
  have "length v = length w" "v @ CHR 0x0A # s = w @ CHR 0x0A # t" by (simp_all add: nat_str_inj)
  then show ?thesis by simp
qed

lemma writeCanonicalLine_nonempty: "writeCanonicalLine v \<noteq> []"
  by (simp add: writeCanonicalLine_def)

theorem canonicalLines_inj: "canonicalLines vs = canonicalLines ws \<longleftrightarrow> vs = ws"
proof
  show "canonicalLines vs = canonicalLines ws \<Longrightarrow> vs = ws"
  proof (induction vs arbitrary: ws)
    case Nil
    then show ?case by (cases ws) (simp_all add: canonicalLines_def writeCanonicalLine_nonempty)
  next
    case (Cons v vs)
    then obtain w us where ws: "ws = w # us"
      by (cases ws) (simp_all add: canonicalLines_def writeCanonicalLine_nonempty)
    then have "writeCanonicalLine v @ canonicalLines vs = writeCanonicalLine w @ canonicalLines us"
      using Cons.prems by (simp add: canonicalLines_def)
    from writeCanonicalLine_append [OF this] Cons.IH ws show ?case by simp
  qed
qed simp

section \<open>Identifiers\<close>

lemma mask_byte_high:
  "(of_char (mask_byte keep set_bits c) :: nat) div 16 =
     unat (or (and (drop_bit 4 (word_of_int (byte_val c))) (drop_bit 4 keep)) (drop_bit 4 set_bits))"
proof -
  define x where "x = or (and (word_of_int (byte_val c)) keep) set_bits"
  have "unat x < 256" using unsigned_less [of x] by simp
  then have "(of_char (mask_byte keep set_bits c) :: nat) = unat x"
    by (simp add: mask_byte_def byte_of_def of_char_of x_def nat_uint_eq)
  then have "(of_char (mask_byte keep set_bits c) :: nat) div 16 = unat (drop_bit 4 x)"
    by (simp add: drop_bit_eq_div unat_div_distrib)
  then show ?thesis by (simp add: x_def)
qed

lemma mask_version: "(of_char (mask_byte 0x0F 0x80 c) :: nat) div 16 = 8"
  unfolding mask_byte_high by simp

lemma mask_variant: "(of_char (mask_byte 0x3F 0x80 c) :: nat) div 16 \<in> {8, 9, 10, 11}"
proof -
  define w where "w = drop_bit 4 (word_of_int (byte_val c) :: 8 word)"
  have "and w 3 = take_bit 2 w" by (simp add: take_bit_eq_mask mask_eq_exp_minus_1)
  then have "unat (and w 3) = unat w mod 4" by (simp add: take_bit_eq_mod unat_mod_distrib)
  then have "unat (and w 3) < 4" by simp
  then have "unat (and w 3) \<in> {unat (0 :: 8 word), unat (1 :: 8 word), unat (2 :: 8 word), unat (3 :: 8 word)}" by auto
  then have "and w 3 \<in> {0, 1, 2, 3}" by (simp add: word_eq_iff_unsigned [where 'a = nat])
  then show ?thesis unfolding mask_byte_high w_def [symmetric] by auto
qed

lemma uuidV8_matches: "length h = 32 \<Longrightarrow> re_matches uuidPattern (uuidV8FromDigest h)"
  unfolding uuidV8FromDigest_def Let_def by (rule uuidPatternI) (simp_all add: hexlow_hex_encode)

text \<open>The fifteenth character is the version \<open>8\<close>, the twentieth the variant.\<close>

definition uuid_v8 :: "string \<Rightarrow> bool" where
  "uuid_v8 s \<longleftrightarrow> re_matches uuidPattern s \<and> s ! 14 = CHR ''8'' \<and> s ! 19 \<in> set ''89ab''"

lemma hex_encode_nth: "i < length bs \<Longrightarrow> hex_encode bs ! (2 * i) = hex_char (of_char (bs ! i) div 16)"
proof (induction bs arbitrary: i)
  case (Cons b bs)
  then show ?case by (cases i) (simp_all add: hex_byte_def)
qed simp

lemma uuidV8_shape:
  assumes "length h = 32"
  shows "uuid_v8 (uuidV8FromDigest h)"
proof -
  define b where "b = (take 16 h)[6 := mask_byte 0x0F 0x80 (h ! 6), 8 := mask_byte 0x3F 0x80 (h ! 8)]"
  have len: "length b = 16" using assms by (simp add: b_def)
  have u: "uuidV8FromDigest h = hex_encode (take 4 b) @ ''-'' @ hex_encode (take 2 (drop 4 b)) @ ''-'' @
      hex_encode (take 2 (drop 6 b)) @ ''-'' @ hex_encode (take 2 (drop 8 b)) @ ''-'' @ hex_encode (drop 10 b)"
    using assms by (simp add: uuidV8FromDigest_def b_def Let_def)
  have "uuidV8FromDigest h ! 14 = hex_encode (take 2 (drop 6 b)) ! (2 * 0)"
    and "uuidV8FromDigest h ! 19 = hex_encode (take 2 (drop 8 b)) ! (2 * 0)"
    unfolding u using len by (simp_all add: nth_append)
  moreover have "hex_encode (take 2 (drop 6 b)) ! (2 * 0) = hex_char (of_char (b ! 6) div 16)"
    "hex_encode (take 2 (drop 8 b)) ! (2 * 0) = hex_char (of_char (b ! 8) div 16)"
    using len by (subst hex_encode_nth; simp)+
  moreover have "b ! 6 = mask_byte 0x0F 0x80 (h ! 6)" "b ! 8 = mask_byte 0x3F 0x80 (h ! 8)"
    using assms by (simp_all add: b_def)
  moreover have "hex_char 8 = CHR ''8''" "hex_char ` {8, 9, 10, 11} = set ''89ab''" by code_simp+
  ultimately show ?thesis
    using uuidV8_matches [OF assms] mask_version [of "h ! 6"] mask_variant [of "h ! 8"]
    unfolding uuid_v8_def by (metis imageI)
qed

end
