(* ===== verification/Detection.thy ===== *)
theory Detection
  imports Keyed_Input Contract_Text Canonical_Lines
begin

text \<open>
  \<open>internal/detection\<close>: the deterministic detectors. Configuration (\<open>config.go\<close>), input
  validation (\<open>validate.go\<close>), the four rules (\<open>detector.go\<close>), and digests and signal identity
  (\<open>digest.go\<close>). String-typed enums are strings, since validation must refuse other strings.
  Go maps whose iteration order could matter are sorted by the source before use.
\<close>

section \<open>Types (types.go)\<close>

definition RulePathScan :: string where "RulePathScan = ''path_scan.v1''"
definition RuleRequestBurst :: string where "RuleRequestBurst = ''request_burst.v1''"
definition RuleLoginBruteForce :: string where "RuleLoginBruteForce = ''login_bruteforce.v1''"
definition RuleCredentialStuffing :: string where "RuleCredentialStuffing = ''credential_stuffing.v1''"
definition ClassificationPathScan :: string where "ClassificationPathScan = ''path_scan''"
definition ClassificationRequestBurst :: string where "ClassificationRequestBurst = ''request_burst''"
definition ClassificationLoginBruteForce :: string where "ClassificationLoginBruteForce = ''brute_force''"
definition ClassificationCredentialStuffing :: string where "ClassificationCredentialStuffing = ''credential_stuffing''"
definition TimestampTrusted :: string where "TimestampTrusted = ''trusted''"
definition TimestampUntrusted :: string where "TimestampUntrusted = ''untrusted''"
definition BindingVerified :: string where "BindingVerified = ''verified''"
definition BindingPending :: string where "BindingPending = ''pending''"
definition BindingUntrusted :: string where "BindingUntrusted = ''untrusted''"
definition BindingNotApplicable :: string where "BindingNotApplicable = ''not_applicable''"
definition SourceGateway :: string where "SourceGateway = ''gateway''"
definition SourceAuth :: string where "SourceAuth = ''auth''"
definition AuthOutcomeFailed :: string where "AuthOutcomeFailed = ''failed''"
definition AuthOutcomeSucceeded :: string where "AuthOutcomeSucceeded = ''succeeded''"
definition SuspiciousPathNone :: string where "SuspiciousPathNone = ''none''"

record gateway_event =
  ge_EventID :: string
  ge_OccurredAt :: gotime
  ge_SourceIP :: string
  ge_ServiceLabel :: string
  ge_RouteLabel :: string
  ge_PathCatalogVersion :: string
  ge_SuspiciousPathID :: string
  ge_StatusCode :: int
  ge_TimestampTrust :: string
  ge_AuthenticationMatch :: string

record auth_event =
  ae_EventID :: string
  ae_OccurredAt :: gotime
  ae_SourceIP :: string
  ae_ServiceLabel :: string
  ae_RouteLabel :: string
  ae_AccountHash :: string
  ae_Outcome :: string
  ae_TimestampTrust :: string
  ae_GatewayBinding :: string

record health_interval =
  hi_State :: string
  hi_Start :: gotime
  hi_End :: gotime
  hi_DroppedCount :: uint64

record source_health =
  sh_Source :: string
  sh_Complete :: bool
  sh_CoverageStart :: gotime
  sh_CoverageEnd :: gotime
  sh_Intervals :: "health_interval list"

record evaluation_input =
  ei_Now :: gotime
  ei_GatewayEvents :: "gateway_event list"
  ei_AuthEvents :: "auth_event list"
  ei_GatewayHealth :: source_health
  ei_AuthHealth :: source_health

text \<open>\<open>GroupKey\<close>: source address and service label.\<close>

type_synonym group_key = "string \<times> string"

datatype decision = DecisionMatched | DecisionNoMatch | DecisionIncomplete

datatype decision_reason =
    ReasonThresholdMet | ReasonBelowThreshold | ReasonSourceHealthIncomplete
  | ReasonTimestampUntrusted | ReasonBindingNotVerified

definition SourceHealthStatusComplete :: string where "SourceHealthStatusComplete = ''complete''"
definition SourceHealthStatusIncomplete :: string where "SourceHealthStatusIncomplete = ''incomplete''"

record metrics =
  mt_EventCount :: int
  mt_DistinctSuspiciousPathCount :: int
  mt_DistinctAccountCount :: int

definition zero_metrics :: metrics where
  "zero_metrics = \<lparr>mt_EventCount = 0, mt_DistinctSuspiciousPathCount = 0, mt_DistinctAccountCount = 0\<rparr>"

record signal =
  sg_SignalID :: string
  sg_RuleID :: string
  sg_Classification :: string
  sg_ConfigurationVersion :: string
  sg_ConfigurationDigest :: string
  sg_SourceIP :: string
  sg_ServiceLabel :: string
  sg_WindowStart :: gotime
  sg_WindowEnd :: gotime
  sg_Metrics :: metrics
  sg_EvidenceIDs :: "string list"
  sg_EvidenceDigest :: string
  sg_Digest :: string
  sg_SourceHealthStatus :: string

record rule_evaluation =
  ev_RuleID :: string
  ev_Group :: group_key
  ev_WindowStart :: gotime
  ev_WindowEnd :: gotime
  ev_Threshold :: metrics
  ev_Observed :: metrics
  ev_Decision :: decision
  ev_Reason :: decision_reason
  ev_SourceHealthStatus :: string
  ev_EnforcementSupporting :: bool
  ev_Signal :: "signal option"

section \<open>Configuration (config.go)\<close>

definition DefaultPathCatalogVersion :: string where "DefaultPathCatalogVersion = ''path-catalog-v1''"
definition PathScanThreshold :: int where "PathScanThreshold = 8"
definition RequestBurstThreshold :: int where "RequestBurstThreshold = 120"
definition LoginBruteForceThreshold :: int where "LoginBruteForceThreshold = 10"
definition CredentialStuffingEventThreshold :: int where "CredentialStuffingEventThreshold = 20"
definition CredentialStuffingAccountThreshold :: int where "CredentialStuffingAccountThreshold = 8"
definition PathScanWindow :: duration where "PathScanWindow = 60 * Second"
definition RequestBurstWindow :: duration where "RequestBurstWindow = 10 * Second"
definition LoginBruteForceWindow :: duration where "LoginBruteForceWindow = 60 * Second"
definition CredentialStuffingWindow :: duration where "CredentialStuffingWindow = 5 * Minute"

definition defaultSuspiciousPathIDs :: "string list" where
  "defaultSuspiciousPathIDs =
     [''admin_console'', ''env_file'', ''git_config'', ''wp_admin'', ''phpmyadmin'', ''server_status'',
      ''actuator_env'', ''backup_archive'']"

record config =
  cf_Version :: string
  cf_PathCatalogVersion :: string
  cf_LoginRouteLabel :: string
  cf_SuspiciousPathIDs :: "string list"
  cf_PathScanThreshold :: int
  cf_PathScanWindow :: duration
  cf_RequestBurstThreshold :: int
  cf_RequestBurstWindow :: duration
  cf_LoginBruteForceThreshold :: int
  cf_LoginBruteForceWindow :: duration
  cf_CredentialStuffingEventThreshold :: int
  cf_CredentialStuffingAccountThreshold :: int
  cf_CredentialStuffingWindow :: duration

definition DefaultConfig :: config where
  "DefaultConfig = \<lparr>cf_Version = ''detectors-v1'', cf_PathCatalogVersion = DefaultPathCatalogVersion,
     cf_LoginRouteLabel = ''login'', cf_SuspiciousPathIDs = defaultSuspiciousPathIDs,
     cf_PathScanThreshold = PathScanThreshold, cf_PathScanWindow = PathScanWindow,
     cf_RequestBurstThreshold = RequestBurstThreshold, cf_RequestBurstWindow = RequestBurstWindow,
     cf_LoginBruteForceThreshold = LoginBruteForceThreshold, cf_LoginBruteForceWindow = LoginBruteForceWindow,
     cf_CredentialStuffingEventThreshold = CredentialStuffingEventThreshold,
     cf_CredentialStuffingAccountThreshold = CredentialStuffingAccountThreshold,
     cf_CredentialStuffingWindow = CredentialStuffingWindow\<rparr>"

definition is_label_char :: "char \<Rightarrow> bool" where
  "is_label_char c \<longleftrightarrow> is_lower c \<or> is_digit c \<or> c = CHR ''_'' \<or> c = CHR ''-''"

definition versionPattern :: "re list" where
  "versionPattern = [RRep is_lower 1 1, RRep (\<lambda>c. is_label_char c \<or> c = CHR ''.'') 0 63]"

definition labelPattern :: "re list" where
  "labelPattern = [RRep is_lower 1 1, RRep is_label_char 0 63]"

definition accountHashPattern :: "re list" where
  "accountHashPattern = [RLit ''hmac-sha256:'', RRep is_hexlow 64 64]"

datatype config_error =
    ConfigVersion | ConfigPathCatalog | ConfigLoginRoute | ConfigPathScan | ConfigRequestBurst
  | ConfigLoginBruteForce | ConfigCredentialStuffing | ConfigPathCount | ConfigPathSet

definition validateAndNormalizeConfig :: "config \<Rightarrow> config_error + config" where
  "validateAndNormalizeConfig c =
     (if \<not> re_matches versionPattern (cf_Version c) then Inl ConfigVersion
      else if cf_PathCatalogVersion c \<noteq> DefaultPathCatalogVersion then Inl ConfigPathCatalog
      else if \<not> re_matches labelPattern (cf_LoginRouteLabel c) then Inl ConfigLoginRoute
      else if cf_PathScanThreshold c \<noteq> PathScanThreshold \<or> cf_PathScanWindow c \<noteq> PathScanWindow then Inl ConfigPathScan
      else if cf_RequestBurstThreshold c \<noteq> RequestBurstThreshold \<or> cf_RequestBurstWindow c \<noteq> RequestBurstWindow
      then Inl ConfigRequestBurst
      else if cf_LoginBruteForceThreshold c \<noteq> LoginBruteForceThreshold \<or>
              cf_LoginBruteForceWindow c \<noteq> LoginBruteForceWindow then Inl ConfigLoginBruteForce
      else if cf_CredentialStuffingEventThreshold c \<noteq> CredentialStuffingEventThreshold \<or>
              cf_CredentialStuffingAccountThreshold c \<noteq> CredentialStuffingAccountThreshold \<or>
              cf_CredentialStuffingWindow c \<noteq> CredentialStuffingWindow then Inl ConfigCredentialStuffing
      else let expected = sort defaultSuspiciousPathIDs; actual = sort (cf_SuspiciousPathIDs c) in
        if length actual \<noteq> length expected then Inl ConfigPathCount
        else if actual \<noteq> expected then Inl ConfigPathSet
        else Inr (c\<lparr>cf_SuspiciousPathIDs := actual\<rparr>))"

section \<open>Digests (digest.go)\<close>

definition config_lines :: "config \<Rightarrow> string list" where
  "config_lines c =
     [''sentinelflow-detector-config-v1'', cf_Version c, cf_PathCatalogVersion c, cf_LoginRouteLabel c,
      int_str (cf_PathScanThreshold c), int_str (cf_PathScanWindow c),
      int_str (cf_RequestBurstThreshold c), int_str (cf_RequestBurstWindow c),
      int_str (cf_LoginBruteForceThreshold c), int_str (cf_LoginBruteForceWindow c),
      int_str (cf_CredentialStuffingEventThreshold c), int_str (cf_CredentialStuffingAccountThreshold c),
      int_str (cf_CredentialStuffingWindow c)] @ cf_SuspiciousPathIDs c"

definition digestConfig :: "config \<Rightarrow> string" where
  "digestConfig c = sha256Digest (canonicalLines (config_lines c))"

record detector =
  dt_config :: config
  dt_configDigest :: string

definition New :: "config \<Rightarrow> config_error + detector" where
  "New c = bind_res (validateAndNormalizeConfig c) (\<lambda>n. Inr \<lparr>dt_config = n, dt_configDigest = digestConfig n\<rparr>)"

text \<open>The in-place compaction loop over the sorted copy.\<close>

fun compact :: "string option \<Rightarrow> string list \<Rightarrow> string list" where
  "compact last_kept [] = []"
| "compact last_kept (v # vs) = (if last_kept = Some v then compact last_kept vs else v # compact (Some v) vs)"

definition sortedUniqueStrings :: "string list \<Rightarrow> string list" where
  "sortedUniqueStrings vs = compact None (sort vs)"

definition digestEvidenceIDs :: "string list \<Rightarrow> string" where
  "digestEvidenceIDs vs = sha256Digest (canonicalLines (''sentinelflow-evidence-ids-v1'' # sortedUniqueStrings vs))"

definition signal_lines :: "detector \<Rightarrow> string \<Rightarrow> string \<Rightarrow> group_key \<Rightarrow> gotime \<Rightarrow> gotime \<Rightarrow> metrics \<Rightarrow> string list \<Rightarrow> string list" where
  "signal_lines d ruleID classification g ws we m ids =
     [''sentinelflow-deterministic-signal-v1'', cf_Version (dt_config d), dt_configDigest d, ruleID, classification,
      fst g, snd g, format_rfc3339 ws, format_rfc3339 we, int_str (mt_EventCount m),
      int_str (mt_DistinctSuspiciousPathCount m), int_str (mt_DistinctAccountCount m), digestEvidenceIDs ids] @ ids"

definition buildSignal :: "detector \<Rightarrow> string \<Rightarrow> string \<Rightarrow> group_key \<Rightarrow> gotime \<Rightarrow> gotime \<Rightarrow> metrics \<Rightarrow> string list \<Rightarrow> signal" where
  "buildSignal d ruleID classification g ws we m evidenceIDs =
     (let ids = sortedUniqueStrings evidenceIDs;
          h = sha256 (canonicalLines (signal_lines d ruleID classification g ws we m ids))
      in \<lparr>sg_SignalID = uuidV8FromDigest h, sg_RuleID = ruleID, sg_Classification = classification,
          sg_ConfigurationVersion = cf_Version (dt_config d), sg_ConfigurationDigest = dt_configDigest d,
          sg_SourceIP = fst g, sg_ServiceLabel = snd g, sg_WindowStart = ws, sg_WindowEnd = we, sg_Metrics = m,
          sg_EvidenceIDs = ids, sg_EvidenceDigest = digestEvidenceIDs ids, sg_Digest = ''sha256:'' @ hex_encode h,
          sg_SourceHealthStatus = SourceHealthStatusComplete\<rparr>)"

section \<open>Input validation (validate.go)\<close>

datatype input_error = InputError string string

definition validSuspiciousPathID :: "string \<Rightarrow> bool" where
  "validSuspiciousPathID v \<longleftrightarrow> v \<in> set (SuspiciousPathNone # defaultSuspiciousPathIDs)"

definition validGatewayBinding :: "string \<Rightarrow> bool" where
  "validGatewayBinding v \<longleftrightarrow> v = BindingVerified \<or> v = BindingPending \<or> v = BindingUntrusted \<or> v = BindingNotApplicable"

definition validHealthState :: "string \<Rightarrow> bool" where
  "validHealthState v \<longleftrightarrow> v \<in> {''degraded'', ''lost'', ''gapped'', ''unknown_loss'', ''recovered''}"

definition indexed :: "string \<Rightarrow> nat \<Rightarrow> string" where
  "indexed name i = name @ ''['' @ nat_str i @ '']''"

text \<open>The checks of one loop iteration of \<open>normalizeGatewayEvents\<close>, in order.\<close>

definition gateway_event_error :: "config \<Rightarrow> nat \<Rightarrow> gateway_event \<Rightarrow> input_error option" where
  "gateway_event_error c i v =
     (let field = indexed ''gateway_events'' i in
      if \<not> re_matches uuidPattern (ge_EventID v) then Some (InputError (field @ ''.event_id'') ''invalid_uuid'')
      else if ge_OccurredAt v = 0 then Some (InputError (field @ ''.occurred_at'') ''required'')
      else if \<not> canonical_ipv4 (ge_SourceIP v) then Some (InputError (field @ ''.source_ip'') ''invalid_canonical_ipv4'')
      else if \<not> re_matches labelPattern (ge_ServiceLabel v) then Some (InputError (field @ ''.service_label'') ''invalid_label'')
      else if \<not> re_matches labelPattern (ge_RouteLabel v) then Some (InputError (field @ ''.route_label'') ''invalid_label'')
      else if ge_PathCatalogVersion v \<noteq> cf_PathCatalogVersion c
      then Some (InputError (field @ ''.path_catalog_version'') ''unsupported_version'')
      else if \<not> validSuspiciousPathID (ge_SuspiciousPathID v)
      then Some (InputError (field @ ''.suspicious_path_id'') ''invalid_enum'')
      else if ge_StatusCode v < 100 \<or> 599 < ge_StatusCode v then Some (InputError (field @ ''.status_code'') ''out_of_range'')
      else if ge_TimestampTrust v \<noteq> TimestampTrusted \<and> ge_TimestampTrust v \<noteq> TimestampUntrusted
      then Some (InputError (field @ ''.timestamp_trust'') ''invalid_enum'')
      else if \<not> validGatewayBinding (ge_AuthenticationMatch v)
      then Some (InputError (field @ ''.authentication_match'') ''invalid_enum'')
      else None)"

definition equalGatewayEvent :: "gateway_event \<Rightarrow> gateway_event \<Rightarrow> bool" where
  "equalGatewayEvent l r \<longleftrightarrow>
     ge_EventID l = ge_EventID r \<and> ge_OccurredAt l = ge_OccurredAt r \<and> ge_SourceIP l = ge_SourceIP r \<and>
     ge_ServiceLabel l = ge_ServiceLabel r \<and> ge_RouteLabel l = ge_RouteLabel r \<and>
     ge_PathCatalogVersion l = ge_PathCatalogVersion r \<and> ge_SuspiciousPathID l = ge_SuspiciousPathID r \<and>
     ge_StatusCode l = ge_StatusCode r \<and> ge_TimestampTrust l = ge_TimestampTrust r \<and>
     ge_AuthenticationMatch l = ge_AuthenticationMatch r"

definition gateway_conflict :: "nat \<Rightarrow> gateway_event \<Rightarrow> input_error" where
  "gateway_conflict i v = InputError (indexed ''gateway_events'' i @ ''.event_id'') ''conflicting_duplicate''"

definition normalizeGatewayEvents :: "gateway_event list \<Rightarrow> config \<Rightarrow> input_error + gateway_event list" where
  "normalizeGatewayEvents values c =
     bind_res (collect ge_EventID (gateway_event_error c) equalGatewayEvent gateway_conflict 0 [] values)
       (\<lambda>byID. Inr (sort_key (\<lambda>v. (ge_OccurredAt v, ge_EventID v)) byID))"

definition auth_event_error :: "nat \<Rightarrow> auth_event \<Rightarrow> input_error option" where
  "auth_event_error i v =
     (let field = indexed ''auth_events'' i in
      if \<not> re_matches uuidPattern (ae_EventID v) then Some (InputError (field @ ''.event_id'') ''invalid_uuid'')
      else if ae_OccurredAt v = 0 then Some (InputError (field @ ''.occurred_at'') ''required'')
      else if \<not> canonical_ipv4 (ae_SourceIP v) then Some (InputError (field @ ''.source_ip'') ''invalid_canonical_ipv4'')
      else if \<not> re_matches labelPattern (ae_ServiceLabel v) then Some (InputError (field @ ''.service_label'') ''invalid_label'')
      else if \<not> re_matches labelPattern (ae_RouteLabel v) then Some (InputError (field @ ''.route_label'') ''invalid_label'')
      else if \<not> re_matches accountHashPattern (ae_AccountHash v)
      then Some (InputError (field @ ''.account_hash'') ''invalid_digest'')
      else if ae_Outcome v \<noteq> AuthOutcomeFailed \<and> ae_Outcome v \<noteq> AuthOutcomeSucceeded
      then Some (InputError (field @ ''.outcome'') ''invalid_enum'')
      else if ae_TimestampTrust v \<noteq> TimestampTrusted \<and> ae_TimestampTrust v \<noteq> TimestampUntrusted
      then Some (InputError (field @ ''.timestamp_trust'') ''invalid_enum'')
      else if ae_GatewayBinding v \<noteq> BindingVerified \<and> ae_GatewayBinding v \<noteq> BindingPending \<and>
              ae_GatewayBinding v \<noteq> BindingUntrusted
      then Some (InputError (field @ ''.gateway_binding'') ''invalid_enum'')
      else None)"

definition equalAuthEvent :: "auth_event \<Rightarrow> auth_event \<Rightarrow> bool" where
  "equalAuthEvent l r \<longleftrightarrow>
     ae_EventID l = ae_EventID r \<and> ae_OccurredAt l = ae_OccurredAt r \<and> ae_SourceIP l = ae_SourceIP r \<and>
     ae_ServiceLabel l = ae_ServiceLabel r \<and> ae_RouteLabel l = ae_RouteLabel r \<and> ae_AccountHash l = ae_AccountHash r \<and>
     ae_Outcome l = ae_Outcome r \<and> ae_TimestampTrust l = ae_TimestampTrust r \<and> ae_GatewayBinding l = ae_GatewayBinding r"

definition auth_conflict :: "nat \<Rightarrow> auth_event \<Rightarrow> input_error" where
  "auth_conflict i v = InputError (indexed ''auth_events'' i @ ''.event_id'') ''conflicting_duplicate''"

definition normalizeAuthEvents :: "auth_event list \<Rightarrow> input_error + auth_event list" where
  "normalizeAuthEvents values =
     bind_res (collect ae_EventID auth_event_error equalAuthEvent auth_conflict 0 [] values)
       (\<lambda>byID. Inr (sort_key (\<lambda>v. (ae_OccurredAt v, ae_EventID v)) byID))"

fun interval_error :: "string \<Rightarrow> nat \<Rightarrow> health_interval list \<Rightarrow> input_error option" where
  "interval_error field i [] = None"
| "interval_error field i (v # vs) =
     (let f = field @ indexed ''.intervals'' i in
      if \<not> validHealthState (hi_State v) then Some (InputError (f @ ''.state'') ''invalid_enum'')
      else if hi_Start v = 0 then Some (InputError (f @ ''.start'') ''required'')
      else if hi_End v \<noteq> 0 \<and> hi_End v < hi_Start v then Some (InputError (f @ ''.end'') ''precedes_start'')
      else interval_error field (Suc i) vs)"

text \<open>Open intervals (zero end) sort after closed ones with the same start.\<close>

definition interval_key :: "health_interval \<Rightarrow> int \<times> (int \<times> int) \<times> string" where
  "interval_key v = (hi_Start v, (if hi_End v = 0 then (1, 0) else (0, hi_End v)), hi_State v)"

definition normalizeHealth :: "string \<Rightarrow> source_health \<Rightarrow> string \<Rightarrow> input_error + source_health" where
  "normalizeHealth field v expected =
     (if sh_Source v \<noteq> expected then Inl (InputError (field @ ''.source'') ''invalid_constant'')
      else if sh_CoverageStart v = 0 \<or> sh_CoverageEnd v = 0 then Inl (InputError (field @ ''.coverage'') ''required'')
      else if sh_CoverageEnd v < sh_CoverageStart v then Inl (InputError (field @ ''.coverage_end'') ''precedes_start'')
      else case interval_error field 0 (sh_Intervals v) of
        Some e \<Rightarrow> Inl e
      | None \<Rightarrow> Inr (v\<lparr>sh_Intervals := sort_key interval_key (sh_Intervals v)\<rparr>))"

definition normalizeInput :: "evaluation_input \<Rightarrow> config \<Rightarrow> input_error + evaluation_input" where
  "normalizeInput inp c =
     (if ei_Now inp = 0 then Inl (InputError ''now'' ''required'')
      else bind_res (normalizeGatewayEvents (ei_GatewayEvents inp) c) (\<lambda>ges.
        bind_res (normalizeAuthEvents (ei_AuthEvents inp)) (\<lambda>aes.
          bind_res (normalizeHealth ''gateway_health'' (ei_GatewayHealth inp) SourceGateway) (\<lambda>gh.
            bind_res (normalizeHealth ''auth_health'' (ei_AuthHealth inp) SourceAuth) (\<lambda>ah.
              Inr (inp\<lparr>ei_GatewayEvents := ges, ei_AuthEvents := aes, ei_GatewayHealth := gh, ei_AuthHealth := ah\<rparr>))))))"

section \<open>Rules (detector.go)\<close>

definition intervalsOverlap :: "gotime \<Rightarrow> gotime \<Rightarrow> gotime \<Rightarrow> gotime \<Rightarrow> bool" where
  "intervalsOverlap intervalStart intervalEnd windowStart windowEnd \<longleftrightarrow>
     (if windowEnd < intervalStart then False else intervalEnd = 0 \<or> \<not> intervalEnd < windowStart)"

definition healthComplete :: "source_health \<Rightarrow> gotime \<Rightarrow> gotime \<Rightarrow> bool" where
  "healthComplete h start finish \<longleftrightarrow>
     (if \<not> sh_Complete h \<or> start < sh_CoverageStart h \<or> sh_CoverageEnd h < finish then False
      else list_all (\<lambda>v. \<not> intervalsOverlap (hi_Start v) (hi_End v) start finish) (sh_Intervals h))"

text \<open>\<open>groups[key] = append(groups[key], value)\<close> on the map as an association list.\<close>

fun group_append :: "'k \<Rightarrow> 'v \<Rightarrow> ('k \<times> 'v list) list \<Rightarrow> ('k \<times> 'v list) list" where
  "group_append k v [] = [(k, [v])]"
| "group_append k v ((k', vs) # gs) = (if k = k' then (k', vs @ [v]) # gs else (k', vs) # group_append k v gs)"

definition group_step :: "('v \<Rightarrow> gotime) \<Rightarrow> ('v \<Rightarrow> group_key) \<Rightarrow> gotime \<Rightarrow> gotime \<Rightarrow> 'v \<Rightarrow>
    (group_key \<times> 'v list) list \<Rightarrow> (group_key \<times> 'v list) list" where
  "group_step at key start finish v gs =
     (if at v < start \<or> finish < at v then gs else group_append (key v) v gs)"

definition group_events :: "('v \<Rightarrow> gotime) \<Rightarrow> ('v \<Rightarrow> group_key) \<Rightarrow> 'v list \<Rightarrow> gotime \<Rightarrow> gotime \<Rightarrow> (group_key \<times> 'v list) list" where
  "group_events at key values start finish =
     sort_key fst (fold (group_step at key start finish) values [])"

definition gateway_key :: "gateway_event \<Rightarrow> group_key" where
  "gateway_key v = (ge_SourceIP v, ge_ServiceLabel v)"

definition auth_key :: "auth_event \<Rightarrow> group_key" where
  "auth_key v = (ae_SourceIP v, ae_ServiceLabel v)"

definition groupGatewayEvents :: "gateway_event list \<Rightarrow> gotime \<Rightarrow> gotime \<Rightarrow> (group_key \<times> gateway_event list) list" where
  "groupGatewayEvents = group_events ge_OccurredAt gateway_key"

definition groupAuthEvents :: "auth_event list \<Rightarrow> gotime \<Rightarrow> gotime \<Rightarrow> (group_key \<times> auth_event list) list" where
  "groupAuthEvents = group_events ae_OccurredAt auth_key"

definition finalizeEvaluation ::
    "detector \<Rightarrow> string \<Rightarrow> group_key \<Rightarrow> gotime \<Rightarrow> gotime \<Rightarrow> metrics \<Rightarrow> metrics \<Rightarrow>
     bool \<Rightarrow> bool \<Rightarrow> bool \<Rightarrow> bool \<Rightarrow> string \<Rightarrow> string list \<Rightarrow> rule_evaluation" where
  "finalizeEvaluation d ruleID g ws we threshold observed healthIsComplete untrusted unverified met classification ids =
     (let base = \<lparr>ev_RuleID = ruleID, ev_Group = g, ev_WindowStart = ws, ev_WindowEnd = we, ev_Threshold = threshold,
            ev_Observed = observed, ev_Decision = DecisionIncomplete, ev_Reason = ReasonSourceHealthIncomplete,
            ev_SourceHealthStatus =
              (if healthIsComplete then SourceHealthStatusComplete else SourceHealthStatusIncomplete),
            ev_EnforcementSupporting = False, ev_Signal = None\<rparr>
      in if \<not> healthIsComplete then base
         else if untrusted then base\<lparr>ev_Reason := ReasonTimestampUntrusted\<rparr>
         else if unverified then base\<lparr>ev_Reason := ReasonBindingNotVerified\<rparr>
         else if \<not> met then base\<lparr>ev_Decision := DecisionNoMatch, ev_Reason := ReasonBelowThreshold\<rparr>
         else base\<lparr>ev_Decision := DecisionMatched, ev_Reason := ReasonThresholdMet, ev_EnforcementSupporting := True,
                   ev_Signal := Some (buildSignal d ruleID classification g ws we observed ids)\<rparr>)"

text \<open>
  The event loops. Each scans a group once and keeps the evidence list, the set of distinct
  attribute values (as its elements in order of appearance), and the two flags.
\<close>

record scan =
  sc_evidence :: "string list"
  sc_distinct :: "string list"
  sc_untrusted :: bool
  sc_unverified :: bool

definition scan_start :: scan where
  "scan_start = \<lparr>sc_evidence = [], sc_distinct = [], sc_untrusted = False, sc_unverified = False\<rparr>"

definition scan_keep :: "string \<Rightarrow> string \<Rightarrow> scan \<Rightarrow> scan" where
  "scan_keep evid attr s = s\<lparr>sc_evidence := sc_evidence s @ [evid], sc_distinct := List.insert attr (sc_distinct s)\<rparr>"

definition path_scan_step :: "gateway_event \<Rightarrow> scan \<Rightarrow> scan" where
  "path_scan_step e s =
     (if ge_SuspiciousPathID e = SuspiciousPathNone then s
      else if ge_TimestampTrust e \<noteq> TimestampTrusted then s\<lparr>sc_untrusted := True\<rparr>
      else scan_keep (ge_EventID e) (ge_SuspiciousPathID e) s)"

definition burst_step :: "gateway_event \<Rightarrow> scan \<Rightarrow> scan" where
  "burst_step e s =
     (if ge_TimestampTrust e \<noteq> TimestampTrusted then s\<lparr>sc_untrusted := True\<rparr>
      else s\<lparr>sc_evidence := sc_evidence s @ [ge_EventID e]\<rparr>)"

definition brute_force_step :: "string \<Rightarrow> gateway_event \<Rightarrow> scan \<Rightarrow> scan" where
  "brute_force_step loginRoute e s =
     (if ge_RouteLabel e \<noteq> loginRoute \<or> (ge_StatusCode e \<noteq> 401 \<and> ge_StatusCode e \<noteq> 403) then s
      else if ge_TimestampTrust e \<noteq> TimestampTrusted then s\<lparr>sc_untrusted := True\<rparr>
      else if ge_AuthenticationMatch e \<noteq> BindingVerified then s\<lparr>sc_unverified := True\<rparr>
      else s\<lparr>sc_evidence := sc_evidence s @ [ge_EventID e]\<rparr>)"

definition stuffing_step :: "auth_event \<Rightarrow> scan \<Rightarrow> scan" where
  "stuffing_step e s =
     (if ae_Outcome e \<noteq> AuthOutcomeFailed then s
      else if ae_TimestampTrust e \<noteq> TimestampTrusted then s\<lparr>sc_untrusted := True\<rparr>
      else if ae_GatewayBinding e \<noteq> BindingVerified then s\<lparr>sc_unverified := True\<rparr>
      else scan_keep (ae_EventID e) (ae_AccountHash e) s)"

definition evaluatePathScan :: "detector \<Rightarrow> evaluation_input \<Rightarrow> rule_evaluation list" where
  "evaluatePathScan d inp =
     (let c = dt_config d; start = ei_Now inp - cf_PathScanWindow c in
      map (\<lambda>(g, events).
        let s = fold path_scan_step events scan_start;
            n = int (length (sc_distinct s))
        in finalizeEvaluation d RulePathScan g start (ei_Now inp)
             (zero_metrics\<lparr>mt_DistinctSuspiciousPathCount := cf_PathScanThreshold c\<rparr>)
             (zero_metrics\<lparr>mt_EventCount := int (length (sc_evidence s)), mt_DistinctSuspiciousPathCount := n\<rparr>)
             (healthComplete (ei_GatewayHealth inp) start (ei_Now inp)) (sc_untrusted s) False
             (cf_PathScanThreshold c \<le> n) ClassificationPathScan (sc_evidence s))
        (groupGatewayEvents (ei_GatewayEvents inp) start (ei_Now inp)))"

definition evaluateRequestBurst :: "detector \<Rightarrow> evaluation_input \<Rightarrow> rule_evaluation list" where
  "evaluateRequestBurst d inp =
     (let c = dt_config d; start = ei_Now inp - cf_RequestBurstWindow c in
      map (\<lambda>(g, events).
        let s = fold burst_step events scan_start;
            n = int (length (sc_evidence s))
        in finalizeEvaluation d RuleRequestBurst g start (ei_Now inp)
             (zero_metrics\<lparr>mt_EventCount := cf_RequestBurstThreshold c\<rparr>) (zero_metrics\<lparr>mt_EventCount := n\<rparr>)
             (healthComplete (ei_GatewayHealth inp) start (ei_Now inp)) (sc_untrusted s) False
             (cf_RequestBurstThreshold c \<le> n) ClassificationRequestBurst (sc_evidence s))
        (groupGatewayEvents (ei_GatewayEvents inp) start (ei_Now inp)))"

definition evaluateLoginBruteForce :: "detector \<Rightarrow> evaluation_input \<Rightarrow> rule_evaluation list" where
  "evaluateLoginBruteForce d inp =
     (let c = dt_config d; start = ei_Now inp - cf_LoginBruteForceWindow c in
      map (\<lambda>(g, events).
        let s = fold (brute_force_step (cf_LoginRouteLabel c)) events scan_start;
            n = int (length (sc_evidence s))
        in finalizeEvaluation d RuleLoginBruteForce g start (ei_Now inp)
             (zero_metrics\<lparr>mt_EventCount := cf_LoginBruteForceThreshold c\<rparr>) (zero_metrics\<lparr>mt_EventCount := n\<rparr>)
             (healthComplete (ei_GatewayHealth inp) start (ei_Now inp) \<and> healthComplete (ei_AuthHealth inp) start (ei_Now inp))
             (sc_untrusted s) (sc_unverified s)
             (cf_LoginBruteForceThreshold c \<le> n) ClassificationLoginBruteForce (sc_evidence s))
        (groupGatewayEvents (ei_GatewayEvents inp) start (ei_Now inp)))"

definition evaluateCredentialStuffing :: "detector \<Rightarrow> evaluation_input \<Rightarrow> rule_evaluation list" where
  "evaluateCredentialStuffing d inp =
     (let c = dt_config d; start = ei_Now inp - cf_CredentialStuffingWindow c in
      map (\<lambda>(g, events).
        let s = fold stuffing_step events scan_start;
            n = int (length (sc_evidence s)); k = int (length (sc_distinct s))
        in finalizeEvaluation d RuleCredentialStuffing g start (ei_Now inp)
             (zero_metrics\<lparr>mt_EventCount := cf_CredentialStuffingEventThreshold c,
                           mt_DistinctAccountCount := cf_CredentialStuffingAccountThreshold c\<rparr>)
             (zero_metrics\<lparr>mt_EventCount := n, mt_DistinctAccountCount := k\<rparr>)
             (healthComplete (ei_AuthHealth inp) start (ei_Now inp)) (sc_untrusted s) (sc_unverified s)
             (cf_CredentialStuffingEventThreshold c \<le> n \<and> cf_CredentialStuffingAccountThreshold c \<le> k)
             ClassificationCredentialStuffing (sc_evidence s))
        (groupAuthEvents (ei_AuthEvents inp) start (ei_Now inp)))"

record detector_output =
  out_ConfigurationVersion :: string
  out_ConfigurationDigest :: string
  out_PathScan :: "rule_evaluation list"
  out_RequestBurst :: "rule_evaluation list"
  out_LoginBruteForce :: "rule_evaluation list"
  out_CredentialStuffing :: "rule_evaluation list"

definition Evaluate :: "detector \<Rightarrow> evaluation_input \<Rightarrow> input_error + detector_output" where
  "Evaluate d inp =
     bind_res (normalizeInput inp (dt_config d)) (\<lambda>i.
       Inr \<lparr>out_ConfigurationVersion = cf_Version (dt_config d), out_ConfigurationDigest = dt_configDigest d,
            out_PathScan = evaluatePathScan d i, out_RequestBurst = evaluateRequestBurst d i,
            out_LoginBruteForce = evaluateLoginBruteForce d i, out_CredentialStuffing = evaluateCredentialStuffing d i\<rparr>)"

end
