(* ===== verification/Correlation.thy ===== *)
theory Correlation
  imports Detection
begin

text \<open>
  \<open>internal/correlation\<close>, first part: validation of signals (\<open>validate.go\<close>), evidence snapshots
  (\<open>snapshot.go\<close>) and the grouping of signals into temporal components (\<open>correlate.go\<close>).
\<close>

section \<open>Types (types.go)\<close>

definition EvidenceSnapshotVersion :: string where "EvidenceSnapshotVersion = ''correlation-evidence-v1''"
definition MaximumSignalGap :: duration where "MaximumSignalGap = 5 * Minute"
definition IncidentIdleTimeout :: duration where "IncidentIdleTimeout = 15 * Minute"
definition IncidentReopenWindow :: duration where "IncidentReopenWindow = 30 * Minute"
definition MaximumAnalysisAttempts :: int where "MaximumAnalysisAttempts = 2"

definition IdentitySameCanonicalSource :: string where "IdentitySameCanonicalSource = ''same_canonical_source''"
definition TemporalWindowOverlap :: string where "TemporalWindowOverlap = ''window_overlap''"
definition TemporalWithinFiveMinutes :: string where "TemporalWithinFiveMinutes = ''gap_within_five_minutes''"
definition TemporalReopenedWithinThirtyMinutes :: string where
  "TemporalReopenedWithinThirtyMinutes = ''reopened_within_thirty_minutes''"
definition SupportingSameService :: string where "SupportingSameService = ''same_service''"
definition SupportingDifferentService :: string where "SupportingDifferentService = ''different_service''"
definition SupportingSameRule :: string where "SupportingSameRule = ''same_rule''"
definition SupportingDifferentRule :: string where "SupportingDifferentRule = ''different_rule''"
definition SupportingAccountIdentityMinimized :: string where
  "SupportingAccountIdentityMinimized = ''account_identity_minimized''"
definition SupportingPathIdentityMinimized :: string where
  "SupportingPathIdentityMinimized = ''path_identity_minimized''"

record relation =
  re_LeftSignalID :: string
  re_RightSignalID :: string
  re_IdentityReason :: string
  re_TemporalReason :: string
  re_SupportingReasons :: "string list"

record signal_ref =
  sr_SignalID :: string
  sr_RuleID :: string
  sr_Classification :: string
  sr_ConfigurationVersion :: string
  sr_ConfigurationDigest :: string
  sr_WindowStart :: gotime
  sr_WindowEnd :: gotime
  sr_EventCount :: int
  sr_DistinctAccountCount :: int
  sr_DistinctSuspiciousPathCount :: int
  sr_EvidenceDigest :: string
  sr_SignalDigest :: string

record evidence_snapshot =
  es_schemaVersion :: string
  es_sourceIP :: string
  es_windowStart :: gotime
  es_windowEnd :: gotime
  es_sourceHealthStatus :: string
  es_serviceLabels :: "string list"
  es_signalIDs :: "string list"
  es_evidenceEventIDs :: "string list"
  es_signalRefs :: "signal_ref list"
  es_canonicalBytes :: bytes
  es_digest :: string

record correlation_group =
  gr_SourceIP :: string
  gr_WindowStart :: gotime
  gr_WindowEnd :: gotime
  gr_Snapshot :: evidence_snapshot
  gr_signals :: "signal list"
  gr_relations :: "relation list"

datatype corr_code =
    CorrInvalidInput | CorrConflictingSignal | CorrStaleRevision | CorrIdempotencyConflict
  | CorrInvalidTransition | CorrRetryNotAllowed | CorrIdleDeadlineNotReached | CorrTimeRegression

datatype corr_error = CorrError corr_code string

section \<open>Signals (validate.go)\<close>

definition metricsReproduceRule :: "string \<Rightarrow> metrics \<Rightarrow> bool" where
  "metricsReproduceRule rule m \<longleftrightarrow>
     (if rule = RulePathScan then
        PathScanThreshold \<le> mt_EventCount m \<and> mt_DistinctSuspiciousPathCount m = PathScanThreshold \<and>
        mt_DistinctAccountCount m = 0
      else if rule = RuleRequestBurst then
        RequestBurstThreshold \<le> mt_EventCount m \<and> mt_DistinctAccountCount m = 0 \<and> mt_DistinctSuspiciousPathCount m = 0
      else if rule = RuleLoginBruteForce then
        LoginBruteForceThreshold \<le> mt_EventCount m \<and> mt_DistinctAccountCount m = 0 \<and> mt_DistinctSuspiciousPathCount m = 0
      else if rule = RuleCredentialStuffing then
        CredentialStuffingEventThreshold \<le> mt_EventCount m \<and>
        CredentialStuffingAccountThreshold \<le> mt_DistinctAccountCount m \<and> mt_DistinctSuspiciousPathCount m = 0
      else False)"

definition validRuleClassification :: "string \<Rightarrow> string \<Rightarrow> bool" where
  "validRuleClassification rule classification \<longleftrightarrow>
     (if rule = RulePathScan then classification = ClassificationPathScan
      else if rule = RuleRequestBurst then classification = ClassificationRequestBurst
      else if rule = RuleLoginBruteForce then classification = ClassificationLoginBruteForce
      else if rule = RuleCredentialStuffing then classification = ClassificationCredentialStuffing
      else False)"

text \<open>The loop over the evidence identifiers; the first argument is the previous one.\<close>

fun evidence_error :: "string \<Rightarrow> string option \<Rightarrow> string list \<Rightarrow> corr_error option" where
  "evidence_error field previous [] = None"
| "evidence_error field previous (v # vs) =
     (if \<not> re_matches uuidPattern v then Some (CorrError CorrInvalidInput (field @ ''.evidence_ids''))
      else if (case previous of None \<Rightarrow> False | Some p \<Rightarrow> v \<le> p)
      then Some (CorrError CorrInvalidInput (field @ ''.evidence_ids_order''))
      else evidence_error field (Some v) vs)"

definition validateSignal :: "signal \<Rightarrow> string \<Rightarrow> corr_error option" where
  "validateSignal s field =
     (let invalid = (\<lambda>name. Some (CorrError CorrInvalidInput (field @ name))); m = sg_Metrics s in
      if \<not> re_matches uuidPattern (sg_SignalID s) then invalid ''.signal_id''
      else if \<not> validRuleClassification (sg_RuleID s) (sg_Classification s) then invalid ''.rule_classification''
      else if \<not> re_matches versionPattern (sg_ConfigurationVersion s) then invalid ''.configuration_version''
      else if \<not> re_matches digestPattern (sg_ConfigurationDigest s) then invalid ''.configuration_digest''
      else if \<not> canonical_ipv4 (sg_SourceIP s) then invalid ''.source_ip''
      else if \<not> re_matches labelPattern (sg_ServiceLabel s) then invalid ''.service_label''
      else if sg_WindowStart s = 0 \<or> sg_WindowEnd s = 0 \<or> sg_WindowEnd s < sg_WindowStart s then invalid ''.window''
      else if mt_EventCount m < 1 \<or> 1000000 < mt_EventCount m \<or> mt_DistinctAccountCount m < 0 \<or>
              1000000 < mt_DistinctAccountCount m \<or> mt_DistinctSuspiciousPathCount m < 0 \<or>
              8 < mt_DistinctSuspiciousPathCount m then invalid ''.metrics''
      else if \<not> metricsReproduceRule (sg_RuleID s) m then invalid ''.rule_metrics''
      else if sg_SourceHealthStatus s \<noteq> SourceHealthStatusComplete then invalid ''.source_health_status''
      else if int (length (sg_EvidenceIDs s)) \<noteq> mt_EventCount m \<or> length (sg_EvidenceIDs s) = 0
      then invalid ''.evidence_ids''
      else case evidence_error field None (sg_EvidenceIDs s) of
        Some e \<Rightarrow> Some e
      | None \<Rightarrow>
          if \<not> re_matches digestPattern (sg_EvidenceDigest s) \<or> \<not> re_matches digestPattern (sg_Digest s)
          then invalid ''.digest'' else None)"

definition equalSignal :: "signal \<Rightarrow> signal \<Rightarrow> bool" where
  "equalSignal l r \<longleftrightarrow>
     sg_SignalID l = sg_SignalID r \<and> sg_RuleID l = sg_RuleID r \<and> sg_Classification l = sg_Classification r \<and>
     sg_ConfigurationVersion l = sg_ConfigurationVersion r \<and> sg_ConfigurationDigest l = sg_ConfigurationDigest r \<and>
     sg_SourceIP l = sg_SourceIP r \<and> sg_ServiceLabel l = sg_ServiceLabel r \<and>
     sg_WindowStart l = sg_WindowStart r \<and> sg_WindowEnd l = sg_WindowEnd r \<and> sg_Metrics l = sg_Metrics r \<and>
     sg_EvidenceDigest l = sg_EvidenceDigest r \<and> sg_Digest l = sg_Digest r \<and>
     sg_SourceHealthStatus l = sg_SourceHealthStatus r \<and> length (sg_EvidenceIDs l) = length (sg_EvidenceIDs r) \<and>
     list_all2 (=) (sg_EvidenceIDs l) (sg_EvidenceIDs r)"

definition signal_order :: "signal \<Rightarrow> string \<times> gotime \<times> gotime \<times> string" where
  "signal_order s = (sg_SourceIP s, sg_WindowStart s, sg_WindowEnd s, sg_SignalID s)"

definition sortSignals :: "signal list \<Rightarrow> signal list" where
  "sortSignals = sort_key signal_order"

definition signal_error :: "nat \<Rightarrow> signal \<Rightarrow> corr_error option" where
  "signal_error i s = validateSignal s (indexed ''signals'' i)"

definition signal_conflict :: "nat \<Rightarrow> signal \<Rightarrow> corr_error" where
  "signal_conflict i s = CorrError CorrConflictingSignal (sg_SignalID s)"

definition normalizeSignals :: "signal list \<Rightarrow> corr_error + signal list" where
  "normalizeSignals values =
     bind_res (collect sg_SignalID signal_error equalSignal signal_conflict 0 [] values) (\<lambda>byID. Inr (sortSignals byID))"

section \<open>Evidence snapshots (snapshot.go)\<close>

definition writeJSONKey :: "string \<Rightarrow> bytes" where
  "writeJSONKey key = json_quote key @ '':''"

fun array_items :: "nat \<Rightarrow> bytes list \<Rightarrow> bytes" where
  "array_items i [] = []"
| "array_items i (v # vs) = (if 0 < i then '','' else []) @ v @ array_items (Suc i) vs"

definition writeStringArray :: "string list \<Rightarrow> bytes" where
  "writeStringArray vs = ''['' @ array_items 0 (map json_quote vs) @ '']''"

definition writeSignalRefJCS :: "signal_ref \<Rightarrow> bytes" where
  "writeSignalRefJCS r =
     ''{'' @ writeJSONKey ''classification'' @ json_quote (sr_Classification r) @
     '','' @ writeJSONKey ''configuration_digest'' @ json_quote (sr_ConfigurationDigest r) @
     '','' @ writeJSONKey ''configuration_version'' @ json_quote (sr_ConfigurationVersion r) @
     '','' @ writeJSONKey ''distinct_account_count'' @ int_str (sr_DistinctAccountCount r) @
     '','' @ writeJSONKey ''distinct_suspicious_path_count'' @ int_str (sr_DistinctSuspiciousPathCount r) @
     '','' @ writeJSONKey ''event_count'' @ int_str (sr_EventCount r) @
     '','' @ writeJSONKey ''evidence_digest'' @ json_quote (sr_EvidenceDigest r) @
     '','' @ writeJSONKey ''rule_id'' @ json_quote (sr_RuleID r) @
     '','' @ writeJSONKey ''signal_digest'' @ json_quote (sr_SignalDigest r) @
     '','' @ writeJSONKey ''signal_id'' @ json_quote (sr_SignalID r) @
     '','' @ writeJSONKey ''window_end'' @ json_quote (format_rfc3339 (sr_WindowEnd r)) @
     '','' @ writeJSONKey ''window_start'' @ json_quote (format_rfc3339 (sr_WindowStart r)) @ ''}''"

definition marshalSnapshotJCS ::
    "string \<Rightarrow> gotime \<Rightarrow> gotime \<Rightarrow> string list \<Rightarrow> string list \<Rightarrow> string list \<Rightarrow> signal_ref list \<Rightarrow> bytes" where
  "marshalSnapshotJCS sourceIP windowStart windowEnd serviceLabels signalIDs evidenceIDs refs =
     ''{'' @ writeJSONKey ''evidence_event_ids'' @ writeStringArray evidenceIDs @
     '','' @ writeJSONKey ''schema_version'' @ json_quote EvidenceSnapshotVersion @
     '','' @ writeJSONKey ''service_labels'' @ writeStringArray serviceLabels @
     '','' @ writeJSONKey ''signal_ids'' @ writeStringArray signalIDs @
     '','' @ writeJSONKey ''signal_refs'' @ ''['' @ array_items 0 (map writeSignalRefJCS refs) @ '']'' @
     '','' @ writeJSONKey ''source_health_status'' @ json_quote SourceHealthStatusComplete @
     '','' @ writeJSONKey ''source_ip'' @ json_quote sourceIP @
     '','' @ writeJSONKey ''window_end'' @ json_quote (format_rfc3339 windowEnd) @
     '','' @ writeJSONKey ''window_start'' @ json_quote (format_rfc3339 windowStart) @ ''}''"

definition sortedUnique :: "string list \<Rightarrow> string list" where
  "sortedUnique vs = compact None (sort vs)"

definition signal_ref_of :: "signal \<Rightarrow> signal_ref" where
  "signal_ref_of s = \<lparr>sr_SignalID = sg_SignalID s, sr_RuleID = sg_RuleID s, sr_Classification = sg_Classification s,
     sr_ConfigurationVersion = sg_ConfigurationVersion s, sr_ConfigurationDigest = sg_ConfigurationDigest s,
     sr_WindowStart = sg_WindowStart s, sr_WindowEnd = sg_WindowEnd s, sr_EventCount = mt_EventCount (sg_Metrics s),
     sr_DistinctAccountCount = mt_DistinctAccountCount (sg_Metrics s),
     sr_DistinctSuspiciousPathCount = mt_DistinctSuspiciousPathCount (sg_Metrics s),
     sr_EvidenceDigest = sg_EvidenceDigest s, sr_SignalDigest = sg_Digest s\<rparr>"

text \<open>The collecting loop: window bounds so far, and a refusal when the source changes.\<close>

fun snapshot_window :: "string \<Rightarrow> gotime \<Rightarrow> gotime \<Rightarrow> signal list \<Rightarrow> (gotime \<times> gotime) option" where
  "snapshot_window ip ws we [] = Some (ws, we)"
| "snapshot_window ip ws we (s # ss) =
     (if sg_SourceIP s \<noteq> ip then None
      else snapshot_window ip (if sg_WindowStart s < ws then sg_WindowStart s else ws)
             (if we < sg_WindowEnd s then sg_WindowEnd s else we) ss)"

definition buildEvidenceSnapshot :: "signal list \<Rightarrow> corr_error + evidence_snapshot" where
  "buildEvidenceSnapshot signals =
     (if signals = [] then Inl (CorrError CorrInvalidInput ''signals'')
      else bind_res (normalizeSignals signals) (\<lambda>values.
        let ip = sg_SourceIP (hd values) in
        case snapshot_window ip (sg_WindowStart (hd values)) (sg_WindowEnd (hd values)) values of
          None \<Rightarrow> Inl (CorrError CorrInvalidInput ''signals.source_ip'')
        | Some (ws, we) \<Rightarrow>
            let labels = sortedUnique (map sg_ServiceLabel values);
                ids = sortedUnique (map sg_SignalID values);
                events = sortedUnique (concat (map sg_EvidenceIDs values));
                refs = sort_key sr_SignalID (map signal_ref_of values);
                canonical = marshalSnapshotJCS ip ws we labels ids events refs
            in Inr \<lparr>es_schemaVersion = EvidenceSnapshotVersion, es_sourceIP = ip, es_windowStart = ws, es_windowEnd = we,
                 es_sourceHealthStatus = SourceHealthStatusComplete, es_serviceLabels = labels, es_signalIDs = ids,
                 es_evidenceEventIDs = events, es_signalRefs = refs, es_canonicalBytes = canonical,
                 es_digest = sha256Digest canonical\<rparr>))"

section \<open>Components (correlate.go)\<close>

definition windows_overlap :: "signal \<Rightarrow> signal \<Rightarrow> bool" where
  "windows_overlap l r \<longleftrightarrow> \<not> sg_WindowEnd r < sg_WindowStart l \<and> \<not> sg_WindowEnd l < sg_WindowStart r"

definition temporalRelation :: "signal \<Rightarrow> signal \<Rightarrow> string option" where
  "temporalRelation l r =
     (if windows_overlap l r then Some TemporalWindowOverlap
      else let gap = (if sg_WindowEnd l < sg_WindowStart r then sg_WindowStart r - sg_WindowEnd l
                      else sg_WindowStart l - sg_WindowEnd r)
        in if gap \<le> MaximumSignalGap then Some TemporalWithinFiveMinutes else None)"

definition makeRelation :: "signal \<Rightarrow> signal \<Rightarrow> string \<Rightarrow> relation" where
  "makeRelation left0 right0 temporal =
     (let (l, r) = (if sg_SignalID right0 < sg_SignalID left0 then (right0, left0) else (left0, right0));
          supporting = [SupportingAccountIdentityMinimized, SupportingPathIdentityMinimized,
            (if sg_ServiceLabel l = sg_ServiceLabel r then SupportingSameService else SupportingDifferentService),
            (if sg_RuleID l = sg_RuleID r then SupportingSameRule else SupportingDifferentRule)]
      in \<lparr>re_LeftSignalID = sg_SignalID l, re_RightSignalID = sg_SignalID r,
          re_IdentityReason = IdentitySameCanonicalSource, re_TemporalReason = temporal,
          re_SupportingReasons = sort supporting\<rparr>)"

definition relation_order :: "relation \<Rightarrow> string \<times> string \<times> string" where
  "relation_order r = (re_LeftSignalID r, re_RightSignalID r, re_TemporalReason r)"

definition sortRelations :: "relation list \<Rightarrow> relation list" where
  "sortRelations = sort_key relation_order"

definition relate :: "signal \<Rightarrow> signal \<Rightarrow> relation list" where
  "relate l r =
     (if sg_SourceIP l \<noteq> sg_SourceIP r then []
      else case temporalRelation l r of None \<Rightarrow> [] | Some temporal \<Rightarrow> [makeRelation l r temporal])"

fun relation_pairs :: "signal list \<Rightarrow> relation list" where
  "relation_pairs [] = []"
| "relation_pairs (l # rest) = concat (map (relate l) rest) @ relation_pairs rest"

definition buildRelations :: "signal list \<Rightarrow> relation list" where
  "buildRelations signals = sortRelations (relation_pairs signals)"

definition buildGroup :: "signal list \<Rightarrow> corr_error + correlation_group" where
  "buildGroup signals =
     bind_res (buildEvidenceSnapshot signals) (\<lambda>snapshot.
       let values = sortSignals signals in
       Inr \<lparr>gr_SourceIP = es_sourceIP snapshot, gr_WindowStart = es_windowStart snapshot,
            gr_WindowEnd = es_windowEnd snapshot, gr_Snapshot = snapshot, gr_signals = values,
            gr_relations = buildRelations values\<rparr>)"

fun correlate_loop :: "signal list \<Rightarrow> gotime \<Rightarrow> correlation_group list \<Rightarrow> signal list \<Rightarrow>
    corr_error + correlation_group list" where
  "correlate_loop component componentEnd groups [] =
     bind_res (buildGroup component) (\<lambda>g. Inr (groups @ [g]))"
| "correlate_loop component componentEnd groups (s # rest) =
     (if sg_SourceIP s = sg_SourceIP (last component) \<and> \<not> componentEnd + MaximumSignalGap < sg_WindowStart s
      then correlate_loop (component @ [s]) (if componentEnd < sg_WindowEnd s then sg_WindowEnd s else componentEnd) groups rest
      else bind_res (buildGroup component) (\<lambda>g. correlate_loop [s] (sg_WindowEnd s) (groups @ [g]) rest))"

definition group_order :: "correlation_group \<Rightarrow> string \<times> gotime \<times> string" where
  "group_order g = (gr_SourceIP g, gr_WindowStart g, es_digest (gr_Snapshot g))"

definition Correlate :: "signal list \<Rightarrow> corr_error + correlation_group list" where
  "Correlate signals =
     bind_res (normalizeSignals signals) (\<lambda>values.
       if values = [] then Inr []
       else bind_res (correlate_loop [hd values] (sg_WindowEnd (hd values)) [] (tl values))
              (\<lambda>groups. Inr (sort_key group_order groups)))"

end
