(* ===== verification/Incident.thy ===== *)
theory Incident
  imports Correlation
begin

text \<open>
  \<open>internal/correlation\<close>, second part: the incident aggregate (\<open>lifecycle.go\<close>,
  \<open>lifecycle_types.go\<close>). An incident is a value; every operation returns a new one or an error.
  Revisions and versions are 64-bit words and wrap as in the source.
\<close>

section \<open>Types (lifecycle_types.go)\<close>

datatype incident_state =
  IncidentOpen | IncidentAnalyzing | IncidentReviewReady | IncidentAnalysisFailed | IncidentClosed

datatype retry_classification = RetryOnceWithBoundedJitter | RetryTerminal

definition retryable_reasons :: "string list" where
  "retryable_reasons = [''network_error'', ''http_408'', ''http_409'', ''rate_limited'', ''server_error'']"

definition terminal_reasons :: "string list" where
  "terminal_reasons = [''budget_exhausted'', ''input_too_large'', ''timeout'', ''refused'', ''incomplete'',
     ''schema_invalid'', ''evidence_invalid'', ''unsupported_action'', ''cancelled'', ''configuration_error'']"

definition ClassifyAnalysisFailure :: "string \<Rightarrow> corr_error + retry_classification" where
  "ClassifyAnalysisFailure reason =
     (if reason \<in> set retryable_reasons then Inr RetryOnceWithBoundedJitter
      else if reason \<in> set terminal_reasons then Inr RetryTerminal
      else Inl (CorrError CorrInvalidInput ''analysis_failure_reason''))"

record incident_command =
  cm_ID :: string
  cm_ExpectedRevision :: uint64
  cm_At :: gotime

datatype transition_disposition = TransitionApplied | TransitionIdempotentDuplicate

record transition_result =
  tr_Disposition :: transition_disposition
  tr_AppliedRevision :: uint64
  tr_CurrentRevision :: uint64

record command_record =
  cr_id :: string
  cr_fingerprint :: string
  cr_appliedRevision :: uint64

record incident =
  in_id :: string
  in_version :: uint64
  in_revision :: uint64
  in_state :: incident_state
  in_createdAt :: gotime
  in_updatedAt :: gotime
  in_lastSignalAt :: gotime
  in_closedAt :: gotime
  in_failureReason :: string
  in_analysisAttempts :: int
  in_snapshot :: evidence_snapshot
  in_signals :: "signal list"
  in_relations :: "relation list"
  in_commands :: "command_record list"

datatype route_disposition = RouteAppended | RouteReopened | RouteNewIncident | RouteDuplicateSignal

record route_result =
  rr_Disposition :: route_disposition
  rr_Current :: incident
  rr_NewIncident :: "incident option"

definition CanRetryAnalysis :: "incident \<Rightarrow> bool" where
  "CanRetryAnalysis i \<longleftrightarrow>
     (if in_state i \<noteq> IncidentAnalysisFailed \<or> MaximumAnalysisAttempts \<le> in_analysisAttempts i then False
      else ClassifyAnalysisFailure (in_failureReason i) = Inr RetryOnceWithBoundedJitter)"

section \<open>Commands (lifecycle.go)\<close>

definition writeFingerprintLine :: "string \<Rightarrow> bytes" where
  "writeFingerprintLine v = int_str (int (length v)) @ '':'' @ v @ [CHR 0x0A]"

definition command_lines :: "string \<Rightarrow> incident_command \<Rightarrow> string \<Rightarrow> string list" where
  "command_lines kind command payload =
     [''incident-command-v1'', kind, cm_ID command, nat_str (unat (cm_ExpectedRevision command)),
      format_rfc3339 (cm_At command), payload]"

definition commandFingerprint :: "string \<Rightarrow> incident_command \<Rightarrow> string \<Rightarrow> string" where
  "commandFingerprint kind command payload =
     sha256Digest (concat (map writeFingerprintLine (command_lines kind command payload)))"

definition incidentID :: "string \<Rightarrow> string" where
  "incidentID snapshotDigest = uuidV8FromDigest (sha256 (''sentinelflow-incident-id-v1'' @ [CHR 0x0A] @ snapshotDigest))"

text \<open>The fingerprint, and the record of an earlier application of the same command if there is one.\<close>

definition prepareCommand :: "incident \<Rightarrow> incident_command \<Rightarrow> string \<Rightarrow> string \<Rightarrow> corr_error + string \<times> command_record option" where
  "prepareCommand i command kind payload =
     (if \<not> re_matches digestPattern (cm_ID command) then Inl (CorrError CorrInvalidInput ''command.id'')
      else if cm_At command = 0 then Inl (CorrError CorrInvalidInput ''command.at'')
      else let fingerprint = commandFingerprint kind command payload in
        case find (\<lambda>r. cr_id r = cm_ID command) (in_commands i) of
          Some r \<Rightarrow>
            if cr_fingerprint r \<noteq> fingerprint then Inl (CorrError CorrIdempotencyConflict ''command.id'')
            else Inr (fingerprint, Some r)
        | None \<Rightarrow>
            if cm_ExpectedRevision command \<noteq> in_revision i
            then Inl (CorrError CorrStaleRevision ''command.expected_revision'')
            else if cm_At command < in_updatedAt i then Inl (CorrError CorrTimeRegression ''command.at'')
            else Inr (fingerprint, None))"

definition commit :: "incident \<Rightarrow> incident_command \<Rightarrow> string \<Rightarrow> incident" where
  "commit i command fingerprint =
     i\<lparr>in_version := in_version i + 1, in_revision := in_revision i + 1, in_updatedAt := cm_At command,
       in_commands := in_commands i @
         [\<lparr>cr_id = cm_ID command, cr_fingerprint = fingerprint, cr_appliedRevision = in_revision i + 1\<rparr>]\<rparr>"

definition appliedTransition :: "uint64 \<Rightarrow> transition_result" where
  "appliedTransition revision =
     \<lparr>tr_Disposition = TransitionApplied, tr_AppliedRevision = revision, tr_CurrentRevision = revision\<rparr>"

definition duplicateTransition :: "incident \<Rightarrow> command_record \<Rightarrow> transition_result" where
  "duplicateTransition i r =
     \<lparr>tr_Disposition = TransitionIdempotentDuplicate, tr_AppliedRevision = cr_appliedRevision r,
      tr_CurrentRevision = in_revision i\<rparr>"

section \<open>Transitions (lifecycle.go)\<close>

definition NewIncident :: "correlation_group \<Rightarrow> gotime \<Rightarrow> corr_error + incident" where
  "NewIncident grp at =
     (if at = 0 then Inl (CorrError CorrInvalidInput ''at'')
      else bind_res (buildGroup (gr_signals grp)) (\<lambda>rebuilt.
        if at < gr_WindowEnd rebuilt then Inl (CorrError CorrTimeRegression ''at'')
        else Inr \<lparr>in_id = incidentID (es_digest (gr_Snapshot rebuilt)), in_version = 1, in_revision = 1,
               in_state = IncidentOpen, in_createdAt = at, in_updatedAt = at, in_lastSignalAt = gr_WindowEnd rebuilt,
               in_closedAt = 0, in_failureReason = [], in_analysisAttempts = 0, in_snapshot = gr_Snapshot rebuilt,
               in_signals = gr_signals rebuilt, in_relations = gr_relations rebuilt, in_commands = []\<rparr>))"

definition BeginAnalysis :: "incident \<Rightarrow> incident_command \<Rightarrow> corr_error + incident \<times> transition_result" where
  "BeginAnalysis i command =
     bind_res (prepareCommand i command ''begin_analysis'' []) (\<lambda>(fingerprint, duplicate).
       case duplicate of Some r \<Rightarrow> Inr (i, duplicateTransition i r)
       | None \<Rightarrow>
           if in_state i \<noteq> IncidentOpen \<and> in_state i \<noteq> IncidentAnalysisFailed
           then Inl (CorrError CorrInvalidTransition ''begin_analysis'')
           else if in_state i = IncidentAnalysisFailed \<and> \<not> CanRetryAnalysis i
           then Inl (CorrError CorrRetryNotAllowed ''analysis_failed'')
           else if MaximumAnalysisAttempts \<le> in_analysisAttempts i
           then Inl (CorrError CorrRetryNotAllowed ''analysis_attempts'')
           else let next = i\<lparr>in_state := IncidentAnalyzing, in_failureReason := [],
                             in_analysisAttempts := in_analysisAttempts i + 1\<rparr>
             in Inr (commit next command fingerprint, appliedTransition (in_revision next + 1)))"

definition CompleteAnalysis :: "incident \<Rightarrow> incident_command \<Rightarrow> corr_error + incident \<times> transition_result" where
  "CompleteAnalysis i command =
     bind_res (prepareCommand i command ''complete_analysis'' []) (\<lambda>(fingerprint, duplicate).
       case duplicate of Some r \<Rightarrow> Inr (i, duplicateTransition i r)
       | None \<Rightarrow>
           if in_state i \<noteq> IncidentAnalyzing then Inl (CorrError CorrInvalidTransition ''complete_analysis'')
           else let next = i\<lparr>in_state := IncidentReviewReady, in_failureReason := []\<rparr>
             in Inr (commit next command fingerprint, appliedTransition (in_revision next + 1)))"

definition FailAnalysis :: "incident \<Rightarrow> incident_command \<Rightarrow> string \<Rightarrow> corr_error + incident \<times> transition_result" where
  "FailAnalysis i command reason =
     bind_res (ClassifyAnalysisFailure reason) (\<lambda>_.
       bind_res (prepareCommand i command ''fail_analysis'' reason) (\<lambda>(fingerprint, duplicate).
         case duplicate of Some r \<Rightarrow> Inr (i, duplicateTransition i r)
         | None \<Rightarrow>
             if in_state i \<noteq> IncidentAnalyzing then Inl (CorrError CorrInvalidTransition ''fail_analysis'')
             else let next = i\<lparr>in_state := IncidentAnalysisFailed, in_failureReason := reason\<rparr>
               in Inr (commit next command fingerprint, appliedTransition (in_revision next + 1))))"

definition CloseIdle :: "incident \<Rightarrow> incident_command \<Rightarrow> corr_error + incident \<times> transition_result" where
  "CloseIdle i command =
     bind_res (prepareCommand i command ''close_idle'' []) (\<lambda>(fingerprint, duplicate).
       case duplicate of Some r \<Rightarrow> Inr (i, duplicateTransition i r)
       | None \<Rightarrow>
           if in_state i = IncidentClosed \<or> in_state i = IncidentAnalyzing
           then Inl (CorrError CorrInvalidTransition ''close_idle'')
           else let deadline = in_lastSignalAt i + IncidentIdleTimeout in
             if cm_At command < deadline then Inl (CorrError CorrIdleDeadlineNotReached ''at'')
             else let next = i\<lparr>in_state := IncidentClosed, in_closedAt := deadline\<rparr>
               in Inr (commit next command fingerprint, appliedTransition (in_revision next + 1)))"

section \<open>Routing of signals (lifecycle.go)\<close>

definition route_payload :: "signal \<Rightarrow> string" where
  "route_payload s = sg_SignalID s @ [CHR 0x0A] @ sg_Digest s"

definition validateDuplicateSignalCommand :: "incident \<Rightarrow> incident_command \<Rightarrow> signal \<Rightarrow> corr_error option" where
  "validateDuplicateSignalCommand i command s =
     (if \<not> re_matches digestPattern (cm_ID command) then Some (CorrError CorrInvalidInput ''command.id'')
      else if cm_At command = 0 then Some (CorrError CorrInvalidInput ''command.at'')
      else case find (\<lambda>r. cr_id r = cm_ID command) (in_commands i) of
        Some r \<Rightarrow>
          if cr_fingerprint r \<noteq> commandFingerprint ''route_signal'' command (route_payload s)
          then Some (CorrError CorrIdempotencyConflict ''command.id'') else None
      | None \<Rightarrow> None)"

definition later_signal :: "signal \<Rightarrow> signal \<Rightarrow> signal" where
  "later_signal latest s =
     (if sg_WindowEnd latest < sg_WindowEnd s \<or>
         (sg_WindowEnd s = sg_WindowEnd latest \<and> sg_SignalID latest < sg_SignalID s) then s else latest)"

definition latestSignal :: "signal list \<Rightarrow> signal" where
  "latestSignal signals = foldl later_signal (hd signals) (tl signals)"

definition replacePairRelation :: "relation list \<Rightarrow> relation \<Rightarrow> relation list" where
  "replacePairRelation relations replacement =
     sortRelations
       (filter (\<lambda>r. \<not> (re_LeftSignalID r = re_LeftSignalID replacement \<and> re_RightSignalID r = re_RightSignalID replacement))
          relations @ [replacement])"

definition appendSignal :: "incident \<Rightarrow> incident_command \<Rightarrow> string \<Rightarrow> signal \<Rightarrow> bool \<Rightarrow> corr_error + route_result" where
  "appendSignal i command fingerprint s reopening =
     (let signals = sortSignals (in_signals i @ [s]) in
      bind_res (buildEvidenceSnapshot signals) (\<lambda>snapshot.
        let relations = buildRelations signals;
            relations = (if reopening
              then replacePairRelation relations
                     (makeRelation (latestSignal (in_signals i)) s TemporalReopenedWithinThirtyMinutes)
              else relations);
            next = i\<lparr>in_signals := signals, in_snapshot := snapshot, in_lastSignalAt := es_windowEnd snapshot,
                     in_state := IncidentOpen, in_failureReason := [], in_closedAt := 0, in_relations := relations\<rparr>
        in Inr \<lparr>rr_Disposition = (if reopening then RouteReopened else RouteAppended),
                rr_Current = commit next command fingerprint, rr_NewIncident = None\<rparr>))"

definition routeToNewIncident :: "incident \<Rightarrow> incident_command \<Rightarrow> signal \<Rightarrow> corr_error + route_result" where
  "routeToNewIncident i command s =
     bind_res (buildGroup [s]) (\<lambda>grp.
       bind_res (NewIncident grp (cm_At command)) (\<lambda>created.
         Inr \<lparr>rr_Disposition = RouteNewIncident, rr_Current = i, rr_NewIncident = Some created\<rparr>))"

definition RouteSignal :: "incident \<Rightarrow> incident_command \<Rightarrow> signal \<Rightarrow> corr_error + route_result" where
  "RouteSignal i command signal0 =
     bind_res (normalizeSignals [signal0]) (\<lambda>values.
       let s = hd values in
       if cm_At command = 0 \<or> cm_At command < sg_WindowEnd s then Inl (CorrError CorrTimeRegression ''at'')
       else case find (\<lambda>e. sg_SignalID e = sg_SignalID s) (in_signals i) of
         Some existing \<Rightarrow>
           if \<not> equalSignal existing s then Inl (CorrError CorrConflictingSignal (sg_SignalID s))
           else (case validateDuplicateSignalCommand i command s of
                   Some e \<Rightarrow> Inl e
                 | None \<Rightarrow> Inr \<lparr>rr_Disposition = RouteDuplicateSignal, rr_Current = i, rr_NewIncident = None\<rparr>)
       | None \<Rightarrow>
           bind_res (prepareCommand i command ''route_signal'' (route_payload s)) (\<lambda>(fingerprint, duplicate).
             if duplicate \<noteq> None
             then Inr \<lparr>rr_Disposition = RouteDuplicateSignal, rr_Current = i, rr_NewIncident = None\<rparr>
             else if sg_SourceIP s \<noteq> es_sourceIP (in_snapshot i) then routeToNewIncident i command s
             else if in_state i = IncidentClosed then
               (if cm_At command < in_closedAt i then Inl (CorrError CorrTimeRegression ''at'')
                else if \<not> in_closedAt i + IncidentReopenWindow < cm_At command then appendSignal i command fingerprint s True
                else routeToNewIncident i command s)
             else if \<not> list_ex (\<lambda>e. temporalRelation e s \<noteq> None) (in_signals i) then routeToNewIncident i command s
             else appendSignal i command fingerprint s False))"

end
