(* ===== verification/Detection_Rules.thy ===== *)
theory Detection_Rules
  imports Detection
begin

text \<open>
  What the detectors decide. The grouping loops are compared with a filter of the input, the
  four event loops with the sets of events they count, and the decision of each rule with a
  condition on the input alone. Order and identical duplicates of the input do not matter.
\<close>

section \<open>Grouping\<close>

lemma group_append_keys: "distinct (map fst gs) \<Longrightarrow> distinct (map fst (group_append k v gs)) \<and> set (map fst (group_append k v gs)) = insert k (set (map fst gs))"
  by (induction k v gs rule: group_append.induct) auto

lemma group_append_map_of:
  "map_of (group_append k v gs) = (map_of gs)(k \<mapsto> (case map_of gs k of None \<Rightarrow> [v] | Some vs \<Rightarrow> vs @ [v]))"
  by (induction k v gs rule: group_append.induct) (auto split: option.splits)

definition in_group :: "('v \<Rightarrow> gotime) \<Rightarrow> ('v \<Rightarrow> group_key) \<Rightarrow> gotime \<Rightarrow> gotime \<Rightarrow> group_key \<Rightarrow> 'v \<Rightarrow> bool" where
  "in_group at key start finish g v \<longleftrightarrow> key v = g \<and> start \<le> at v \<and> at v \<le> finish"

lemma group_fold:
  "distinct (map fst gs) \<Longrightarrow>
   distinct (map fst (fold (group_step at key s f) values gs)) \<and>
   map_of (fold (group_step at key s f) values gs) g =
     (let vs = filter (in_group at key s f g) values
      in if vs = [] then map_of gs g else Some ((case map_of gs g of None \<Rightarrow> [] | Some us \<Rightarrow> us) @ vs))"
proof (induction "values" arbitrary: gs)
  case (Cons v vs)
  show ?case
  proof (cases "at v < s \<or> f < at v")
    case True
    then have "\<not> in_group at key s f g v" by (auto simp: in_group_def)
    moreover have "group_step at key s f v gs = gs" using True by (simp add: group_step_def)
    ultimately show ?thesis using Cons.IH [OF Cons.prems] by simp
  next
    case False
    then have step: "group_step at key s f v gs = group_append (key v) v gs" by (auto simp: group_step_def)
    have d: "distinct (map fst (group_append (key v) v gs))" using group_append_keys [OF Cons.prems] by (rule conjunct1)
    show ?thesis
    proof (cases "key v = g")
      case True
      with False have "in_group at key s f g v" by (auto simp: in_group_def)
      with Cons.IH [OF d] step True show ?thesis
        by (auto simp: group_append_map_of Let_def split: option.splits)
    next
      case key: False
      then have "\<not> in_group at key s f g v" by (auto simp: in_group_def)
      with Cons.IH [OF d] step key show ?thesis by (simp add: group_append_map_of Let_def)
    qed
  qed
qed simp

lemma group_events_iff:
  "(g, vs) \<in> set (group_events at key values s f) \<longleftrightarrow> vs = filter (in_group at key s f g) values \<and> vs \<noteq> []"
proof -
  let ?r = "fold (group_step at key s f) values []"
  have "distinct (map fst ?r)" "map_of ?r g = (if filter (in_group at key s f g) values = [] then None
      else Some (filter (in_group at key s f g) values))"
    using group_fold [of "[]" at key s f "values" g] by (simp_all add: Let_def)
  then have "(g, vs) \<in> set ?r \<longleftrightarrow> (if filter (in_group at key s f g) values = [] then None
      else Some (filter (in_group at key s f g) values)) = Some vs"
    by (metis map_of_eq_Some_iff)
  also have "\<dots> \<longleftrightarrow> vs = filter (in_group at key s f g) values \<and> vs \<noteq> []" by auto
  finally show ?thesis by (simp add: group_events_def)
qed

lemma group_events_keys:
  "sorted (map fst (group_events at key values s f)) \<and> distinct (map fst (group_events at key values s f))"
proof -
  let ?r = "fold (group_step at key s f) values []"
  have "distinct (map fst ?r)" using group_fold [of "[]" at key s f "values"] by simp
  moreover have "mset (map fst (sort_key fst ?r)) = mset (map fst ?r)" by simp
  ultimately have "distinct (map fst (sort_key fst ?r))" by (metis mset_eq_imp_distinct_iff)
  then show ?thesis by (simp add: group_events_def)
qed

lemma map_fst_group_events:
  "map fst (group_events at key values s f) = sorted_list_of_set (key ` {v \<in> set values. s \<le> at v \<and> at v \<le> f})"
proof (rule sorted_distinct_set_unique)
  show "set (map fst (group_events at key values s f)) =
      set (sorted_list_of_set (key ` {v \<in> set values. s \<le> at v \<and> at v \<le> f}))"
  proof -
    have "g \<in> fst ` set (group_events at key values s f) \<longleftrightarrow> (\<exists>v \<in> set values. in_group at key s f g v)" for g
      using group_events_iff [of g _ at key "values" s f] by (force simp: filter_empty_conv)
    then have "fst ` set (group_events at key values s f) = key ` {v \<in> set values. s \<le> at v \<and> at v \<le> f}"
      by (intro set_eqI) (simp add: in_group_def image_iff, blast)
    then show ?thesis by simp
  qed
qed (simp_all add: group_events_keys)

section \<open>Signals\<close>

lemma compact_remdups_adj: "compact (Some u) vs = tl (remdups_adj (u # vs))"
proof (induction vs arbitrary: u)
  case (Cons v vs)
  show ?case using Cons [of u] Cons [of v] by simp
qed simp

lemma compact_None: "compact None vs = remdups_adj vs"
  by (cases vs) (simp_all add: compact_remdups_adj)

lemma sorted_remdups_adj_distinct: "sorted vs \<Longrightarrow> distinct (remdups_adj vs)"
proof (induction vs rule: remdups_adj.induct)
  case (3 x y vs)
  then show ?case by (cases "x = y") (auto dest: order.antisym)
qed simp_all

lemma sortedUniqueStrings_eq: "sortedUniqueStrings vs = sorted_list_of_set (set vs)"
proof -
  have "sorted (remdups_adj (sort vs))" by (rule sorted_remdups_adj) simp
  moreover have "distinct (remdups_adj (sort vs))" by (rule sorted_remdups_adj_distinct) simp
  ultimately show ?thesis
    by (intro sorted_distinct_set_unique) (simp_all add: sortedUniqueStrings_def compact_None)
qed

lemma finalize_signal:
  "ev_Signal (finalizeEvaluation d r g ws we th ob h u b m cl ids) =
     (if h \<and> \<not> u \<and> \<not> b \<and> m then Some (buildSignal d r cl g ws we ob ids) else None)"
  by (simp add: finalizeEvaluation_def Let_def)

lemma finalize_group [simp]: "ev_Group (finalizeEvaluation d r g ws we th ob h u b m cl ids) = g"
  by (simp add: finalizeEvaluation_def Let_def)

lemma buildSignal_evidence [simp]: "sg_EvidenceIDs (buildSignal d r cl g ws we ob ids) = sorted_list_of_set (set ids)"
  by (simp add: buildSignal_def Let_def sortedUniqueStrings_eq)

section \<open>The event loops\<close>

text \<open>
  The four loops have one shape: events that are not relevant are skipped, an untrusted
  timestamp or an unverified binding sets a flag, and every other event is evidence.
\<close>

locale rule_scan =
  fixes step :: "'v \<Rightarrow> scan \<Rightarrow> scan"
    and relevant trusted verified :: "'v \<Rightarrow> bool"
    and ident :: "'v \<Rightarrow> string"
    and attr :: "'v \<Rightarrow> string option"
  assumes step_eq: "step e s =
    (if \<not> relevant e then s
     else if \<not> trusted e then s\<lparr>sc_untrusted := True\<rparr>
     else if \<not> verified e then s\<lparr>sc_unverified := True\<rparr>
     else s\<lparr>sc_evidence := sc_evidence s @ [ident e],
            sc_distinct := (case attr e of None \<Rightarrow> sc_distinct s | Some a \<Rightarrow> List.insert a (sc_distinct s))\<rparr>)"
begin

definition good :: "'v \<Rightarrow> bool" where
  "good e \<longleftrightarrow> relevant e \<and> trusted e \<and> verified e"

lemma fold_flags:
  "sc_untrusted (fold step es s) \<longleftrightarrow> sc_untrusted s \<or> (\<exists>e \<in> set es. relevant e \<and> \<not> trusted e)"
  "sc_unverified (fold step es s) \<longleftrightarrow> sc_unverified s \<or> (\<exists>e \<in> set es. relevant e \<and> trusted e \<and> \<not> verified e)"
  by (induction es arbitrary: s) (auto simp: step_eq)

lemma fold_evidence: "sc_evidence (fold step es s) = sc_evidence s @ map ident (filter good es)"
  by (induction es arbitrary: s) (auto simp: step_eq good_def)

lemma fold_distinct:
  "distinct (sc_distinct s) \<Longrightarrow> distinct (sc_distinct (fold step es s)) \<and>
     set (sc_distinct (fold step es s)) = set (sc_distinct s) \<union> {a. \<exists>e \<in> set es. good e \<and> attr e = Some a}"
proof (induction es arbitrary: s)
  case (Cons e es)
  then have "distinct (sc_distinct (step e s))" by (auto simp: step_eq split: option.splits)
  from Cons.IH [OF this] show ?case by (auto simp: step_eq good_def split: option.splits)
qed simp

text \<open>When no flag is set every relevant event is good and is counted once.\<close>

lemma clean_scan:
  defines "r es \<equiv> fold step es scan_start"
  shows "\<not> sc_untrusted (r es) \<and> \<not> sc_unverified (r es) \<longleftrightarrow> (\<forall>e \<in> set es. relevant e \<longrightarrow> trusted e \<and> verified e)"
    and "sc_evidence (r es) = map ident (filter good es)"
    and "length (sc_distinct (r es)) = card {a. \<exists>e \<in> set es. good e \<and> attr e = Some a}"
proof -
  show "\<not> sc_untrusted (r es) \<and> \<not> sc_unverified (r es) \<longleftrightarrow> (\<forall>e \<in> set es. relevant e \<longrightarrow> trusted e \<and> verified e)"
    by (auto simp: r_def fold_flags scan_start_def)
  show "sc_evidence (r es) = map ident (filter good es)" by (simp add: r_def fold_evidence scan_start_def)
  have "distinct (sc_distinct (r es))" "set (sc_distinct (r es)) = {a. \<exists>e \<in> set es. good e \<and> attr e = Some a}"
    using fold_distinct [of scan_start es] by (simp_all add: r_def scan_start_def)
  then show "length (sc_distinct (r es)) = card {a. \<exists>e \<in> set es. good e \<and> attr e = Some a}"
    using distinct_card by metis
qed

text \<open>
  The decision of a rule whose threshold is \<open>P\<close> on the number of evidence events and of
  distinct attribute values, on the events \<open>R\<close> of a group in the window that are relevant.
\<close>

lemma rule_decides:
  fixes vs :: "'v list" and w :: "'v \<Rightarrow> bool"
  defines "r \<equiv> fold step (filter w vs) scan_start"
  assumes e: "ev_Signal e = ev_Signal (finalizeEvaluation d rid g s f th ob h (sc_untrusted r) (sc_unverified r)
      (P (length (sc_evidence r)) (length (sc_distinct r))) cl (sc_evidence r))"
    and vs: "distinct vs" "inj_on ident (set vs)"
    and R: "R = {v \<in> set vs. w v \<and> relevant v}"
  shows "case ev_Signal e of
      None \<Rightarrow> \<not> (h \<and> (\<forall>v \<in> R. trusted v \<and> verified v) \<and> P (card R) (card {a. \<exists>v \<in> R. attr v = Some a}))
    | Some sg \<Rightarrow> h \<and> (\<forall>v \<in> R. trusted v \<and> verified v) \<and> P (card R) (card {a. \<exists>v \<in> R. attr v = Some a}) \<and>
        sg_EvidenceIDs sg = sorted_list_of_set (ident ` R)"
proof -
  have flags: "\<not> sc_untrusted r \<and> \<not> sc_unverified r \<longleftrightarrow> (\<forall>v \<in> R. trusted v \<and> verified v)"
    unfolding r_def clean_scan R by auto
  have ev: "sc_evidence r = map ident (filter good (filter w vs))"
    and di: "length (sc_distinct r) = card {a. \<exists>v \<in> set (filter w vs). good v \<and> attr v = Some a}"
    unfolding r_def by (rule clean_scan)+
  show ?thesis
  proof (cases "\<forall>v \<in> R. trusted v \<and> verified v")
    case True
    then have g: "set (filter good (filter w vs)) = R" by (auto simp: R good_def)
    have "length (filter good (filter w vs)) = card R" using vs(1) distinct_card [of "filter good (filter w vs)"] g by simp
    then have "length (sc_evidence r) = card R" by (simp add: ev)
    moreover have "set (sc_evidence r) = ident ` R" using g by (simp only: ev set_map)
    moreover have "{a. \<exists>v \<in> set (filter w vs). good v \<and> attr v = Some a} = {a. \<exists>v \<in> R. attr v = Some a}"
      using g by auto
    ultimately show ?thesis using True flags di by (simp add: e finalize_signal)
  next
    case False
    then show ?thesis using flags by (auto simp: e finalize_signal)
  qed
qed

end

definition suspicious :: "gateway_event \<Rightarrow> bool" where
  "suspicious e \<longleftrightarrow> ge_SuspiciousPathID e \<noteq> SuspiciousPathNone"

definition gateway_trusted :: "gateway_event \<Rightarrow> bool" where
  "gateway_trusted e \<longleftrightarrow> ge_TimestampTrust e = TimestampTrusted"

definition failed_login :: "string \<Rightarrow> gateway_event \<Rightarrow> bool" where
  "failed_login route e \<longleftrightarrow> ge_RouteLabel e = route \<and> (ge_StatusCode e = 401 \<or> ge_StatusCode e = 403)"

definition gateway_verified :: "gateway_event \<Rightarrow> bool" where
  "gateway_verified e \<longleftrightarrow> ge_AuthenticationMatch e = BindingVerified"

definition failed_auth :: "auth_event \<Rightarrow> bool" where
  "failed_auth e \<longleftrightarrow> ae_Outcome e = AuthOutcomeFailed"

definition auth_trusted :: "auth_event \<Rightarrow> bool" where
  "auth_trusted e \<longleftrightarrow> ae_TimestampTrust e = TimestampTrusted"

definition auth_verified :: "auth_event \<Rightarrow> bool" where
  "auth_verified e \<longleftrightarrow> ae_GatewayBinding e = BindingVerified"

interpretation paths: rule_scan path_scan_step suspicious gateway_trusted "\<lambda>_. True" ge_EventID
    "\<lambda>e. Some (ge_SuspiciousPathID e)"
  by unfold_locales (simp add: path_scan_step_def suspicious_def gateway_trusted_def scan_keep_def)

interpretation burst: rule_scan burst_step "\<lambda>_. True" gateway_trusted "\<lambda>_. True" ge_EventID "\<lambda>_. None"
  by unfold_locales (simp add: burst_step_def gateway_trusted_def)

interpretation logins: rule_scan "brute_force_step route" "failed_login route" gateway_trusted gateway_verified
    ge_EventID "\<lambda>_. None" for route
  by unfold_locales (auto simp: brute_force_step_def failed_login_def gateway_trusted_def gateway_verified_def)

interpretation stuffing: rule_scan stuffing_step failed_auth auth_trusted auth_verified ae_EventID
    "\<lambda>e. Some (ae_AccountHash e)"
  by unfold_locales (simp add: stuffing_step_def failed_auth_def auth_trusted_def auth_verified_def scan_keep_def)

section \<open>Normalised input\<close>

definition gateway_event_ok :: "config \<Rightarrow> gateway_event \<Rightarrow> bool" where
  "gateway_event_ok c v \<longleftrightarrow>
     re_matches uuidPattern (ge_EventID v) \<and> ge_OccurredAt v \<noteq> 0 \<and> canonical_ipv4 (ge_SourceIP v) \<and>
     re_matches labelPattern (ge_ServiceLabel v) \<and> re_matches labelPattern (ge_RouteLabel v) \<and>
     ge_PathCatalogVersion v = cf_PathCatalogVersion c \<and> validSuspiciousPathID (ge_SuspiciousPathID v) \<and>
     100 \<le> ge_StatusCode v \<and> ge_StatusCode v \<le> 599 \<and>
     ge_TimestampTrust v \<in> {TimestampTrusted, TimestampUntrusted} \<and> validGatewayBinding (ge_AuthenticationMatch v)"

definition auth_event_ok :: "auth_event \<Rightarrow> bool" where
  "auth_event_ok v \<longleftrightarrow>
     re_matches uuidPattern (ae_EventID v) \<and> ae_OccurredAt v \<noteq> 0 \<and> canonical_ipv4 (ae_SourceIP v) \<and>
     re_matches labelPattern (ae_ServiceLabel v) \<and> re_matches labelPattern (ae_RouteLabel v) \<and>
     re_matches accountHashPattern (ae_AccountHash v) \<and> ae_Outcome v \<in> {AuthOutcomeFailed, AuthOutcomeSucceeded} \<and>
     ae_TimestampTrust v \<in> {TimestampTrusted, TimestampUntrusted} \<and>
     ae_GatewayBinding v \<in> {BindingVerified, BindingPending, BindingUntrusted}"

definition interval_ok :: "health_interval \<Rightarrow> bool" where
  "interval_ok v \<longleftrightarrow> validHealthState (hi_State v) \<and> hi_Start v \<noteq> 0 \<and> (hi_End v = 0 \<or> hi_Start v \<le> hi_End v)"

definition health_ok :: "string \<Rightarrow> source_health \<Rightarrow> bool" where
  "health_ok source h \<longleftrightarrow> sh_Source h = source \<and> sh_CoverageStart h \<noteq> 0 \<and> sh_CoverageEnd h \<noteq> 0 \<and>
     sh_CoverageStart h \<le> sh_CoverageEnd h \<and> list_all interval_ok (sh_Intervals h)"

lemma gateway_event_error_None: "gateway_event_error c i v = None \<longleftrightarrow> gateway_event_ok c v"
  by (simp add: gateway_event_error_def gateway_event_ok_def Let_def)

lemma auth_event_error_None: "auth_event_error i v = None \<longleftrightarrow> auth_event_ok v"
  by (simp add: auth_event_error_def auth_event_ok_def Let_def)

lemma interval_error_None: "interval_error field i vs = None \<longleftrightarrow> list_all interval_ok vs"
  by (induction vs arbitrary: i) (auto simp: interval_ok_def Let_def)

lemma equalGatewayEvent_eq: "equalGatewayEvent l r \<longleftrightarrow> l = r"
  by (cases l; cases r) (simp add: equalGatewayEvent_def)

lemma equalAuthEvent_eq: "equalAuthEvent l r \<longleftrightarrow> l = r"
  by (cases l; cases r) (simp add: equalAuthEvent_def)

interpretation gin: keyed_input ge_EventID "gateway_event_error c" equalGatewayEvent gateway_conflict
    "\<lambda>v. (ge_OccurredAt v, ge_EventID v)" "gateway_event_ok c" for c
  by unfold_locales (simp_all add: gateway_event_error_None equalGatewayEvent_eq)

interpretation ain: keyed_input ae_EventID auth_event_error equalAuthEvent auth_conflict
    "\<lambda>v. (ae_OccurredAt v, ae_EventID v)" auth_event_ok
  by unfold_locales (simp_all add: auth_event_error_None equalAuthEvent_eq)

lemma normalizeGatewayEvents_ok:
  "(\<exists>r. normalizeGatewayEvents vs c = Inr r) \<longleftrightarrow> list_all (gateway_event_ok c) vs \<and> inj_on ge_EventID (set vs)"
  using gin.collect_all [of c vs] by (auto simp: normalizeGatewayEvents_def bind_res_def split: sum.splits)

lemma normalizeAuthEvents_ok:
  "(\<exists>r. normalizeAuthEvents vs = Inr r) \<longleftrightarrow> list_all auth_event_ok vs \<and> inj_on ae_EventID (set vs)"
  using ain.collect_all [of vs] by (auto simp: normalizeAuthEvents_def bind_res_def split: sum.splits)

lemma normalizeHealth_eq:
  "normalizeHealth field h source = Inr h' \<longleftrightarrow>
     health_ok source h \<and> h' = h\<lparr>sh_Intervals := sort_key interval_key (sh_Intervals h)\<rparr>"
  by (auto simp: normalizeHealth_def health_ok_def interval_error_None split: option.splits)
     (metis interval_error_None not_None_eq)+

lemma normalizeGatewayEvents_set_only:
  assumes "set vs = set ws" "normalizeGatewayEvents vs c = Inr r"
  shows "normalizeGatewayEvents ws c = Inr r"
  using assms gin.collect_set_only [OF assms(1)]
  by (fastforce simp: normalizeGatewayEvents_def bind_res_def split: sum.splits)

lemma normalizeAuthEvents_set_only:
  assumes "set vs = set ws" "normalizeAuthEvents vs = Inr r"
  shows "normalizeAuthEvents ws = Inr r"
  using assms ain.collect_set_only [OF assms(1)]
  by (fastforce simp: normalizeAuthEvents_def bind_res_def split: sum.splits)

lemma normalizeGatewayEvents_result:
  assumes "normalizeGatewayEvents vs c = Inr r"
  shows "set r = set vs \<and> distinct r \<and> inj_on ge_EventID (set r)"
  using assms gin.collect_sorted [of c vs]
  by (fastforce simp: normalizeGatewayEvents_def bind_res_def split: sum.splits)

lemma normalizeAuthEvents_result:
  assumes "normalizeAuthEvents vs = Inr r"
  shows "set r = set vs \<and> distinct r \<and> inj_on ae_EventID (set r)"
  using assms ain.collect_sorted [of vs]
  by (fastforce simp: normalizeAuthEvents_def bind_res_def split: sum.splits)

lemma normalizeInput_eq:
  "normalizeInput inp c = Inr n \<longleftrightarrow>
     ei_Now inp \<noteq> 0 \<and> health_ok SourceGateway (ei_GatewayHealth inp) \<and> health_ok SourceAuth (ei_AuthHealth inp) \<and>
     (\<exists>ges aes. normalizeGatewayEvents (ei_GatewayEvents inp) c = Inr ges \<and> normalizeAuthEvents (ei_AuthEvents inp) = Inr aes \<and>
        n = \<lparr>ei_Now = ei_Now inp, ei_GatewayEvents = ges, ei_AuthEvents = aes,
             ei_GatewayHealth = (ei_GatewayHealth inp)\<lparr>sh_Intervals := sort_key interval_key (sh_Intervals (ei_GatewayHealth inp))\<rparr>,
             ei_AuthHealth = (ei_AuthHealth inp)\<lparr>sh_Intervals := sort_key interval_key (sh_Intervals (ei_AuthHealth inp))\<rparr>\<rparr>)"
  by (auto simp: normalizeInput_def bind_res_Inr_iff normalizeHealth_eq)

lemma healthComplete_set:
  "sh_Complete h = sh_Complete h' \<Longrightarrow> sh_CoverageStart h = sh_CoverageStart h' \<Longrightarrow>
   sh_CoverageEnd h = sh_CoverageEnd h' \<Longrightarrow> set (sh_Intervals h) = set (sh_Intervals h') \<Longrightarrow>
   healthComplete h = healthComplete h'"
  by (intro ext) (simp add: healthComplete_def list_all_iff)

lemma healthComplete_sorted [simp]:
  "healthComplete (h\<lparr>sh_Intervals := sort_key interval_key (sh_Intervals h)\<rparr>) = healthComplete h"
  by (rule healthComplete_set) simp_all

text \<open>The rules read the health reports only through \<open>healthComplete\<close>.\<close>

lemma evaluate_cong:
  assumes "ei_Now i = ei_Now j" "ei_GatewayEvents i = ei_GatewayEvents j" "ei_AuthEvents i = ei_AuthEvents j"
    and "healthComplete (ei_GatewayHealth i) = healthComplete (ei_GatewayHealth j)"
    and "healthComplete (ei_AuthHealth i) = healthComplete (ei_AuthHealth j)"
  shows "evaluatePathScan d i = evaluatePathScan d j" "evaluateRequestBurst d i = evaluateRequestBurst d j"
    "evaluateLoginBruteForce d i = evaluateLoginBruteForce d j" "evaluateCredentialStuffing d i = evaluateCredentialStuffing d j"
  by (simp_all only: evaluatePathScan_def evaluateRequestBurst_def evaluateLoginBruteForce_def
      evaluateCredentialStuffing_def assms)

lemma normalizeInput_facts:
  assumes "normalizeInput inp c = Inr n"
  shows "ei_Now n = ei_Now inp" "set (ei_GatewayEvents n) = set (ei_GatewayEvents inp)"
    "distinct (ei_GatewayEvents n)" "inj_on ge_EventID (set (ei_GatewayEvents n))"
    "set (ei_AuthEvents n) = set (ei_AuthEvents inp)" "distinct (ei_AuthEvents n)" "inj_on ae_EventID (set (ei_AuthEvents n))"
    "healthComplete (ei_GatewayHealth n) = healthComplete (ei_GatewayHealth inp)"
    "healthComplete (ei_AuthHealth n) = healthComplete (ei_AuthHealth inp)"
proof -
  obtain ges aes where "normalizeGatewayEvents (ei_GatewayEvents inp) c = Inr ges"
    "normalizeAuthEvents (ei_AuthEvents inp) = Inr aes"
    and n: "ei_Now n = ei_Now inp" "ei_GatewayEvents n = ges" "ei_AuthEvents n = aes"
      "ei_GatewayHealth n = (ei_GatewayHealth inp)\<lparr>sh_Intervals := sort_key interval_key (sh_Intervals (ei_GatewayHealth inp))\<rparr>"
      "ei_AuthHealth n = (ei_AuthHealth inp)\<lparr>sh_Intervals := sort_key interval_key (sh_Intervals (ei_AuthHealth inp))\<rparr>"
    using assms by (auto simp: normalizeInput_eq)
  then have "set ges = set (ei_GatewayEvents inp) \<and> distinct ges \<and> inj_on ge_EventID (set ges)"
    "set aes = set (ei_AuthEvents inp) \<and> distinct aes \<and> inj_on ae_EventID (set aes)"
    using normalizeGatewayEvents_result normalizeAuthEvents_result by blast+
  with n show "ei_Now n = ei_Now inp" "set (ei_GatewayEvents n) = set (ei_GatewayEvents inp)"
    "distinct (ei_GatewayEvents n)" "inj_on ge_EventID (set (ei_GatewayEvents n))"
    "set (ei_AuthEvents n) = set (ei_AuthEvents inp)" "distinct (ei_AuthEvents n)" "inj_on ae_EventID (set (ei_AuthEvents n))"
    "healthComplete (ei_GatewayHealth n) = healthComplete (ei_GatewayHealth inp)"
    "healthComplete (ei_AuthHealth n) = healthComplete (ei_AuthHealth inp)" by (simp_all, metis+)
qed

section \<open>What the detector decides\<close>

text \<open>The frozen configuration: \<open>New\<close> accepts no other thresholds or windows.\<close>

definition frozen :: "config \<Rightarrow> bool" where
  "frozen c \<longleftrightarrow> cf_PathCatalogVersion c = DefaultPathCatalogVersion \<and>
     cf_PathScanThreshold c = 8 \<and> cf_PathScanWindow c = 60 * Second \<and>
     cf_RequestBurstThreshold c = 120 \<and> cf_RequestBurstWindow c = 10 * Second \<and>
     cf_LoginBruteForceThreshold c = 10 \<and> cf_LoginBruteForceWindow c = 60 * Second \<and>
     cf_CredentialStuffingEventThreshold c = 20 \<and> cf_CredentialStuffingAccountThreshold c = 8 \<and>
     cf_CredentialStuffingWindow c = 5 * Minute"

lemmas frozen_values = PathScanThreshold_def PathScanWindow_def RequestBurstThreshold_def RequestBurstWindow_def
  LoginBruteForceThreshold_def LoginBruteForceWindow_def CredentialStuffingEventThreshold_def
  CredentialStuffingAccountThreshold_def CredentialStuffingWindow_def

lemma New_frozen: "New c = Inr d \<Longrightarrow> frozen (dt_config d)"
  by (auto simp: New_def bind_res_Inr_iff validateAndNormalizeConfig_def frozen_def frozen_values Let_def split: if_splits)

text \<open>The events of group \<open>g\<close> in the closed window of length \<open>window\<close> before \<open>now\<close>.\<close>

definition gateway_window :: "evaluation_input \<Rightarrow> duration \<Rightarrow> group_key \<Rightarrow> gateway_event set" where
  "gateway_window inp window g =
     {v \<in> set (ei_GatewayEvents inp). gateway_key v = g \<and> ei_Now inp - window \<le> ge_OccurredAt v \<and> ge_OccurredAt v \<le> ei_Now inp}"

definition auth_window :: "evaluation_input \<Rightarrow> duration \<Rightarrow> group_key \<Rightarrow> auth_event set" where
  "auth_window inp window g =
     {v \<in> set (ei_AuthEvents inp). auth_key v = g \<and> ei_Now inp - window \<le> ae_OccurredAt v \<and> ae_OccurredAt v \<le> ei_Now inp}"

definition covered :: "source_health \<Rightarrow> evaluation_input \<Rightarrow> duration \<Rightarrow> bool" where
  "covered h inp window \<longleftrightarrow> healthComplete h (ei_Now inp - window) (ei_Now inp)"

lemma gateway_window_normalized:
  assumes "normalizeInput inp c = Inr n"
  shows "{v \<in> set (ei_GatewayEvents n). in_group ge_OccurredAt gateway_key (ei_Now inp - w) (ei_Now inp) g v \<and> P v} =
    {v \<in> gateway_window inp w g. P v}"
  using normalizeInput_facts [OF assms] by (auto simp: gateway_window_def in_group_def)

lemma auth_window_normalized:
  assumes "normalizeInput inp c = Inr n"
  shows "{v \<in> set (ei_AuthEvents n). in_group ae_OccurredAt auth_key (ei_Now inp - w) (ei_Now inp) g v \<and> P v} =
    {v \<in> auth_window inp w g. P v}"
  using normalizeInput_facts [OF assms] by (auto simp: auth_window_def in_group_def)

text \<open>What each rule promises, on the input alone.\<close>

definition path_scan_fires :: "evaluation_input \<Rightarrow> group_key \<Rightarrow> bool" where
  "path_scan_fires inp g \<longleftrightarrow>
     (let R = {v \<in> gateway_window inp (60 * Second) g. suspicious v} in
      covered (ei_GatewayHealth inp) inp (60 * Second) \<and> (\<forall>v \<in> R. gateway_trusted v) \<and>
      8 \<le> card (ge_SuspiciousPathID ` R))"

definition request_burst_fires :: "evaluation_input \<Rightarrow> group_key \<Rightarrow> bool" where
  "request_burst_fires inp g \<longleftrightarrow>
     (let R = gateway_window inp (10 * Second) g in
      covered (ei_GatewayHealth inp) inp (10 * Second) \<and> (\<forall>v \<in> R. gateway_trusted v) \<and> 120 \<le> card R)"

definition login_bruteforce_fires :: "string \<Rightarrow> evaluation_input \<Rightarrow> group_key \<Rightarrow> bool" where
  "login_bruteforce_fires route inp g \<longleftrightarrow>
     (let R = {v \<in> gateway_window inp (60 * Second) g. failed_login route v} in
      covered (ei_GatewayHealth inp) inp (60 * Second) \<and> covered (ei_AuthHealth inp) inp (60 * Second) \<and>
      (\<forall>v \<in> R. gateway_trusted v \<and> gateway_verified v) \<and> 10 \<le> card R)"

definition credential_stuffing_fires :: "evaluation_input \<Rightarrow> group_key \<Rightarrow> bool" where
  "credential_stuffing_fires inp g \<longleftrightarrow>
     (let R = {v \<in> auth_window inp (5 * Minute) g. failed_auth v} in
      covered (ei_AuthHealth inp) inp (5 * Minute) \<and> (\<forall>v \<in> R. auth_trusted v \<and> auth_verified v) \<and>
      20 \<le> card R \<and> 8 \<le> card (ae_AccountHash ` R))"

text \<open>A decided evaluation: it carries a signal exactly when \<open>fires\<close>, with exactly this evidence.\<close>

definition decided :: "bool \<Rightarrow> string set \<Rightarrow> rule_evaluation \<Rightarrow> bool" where
  "decided fires evidence e \<longleftrightarrow>
     (case ev_Signal e of None \<Rightarrow> \<not> fires | Some sg \<Rightarrow> fires \<and> sg_EvidenceIDs sg = sorted_list_of_set evidence)"

lemma Evaluate_Inr:
  assumes "Evaluate d inp = Inr out"
  obtains n where "normalizeInput inp (dt_config d) = Inr n" "out_PathScan out = evaluatePathScan d n"
    "out_RequestBurst out = evaluateRequestBurst d n" "out_LoginBruteForce out = evaluateLoginBruteForce d n"
    "out_CredentialStuffing out = evaluateCredentialStuffing d n"
  using assms by (auto simp: Evaluate_def bind_res_Inr_iff)

lemma some_image: "{a. \<exists>v \<in> R. Some (f v) = Some a} = f ` R"
  by auto

lemma path_scan_decides:
  assumes "frozen (dt_config d)" "normalizeInput inp (dt_config d) = Inr n" "e \<in> set (evaluatePathScan d n)"
  shows "decided (path_scan_fires inp (ev_Group e))
    (ge_EventID ` {v \<in> gateway_window inp (60 * Second) (ev_Group e). suspicious v}) e"
proof -
  note nf = normalizeInput_facts [OF assms(2)]
  let ?w = "in_group ge_OccurredAt gateway_key (ei_Now inp - 60 * Second) (ei_Now inp) (ev_Group e)"
  let ?r = "fold path_scan_step (filter ?w (ei_GatewayEvents n)) scan_start"
  obtain th ob where e: "ev_Signal e = ev_Signal (finalizeEvaluation d RulePathScan (ev_Group e) (ei_Now inp - 60 * Second)
      (ei_Now inp) th ob (covered (ei_GatewayHealth inp) inp (60 * Second)) (sc_untrusted ?r) (sc_unverified ?r)
      (8 \<le> length (sc_distinct ?r)) ClassificationPathScan (sc_evidence ?r))"
    using assms(1,3) nf(1,8) unfolding evaluatePathScan_def groupGatewayEvents_def frozen_def covered_def
    by (auto simp: Let_def group_events_iff paths.fold_flags(2) scan_start_def)
  show ?thesis
    using paths.rule_decides [where P = "\<lambda>_ k. 8 \<le> k", OF e nf(3,4) gateway_window_normalized [OF assms(2), symmetric]]
    unfolding decided_def path_scan_fires_def Let_def some_image by (simp split: option.splits)
qed

lemma request_burst_decides:
  assumes "frozen (dt_config d)" "normalizeInput inp (dt_config d) = Inr n" "e \<in> set (evaluateRequestBurst d n)"
  shows "decided (request_burst_fires inp (ev_Group e)) (ge_EventID ` gateway_window inp (10 * Second) (ev_Group e)) e"
proof -
  note nf = normalizeInput_facts [OF assms(2)]
  let ?w = "in_group ge_OccurredAt gateway_key (ei_Now inp - 10 * Second) (ei_Now inp) (ev_Group e)"
  let ?r = "fold burst_step (filter ?w (ei_GatewayEvents n)) scan_start"
  obtain th ob where e: "ev_Signal e = ev_Signal (finalizeEvaluation d RuleRequestBurst (ev_Group e) (ei_Now inp - 10 * Second)
      (ei_Now inp) th ob (covered (ei_GatewayHealth inp) inp (10 * Second)) (sc_untrusted ?r) (sc_unverified ?r)
      (120 \<le> length (sc_evidence ?r)) ClassificationRequestBurst (sc_evidence ?r))"
    using assms(1,3) nf(1,8) unfolding evaluateRequestBurst_def groupGatewayEvents_def frozen_def covered_def
    by (auto simp: Let_def group_events_iff burst.fold_flags(2) scan_start_def)
  show ?thesis
    using burst.rule_decides [where P = "\<lambda>k _. 120 \<le> k", OF e nf(3,4) gateway_window_normalized [OF assms(2), symmetric]]
    unfolding decided_def request_burst_fires_def Let_def by (simp split: option.splits)
qed

lemma login_bruteforce_decides:
  assumes "frozen (dt_config d)" "normalizeInput inp (dt_config d) = Inr n" "e \<in> set (evaluateLoginBruteForce d n)"
  shows "decided (login_bruteforce_fires (cf_LoginRouteLabel (dt_config d)) inp (ev_Group e))
    (ge_EventID ` {v \<in> gateway_window inp (60 * Second) (ev_Group e). failed_login (cf_LoginRouteLabel (dt_config d)) v}) e"
proof -
  note nf = normalizeInput_facts [OF assms(2)]
  let ?w = "in_group ge_OccurredAt gateway_key (ei_Now inp - 60 * Second) (ei_Now inp) (ev_Group e)"
  let ?r = "fold (brute_force_step (cf_LoginRouteLabel (dt_config d))) (filter ?w (ei_GatewayEvents n)) scan_start"
  obtain th ob where e: "ev_Signal e = ev_Signal (finalizeEvaluation d RuleLoginBruteForce (ev_Group e)
      (ei_Now inp - 60 * Second) (ei_Now inp) th ob
      (covered (ei_GatewayHealth inp) inp (60 * Second) \<and> covered (ei_AuthHealth inp) inp (60 * Second))
      (sc_untrusted ?r) (sc_unverified ?r) (10 \<le> length (sc_evidence ?r)) ClassificationLoginBruteForce (sc_evidence ?r))"
    using assms(1,3) nf(1,8,9) unfolding evaluateLoginBruteForce_def groupGatewayEvents_def frozen_def covered_def
    by (auto simp: Let_def group_events_iff)
  show ?thesis
    using logins.rule_decides [where P = "\<lambda>k _. 10 \<le> k", OF e nf(3,4) gateway_window_normalized [OF assms(2), symmetric]]
    unfolding decided_def login_bruteforce_fires_def Let_def by (simp split: option.splits)
qed

lemma credential_stuffing_decides:
  assumes "frozen (dt_config d)" "normalizeInput inp (dt_config d) = Inr n" "e \<in> set (evaluateCredentialStuffing d n)"
  shows "decided (credential_stuffing_fires inp (ev_Group e))
    (ae_EventID ` {v \<in> auth_window inp (5 * Minute) (ev_Group e). failed_auth v}) e"
proof -
  note nf = normalizeInput_facts [OF assms(2)]
  let ?w = "in_group ae_OccurredAt auth_key (ei_Now inp - 5 * Minute) (ei_Now inp) (ev_Group e)"
  let ?r = "fold stuffing_step (filter ?w (ei_AuthEvents n)) scan_start"
  obtain th ob where e: "ev_Signal e = ev_Signal (finalizeEvaluation d RuleCredentialStuffing (ev_Group e)
      (ei_Now inp - 5 * Minute) (ei_Now inp) th ob (covered (ei_AuthHealth inp) inp (5 * Minute))
      (sc_untrusted ?r) (sc_unverified ?r) (20 \<le> length (sc_evidence ?r) \<and> 8 \<le> length (sc_distinct ?r))
      ClassificationCredentialStuffing (sc_evidence ?r))"
    using assms(1,3) nf(1,9) unfolding evaluateCredentialStuffing_def groupAuthEvents_def frozen_def covered_def
    by (auto simp: Let_def group_events_iff)
  show ?thesis
    using stuffing.rule_decides [where P = "\<lambda>k a. 20 \<le> k \<and> 8 \<le> a", OF e nf(6,7) auth_window_normalized [OF assms(2), symmetric]]
    unfolding decided_def credential_stuffing_fires_def Let_def some_image by (simp split: option.splits)
qed

text \<open>Two health reports that differ only in the order and repetition of their intervals.\<close>

definition same_health :: "source_health \<Rightarrow> source_health \<Rightarrow> bool" where
  "same_health h k \<longleftrightarrow> sh_Source h = sh_Source k \<and> sh_Complete h = sh_Complete k \<and>
     sh_CoverageStart h = sh_CoverageStart k \<and> sh_CoverageEnd h = sh_CoverageEnd k \<and>
     set (sh_Intervals h) = set (sh_Intervals k)"

lemma same_health_ok: "same_health h k \<Longrightarrow> health_ok source h = health_ok source k"
  by (simp add: same_health_def health_ok_def list_all_iff)

lemma same_health_complete: "same_health h k \<Longrightarrow> healthComplete h = healthComplete k"
  by (rule healthComplete_set) (simp_all add: same_health_def)

text \<open>What an evaluation promises about its signal.\<close>

definition consistent :: "detector \<Rightarrow> rule_evaluation \<Rightarrow> bool" where
  "consistent d e \<longleftrightarrow>
     (ev_Decision e = DecisionMatched \<longleftrightarrow> ev_Signal e \<noteq> None) \<and> (ev_EnforcementSupporting e \<longleftrightarrow> ev_Signal e \<noteq> None) \<and>
     (case ev_Signal e of None \<Rightarrow> True | Some sg \<Rightarrow>
        ev_SourceHealthStatus e = SourceHealthStatusComplete \<and> sg_SourceHealthStatus sg = SourceHealthStatusComplete \<and>
        sg_RuleID sg = ev_RuleID e \<and> (sg_SourceIP sg, sg_ServiceLabel sg) = ev_Group e \<and>
        sg_WindowStart sg = ev_WindowStart e \<and> sg_WindowEnd sg = ev_WindowEnd e \<and> sg_Metrics sg = ev_Observed e \<and>
        sg_ConfigurationVersion sg = cf_Version (dt_config d) \<and> sg_ConfigurationDigest sg = dt_configDigest d \<and>
        sorted_wrt (<) (sg_EvidenceIDs sg) \<and> uuid_v8 (sg_SignalID sg) \<and>
        re_matches digestPattern (sg_EvidenceDigest sg) \<and> re_matches digestPattern (sg_Digest sg))"

lemma strictly_sorted_list_of_set: "sorted_wrt (<) (sorted_list_of_set (A :: 'a :: linorder set))"
  by (simp add: strict_sorted_iff)

lemma buildSignal_shape:
  "uuid_v8 (sg_SignalID (buildSignal d r cl g ws we m ids))"
  "re_matches digestPattern (sg_EvidenceDigest (buildSignal d r cl g ws we m ids))"
  "re_matches digestPattern (sg_Digest (buildSignal d r cl g ws we m ids))"
  by (simp_all add: buildSignal_def Let_def uuidV8_shape length_sha256 digestEvidenceIDs_def sha256Digest_matches)
    (simp add: digestPattern_iff length_sha256 hexlow_hex_encode)

lemma finalize_consistent: "consistent d (finalizeEvaluation d r g ws we th ob h u b m cl ids)"
  unfolding consistent_def finalize_signal
  by (simp add: buildSignal_shape strictly_sorted_list_of_set)
    (simp add: finalizeEvaluation_def buildSignal_def Let_def)

section \<open>Properties\<close>

text \<open>
  C4: A detector that \<open>New\<close> returns makes a signal for a group exactly when the rule holds on the
  input, for each of the four rules: the sources the rule depends on cover the whole closed
  window without a health interval touching it, every relevant event of the group in the window
  is trusted (and verified where the rule asks for it), and the counts reach the thresholds of
  the frozen configuration. The evidence of the signal is the sorted list of exactly these events.
\<close>

theorem signals_exactly:
  assumes "New c = Inr d" and "Evaluate d inp = Inr out"
  shows "(\<forall>e \<in> set (out_PathScan out). decided (path_scan_fires inp (ev_Group e))
      (ge_EventID ` {v \<in> gateway_window inp (60 * Second) (ev_Group e). suspicious v}) e) \<and>
    (\<forall>e \<in> set (out_RequestBurst out). decided (request_burst_fires inp (ev_Group e))
      (ge_EventID ` gateway_window inp (10 * Second) (ev_Group e)) e) \<and>
    (\<forall>e \<in> set (out_LoginBruteForce out). decided (login_bruteforce_fires (cf_LoginRouteLabel c) inp (ev_Group e))
      (ge_EventID ` {v \<in> gateway_window inp (60 * Second) (ev_Group e). failed_login (cf_LoginRouteLabel c) v}) e) \<and>
    (\<forall>e \<in> set (out_CredentialStuffing out). decided (credential_stuffing_fires inp (ev_Group e))
      (ae_EventID ` {v \<in> auth_window inp (5 * Minute) (ev_Group e). failed_auth v}) e)"
proof -
  note fr = New_frozen [OF assms(1)]
  have route: "cf_LoginRouteLabel (dt_config d) = cf_LoginRouteLabel c"
    using assms(1) by (auto simp: New_def bind_res_Inr_iff validateAndNormalizeConfig_def Let_def split: if_splits)
  obtain n where n: "normalizeInput inp (dt_config d) = Inr n" and out: "out_PathScan out = evaluatePathScan d n"
    "out_RequestBurst out = evaluateRequestBurst d n" "out_LoginBruteForce out = evaluateLoginBruteForce d n"
    "out_CredentialStuffing out = evaluateCredentialStuffing d n"
    using Evaluate_Inr [OF assms(2)] by metis
  show ?thesis unfolding out
    using path_scan_decides [OF fr n] request_burst_decides [OF fr n] login_bruteforce_decides [OF fr n]
      credential_stuffing_decides [OF fr n] unfolding route by blast
qed

text \<open>
  C31: Every source and service with an event in a rule's window is evaluated once, and no other:
  the groups of each rule are the sorted list of the keys of the events in its window.
\<close>

theorem every_group_evaluated_once:
  assumes "New c = Inr d" and "Evaluate d inp = Inr out"
  shows "map ev_Group (out_PathScan out) = sorted_list_of_set {g. gateway_window inp (60 * Second) g \<noteq> {}} \<and>
    map ev_Group (out_RequestBurst out) = sorted_list_of_set {g. gateway_window inp (10 * Second) g \<noteq> {}} \<and>
    map ev_Group (out_LoginBruteForce out) = sorted_list_of_set {g. gateway_window inp (60 * Second) g \<noteq> {}} \<and>
    map ev_Group (out_CredentialStuffing out) = sorted_list_of_set {g. auth_window inp (5 * Minute) g \<noteq> {}}"
proof -
  obtain n where n: "normalizeInput inp (dt_config d) = Inr n" and out: "out_PathScan out = evaluatePathScan d n"
    "out_RequestBurst out = evaluateRequestBurst d n" "out_LoginBruteForce out = evaluateLoginBruteForce d n"
    "out_CredentialStuffing out = evaluateCredentialStuffing d n"
    using Evaluate_Inr [OF assms(2)] by metis
  note nf = normalizeInput_facts [OF n]
  have "gateway_key ` {v \<in> set (ei_GatewayEvents n). ei_Now n - w \<le> ge_OccurredAt v \<and> ge_OccurredAt v \<le> ei_Now n} =
      {g. gateway_window inp w g \<noteq> {}}"
    and "auth_key ` {v \<in> set (ei_AuthEvents n). ei_Now n - w \<le> ae_OccurredAt v \<and> ae_OccurredAt v \<le> ei_Now n} =
      {g. auth_window inp w g \<noteq> {}}" for w
    unfolding nf by (force simp: gateway_window_def auth_window_def)+
  note keys = this map_fst_group_events [of ge_OccurredAt gateway_key] map_fst_group_events [of ae_OccurredAt auth_key]
  have m: "map ev_Group (map (\<lambda>(g, es). finalizeEvaluation d r g s f th (ob es) h (u es) (v es) (mt es) cl (ev es)) gs) = map fst gs"
    for r s f th ob h u v mt cl ev and gs :: "(group_key \<times> 'z list) list" by (induction gs) auto
  note simps = out evaluatePathScan_def evaluateRequestBurst_def evaluateLoginBruteForce_def evaluateCredentialStuffing_def
    Let_def m groupGatewayEvents_def groupAuthEvents_def keys
  have fr: "frozen (dt_config d)" by (rule New_frozen [OF assms(1)])
  show ?thesis using fr unfolding frozen_def by (simp only: simps simp_thms)
qed

text \<open>
  C29: The outcome of an evaluation depends only on the set of the events and of the health
  intervals: any order and any identical repetition of the input give the same output, and an
  input is refused in one order exactly when it is refused in another.
\<close>

theorem evaluate_order_independent:
  assumes "ei_Now i = ei_Now j" "set (ei_GatewayEvents i) = set (ei_GatewayEvents j)"
    and "set (ei_AuthEvents i) = set (ei_AuthEvents j)"
    and "same_health (ei_GatewayHealth i) (ei_GatewayHealth j)" "same_health (ei_AuthHealth i) (ei_AuthHealth j)"
    and "Evaluate d i = Inr out"
  shows "Evaluate d j = Inr out"
proof -
  obtain n where n: "normalizeInput i (dt_config d) = Inr n" using Evaluate_Inr [OF assms(6)] by metis
  then obtain m where m: "normalizeInput j (dt_config d) = Inr m" "ei_GatewayEvents m = ei_GatewayEvents n"
    "ei_AuthEvents m = ei_AuthEvents n"
    using assms(1-5) normalizeGatewayEvents_set_only [OF assms(2)] normalizeAuthEvents_set_only [OF assms(3)]
    unfolding normalizeInput_eq by (fastforce simp: same_health_ok)
  note nf = normalizeInput_facts [OF n] and mf = normalizeInput_facts [OF m(1)]
  have "ei_Now m = ei_Now n" "healthComplete (ei_GatewayHealth m) = healthComplete (ei_GatewayHealth n)"
    "healthComplete (ei_AuthHealth m) = healthComplete (ei_AuthHealth n)"
    using assms(1,4,5) by (simp_all add: nf mf same_health_complete)
  note same = evaluate_cong [OF this(1) m(2,3) this(2,3)]
  show ?thesis using assms(6) n m(1) by (simp add: Evaluate_def same)
qed

text \<open>
  C30: Evaluation is refused exactly for malformed input: it succeeds if and only if the time is
  set, every event is well formed, no two different events share an identifier within their
  list, and both health reports are well formed for their source.
\<close>

theorem evaluate_accepts_exactly:
  "(\<exists>out. Evaluate d inp = Inr out) \<longleftrightarrow>
     ei_Now inp \<noteq> 0 \<and>
     list_all (gateway_event_ok (dt_config d)) (ei_GatewayEvents inp) \<and> inj_on ge_EventID (set (ei_GatewayEvents inp)) \<and>
     list_all auth_event_ok (ei_AuthEvents inp) \<and> inj_on ae_EventID (set (ei_AuthEvents inp)) \<and>
     health_ok SourceGateway (ei_GatewayHealth inp) \<and> health_ok SourceAuth (ei_AuthHealth inp)"
proof -
  have "(\<exists>out. Evaluate d inp = Inr out) \<longleftrightarrow> (\<exists>n. normalizeInput inp (dt_config d) = Inr n)"
    by (auto simp: Evaluate_def bind_res_Inr_iff)
  also have "\<dots> \<longleftrightarrow> ei_Now inp \<noteq> 0 \<and> health_ok SourceGateway (ei_GatewayHealth inp) \<and>
      health_ok SourceAuth (ei_AuthHealth inp) \<and> (\<exists>r. normalizeGatewayEvents (ei_GatewayEvents inp) (dt_config d) = Inr r) \<and>
      (\<exists>r. normalizeAuthEvents (ei_AuthEvents inp) = Inr r)"
    by (auto simp: normalizeInput_eq)
  finally show ?thesis by (auto simp: normalizeGatewayEvents_ok normalizeAuthEvents_ok)
qed

text \<open>
  Construction of a detector freezes the configuration: \<open>New\<close> accepts exactly the default
  thresholds and windows with the default path catalogue in any order, and a well-formed version
  and login route; the path list is stored sorted and the digest is of the stored configuration.
\<close>

theorem New_accepts_exactly:
  "New c = Inr d \<longleftrightarrow>
     re_matches versionPattern (cf_Version c) \<and> re_matches labelPattern (cf_LoginRouteLabel c) \<and> frozen c \<and>
     mset (cf_SuspiciousPathIDs c) = mset defaultSuspiciousPathIDs \<and>
     d = \<lparr>dt_config = c\<lparr>cf_SuspiciousPathIDs := sort defaultSuspiciousPathIDs\<rparr>,
          dt_configDigest = digestConfig (c\<lparr>cf_SuspiciousPathIDs := sort defaultSuspiciousPathIDs\<rparr>)\<rparr>"
proof -
  have "sort (cf_SuspiciousPathIDs c) = sort defaultSuspiciousPathIDs \<longleftrightarrow>
      mset (cf_SuspiciousPathIDs c) = mset defaultSuspiciousPathIDs"
    by (metis mset_sort properties_for_sort sorted_sort)
  moreover have "mset (cf_SuspiciousPathIDs c) = mset defaultSuspiciousPathIDs \<Longrightarrow>
      length (cf_SuspiciousPathIDs c) = length defaultSuspiciousPathIDs" by (metis size_mset)
  ultimately show ?thesis
    by (auto simp: New_def bind_res_Inr_iff validateAndNormalizeConfig_def frozen_def frozen_values Let_def)
qed

text \<open>
  C32: Only a matched evaluation supports enforcement. In every output, an evaluation carries a
  signal exactly when its decision is \<open>matched\<close> and exactly when it is marked as supporting
  enforcement, and the signal then repeats the rule, group, window, counts and configuration of
  the evaluation, has complete source health, strictly ordered evidence, a version 8 identifier
  and well-formed digests.
\<close>

theorem enforcement_support_consistent:
  assumes "Evaluate d inp = Inr out"
    and "e \<in> set (out_PathScan out @ out_RequestBurst out @ out_LoginBruteForce out @ out_CredentialStuffing out)"
  shows "consistent d e"
  using assms unfolding Evaluate_def bind_res_Inr_iff evaluatePathScan_def evaluateRequestBurst_def
    evaluateLoginBruteForce_def evaluateCredentialStuffing_def Let_def
  by (auto simp: finalize_consistent)

text \<open>
  C33: A signal digest is bound to everything the signal states. If two signals have the same
  digest, then they are the same signal, or the two different byte strings written for them
  collide under SHA-256.
\<close>

theorem signal_digest_binds:
  assumes "sg_Digest (buildSignal d1 r1 cl1 g1 ws1 we1 m1 ids1) = sg_Digest (buildSignal d2 r2 cl2 g2 ws2 we2 m2 ids2)"
  shows "buildSignal d1 r1 cl1 g1 ws1 we1 m1 ids1 = buildSignal d2 r2 cl2 g2 ws2 we2 m2 ids2 \<or>
    (let a = canonicalLines (signal_lines d1 r1 cl1 g1 ws1 we1 m1 (sortedUniqueStrings ids1));
         b = canonicalLines (signal_lines d2 r2 cl2 g2 ws2 we2 m2 (sortedUniqueStrings ids2))
     in a \<noteq> b \<and> sha256 a = sha256 b)"
proof -
  let ?a = "signal_lines d1 r1 cl1 g1 ws1 we1 m1 (sortedUniqueStrings ids1)"
  let ?b = "signal_lines d2 r2 cl2 g2 ws2 we2 m2 (sortedUniqueStrings ids2)"
  have h: "sha256 (canonicalLines ?a) = sha256 (canonicalLines ?b)"
    using assms by (auto simp: buildSignal_def Let_def dest: hex_encode_inj)
  show ?thesis
  proof (cases "?a = ?b")
    case True
    then have "ws1 = ws2" "we1 = we2" by (auto simp: signal_lines_def dest: format_rfc3339_inj)
    moreover have "m1 = m2" using True by (cases m1; cases m2) (simp add: signal_lines_def int_str_inj)
    moreover have "g1 = g2" using True by (simp add: signal_lines_def prod_eq_iff)
    ultimately show ?thesis using True by (simp add: buildSignal_def signal_lines_def Let_def)
  next
    case False
    then show ?thesis using h by (simp add: canonicalLines_inj)
  qed
qed

section \<open>A scan of the whole catalogue\<close>

text \<open>One source asks for each of the eight catalogue paths, a second apart, in a covered minute.\<close>

definition example_detector :: detector where
  "example_detector =
     (let c = DefaultConfig\<lparr>cf_SuspiciousPathIDs := sort defaultSuspiciousPathIDs\<rparr>
      in \<lparr>dt_config = c, dt_configDigest = digestConfig c\<rparr>)"

definition example_time :: gotime where
  "example_time = 1000 * Minute"

definition example_event :: "nat \<Rightarrow> gateway_event" where
  "example_event k = \<lparr>ge_EventID = ''00000000-0000-8000-8000-00000000000'' @ nat_str k,
     ge_OccurredAt = example_time - int k * Second, ge_SourceIP = ''192.0.2.10'', ge_ServiceLabel = ''shop'',
     ge_RouteLabel = ''catalog'', ge_PathCatalogVersion = DefaultPathCatalogVersion,
     ge_SuspiciousPathID = defaultSuspiciousPathIDs ! k, ge_StatusCode = 404,
     ge_TimestampTrust = TimestampTrusted, ge_AuthenticationMatch = BindingNotApplicable\<rparr>"

definition example_health :: "string \<Rightarrow> source_health" where
  "example_health source = \<lparr>sh_Source = source, sh_Complete = True, sh_CoverageStart = example_time - 10 * Minute,
     sh_CoverageEnd = example_time, sh_Intervals = []\<rparr>"

definition example_input :: "nat list \<Rightarrow> evaluation_input" where
  "example_input order = \<lparr>ei_Now = example_time, ei_GatewayEvents = map example_event order, ei_AuthEvents = [],
     ei_GatewayHealth = example_health SourceGateway, ei_AuthHealth = example_health SourceAuth\<rparr>"

abbreviation "scan_up \<equiv> example_input [0, 1, 2, 3, 4, 5, 6, 7]"
abbreviation "scan_down \<equiv> example_input [7, 6, 5, 4, 3, 2, 1, 0, 7]"

lemma example_New: "New DefaultConfig = Inr example_detector"
proof -
  have "validateAndNormalizeConfig DefaultConfig = Inr (DefaultConfig\<lparr>cf_SuspiciousPathIDs := sort defaultSuspiciousPathIDs\<rparr>)"
    by code_simp
  then show ?thesis by (simp add: New_def example_detector_def Let_def)
qed

lemma example_normalize:
  "\<exists>n. normalizeInput scan_up (dt_config example_detector) = Inr n"
proof -
  have "isl (normalizeInput scan_up (DefaultConfig\<lparr>cf_SuspiciousPathIDs := sort defaultSuspiciousPathIDs\<rparr>)) = False"
    by code_simp
  then show ?thesis by (auto simp: example_detector_def Let_def isl_def) (meson sumE)
qed

lemma example_window:
  "gateway_window scan_up (60 * Second) (''192.0.2.10'', ''shop'') = set (map example_event [0, 1, 2, 3, 4, 5, 6, 7])"
  by (auto simp: gateway_window_def example_input_def example_event_def gateway_key_def)

lemma example_paths:
  "map ge_SuspiciousPathID (map example_event [0, 1, 2, 3, 4, 5, 6, 7]) = defaultSuspiciousPathIDs"
  by (simp add: example_event_def defaultSuspiciousPathIDs_def)

lemma example_fires: "path_scan_fires scan_up (''192.0.2.10'', ''shop'')"
proof -
  have trusted: "gateway_trusted (example_event k)" for k by (simp add: example_event_def gateway_trusted_def)
  have "list_all suspicious (map example_event [0, 1, 2, 3, 4, 5, 6, 7])" by code_simp
  then have "{v \<in> set (map example_event [0, 1, 2, 3, 4, 5, 6, 7]). suspicious v} = set (map example_event [0, 1, 2, 3, 4, 5, 6, 7])"
    unfolding list_all_iff by blast
  moreover have "ge_SuspiciousPathID ` set (map example_event [0, 1, 2, 3, 4, 5, 6, 7]) = set defaultSuspiciousPathIDs"
    by (metis example_paths set_map)
  moreover have "card (set defaultSuspiciousPathIDs) = 8" by (simp add: defaultSuspiciousPathIDs_def)
  moreover have "covered (ei_GatewayHealth scan_up) scan_up (60 * Second)" by code_simp
  ultimately show ?thesis unfolding path_scan_fires_def Let_def example_window using trusted by auto
qed

lemma example_evaluated:
  assumes "normalizeInput scan_up c = Inr n" "cf_PathScanWindow (dt_config d) = 60 * Second"
  shows "\<exists>e \<in> set (evaluatePathScan d n). ev_Group e = (''192.0.2.10'', ''shop'')"
proof -
  let ?g = "(''192.0.2.10'', ''shop'')"
  let ?vs = "filter (in_group ge_OccurredAt gateway_key (ei_Now n - 60 * Second) (ei_Now n) ?g) (ei_GatewayEvents n)"
  have "{v \<in> set (ei_GatewayEvents n). in_group ge_OccurredAt gateway_key (ei_Now n - 60 * Second) (ei_Now n) ?g v \<and> True} \<noteq> {}"
    unfolding normalizeInput_facts(1) [OF assms(1)] gateway_window_normalized [OF assms(1)] example_window by auto
  then have "?vs \<noteq> []" by (auto simp: filter_empty_conv)
  then have "(?g, ?vs) \<in> set (groupGatewayEvents (ei_GatewayEvents n) (ei_Now n - 60 * Second) (ei_Now n))"
    unfolding groupGatewayEvents_def group_events_iff by blast
  then show ?thesis unfolding evaluatePathScan_def Let_def assms(2) by force
qed

theorem signals_exactly_witness:
  "New DefaultConfig = Inr example_detector \<and>
   (\<exists>out e. Evaluate example_detector scan_up = Inr out \<and> e \<in> set (out_PathScan out) \<and> ev_Signal e \<noteq> None)"
proof -
  obtain n where n: "normalizeInput scan_up (dt_config example_detector) = Inr n" using example_normalize by blast
  then obtain out where out: "Evaluate example_detector scan_up = Inr out" "out_PathScan out = evaluatePathScan example_detector n"
    by (simp add: Evaluate_def)
  have "cf_PathScanWindow (dt_config example_detector) = 60 * Second"
    using New_frozen [OF example_New] by (simp add: frozen_def)
  then obtain e where e: "e \<in> set (out_PathScan out)" "ev_Group e = (''192.0.2.10'', ''shop'')"
    using example_evaluated [OF n] unfolding out(2) by blast
  have "decided (path_scan_fires scan_up (ev_Group e))
      (ge_EventID ` {v \<in> gateway_window scan_up (60 * Second) (ev_Group e). suspicious v}) e"
    using signals_exactly [OF example_New out(1), THEN conjunct1] e(1) by (rule bspec)
  then have "ev_Signal e \<noteq> None" using example_fires unfolding e(2) decided_def by (cases "ev_Signal e") simp_all
  with e out example_New show ?thesis by blast
qed

theorem every_group_evaluated_once_witness:
  "New DefaultConfig = Inr example_detector \<and>
   (\<exists>out. Evaluate example_detector scan_up = Inr out \<and>
      map ev_Group (out_PathScan out) = sorted_list_of_set {g. gateway_window scan_up (60 * Second) g \<noteq> {}})"
proof -
  obtain out where "Evaluate example_detector scan_up = Inr out" using example_normalize by (auto simp: Evaluate_def)
  with every_group_evaluated_once [OF example_New this] example_New show ?thesis by blast
qed

theorem evaluate_order_independent_witness:
  "\<exists>out. Evaluate example_detector scan_up = Inr out \<and> Evaluate example_detector scan_down = Inr out"
proof -
  obtain out where out: "Evaluate example_detector scan_up = Inr out" using example_normalize by (auto simp: Evaluate_def)
  have "Evaluate example_detector scan_down = Inr out"
    by (rule evaluate_order_independent [OF _ _ _ _ _ out]) (auto simp: example_input_def same_health_def)
  with out show ?thesis by blast
qed

theorem enforcement_support_consistent_witness:
  "\<exists>out e. Evaluate example_detector scan_up = Inr out \<and> e \<in> set (out_PathScan out) \<and> consistent example_detector e"
proof -
  obtain n where n: "normalizeInput scan_up (dt_config example_detector) = Inr n" using example_normalize by blast
  then obtain out where out: "Evaluate example_detector scan_up = Inr out" "out_PathScan out = evaluatePathScan example_detector n"
    by (simp add: Evaluate_def)
  have "cf_PathScanWindow (dt_config example_detector) = 60 * Second"
    using New_frozen [OF example_New] by (simp add: frozen_def)
  then obtain e where e: "e \<in> set (out_PathScan out)" using example_evaluated [OF n] unfolding out(2) by blast
  with enforcement_support_consistent [OF out(1), of e] out(1) show ?thesis by auto
qed

theorem signal_digest_binds_witness:
  "buildSignal example_detector RulePathScan ClassificationPathScan (''192.0.2.10'', ''shop'') 1 2 zero_metrics [''a'', ''b''] =
   buildSignal example_detector RulePathScan ClassificationPathScan (''192.0.2.10'', ''shop'') 1 2 zero_metrics [''b'', ''a'', ''a'']"
proof -
  have same: "sortedUniqueStrings [''a'', ''b''] = sortedUniqueStrings [''b'', ''a'', ''a'']" by code_simp
  show ?thesis
    using signal_digest_binds [of example_detector RulePathScan ClassificationPathScan "(''192.0.2.10'', ''shop'')" 1 2
        zero_metrics "[''a'', ''b'']" example_detector RulePathScan ClassificationPathScan "(''192.0.2.10'', ''shop'')" 1 2
        zero_metrics "[''b'', ''a'', ''a'']"]
    by (simp only: buildSignal_def same Let_def simp_thms signal.simps)
qed

end
