(* ===== verification/Correlation_Groups.thy ===== *)
theory Correlation_Groups
  imports Correlation Detection_Rules
begin

text \<open>
  \<open>Correlate\<close> computes connected components. Signals are related when they have the same source
  and their windows overlap or are at most five minutes apart; one pass over the sorted signals
  finds the components of this graph, and does not depend on the order of the input.
\<close>

section \<open>Valid signals\<close>

definition signal_ok :: "signal \<Rightarrow> bool" where
  "signal_ok s \<longleftrightarrow>
     re_matches uuidPattern (sg_SignalID s) \<and> validRuleClassification (sg_RuleID s) (sg_Classification s) \<and>
     re_matches versionPattern (sg_ConfigurationVersion s) \<and> re_matches digestPattern (sg_ConfigurationDigest s) \<and>
     canonical_ipv4 (sg_SourceIP s) \<and> re_matches labelPattern (sg_ServiceLabel s) \<and>
     sg_WindowStart s \<noteq> 0 \<and> sg_WindowEnd s \<noteq> 0 \<and> sg_WindowStart s \<le> sg_WindowEnd s \<and>
     1 \<le> mt_EventCount (sg_Metrics s) \<and> mt_EventCount (sg_Metrics s) \<le> 1000000 \<and>
     0 \<le> mt_DistinctAccountCount (sg_Metrics s) \<and> mt_DistinctAccountCount (sg_Metrics s) \<le> 1000000 \<and>
     0 \<le> mt_DistinctSuspiciousPathCount (sg_Metrics s) \<and> mt_DistinctSuspiciousPathCount (sg_Metrics s) \<le> 8 \<and>
     metricsReproduceRule (sg_RuleID s) (sg_Metrics s) \<and> sg_SourceHealthStatus s = SourceHealthStatusComplete \<and>
     int (length (sg_EvidenceIDs s)) = mt_EventCount (sg_Metrics s) \<and>
     list_all (re_matches uuidPattern) (sg_EvidenceIDs s) \<and> sorted_wrt (<) (sg_EvidenceIDs s) \<and>
     re_matches digestPattern (sg_EvidenceDigest s) \<and> re_matches digestPattern (sg_Digest s)"

lemma evidence_error_None:
  "evidence_error field p vs = None \<longleftrightarrow>
     list_all (re_matches uuidPattern) vs \<and> sorted_wrt (<) ((case p of None \<Rightarrow> [] | Some v \<Rightarrow> [v]) @ vs)"
proof (induction vs arbitrary: p)
  case (Cons v vs)
  show ?case by (cases p) (auto simp: Cons.IH not_le)
qed (simp split: option.split)

lemma validateSignal_None: "validateSignal s field = None \<longleftrightarrow> signal_ok s"
proof (cases "evidence_error field None (sg_EvidenceIDs s)")
  case None
  then have "list_all (re_matches uuidPattern) (sg_EvidenceIDs s) \<and> sorted_wrt (<) (sg_EvidenceIDs s)"
    using evidence_error_None [of field None "sg_EvidenceIDs s"] by simp
  then show ?thesis by (auto simp: validateSignal_def signal_ok_def Let_def None not_less)
next
  case (Some e)
  then have "\<not> (list_all (re_matches uuidPattern) (sg_EvidenceIDs s) \<and> sorted_wrt (<) (sg_EvidenceIDs s))"
    using evidence_error_None [of field None "sg_EvidenceIDs s"] by simp
  then show ?thesis by (auto simp: validateSignal_def signal_ok_def Let_def Some)
qed

lemma equalSignal_eq: "equalSignal l r \<longleftrightarrow> l = r"
  by (cases l; cases r) (auto simp: equalSignal_def list.rel_eq)

interpretation sin: keyed_input sg_SignalID signal_error equalSignal signal_conflict signal_order signal_ok
  by unfold_locales (simp_all add: equalSignal_eq signal_error_def validateSignal_None signal_order_def)

lemma normalizeSignals_ok: "(\<exists>r. normalizeSignals vs = Inr r) \<longleftrightarrow> list_all signal_ok vs \<and> inj_on sg_SignalID (set vs)"
  using sin.collect_all [of vs] by (auto simp: normalizeSignals_def bind_res_def split: sum.splits)

lemma normalizeSignals_result:
  assumes "normalizeSignals vs = Inr r"
  shows "set r = set vs \<and> distinct r \<and> sorted (map signal_order r) \<and> list_all signal_ok r \<and> inj_on sg_SignalID (set r)"
  using assms sin.collect_sorted [of vs]
  by (fastforce simp: normalizeSignals_def sortSignals_def bind_res_def split: sum.splits)

lemma normalizeSignals_distinct:
  assumes "list_all signal_ok vs" "inj_on sg_SignalID (set vs)" "distinct vs"
  shows "normalizeSignals vs = Inr (sortSignals vs)"
proof -
  obtain r where r: "collect sg_SignalID signal_error equalSignal signal_conflict 0 [] vs = Inr r"
    using sin.collect_all assms by blast
  then have "set r = set vs" "distinct r" using sin.collect_result [OF r] by auto
  then have "sort_key signal_order r = sort_key signal_order vs"
    using sin.sorted_result_unique [of r vs] assms by auto
  then show ?thesis by (simp add: normalizeSignals_def r sortSignals_def)
qed

section \<open>Related signals\<close>

definition related :: "signal \<Rightarrow> signal \<Rightarrow> bool" where
  "related a b \<longleftrightarrow> sg_SourceIP a = sg_SourceIP b \<and> temporalRelation a b \<noteq> None"

definition related_in :: "signal set \<Rightarrow> (signal \<times> signal) set" where
  "related_in S = {(a, b). a \<in> S \<and> b \<in> S \<and> related a b}"

definition connected :: "signal set \<Rightarrow> bool" where
  "connected S \<longleftrightarrow> S \<times> S \<subseteq> (related_in S)\<^sup>*"

lemma temporalRelation_iff:
  assumes "sg_WindowStart a \<le> sg_WindowEnd a" "sg_WindowStart b \<le> sg_WindowEnd b"
  shows "temporalRelation a b \<noteq> None \<longleftrightarrow>
    sg_WindowStart b \<le> sg_WindowEnd a + MaximumSignalGap \<and> sg_WindowStart a \<le> sg_WindowEnd b + MaximumSignalGap"
  using assms by (auto simp: temporalRelation_def windows_overlap_def Let_def MaximumSignalGap_def)

lemma signal_ok_window: "signal_ok s \<Longrightarrow> sg_WindowStart s \<le> sg_WindowEnd s"
  by (simp add: signal_ok_def)

lemma related_iff:
  "signal_ok a \<Longrightarrow> signal_ok b \<Longrightarrow> related a b \<longleftrightarrow> sg_SourceIP a = sg_SourceIP b \<and>
     sg_WindowStart b \<le> sg_WindowEnd a + MaximumSignalGap \<and> sg_WindowStart a \<le> sg_WindowEnd b + MaximumSignalGap"
  unfolding related_def by (simp only: temporalRelation_iff signal_ok_window)

lemma related_sym: "signal_ok a \<Longrightarrow> signal_ok b \<Longrightarrow> related a b \<longleftrightarrow> related b a"
  by (auto simp: related_iff)

lemma related_in_mono: "S \<subseteq> T \<Longrightarrow> (related_in S)\<^sup>* \<subseteq> (related_in T)\<^sup>*"
  by (rule rtrancl_mono) (auto simp: related_in_def)

lemma connected_insert:
  assumes "connected S" "c \<in> S" "related c s" "related s c"
  shows "connected (insert s S)"
proof -
  let ?T = "insert s S"
  have "(c, s) \<in> (related_in ?T)\<^sup>*" "(s, c) \<in> (related_in ?T)\<^sup>*" using assms by (auto simp: related_in_def)
  moreover have "(a, b) \<in> (related_in ?T)\<^sup>*" if "a \<in> S" "b \<in> S" for a b
    using that assms(1) related_in_mono [of S ?T] unfolding connected_def by blast
  ultimately show ?thesis unfolding connected_def using assms(2) by (blast intro: rtrancl_trans)
qed

text \<open>The pass over the sorted signals, without the snapshots.\<close>

fun sweep :: "signal list \<Rightarrow> gotime \<Rightarrow> signal list \<Rightarrow> signal list list" where
  "sweep c e [] = [c]"
| "sweep c e (s # rest) =
     (if sg_SourceIP s = sg_SourceIP (last c) \<and> \<not> e + MaximumSignalGap < sg_WindowStart s
      then sweep (c @ [s]) (if e < sg_WindowEnd s then sg_WindowEnd s else e) rest
      else c # sweep [s] (sg_WindowEnd s) rest)"

text \<open>What holds of the open component: one source, connected, and \<open>e\<close> the latest end.\<close>

definition open_component :: "signal list \<Rightarrow> gotime \<Rightarrow> bool" where
  "open_component c e \<longleftrightarrow> c \<noteq> [] \<and> (\<forall>a \<in> set c. sg_SourceIP a = sg_SourceIP (last c)) \<and> connected (set c) \<and>
     e \<in> sg_WindowEnd ` set c \<and> (\<forall>a \<in> set c. sg_WindowEnd a \<le> e)"

definition before :: "signal \<Rightarrow> signal \<Rightarrow> bool" where
  "before a b \<longleftrightarrow> (sg_SourceIP a, sg_WindowStart a) \<le> (sg_SourceIP b, sg_WindowStart b)"

lemma open_component_single: "open_component [s] (sg_WindowEnd s)"
  by (simp add: open_component_def connected_def)

lemma open_component_extend:
  assumes "open_component c e" "list_all signal_ok (c @ [s])" "\<forall>a \<in> set c. before a s"
    and "sg_SourceIP s = sg_SourceIP (last c)" "\<not> e + MaximumSignalGap < sg_WindowStart s"
  shows "open_component (c @ [s]) (if e < sg_WindowEnd s then sg_WindowEnd s else e)"
proof -
  have c: "c \<noteq> []" "\<And>a. a \<in> set c \<Longrightarrow> sg_SourceIP a = sg_SourceIP (last c)" "connected (set c)"
    "e \<in> sg_WindowEnd ` set c" "\<And>a. a \<in> set c \<Longrightarrow> sg_WindowEnd a \<le> e"
    using assms(1) unfolding open_component_def by blast+
  obtain a where a: "a \<in> set c" "sg_WindowEnd a = e" using c(4) by blast
  have src: "sg_SourceIP a = sg_SourceIP s" using c(2) [OF a(1)] assms(4) by simp
  then have st: "sg_WindowStart a \<le> sg_WindowStart s" using assms(3) a(1) by (force simp: before_def)
  have ok: "signal_ok a" "signal_ok s" using assms(2) a(1) by (auto simp: list_all_iff)
  have "related a s" "related s a"
    using st src a(2) assms(5) signal_ok_window [OF ok(1)] signal_ok_window [OF ok(2)]
    by (simp_all add: related_iff ok MaximumSignalGap_def)
  then have "connected (insert s (set c))" using connected_insert c(3) a(1) by blast
  moreover have "\<forall>a \<in> insert s (set c). sg_SourceIP a = sg_SourceIP s" using c(2) assms(4) by auto
  moreover have "\<forall>a \<in> insert s (set c). sg_WindowEnd a \<le> (if e < sg_WindowEnd s then sg_WindowEnd s else e)"
    using c(5) by force
  ultimately show ?thesis using c(4) unfolding open_component_def by simp
qed

lemma sweep_result:
  "open_component c e \<Longrightarrow> list_all signal_ok (c @ rest) \<Longrightarrow> sorted_wrt before (c @ rest) \<Longrightarrow>
     concat (sweep c e rest) = c @ rest \<and> (\<forall>b \<in> set (sweep c e rest). \<exists>e. open_component b e) \<and>
     sorted_wrt (\<lambda>b b'. \<forall>x \<in> set b. \<forall>y \<in> set b'. \<not> related x y) (sweep c e rest)"
proof (induction rest arbitrary: c e)
  case (Cons s rest)
  show ?case
  proof (cases "sg_SourceIP s = sg_SourceIP (last c) \<and> \<not> e + MaximumSignalGap < sg_WindowStart s")
    case True
    have "open_component (c @ [s]) (if e < sg_WindowEnd s then sg_WindowEnd s else e)"
      by (rule open_component_extend) (use Cons.prems True in \<open>auto simp: sorted_wrt_append list_all_iff\<close>)
    from Cons.IH [OF this] Cons.prems True show ?thesis by simp
  next
    case False
    have step: "sweep c e (s # rest) = c # sweep [s] (sg_WindowEnd s) rest" using False by auto
    have pre: "list_all signal_ok ([s] @ rest)" "sorted_wrt before ([s] @ rest)"
      using Cons.prems(2,3) by (simp_all add: sorted_wrt_append)
    note IH = Cons.IH [OF open_component_single pre, unfolded append_Cons append_Nil]
    have far: "\<not> related x y" if "x \<in> set c" "y \<in> set (s # rest)" for x y
    proof
      assume r: "related x y"
      have ok: "signal_ok x" "signal_ok y" using Cons.prems(2) that by (auto simp: list_all_iff)
      have xs: "sg_SourceIP x = sg_SourceIP (last c)" "sg_WindowEnd x \<le> e"
        using Cons.prems(1) that(1) unfolding open_component_def by blast+
      have "before x s" "y = s \<or> before s y" using Cons.prems(3) that by (auto simp: sorted_wrt_append)
      moreover have "sg_SourceIP y = sg_SourceIP x" using r by (simp add: related_def)
      ultimately have "sg_SourceIP s = sg_SourceIP x" "sg_WindowStart s \<le> sg_WindowStart y"
        unfolding before_def less_eq_prod_simp by (metis order.asym order.order_iff_strict)+
      with r xs False show False by (simp add: related_iff [OF ok])
    qed
    moreover have "set b \<subseteq> set (s # rest)" if "b \<in> set (sweep [s] (sg_WindowEnd s) rest)" for b
      using IH [THEN conjunct1, THEN arg_cong [where f = set]] that unfolding set_concat by blast
    ultimately have "\<forall>b \<in> set (sweep [s] (sg_WindowEnd s) rest). \<forall>x \<in> set c. \<forall>y \<in> set b. \<not> related x y" by blast
    with IH Cons.prems(1) show ?thesis unfolding step by (auto simp del: sweep.simps)
  qed
qed auto

section \<open>Snapshots of a component\<close>

definition component_ok :: "signal list \<Rightarrow> bool" where
  "component_ok ss \<longleftrightarrow> ss \<noteq> [] \<and> list_all signal_ok ss \<and> inj_on sg_SignalID (set ss) \<and> distinct ss \<and>
     (\<exists>ip. \<forall>s \<in> set ss. sg_SourceIP s = ip)"

definition snapshot_of :: "signal list \<Rightarrow> evidence_snapshot" where
  "snapshot_of vs =
     (let ip = sg_SourceIP (hd vs); ws = Min (sg_WindowStart ` set vs); we = Max (sg_WindowEnd ` set vs);
          labels = sorted_list_of_set (sg_ServiceLabel ` set vs); ids = sorted_list_of_set (sg_SignalID ` set vs);
          events = sorted_list_of_set (\<Union>(set ` sg_EvidenceIDs ` set vs)); refs = sort_key sr_SignalID (map signal_ref_of vs);
          canonical = marshalSnapshotJCS ip ws we labels ids events refs
      in \<lparr>es_schemaVersion = EvidenceSnapshotVersion, es_sourceIP = ip, es_windowStart = ws, es_windowEnd = we,
          es_sourceHealthStatus = SourceHealthStatusComplete, es_serviceLabels = labels, es_signalIDs = ids,
          es_evidenceEventIDs = events, es_signalRefs = refs, es_canonicalBytes = canonical,
          es_digest = sha256Digest canonical\<rparr>)"

definition group_of :: "signal list \<Rightarrow> correlation_group" where
  "group_of ss =
     (let values = sortSignals ss; snapshot = snapshot_of values in
      \<lparr>gr_SourceIP = es_sourceIP snapshot, gr_WindowStart = es_windowStart snapshot, gr_WindowEnd = es_windowEnd snapshot,
       gr_Snapshot = snapshot, gr_signals = values, gr_relations = buildRelations values\<rparr>)"

lemma sortedUnique_eq: "sortedUnique vs = sorted_list_of_set (set vs)"
  using sortedUniqueStrings_eq [of vs] by (simp add: sortedUnique_def sortedUniqueStrings_def)

lemma set_sortSignals [simp]: "set (sortSignals ss) = set ss"
  by (simp add: sortSignals_def)

lemma snapshot_window_same:
  "\<forall>s \<in> set ss. sg_SourceIP s = ip \<Longrightarrow> snapshot_window ip ws we ss =
     Some (Min (insert ws (sg_WindowStart ` set ss)), Max (insert we (sg_WindowEnd ` set ss)))"
proof (induction ss arbitrary: ws we)
  case (Cons s ss)
  have "Min (insert (if a < w then a else w) A) = Min (insert w (insert a A))"
    "Max (insert (if w < a then a else w) A) = Max (insert w (insert a A))" if "finite A" for a w :: gotime and A
    using that by (cases "A = {}"; auto simp: min_def max_def)+
  then show ?case using Cons by simp
qed simp

lemma buildEvidenceSnapshot_ok:
  assumes "component_ok ss"
  shows "buildEvidenceSnapshot ss = Inr (snapshot_of (sortSignals ss))"
proof -
  let ?v = "sortSignals ss"
  have n: "normalizeSignals ss = Inr ?v" using assms normalizeSignals_distinct by (auto simp: component_ok_def)
  have ne: "?v \<noteq> []" using assms by (metis component_ok_def set_empty set_sortSignals)
  then have hd: "hd ?v \<in> set ?v" by (rule hd_in_set)
  then have src: "\<forall>s \<in> set ?v. sg_SourceIP s = sg_SourceIP (hd ?v)" using assms unfolding component_ok_def by auto
  have "snapshot_window (sg_SourceIP (hd ?v)) (sg_WindowStart (hd ?v)) (sg_WindowEnd (hd ?v)) ?v =
      Some (Min (sg_WindowStart ` set ?v), Max (sg_WindowEnd ` set ?v))"
    using snapshot_window_same [OF src] hd by (simp add: insert_absorb)
  moreover have "set (concat (map sg_EvidenceIDs ?v)) = \<Union>(set ` sg_EvidenceIDs ` set ?v)" by simp
  ultimately show ?thesis using assms
    by (simp add: buildEvidenceSnapshot_def n component_ok_def snapshot_of_def Let_def sortedUnique_eq)
qed

lemma buildGroup_ok: "component_ok ss \<Longrightarrow> buildGroup ss = Inr (group_of ss)"
  by (simp add: buildGroup_def buildEvidenceSnapshot_ok group_of_def Let_def)

lemma correlate_loop_sweep:
  "\<forall>b \<in> set (sweep c e rest). component_ok b \<Longrightarrow>
     correlate_loop c e groups rest = Inr (groups @ map group_of (sweep c e rest))"
  by (induction c e rest arbitrary: groups rule: sweep.induct) (auto simp: buildGroup_ok split: if_splits)

definition components :: "signal list \<Rightarrow> signal list list" where
  "components values = (case values of [] \<Rightarrow> [] | v # vs \<Rightarrow> sweep [v] (sg_WindowEnd v) vs)"

lemma before_order: "signal_order a \<le> signal_order b \<Longrightarrow> before a b"
  by (auto simp: signal_order_def before_def)

lemma components_result:
  assumes "list_all signal_ok values" "sorted (map signal_order values)"
  shows "concat (components values) = values \<and> (\<forall>b \<in> set (components values). \<exists>e. open_component b e) \<and>
     sorted_wrt (\<lambda>b b'. \<forall>x \<in> set b. \<forall>y \<in> set b'. \<not> related x y) (components values)"
proof (cases "values")
  case (Cons v vs)
  have "sorted_wrt (\<lambda>a b. signal_order a \<le> signal_order b) ([v] @ vs)" using assms(2) Cons by (simp add: sorted_map)
  then have "sorted_wrt before ([v] @ vs)" by (rule sorted_wrt_mono_rel [rotated]) (rule before_order)
  from sweep_result [OF open_component_single _ this] assms(1) Cons show ?thesis by (simp add: components_def)
qed (simp add: components_def)

lemma components_ok:
  assumes "list_all signal_ok values" "sorted (map signal_order values)" "inj_on sg_SignalID (set values)" "distinct values"
    and "b \<in> set (components values)"
  shows "component_ok b"
proof -
  note cr = components_result [OF assms(1,2)]
  have "set b \<subseteq> set values" using cr [THEN conjunct1, THEN arg_cong [where f = set]] assms(5) unfolding set_concat by blast
  moreover have "distinct b" using cr assms(4,5) by (metis distinct_concat_iff)
  moreover obtain e where "open_component b e" using cr assms(5) by blast
  then have "b \<noteq> []" "\<forall>s \<in> set b. sg_SourceIP s = sg_SourceIP (last b)" unfolding open_component_def by blast+
  ultimately show ?thesis using assms(1,3) unfolding component_ok_def list_all_iff
    by (meson inj_on_subset subsetD)
qed

lemma Correlate_eq:
  assumes "normalizeSignals signals = Inr values"
  shows "Correlate signals = Inr (sort_key group_order (map group_of (components values)))"
proof (cases "values")
  case (Cons v vs)
  have "\<forall>b \<in> set (components values). component_ok b"
    using normalizeSignals_result [OF assms] components_ok by blast
  then show ?thesis using assms Cons by (simp add: Correlate_def correlate_loop_sweep components_def)
qed (use assms in \<open>simp add: Correlate_def components_def\<close>)

lemma group_of_signals [simp]: "gr_signals (group_of b) = sortSignals b"
  by (simp add: group_of_def Let_def)

lemma Correlate_Inr:
  assumes "Correlate signals = Inr groups"
  obtains "values" where "normalizeSignals signals = Inr values" "groups = sort_key group_order (map group_of (components values))"
  using assms Correlate_eq by (auto simp: Correlate_def bind_res_Inr_iff)

lemma distinct_concat_sort: "distinct (concat (map f (sort_key k xs))) \<longleftrightarrow> distinct (concat (map f xs))"
proof -
  have "mset (concat (map f ys)) = sum_mset (image_mset (\<lambda>x. mset (f x)) (mset ys))" for ys by (induction ys) simp_all
  then have "mset (concat (map f (sort_key k xs))) = mset (concat (map f xs))" by simp
  then show ?thesis by (rule mset_eq_imp_distinct_iff)
qed

lemma distinct_concat_sortSignals: "distinct (concat (map sortSignals bs)) \<longleftrightarrow> distinct (concat bs)"
proof -
  have "mset (concat (map sortSignals bs)) = mset (concat bs)" by (induction bs) (simp_all add: sortSignals_def)
  then show ?thesis by (rule mset_eq_imp_distinct_iff)
qed

text \<open>A partition into connected parts with no edge between parts is the set of components.\<close>

lemma closed_reach:
  assumes "(a, b) \<in> (related_in S)\<^sup>*" "a \<in> B" "\<And>x y. x \<in> B \<Longrightarrow> y \<in> S \<Longrightarrow> related x y \<Longrightarrow> y \<in> B"
  shows "b \<in> B"
  using assms(1,2) by (induction rule: rtrancl_induct) (auto simp: related_in_def intro: assms(3))

lemma component_closed:
  assumes "list_all signal_ok values" "sorted (map signal_order values)"
    and "b \<in> set (components values)" "x \<in> set b" "y \<in> set values" "related x y"
  shows "y \<in> set b"
proof -
  note cr = components_result [OF assms(1,2)]
  have sub: "set b' \<subseteq> set values" if "b' \<in> set (components values)" for b'
    using cr [THEN conjunct1, THEN arg_cong [where f = set]] that unfolding set_concat by blast
  obtain b' where b': "b' \<in> set (components values)" "y \<in> set b'"
    using cr [THEN conjunct1, THEN arg_cong [where f = set]] assms(5) unfolding set_concat by blast
  have "signal_ok x" "signal_ok y" using sub assms(1,3-5) unfolding list_all_iff by blast+
  then have r: "related y x" using assms(6) related_sym by blast
  obtain i j where ij: "i < length (components values)" "components values ! i = b"
    "j < length (components values)" "components values ! j = b'"
    using assms(3) b'(1) unfolding in_set_conv_nth by blast
  have sep: "\<not> related x y" if "i < j" "j < length (components values)"
      "x \<in> set (components values ! i)" "y \<in> set (components values ! j)" for i j x y
    using cr that unfolding sorted_wrt_iff_nth_less by blast
  consider "i = j" | "i < j" | "j < i" by linarith
  then show ?thesis
    using sep [of i j x y] sep [of j i y x] ij assms(4,6) b'(2) r by cases auto
qed

text \<open>Relations do not depend on the order in which the loop meets the two signals.\<close>

lemma temporalRelation_sym: "signal_ok a \<Longrightarrow> signal_ok b \<Longrightarrow> temporalRelation a b = temporalRelation b a"
  by (drule signal_ok_window)+ (auto simp: temporalRelation_def windows_overlap_def Let_def)

lemma makeRelation_sym: "sg_SignalID a \<noteq> sg_SignalID b \<Longrightarrow> makeRelation a b t = makeRelation b a t"
  by (cases "sg_SignalID a < sg_SignalID b") (simp_all add: makeRelation_def Let_def not_less order.asym eq_commute)

lemma relate_sym:
  "signal_ok a \<Longrightarrow> signal_ok b \<Longrightarrow> sg_SignalID a \<noteq> sg_SignalID b \<Longrightarrow> relate a b = relate b a"
  unfolding relate_def temporalRelation_sym [of a b] makeRelation_sym [of a b] by auto

lemma relation_pairs_iff:
  "list_all signal_ok ss \<Longrightarrow> inj_on sg_SignalID (set ss) \<Longrightarrow> distinct ss \<Longrightarrow>
     r \<in> set (relation_pairs ss) \<longleftrightarrow>
       (\<exists>a \<in> set ss. \<exists>b \<in> set ss. sg_SignalID a < sg_SignalID b \<and> r \<in> set (relate a b))"
proof (induction ss)
  case (Cons l rest)
  have ne: "sg_SignalID l \<noteq> sg_SignalID b" if "b \<in> set rest" for b
    using Cons.prems(2,3) that by (auto simp: inj_on_def)
  have sym: "relate l b = relate b l" if "b \<in> set rest" for b
    using relate_sym [OF _ _ ne [OF that]] Cons.prems(1) that by (auto simp: list_all_iff)
  have "(\<exists>b \<in> set rest. r \<in> set (relate l b)) \<longleftrightarrow>
      (\<exists>b \<in> set rest. sg_SignalID l < sg_SignalID b \<and> r \<in> set (relate l b)) \<or>
      (\<exists>b \<in> set rest. sg_SignalID b < sg_SignalID l \<and> r \<in> set (relate b l))"
    using ne sym by (metis linorder_less_linear)
  with Cons show ?case by (auto simp: inj_on_insert)
qed simp

section \<open>Properties\<close>

text \<open>
  C5: \<open>Correlate\<close> returns the connected components: the groups partition the submitted signals, and
  two signals are in one group exactly when a chain of submitted signals joins them in which
  neighbours have the same source and windows at most five minutes apart. Service, rule, account
  and path never join or separate signals.
\<close>

theorem correlate_components:
  assumes "Correlate signals = Inr groups"
  shows "\<Union>(set ` gr_signals ` set groups) = set signals \<and> distinct (concat (map gr_signals groups)) \<and>
    (\<forall>a \<in> set signals. \<forall>b \<in> set signals.
       (\<exists>g \<in> set groups. a \<in> set (gr_signals g) \<and> b \<in> set (gr_signals g)) \<longleftrightarrow> (a, b) \<in> (related_in (set signals))\<^sup>*)"
proof -
  obtain vs where vs: "normalizeSignals signals = Inr vs" and g: "groups = sort_key group_order (map group_of (components vs))"
    using Correlate_Inr [OF assms] by metis
  note nr = normalizeSignals_result [OF vs]
  then have ok: "list_all signal_ok vs" "sorted (map signal_order vs)" by blast+
  note cr = components_result [OF ok]
  have sets: "set ` gr_signals ` set groups = set ` set (components vs)" unfolding g by (simp add: image_image)
  have all: "\<Union>(set ` set (components vs)) = set signals"
    using cr nr by (metis set_concat)
  have "distinct (concat (map gr_signals groups))"
    using nr cr by (simp add: g distinct_concat_sort map_map comp_def distinct_concat_sortSignals [unfolded sortSignals_def] sortSignals_def)
  moreover have "(\<exists>g \<in> set groups. a \<in> set (gr_signals g) \<and> b \<in> set (gr_signals g)) \<longleftrightarrow> (a, b) \<in> (related_in (set signals))\<^sup>*"
    if "a \<in> set signals" "b \<in> set signals" for a b
  proof -
    have "(\<exists>g \<in> set groups. a \<in> set (gr_signals g) \<and> b \<in> set (gr_signals g)) \<longleftrightarrow>
        (\<exists>c \<in> set (components vs). a \<in> set c \<and> b \<in> set c)" by (simp add: g)
    also have "\<dots> \<longleftrightarrow> (a, b) \<in> (related_in (set signals))\<^sup>*"
    proof
      assume "\<exists>c \<in> set (components vs). a \<in> set c \<and> b \<in> set c"
      then obtain c where c: "c \<in> set (components vs)" "a \<in> set c" "b \<in> set c" by blast
      then obtain e where "open_component c e" using cr by blast
      then have "(a, b) \<in> (related_in (set c))\<^sup>*" using c unfolding open_component_def connected_def by blast
      moreover have "set c \<subseteq> set signals" using all c(1) by blast
      note related_in_mono [OF this]
      ultimately show "(a, b) \<in> (related_in (set signals))\<^sup>*" by (rule rev_subsetD)
    next
      assume r: "(a, b) \<in> (related_in (set signals))\<^sup>*"
      have "a \<in> \<Union>(set ` set (components vs))" unfolding all by (rule that(1))
      then obtain c where c: "c \<in> set (components vs)" "a \<in> set c" by blast
      have "set vs = set signals" using nr by (rule conjunct1)
      then have "y \<in> set c" if "x \<in> set c" "y \<in> set signals" "related x y" for x y
        using component_closed [OF ok c(1) that(1) _ that(3)] that(2) by simp
      then have "b \<in> set c" by (rule closed_reach [OF r c(2)])
      with c show "\<exists>c \<in> set (components vs). a \<in> set c \<and> b \<in> set c" by blast
    qed
    finally show ?thesis .
  qed
  ultimately show ?thesis using sets all by simp
qed

text \<open>
  C36: \<open>Correlate\<close> succeeds exactly when every signal is valid and no two different signals share an
  identifier. No later step of grouping or of building snapshots can fail.
\<close>

theorem correlate_accepts_exactly:
  "(\<exists>groups. Correlate signals = Inr groups) \<longleftrightarrow> list_all signal_ok signals \<and> inj_on sg_SignalID (set signals)"
  unfolding normalizeSignals_ok [symmetric] using Correlate_eq Correlate_Inr by metis

text \<open>
  C37: The groups, their snapshots and their digests depend only on the set of submitted signals:
  replaying signals or delivering them in another order changes nothing.
\<close>

theorem correlate_order_independent:
  assumes "set signals = set others" and "Correlate signals = Inr groups"
  shows "Correlate others = Inr groups"
proof -
  obtain vs where vs: "normalizeSignals signals = Inr vs" and g: "groups = sort_key group_order (map group_of (components vs))"
    using Correlate_Inr [OF assms(2)] by metis
  then obtain r where "collect sg_SignalID signal_error equalSignal signal_conflict 0 [] signals = Inr r" "vs = sortSignals r"
    by (auto simp: normalizeSignals_def bind_res_Inr_iff)
  with sin.collect_set_only [OF assms(1)] have "normalizeSignals others = Inr vs"
    by (fastforce simp: normalizeSignals_def sortSignals_def)
  from Correlate_eq [OF this] show ?thesis by (simp add: g)
qed

text \<open>
  The relations recorded for a group are exactly its pairs of directly related signals, each
  pair once under its identifiers in ascending order.
\<close>

theorem relations_exactly:
  assumes "Correlate signals = Inr groups" and "g \<in> set groups"
  shows "r \<in> set (gr_relations g) \<longleftrightarrow>
    (\<exists>a \<in> set (gr_signals g). \<exists>b \<in> set (gr_signals g). sg_SignalID a < sg_SignalID b \<and> related a b \<and>
       r = makeRelation a b (the (temporalRelation a b)))"
proof -
  obtain vs where vs: "normalizeSignals signals = Inr vs" and g: "groups = sort_key group_order (map group_of (components vs))"
    using Correlate_Inr [OF assms(1)] by metis
  obtain c where c: "c \<in> set (components vs)" "g = group_of c" using assms(2) by (auto simp: g)
  have "component_ok c" using normalizeSignals_result [OF vs] components_ok c(1) by blast
  then have ok: "list_all signal_ok (sortSignals c)" "inj_on sg_SignalID (set (sortSignals c))" "distinct (sortSignals c)"
    by (auto simp: component_ok_def sortSignals_def list_all_iff)
  have rel: "r \<in> set (relate a b) \<longleftrightarrow> related a b \<and> r = makeRelation a b (the (temporalRelation a b))" for a b
    by (cases "temporalRelation a b") (auto simp: relate_def related_def)
  have "r \<in> set (gr_relations g) \<longleftrightarrow> r \<in> set (relation_pairs (sortSignals c))"
    by (simp add: c(2) group_of_def Let_def buildRelations_def sortRelations_def)
  then show ?thesis unfolding relation_pairs_iff [OF ok] rel c(2) group_of_signals .
qed

section \<open>A chain of signals\<close>

text \<open>Login failures of one source: three windows, four minutes apart, so the ends are not directly related.\<close>

definition base_signal :: signal where
  "base_signal = \<lparr>sg_SignalID = ''00000000-0000-8000-8000-000000000000'',
     sg_RuleID = RuleLoginBruteForce, sg_Classification = ClassificationLoginBruteForce,
     sg_ConfigurationVersion = ''detectors-v1'', sg_ConfigurationDigest = ''sha256:'' @ replicate 64 CHR ''0'',
     sg_SourceIP = ''192.0.2.10'', sg_ServiceLabel = ''shop'', sg_WindowStart = 1000 * Minute, sg_WindowEnd = 1000 * Minute,
     sg_Metrics = zero_metrics\<lparr>mt_EventCount := 10\<rparr>,
     sg_EvidenceIDs = map (\<lambda>i. ''00000000-0000-8000-8000-00000000000'' @ nat_str i) [0, 1, 2, 3, 4, 5, 6, 7, 8, 9],
     sg_EvidenceDigest = ''sha256:'' @ replicate 64 CHR ''1'', sg_Digest = ''sha256:'' @ replicate 64 CHR ''2'',
     sg_SourceHealthStatus = SourceHealthStatusComplete\<rparr>"

definition example_signal :: "nat \<Rightarrow> signal" where
  "example_signal k = base_signal\<lparr>sg_SignalID := ''00000000-0000-8000-8000-00000000000'' @ nat_str k,
     sg_WindowStart := (1000 + 4 * int k) * Minute, sg_WindowEnd := (1000 + 4 * int k) * Minute\<rparr>"

lemma base_signal_ok: "signal_ok base_signal"
  unfolding validateSignal_None [of _ "[]", symmetric] by code_simp

lemma example_signals_ok: "signal_ok (example_signal 0)" "signal_ok (example_signal 1)" "signal_ok (example_signal 2)"
proof -
  have "re_matches uuidPattern (''00000000-0000-8000-8000-00000000000'' @ nat_str 0)"
    "re_matches uuidPattern (''00000000-0000-8000-8000-00000000000'' @ nat_str 1)"
    "re_matches uuidPattern (''00000000-0000-8000-8000-00000000000'' @ nat_str 2)" by code_simp+
  then show "signal_ok (example_signal 0)" "signal_ok (example_signal 1)" "signal_ok (example_signal 2)"
    using base_signal_ok by (simp_all add: signal_ok_def example_signal_def)
qed

lemma example_signals_inj: "inj_on sg_SignalID (set [example_signal 2, example_signal 0, example_signal 1])"
proof -
  have "sg_SignalID (example_signal j) = sg_SignalID (example_signal k) \<longleftrightarrow> j = k" for j k
    by (simp add: example_signal_def nat_str_inj)
  then show ?thesis by (auto simp: inj_on_def)
qed

lemma example_related: "related (example_signal 0) (example_signal 1)" "related (example_signal 1) (example_signal 2)"
    "\<not> related (example_signal 0) (example_signal 2)"
  unfolding related_def by code_simp+

lemma example_groups: "\<exists>groups. Correlate [example_signal 2, example_signal 0, example_signal 1] = Inr groups"
proof -
  have "\<exists>r. normalizeSignals [example_signal 2, example_signal 0, example_signal 1] = Inr r"
    unfolding normalizeSignals_ok using example_signals_ok example_signals_inj by simp
  then show ?thesis using Correlate_eq by blast
qed

theorem correlate_components_witness:
  "\<exists>groups g. Correlate [example_signal 2, example_signal 0, example_signal 1] = Inr groups \<and> g \<in> set groups \<and>
     example_signal 0 \<in> set (gr_signals g) \<and> example_signal 2 \<in> set (gr_signals g) \<and>
     \<not> related (example_signal 0) (example_signal 2)"
proof -
  let ?s = "[example_signal 2, example_signal 0, example_signal 1]"
  obtain groups where g: "Correlate ?s = Inr groups" using example_groups by blast
  have "(example_signal 0, example_signal 1) \<in> related_in (set ?s)" "(example_signal 1, example_signal 2) \<in> related_in (set ?s)"
    using example_related by (auto simp: related_in_def)
  then have r: "(example_signal 0, example_signal 2) \<in> (related_in (set ?s))\<^sup>*" by (meson rtrancl.simps)
  have "\<forall>a \<in> set ?s. \<forall>b \<in> set ?s. (\<exists>g \<in> set groups. a \<in> set (gr_signals g) \<and> b \<in> set (gr_signals g)) \<longleftrightarrow>
      (a, b) \<in> (related_in (set ?s))\<^sup>*"
    using correlate_components [OF g] by (elim conjE)
  then have "\<exists>g \<in> set groups. example_signal 0 \<in> set (gr_signals g) \<and> example_signal 2 \<in> set (gr_signals g)"
    using r by simp
  with g example_related(3) show ?thesis by blast
qed

theorem correlate_order_independent_witness:
  "\<exists>groups. Correlate [example_signal 2, example_signal 0, example_signal 1] = Inr groups \<and>
     Correlate [example_signal 0, example_signal 1, example_signal 0, example_signal 2] = Inr groups"
proof -
  obtain groups where g: "Correlate [example_signal 2, example_signal 0, example_signal 1] = Inr groups"
    using example_groups by blast
  have "set [example_signal 2, example_signal 0, example_signal 1] =
      set [example_signal 0, example_signal 1, example_signal 0, example_signal 2]" by auto
  from correlate_order_independent [OF this g] g show ?thesis by blast
qed

theorem relations_exactly_witness:
  "\<exists>groups g. Correlate [example_signal 0] = Inr groups \<and> g \<in> set groups \<and> gr_relations g = []"
proof -
  have n: "normalizeSignals [example_signal 0] = Inr [example_signal 0]"
    using normalizeSignals_distinct [of "[example_signal 0]"] example_signals_ok(1) by (simp add: sortSignals_def)
  define g where "g = group_of [example_signal 0]"
  have c: "Correlate [example_signal 0] = Inr [g]" using Correlate_eq [OF n] by (simp add: components_def g_def)
  have "set (gr_signals g) = {example_signal 0}" by (simp add: g_def)
  then have "r \<notin> set (gr_relations g)" for r using relations_exactly [OF c, of g r] by simp
  then have "gr_relations g = []" by (cases "gr_relations g") auto
  with c show ?thesis by auto
qed

end
