(* ===== verification/Correlation_Snapshot.thy ===== *)
theory Correlation_Snapshot
  imports Correlation_Groups
begin

text \<open>
  The canonical bytes of an evidence snapshot are the print of a JSON document, and the document
  determines the snapshot. So the digest of a snapshot is bound to its contents.
\<close>

section \<open>The document of a snapshot\<close>

lemma json_print_inj: "wf_json a \<Longrightarrow> wf_json b \<Longrightarrow> json_print a = json_print b \<Longrightarrow> a = b"
  by (metis option.inject parse_doc_print)

lemma array_items_commas: "array_items i vs = (if 0 < i \<and> vs \<noteq> [] then '','' else []) @ commas vs"
proof (induction i vs rule: array_items.induct)
  case (2 i v vs)
  then show ?case by (cases vs) auto
qed simp

definition ref_doc :: "signal_ref \<Rightarrow> json" where
  "ref_doc r = JObj
     [(''classification'', JStr (sr_Classification r)), (''configuration_digest'', JStr (sr_ConfigurationDigest r)),
      (''configuration_version'', JStr (sr_ConfigurationVersion r)),
      (''distinct_account_count'', JNum (int_str (sr_DistinctAccountCount r))),
      (''distinct_suspicious_path_count'', JNum (int_str (sr_DistinctSuspiciousPathCount r))),
      (''event_count'', JNum (int_str (sr_EventCount r))), (''evidence_digest'', JStr (sr_EvidenceDigest r)),
      (''rule_id'', JStr (sr_RuleID r)), (''signal_digest'', JStr (sr_SignalDigest r)),
      (''signal_id'', JStr (sr_SignalID r)), (''window_end'', JStr (format_rfc3339 (sr_WindowEnd r))),
      (''window_start'', JStr (format_rfc3339 (sr_WindowStart r)))]"

definition snapshot_doc ::
    "string \<Rightarrow> gotime \<Rightarrow> gotime \<Rightarrow> string list \<Rightarrow> string list \<Rightarrow> string list \<Rightarrow> signal_ref list \<Rightarrow> json" where
  "snapshot_doc ip ws we labels ids events refs = JObj
     [(''evidence_event_ids'', JArr (map JStr events)), (''schema_version'', JStr EvidenceSnapshotVersion),
      (''service_labels'', JArr (map JStr labels)), (''signal_ids'', JArr (map JStr ids)),
      (''signal_refs'', JArr (map ref_doc refs)), (''source_health_status'', JStr SourceHealthStatusComplete),
      (''source_ip'', JStr ip), (''window_end'', JStr (format_rfc3339 we)), (''window_start'', JStr (format_rfc3339 ws))]"

lemma writeSignalRef_print: "writeSignalRefJCS r = json_print (ref_doc r)"
  by (simp add: writeSignalRefJCS_def ref_doc_def writeJSONKey_def)

lemma writeStringArray_print: "writeStringArray vs = json_print (JArr (map JStr vs))"
  by (simp add: writeStringArray_def array_items_commas comp_def)

lemma marshalSnapshot_print:
  "marshalSnapshotJCS ip ws we labels ids events refs = json_print (snapshot_doc ip ws we labels ids events refs)"
proof -
  have "map writeSignalRefJCS refs = map (\<lambda>r. json_print (ref_doc r)) refs" by (simp add: writeSignalRef_print)
  show ?thesis unfolding marshalSnapshotJCS_def \<open>map writeSignalRefJCS refs = _\<close>
    by (simp add: snapshot_doc_def writeStringArray_print writeJSONKey_def array_items_commas comp_def)
qed

section \<open>The document determines the snapshot\<close>

lemma ref_doc_inj: "ref_doc q = ref_doc r \<longleftrightarrow> q = r"
proof
  assume eq: "ref_doc q = ref_doc r"
  then have "sr_WindowStart q = sr_WindowStart r" "sr_WindowEnd q = sr_WindowEnd r"
    by (auto simp: ref_doc_def dest: format_rfc3339_inj)
  with eq show "q = r" by (intro signal_ref.equality) (simp_all add: ref_doc_def int_str_inj)
qed simp

lemma label_valid:
  "re_matches labelPattern s \<Longrightarrow> utf8_valid s" "re_matches versionPattern s \<Longrightarrow> utf8_valid s"
proof -
  have c: "html_safe CHR ''_''" "html_safe CHR ''-''" "html_safe CHR ''.''" by code_simp+
  show "re_matches labelPattern s \<Longrightarrow> utf8_valid s"
    by (rule utf8_valid_safe, erule re_matches_list_all)
      (auto simp: labelPattern_def is_label_char_def html_safe_classes c)
  show "re_matches versionPattern s \<Longrightarrow> utf8_valid s"
    by (rule utf8_valid_safe, erule re_matches_list_all)
      (auto simp: versionPattern_def is_label_char_def html_safe_classes c)
qed

lemma rule_valid:
  assumes "validRuleClassification rule cl"
  shows "utf8_valid rule \<and> utf8_valid cl"
proof -
  have "utf8_valid RulePathScan" "utf8_valid RuleRequestBurst" "utf8_valid RuleLoginBruteForce"
    "utf8_valid RuleCredentialStuffing" "utf8_valid ClassificationPathScan" "utf8_valid ClassificationRequestBurst"
    "utf8_valid ClassificationLoginBruteForce" "utf8_valid ClassificationCredentialStuffing" by code_simp+
  with assms show ?thesis by (auto simp: validRuleClassification_def split: if_splits)
qed

lemma ref_of_wf:
  assumes "signal_ok s"
  shows "wf_json (ref_doc (signal_ref_of s))"
proof -
  have keys: "list_all (\<lambda>m. utf8_valid (fst m)) (case ref_doc r of JObj ms \<Rightarrow> ms)" for r
    unfolding ref_doc_def by (simp; intro conjI; code_simp)
  have n: "\<exists>n. int_str i = nat_str n" if "0 \<le> i" for i using that by (auto simp: int_str_def)
  have "list_all (\<lambda>m. wf_json (snd m)) (case ref_doc (signal_ref_of s) of JObj ms \<Rightarrow> ms)"
    using assms rule_valid n by (auto simp: ref_doc_def signal_ref_of_def signal_ok_def contract_valid label_valid)
  with keys [of "signal_ref_of s"] show ?thesis by (simp add: ref_doc_def list_all_iff)
qed

lemma snapshot_window_source: "snapshot_window ip ws we ss = Some r \<Longrightarrow> s \<in> set ss \<Longrightarrow> sg_SourceIP s = ip"
  by (induction ip ws we ss rule: snapshot_window.induct) (auto split: if_splits)

lemma buildEvidenceSnapshot_Inr:
  assumes "buildEvidenceSnapshot xs = Inr a"
  obtains vs where "normalizeSignals xs = Inr vs" "vs \<noteq> []" "\<forall>s \<in> set vs. sg_SourceIP s = sg_SourceIP (hd vs)" "a = snapshot_of vs"
proof -
  obtain vs where vs: "normalizeSignals xs = Inr vs" and ne: "xs \<noteq> []"
    using assms by (auto simp: buildEvidenceSnapshot_def bind_res_Inr_iff split: if_splits)
  have nr: "set vs = set xs" "distinct vs" "sorted (map signal_order vs)" "list_all signal_ok vs" "inj_on sg_SignalID (set vs)"
    using normalizeSignals_result [OF vs] by blast+
  then have ne': "vs \<noteq> []" using ne by auto
  have src: "\<forall>s \<in> set vs. sg_SourceIP s = sg_SourceIP (hd vs)"
    using assms snapshot_window_source
    by (fastforce simp: buildEvidenceSnapshot_def bind_res_Inr_iff vs Let_def split: if_splits option.splits)
  have "sortSignals vs = vs" using nr(3) by (simp add: sortSignals_def sorted_sort_id sort_key_id_if_sorted)
  moreover have "component_ok vs" using nr ne' src by (auto simp: component_ok_def)
  ultimately have "buildEvidenceSnapshot vs = Inr (snapshot_of vs)" "normalizeSignals vs = Inr vs"
    using buildEvidenceSnapshot_ok normalizeSignals_distinct [OF nr(4,5,2)] by metis+
  with assms vs ne ne' have "a = snapshot_of vs" by (simp add: buildEvidenceSnapshot_def)
  with that vs ne' src show ?thesis by blast
qed

definition doc_of :: "evidence_snapshot \<Rightarrow> json" where
  "doc_of a = snapshot_doc (es_sourceIP a) (es_windowStart a) (es_windowEnd a) (es_serviceLabels a) (es_signalIDs a)
     (es_evidenceEventIDs a) (es_signalRefs a)"

lemma snapshot_of_bytes:
  "es_canonicalBytes (snapshot_of vs) = json_print (doc_of (snapshot_of vs))"
  "es_digest (snapshot_of vs) = sha256Digest (es_canonicalBytes (snapshot_of vs))"
  by (simp_all add: snapshot_of_def doc_of_def Let_def marshalSnapshot_print)

lemma snapshot_of_wf:
  assumes "list_all signal_ok vs" "vs \<noteq> []"
  shows "wf_json (doc_of (snapshot_of vs))"
proof -
  have ok: "signal_ok s" if "s \<in> set vs" for s using assms(1) that by (auto simp: list_all_iff)
  have refs: "list_all (\<lambda>r. wf_json (ref_doc r)) (es_signalRefs (snapshot_of vs))"
    using ok by (auto simp: snapshot_of_def Let_def list_all_iff ref_of_wf)
  have consts_valid: "utf8_valid EvidenceSnapshotVersion" "utf8_valid SourceHealthStatusComplete" by code_simp+
  have keys: "list_all (\<lambda>m. utf8_valid (fst m)) (case doc_of a of JObj ms \<Rightarrow> ms)" for a
    unfolding doc_of_def snapshot_doc_def by (simp; intro conjI; code_simp)
  have "utf8_valid (sg_SourceIP (hd vs))" using ok [of "hd vs"] assms(2) by (simp add: signal_ok_def contract_valid)
  moreover have "\<forall>v \<in> sg_ServiceLabel ` set vs. utf8_valid v" "\<forall>v \<in> sg_SignalID ` set vs. utf8_valid v"
    "\<forall>v \<in> \<Union>(set ` sg_EvidenceIDs ` set vs). utf8_valid v"
    using ok by (auto simp: signal_ok_def contract_valid label_valid list_all_iff)
  ultimately have "list_all (\<lambda>m. wf_json (snd m)) (case doc_of (snapshot_of vs) of JObj ms \<Rightarrow> ms)"
    using refs consts_valid
    by (auto simp: doc_of_def snapshot_doc_def snapshot_of_def Let_def list_all_iff contract_valid)
  with keys [of "snapshot_of vs"] show "wf_json (doc_of (snapshot_of vs))"
    by (simp add: doc_of_def snapshot_doc_def list_all_iff)
qed

lemma doc_of_inj:
  assumes "doc_of (snapshot_of us) = doc_of (snapshot_of vs)"
  shows "snapshot_of us = snapshot_of vs"
proof -
  let ?a = "snapshot_of us" and ?b = "snapshot_of vs"
  have t: "format_rfc3339 (es_windowStart ?a) = format_rfc3339 (es_windowStart ?b)"
    "format_rfc3339 (es_windowEnd ?a) = format_rfc3339 (es_windowEnd ?b)"
    and r: "map ref_doc (es_signalRefs ?a) = map ref_doc (es_signalRefs ?b)"
    and f: "es_sourceIP ?a = es_sourceIP ?b"
    and l: "map JStr (es_serviceLabels ?a) = map JStr (es_serviceLabels ?b)" "map JStr (es_signalIDs ?a) = map JStr (es_signalIDs ?b)"
      "map JStr (es_evidenceEventIDs ?a) = map JStr (es_evidenceEventIDs ?b)"
    using assms by (simp_all add: doc_of_def snapshot_doc_def)
  have "inj JStr" by (simp add: inj_def)
  then have "es_serviceLabels ?a = es_serviceLabels ?b" "es_signalIDs ?a = es_signalIDs ?b"
    "es_evidenceEventIDs ?a = es_evidenceEventIDs ?b" using l by (simp_all add: inj_map_eq_map)
  moreover have "es_windowStart ?a = es_windowStart ?b" "es_windowEnd ?a = es_windowEnd ?b"
    using t [THEN format_rfc3339_inj] .
  moreover have "es_signalRefs ?a = es_signalRefs ?b" using r by (simp add: inj_map_eq_map inj_def ref_doc_inj)
  moreover have "es_canonicalBytes ?a = es_canonicalBytes ?b" "es_digest ?a = es_digest ?b"
    by (simp_all only: snapshot_of_bytes assms)
  moreover have "es_schemaVersion ?a = es_schemaVersion ?b" "es_sourceHealthStatus ?a = es_sourceHealthStatus ?b"
    by (simp_all add: snapshot_of_def Let_def)
  ultimately show ?thesis using f by (intro evidence_snapshot.equality) simp_all
qed

section \<open>Properties\<close>

text \<open>
  C38: An evidence digest is bound to the evidence. Two snapshots with the same digest are equal in
  every field, or their different canonical bytes collide under SHA-256.
\<close>

theorem snapshot_digest_binds:
  assumes "buildEvidenceSnapshot xs = Inr a" "buildEvidenceSnapshot ys = Inr b"
    and "es_digest a = es_digest b"
  shows "a = b \<or> (es_canonicalBytes a \<noteq> es_canonicalBytes b \<and> sha256 (es_canonicalBytes a) = sha256 (es_canonicalBytes b))"
proof -
  obtain us where us: "normalizeSignals xs = Inr us" "us \<noteq> []" "a = snapshot_of us"
    using buildEvidenceSnapshot_Inr [OF assms(1)] by metis
  obtain vs where vs: "normalizeSignals ys = Inr vs" "vs \<noteq> []" "b = snapshot_of vs"
    using buildEvidenceSnapshot_Inr [OF assms(2)] by metis
  have ok: "list_all signal_ok us" "list_all signal_ok vs"
    using normalizeSignals_result [OF us(1)] normalizeSignals_result [OF vs(1)] by blast+
  have h: "sha256 (es_canonicalBytes a) = sha256 (es_canonicalBytes b)"
    using assms(3) by (simp add: us(3) vs(3) snapshot_of_bytes(2) sha256Digest_inj)
  show ?thesis
  proof (cases "es_canonicalBytes a = es_canonicalBytes b")
    case True
    then have "doc_of a = doc_of b"
      unfolding us(3) vs(3) snapshot_of_bytes(1)
      by (rule json_print_inj [OF snapshot_of_wf [OF ok(1) us(2)] snapshot_of_wf [OF ok(2) vs(2)]])
    then show ?thesis using doc_of_inj us(3) vs(3) by metis
  qed (use h in simp)
qed

lemma example_snapshot: "buildEvidenceSnapshot [example_signal 0, example_signal 1] = Inr (snapshot_of (sortSignals [example_signal 0, example_signal 1]))"
  "buildEvidenceSnapshot [example_signal 1, example_signal 0] = Inr (snapshot_of (sortSignals [example_signal 1, example_signal 0]))"
proof -
  have src: "sg_SourceIP (example_signal k) = sg_SourceIP base_signal" for k by (simp add: example_signal_def)
  have "example_signal 0 \<noteq> example_signal 1" using example_related by (metis)
  then have "component_ok [example_signal 0, example_signal 1]" "component_ok [example_signal 1, example_signal 0]"
    using example_signals_ok example_signals_inj src by (auto simp: component_ok_def inj_on_def)
  then show "buildEvidenceSnapshot [example_signal 0, example_signal 1] = Inr (snapshot_of (sortSignals [example_signal 0, example_signal 1]))"
    "buildEvidenceSnapshot [example_signal 1, example_signal 0] = Inr (snapshot_of (sortSignals [example_signal 1, example_signal 0]))"
    by (simp_all only: buildEvidenceSnapshot_ok)
qed

theorem snapshot_digest_binds_witness:
  "\<exists>a b. buildEvidenceSnapshot [example_signal 0, example_signal 1] = Inr a \<and>
     buildEvidenceSnapshot [example_signal 1, example_signal 0] = Inr b \<and>
     (a = b \<or> (es_canonicalBytes a \<noteq> es_canonicalBytes b \<and> sha256 (es_canonicalBytes a) = sha256 (es_canonicalBytes b)))"
proof -
  have "sortSignals [example_signal 0, example_signal 1] = sortSignals [example_signal 1, example_signal 0]" by code_simp
  then have "es_digest (snapshot_of (sortSignals [example_signal 0, example_signal 1])) =
      es_digest (snapshot_of (sortSignals [example_signal 1, example_signal 0]))" by (rule arg_cong)
  from snapshot_digest_binds [OF example_snapshot this] example_snapshot show ?thesis by blast
qed

end
