(* ===== verification/Incident_Lifecycle.thy ===== *)
theory Incident_Lifecycle
  imports Incident Correlation_Snapshot
begin

text \<open>
  Histories of an incident: the invariant that every operation keeps, idempotent replay of
  commands, the routing decision, the bound on analysis attempts, and that an incident can
  always be closed.
\<close>

section \<open>Operations in one shape\<close>

datatype incident_op = OpBegin | OpComplete | OpFail string | OpClose

definition apply_op :: "incident \<Rightarrow> incident_op \<Rightarrow> incident_command \<Rightarrow> corr_error + incident \<times> transition_result" where
  "apply_op i op command = (case op of
     OpBegin \<Rightarrow> BeginAnalysis i command | OpComplete \<Rightarrow> CompleteAnalysis i command
   | OpFail reason \<Rightarrow> FailAnalysis i command reason | OpClose \<Rightarrow> CloseIdle i command)"

definition op_kind :: "incident_op \<Rightarrow> string" where
  "op_kind op = (case op of OpBegin \<Rightarrow> ''begin_analysis'' | OpComplete \<Rightarrow> ''complete_analysis''
     | OpFail reason \<Rightarrow> ''fail_analysis'' | OpClose \<Rightarrow> ''close_idle'')"

definition op_payload :: "incident_op \<Rightarrow> string" where
  "op_payload op = (case op of OpFail reason \<Rightarrow> reason | _ \<Rightarrow> [])"

definition known_reason :: "string \<Rightarrow> bool" where
  "known_reason r \<longleftrightarrow> r \<in> set (retryable_reasons @ terminal_reasons)"

definition op_known :: "incident_op \<Rightarrow> bool" where
  "op_known op \<longleftrightarrow> (case op of OpFail reason \<Rightarrow> known_reason reason | _ \<Rightarrow> True)"

text \<open>When an operation is allowed, and what it changes besides the bookkeeping of \<open>commit\<close>.\<close>

definition op_allowed :: "incident \<Rightarrow> incident_op \<Rightarrow> gotime \<Rightarrow> bool" where
  "op_allowed i op at \<longleftrightarrow> (case op of
     OpBegin \<Rightarrow> in_analysisAttempts i < 2 \<and>
       (in_state i = IncidentOpen \<or> (in_state i = IncidentAnalysisFailed \<and> in_failureReason i \<in> set retryable_reasons))
   | OpComplete \<Rightarrow> in_state i = IncidentAnalyzing
   | OpFail reason \<Rightarrow> in_state i = IncidentAnalyzing
   | OpClose \<Rightarrow> in_state i \<notin> {IncidentClosed, IncidentAnalyzing} \<and> in_lastSignalAt i + 15 * Minute \<le> at)"

definition op_effect :: "incident_op \<Rightarrow> incident \<Rightarrow> incident" where
  "op_effect op i = (case op of
     OpBegin \<Rightarrow> i\<lparr>in_state := IncidentAnalyzing, in_failureReason := [], in_analysisAttempts := in_analysisAttempts i + 1\<rparr>
   | OpComplete \<Rightarrow> i\<lparr>in_state := IncidentReviewReady, in_failureReason := []\<rparr>
   | OpFail reason \<Rightarrow> i\<lparr>in_state := IncidentAnalysisFailed, in_failureReason := reason\<rparr>
   | OpClose \<Rightarrow> i\<lparr>in_state := IncidentClosed, in_closedAt := in_lastSignalAt i + 15 * Minute\<rparr>)"

lemma reasons_disjoint: "r \<in> set retryable_reasons \<Longrightarrow> r \<notin> set terminal_reasons"
proof -
  have "list_all (\<lambda>r. r \<notin> set terminal_reasons) retryable_reasons" by code_simp
  then show "r \<in> set retryable_reasons \<Longrightarrow> r \<notin> set terminal_reasons" by (simp add: list_all_iff)
qed

lemma Classify_known: "(\<exists>c. ClassifyAnalysisFailure r = Inr c) \<longleftrightarrow> known_reason r"
  by (auto simp: ClassifyAnalysisFailure_def known_reason_def)

lemma Classify_retry: "ClassifyAnalysisFailure r = Inr RetryOnceWithBoundedJitter \<longleftrightarrow> r \<in> set retryable_reasons"
  by (auto simp: ClassifyAnalysisFailure_def)

lemma known_reason_nonempty: "known_reason r \<Longrightarrow> r \<noteq> []"
proof -
  have "\<not> known_reason []" by code_simp
  then show "known_reason r \<Longrightarrow> r \<noteq> []" by auto
qed

lemma apply_op_iff:
  "apply_op i op command = Inr (j, res) \<longleftrightarrow> op_known op \<and>
     (\<exists>f d. prepareCommand i command (op_kind op) (op_payload op) = Inr (f, d) \<and>
       (case d of Some r \<Rightarrow> j = i \<and> res = duplicateTransition i r
        | None \<Rightarrow> op_allowed i op (cm_At command) \<and> j = commit (op_effect op i) command f \<and>
            res = appliedTransition (in_revision i + 1)))"
proof (cases op)
  case OpBegin
  then show ?thesis
    by (auto simp: apply_op_def BeginAnalysis_def op_known_def op_kind_def op_payload_def op_allowed_def op_effect_def
        bind_res_Inr_iff CanRetryAnalysis_def Classify_retry MaximumAnalysisAttempts_def Let_def split: option.splits)
next
  case OpComplete
  then show ?thesis
    by (auto simp: apply_op_def CompleteAnalysis_def op_known_def op_kind_def op_payload_def op_allowed_def op_effect_def
        bind_res_Inr_iff Let_def split: option.splits)
next
  case (OpFail reason)
  then show ?thesis using Classify_known [of reason]
    by (auto simp: apply_op_def FailAnalysis_def op_known_def op_kind_def op_payload_def op_allowed_def op_effect_def
        bind_res_Inr_iff Let_def split: option.splits)
next
  case OpClose
  then show ?thesis
    by (auto simp: apply_op_def CloseIdle_def op_known_def op_kind_def op_payload_def op_allowed_def op_effect_def
        bind_res_Inr_iff IncidentIdleTimeout_def Let_def not_less split: option.splits)
qed

lemma find_id_None: "find (\<lambda>r. cr_id r = x) rs = None \<longleftrightarrow> x \<notin> cr_id ` set rs"
  by (auto simp: find_None_iff)

lemma prepareCommand_fresh:
  "prepareCommand i command kind payload = Inr (f, None) \<longleftrightarrow>
     re_matches digestPattern (cm_ID command) \<and> cm_At command \<noteq> 0 \<and> f = commandFingerprint kind command payload \<and>
     cm_ID command \<notin> cr_id ` set (in_commands i) \<and> cm_ExpectedRevision command = in_revision i \<and> in_updatedAt i \<le> cm_At command"
  unfolding find_id_None [symmetric]
  by (cases "find (\<lambda>r. cr_id r = cm_ID command) (in_commands i)") (auto simp: prepareCommand_def Let_def not_less)

lemma prepareCommand_replay:
  "prepareCommand i command kind payload = Inr (f, Some r) \<longleftrightarrow>
     re_matches digestPattern (cm_ID command) \<and> cm_At command \<noteq> 0 \<and> f = commandFingerprint kind command payload \<and>
     find (\<lambda>r. cr_id r = cm_ID command) (in_commands i) = Some r \<and> cr_fingerprint r = f"
  by (cases "find (\<lambda>r. cr_id r = cm_ID command) (in_commands i)") (auto simp: prepareCommand_def Let_def)

section \<open>The invariant\<close>

definition evidence_ok :: "incident \<Rightarrow> bool" where
  "evidence_ok i \<longleftrightarrow> component_ok (in_signals i) \<and> sorted (map signal_order (in_signals i)) \<and>
     in_snapshot i = snapshot_of (in_signals i) \<and> in_lastSignalAt i = es_windowEnd (in_snapshot i)"

definition state_ok :: "incident \<Rightarrow> bool" where
  "state_ok i \<longleftrightarrow> in_analysisAttempts i \<in> {0..2} \<and>
     (in_state i \<in> {IncidentAnalyzing, IncidentReviewReady, IncidentAnalysisFailed} \<longrightarrow> 1 \<le> in_analysisAttempts i) \<and>
     (if in_state i = IncidentAnalysisFailed then known_reason (in_failureReason i)
      else in_failureReason i = [] \<or> in_state i = IncidentClosed) \<and>
     in_closedAt i = (if in_state i = IncidentClosed then in_lastSignalAt i + 15 * Minute else 0)"

definition log_ok :: "incident \<Rightarrow> bool" where
  "log_ok i \<longleftrightarrow> distinct (map cr_id (in_commands i)) \<and> in_version i = in_revision i \<and>
     in_revision i = word_of_nat (Suc (length (in_commands i))) \<and>
     (\<forall>k < length (in_commands i). cr_appliedRevision (in_commands i ! k) = word_of_nat (k + 2))"

definition times_ok :: "incident \<Rightarrow> bool" where
  "times_ok i \<longleftrightarrow> in_createdAt i \<le> in_updatedAt i \<and> in_lastSignalAt i \<le> in_updatedAt i"

definition wf_incident :: "incident \<Rightarrow> bool" where
  "wf_incident i \<longleftrightarrow> evidence_ok i \<and> state_ok i \<and> log_ok i \<and> times_ok i"

lemma commit_log:
  assumes "log_ok i" "cm_ID command \<notin> cr_id ` set (in_commands i)"
    and "in_commands n = in_commands i" "in_version n = in_version i" "in_revision n = in_revision i"
  shows "log_ok (commit n command f)"
  using assms by (auto simp: log_ok_def commit_def nth_append less_Suc_eq)

lemma op_effect_same [simp]:
  "in_commands (op_effect op i) = in_commands i" "in_version (op_effect op i) = in_version i"
  "in_revision (op_effect op i) = in_revision i" "in_signals (op_effect op i) = in_signals i"
  "in_snapshot (op_effect op i) = in_snapshot i" "in_lastSignalAt (op_effect op i) = in_lastSignalAt i"
  "in_createdAt (op_effect op i) = in_createdAt i"
  by (cases op; simp add: op_effect_def)+

lemma commit_same [simp]:
  "in_signals (commit i c f) = in_signals i" "in_snapshot (commit i c f) = in_snapshot i"
  "in_lastSignalAt (commit i c f) = in_lastSignalAt i" "in_createdAt (commit i c f) = in_createdAt i"
  "in_state (commit i c f) = in_state i" "in_closedAt (commit i c f) = in_closedAt i"
  "in_failureReason (commit i c f) = in_failureReason i" "in_analysisAttempts (commit i c f) = in_analysisAttempts i"
  "in_updatedAt (commit i c f) = cm_At c" "in_revision (commit i c f) = in_revision i + 1"
  "in_version (commit i c f) = in_version i + 1"
  by (simp_all add: commit_def)

lemma op_state_ok:
  assumes "state_ok i" "op_allowed i op at" "op_known op"
  shows "state_ok (op_effect op i)"
  using assms by (cases op) (auto simp: state_ok_def op_allowed_def op_effect_def op_known_def)

lemma apply_op_wf:
  assumes "wf_incident i" "apply_op i op command = Inr (j, res)"
  shows "wf_incident j"
proof -
  obtain f d where p: "prepareCommand i command (op_kind op) (op_payload op) = Inr (f, d)"
    and d: "case d of Some r \<Rightarrow> j = i | None \<Rightarrow> op_allowed i op (cm_At command) \<and> j = commit (op_effect op i) command f"
    and k: "op_known op"
    using assms(2) by (auto simp: apply_op_iff split: option.splits)
  show ?thesis
  proof (cases d)
    case None
    with d have a: "op_allowed i op (cm_At command)" and j: "j = commit (op_effect op i) command f" by simp_all
    have fresh: "cm_ID command \<notin> cr_id ` set (in_commands i)" "in_updatedAt i \<le> cm_At command"
      using p None by (auto simp: prepareCommand_fresh)
    have w: "evidence_ok i" "state_ok i" "log_ok i" "times_ok i" using assms(1) by (auto simp: wf_incident_def)
    have "state_ok (op_effect op i)" by (rule op_state_ok [OF w(2) a k])
    then have "state_ok j" by (simp add: j state_ok_def)
    moreover have "log_ok j" unfolding j by (rule commit_log [OF w(3) fresh(1)]) simp_all
    ultimately show ?thesis using w fresh(2) by (auto simp: wf_incident_def j evidence_ok_def times_ok_def)
  qed (use d assms(1) in simp)
qed

section \<open>New incidents\<close>

lemma sortSignals_idem: "sortSignals (sortSignals ss) = sortSignals ss"
  by (simp add: sortSignals_def sorted_sort_id sort_key_id_if_sorted)

lemma component_ok_sort: "component_ok ss \<Longrightarrow> component_ok (sortSignals ss)"
  by (auto simp: component_ok_def sortSignals_def list_all_iff simp flip: set_empty)

lemma sorted_sortSignals: "sorted (map signal_order (sortSignals ss))"
  by (simp add: sortSignals_def)

lemma NewIncident_iff:
  assumes "component_ok (gr_signals grp)"
  shows "NewIncident grp at = Inr i \<longleftrightarrow> at \<noteq> 0 \<and> Max (sg_WindowEnd ` set (gr_signals grp)) \<le> at \<and>
    i = \<lparr>in_id = incidentID (es_digest (snapshot_of (sortSignals (gr_signals grp)))), in_version = 1, in_revision = 1,
      in_state = IncidentOpen, in_createdAt = at, in_updatedAt = at, in_lastSignalAt = Max (sg_WindowEnd ` set (gr_signals grp)),
      in_closedAt = 0, in_failureReason = [], in_analysisAttempts = 0, in_snapshot = snapshot_of (sortSignals (gr_signals grp)),
      in_signals = sortSignals (gr_signals grp), in_relations = buildRelations (sortSignals (gr_signals grp)), in_commands = []\<rparr>"
  by (auto simp: NewIncident_def buildGroup_ok [OF assms] group_of_def Let_def snapshot_of_def)

lemma NewIncident_wf:
  assumes "component_ok (gr_signals grp)" "NewIncident grp at = Inr i"
  shows "wf_incident i"
  using assms(2) component_ok_sort [OF assms(1)] sorted_sortSignals [of "gr_signals grp"]
  by (simp add: NewIncident_iff [OF assms(1)] wf_incident_def evidence_ok_def state_ok_def log_ok_def times_ok_def)
    (simp add: snapshot_of_def Let_def)

lemma NewIncident_attempts: "component_ok (gr_signals grp) \<Longrightarrow> NewIncident grp at = Inr i \<Longrightarrow> in_analysisAttempts i = 0"
  by (simp add: NewIncident_iff)

lemma Correlate_component_ok:
  assumes "Correlate signals = Inr groups" "g \<in> set groups"
  shows "component_ok (gr_signals g)"
proof -
  obtain vs where vs: "normalizeSignals signals = Inr vs" and g: "groups = sort_key group_order (map group_of (components vs))"
    using Correlate_Inr [OF assms(1)] by metis
  obtain c where c: "c \<in> set (components vs)" "g = group_of c" using assms(2) by (auto simp: g)
  then show ?thesis using normalizeSignals_result [OF vs] components_ok component_ok_sort by (metis group_of_signals)
qed

section \<open>Routing\<close>

lemma normalize_single: "normalizeSignals [s] = Inr vs \<longleftrightarrow> signal_ok s \<and> vs = [s]"
proof -
  have "signal_ok s \<Longrightarrow> normalizeSignals [s] = Inr [s]"
    using normalizeSignals_distinct [of "[s]"] by (simp add: sortSignals_def)
  moreover have "normalizeSignals [s] = Inr vs \<Longrightarrow> signal_ok s" using normalizeSignals_ok [of "[s]"] by auto
  ultimately show ?thesis by auto
qed

lemma component_ok_append:
  assumes "component_ok ss" "signal_ok s" "sg_SignalID s \<notin> sg_SignalID ` set ss" "sg_SourceIP s = sg_SourceIP (hd ss)"
  shows "component_ok (sortSignals (ss @ [s]))"
proof -
  have "hd ss \<in> set ss" using assms(1) by (simp add: component_ok_def)
  then have "\<forall>t \<in> set (ss @ [s]). sg_SourceIP t = sg_SourceIP s" using assms(1,4) unfolding component_ok_def by auto
  then have "component_ok (ss @ [s])" using assms(1-3) unfolding component_ok_def
    by (simp add: inj_on_insert image_iff) metis
  then show ?thesis by (rule component_ok_sort)
qed

text \<open>The incident after a signal has been added, and when \<open>RouteSignal\<close> adds it.\<close>

definition extended :: "incident \<Rightarrow> signal \<Rightarrow> incident \<Rightarrow> bool" where
  "extended i s j \<longleftrightarrow> in_signals j = sortSignals (in_signals i @ [s]) \<and> in_snapshot j = snapshot_of (in_signals j) \<and>
     in_lastSignalAt j = es_windowEnd (in_snapshot j) \<and> in_state j = IncidentOpen \<and> in_failureReason j = [] \<and>
     in_closedAt j = 0 \<and> in_analysisAttempts j = in_analysisAttempts i"

definition joins :: "incident \<Rightarrow> gotime \<Rightarrow> signal \<Rightarrow> bool" where
  "joins i at s \<longleftrightarrow> sg_SourceIP s = es_sourceIP (in_snapshot i) \<and>
     (if in_state i = IncidentClosed then at \<le> in_closedAt i + 30 * Minute else \<exists>e \<in> set (in_signals i). related e s)"

lemma appendSignal_Inr:
  assumes "component_ok (sortSignals (in_signals i @ [s]))" "appendSignal i command f s reopening = Inr r"
  shows "rr_Disposition r = (if reopening then RouteReopened else RouteAppended) \<and> rr_NewIncident r = None \<and>
    extended i s (rr_Current r) \<and> (\<exists>n. rr_Current r = commit n command f \<and> in_commands n = in_commands i \<and>
      in_version n = in_version i \<and> in_revision n = in_revision i \<and> in_createdAt n = in_createdAt i)"
  using assms(2) buildEvidenceSnapshot_ok [OF assms(1)]
  by (auto simp: appendSignal_def Let_def extended_def sortSignals_idem)

lemma source_of_snapshot: "evidence_ok i \<Longrightarrow> es_sourceIP (in_snapshot i) = sg_SourceIP (hd (in_signals i))"
  by (simp add: evidence_ok_def snapshot_of_def Let_def)

lemma related_temporal: "evidence_ok i \<Longrightarrow> sg_SourceIP s = es_sourceIP (in_snapshot i) \<Longrightarrow>
    list_ex (\<lambda>e. temporalRelation e s \<noteq> None) (in_signals i) \<longleftrightarrow> (\<exists>e \<in> set (in_signals i). related e s)"
proof -
  assume e: "evidence_ok i" and s: "sg_SourceIP s = es_sourceIP (in_snapshot i)"
  have "hd (in_signals i) \<in> set (in_signals i)" using e by (simp add: evidence_ok_def component_ok_def)
  then have "\<forall>e \<in> set (in_signals i). sg_SourceIP e = sg_SourceIP s"
    using e source_of_snapshot [OF e] s unfolding evidence_ok_def component_ok_def by auto
  then show ?thesis by (auto simp: list_ex_iff related_def)
qed

lemma routeToNewIncident_Inr:
  assumes "signal_ok s" "routeToNewIncident i command s = Inr r"
  obtains n where "r = \<lparr>rr_Disposition = RouteNewIncident, rr_Current = i, rr_NewIncident = Some n\<rparr>"
    "NewIncident (group_of [s]) (cm_At command) = Inr n"
proof -
  have "component_ok [s]" using assms(1) by (simp add: component_ok_def)
  then show ?thesis using assms(2) that by (auto simp: routeToNewIncident_def buildGroup_ok bind_res_Inr_iff)
qed

lemma find_signal_None: "find (\<lambda>e. sg_SignalID e = x) ss = None \<longleftrightarrow> x \<notin> sg_SignalID ` set ss"
  by (auto simp: find_None_iff)

lemma RouteSignal_Inr:
  assumes "evidence_ok i" "RouteSignal i command s = Inr r"
  shows "signal_ok s \<and> sg_WindowEnd s \<le> cm_At command \<and>
    (r = \<lparr>rr_Disposition = RouteDuplicateSignal, rr_Current = i, rr_NewIncident = None\<rparr> \<and>
       (s \<in> set (in_signals i) \<or> cm_ID command \<in> cr_id ` set (in_commands i)) \<or>
     \<not> joins i (cm_At command) s \<and> routeToNewIncident i command s = Inr r \<or>
     joins i (cm_At command) s \<and> sg_SignalID s \<notin> sg_SignalID ` set (in_signals i) \<and>
       (\<exists>f. prepareCommand i command ''route_signal'' (route_payload s) = Inr (f, None) \<and>
          appendSignal i command f s (in_state i = IncidentClosed) = Inr r))"
proof -
  have ok: "signal_ok s" "sg_WindowEnd s \<le> cm_At command"
    using assms(2) by (auto simp: RouteSignal_def bind_res_Inr_iff normalize_single Let_def split: if_splits)
  show ?thesis
  proof (cases "find (\<lambda>e. sg_SignalID e = sg_SignalID s) (in_signals i)")
    case (Some e)
    then have "e \<in> set (in_signals i)" by (auto simp: find_Some_iff)
    then show ?thesis using assms(2) ok Some
      by (auto simp: RouteSignal_def bind_res_Inr_iff normalize_single equalSignal_eq split: if_splits option.splits)
  next
    case None
    then have fresh: "sg_SignalID s \<notin> sg_SignalID ` set (in_signals i)" by (simp add: find_signal_None)
    obtain f d where p: "prepareCommand i command ''route_signal'' (route_payload s) = Inr (f, d)"
      using assms(2) None by (auto simp: RouteSignal_def bind_res_Inr_iff normalize_single Let_def split: if_splits)
    show ?thesis
    proof (cases d)
      case (Some rec)
      then have "find (\<lambda>r. cr_id r = cm_ID command) (in_commands i) = Some rec" using p by (simp add: prepareCommand_replay)
      then have "cm_ID command \<in> cr_id ` set (in_commands i)" using find_id_None [of "cm_ID command" "in_commands i"] by auto
      then show ?thesis using assms(2) None p Some ok
        by (auto simp: RouteSignal_def bind_res_Inr_iff normalize_single Let_def split: if_splits)
    next
      case d: None
      have t: "list_ex (\<lambda>e. temporalRelation e s \<noteq> None) (in_signals i) \<longleftrightarrow> (\<exists>e \<in> set (in_signals i). related e s)"
        if "sg_SourceIP s = es_sourceIP (in_snapshot i)" by (rule related_temporal [OF assms(1) that])
      show ?thesis using assms(2) None p d ok fresh t
        by (auto simp: RouteSignal_def normalize_single [THEN iffD2] joins_def IncidentReopenWindow_def not_less Let_def split: if_splits)
    qed
  qed
qed

section \<open>Histories\<close>

text \<open>
  \<open>incident_history ops i\<close>: the incident \<open>i\<close> was created from a group of \<open>Correlate\<close> or by routing,
  and \<open>ops\<close> are the operations that were applied to it, latest first. Refused calls change nothing.
\<close>

inductive incident_history :: "incident_op list \<Rightarrow> incident \<Rightarrow> bool" where
  correlated: "Correlate signals = Inr groups \<Longrightarrow> g \<in> set groups \<Longrightarrow> NewIncident g at = Inr i \<Longrightarrow> incident_history [] i"
| routed: "incident_history ops i \<Longrightarrow> RouteSignal i command s = Inr r \<Longrightarrow> rr_NewIncident r = Some n \<Longrightarrow> incident_history [] n"
| applied: "incident_history ops i \<Longrightarrow> apply_op i op command = Inr (j, res) \<Longrightarrow>
    incident_history (if tr_Disposition res = TransitionApplied then op # ops else ops) j"
| signal: "incident_history ops i \<Longrightarrow> RouteSignal i command s = Inr r \<Longrightarrow> incident_history ops (rr_Current r)"

lemma route_new_wf:
  assumes "evidence_ok i" "RouteSignal i command s = Inr r" "rr_NewIncident r = Some n"
  shows "wf_incident n \<and> in_analysisAttempts n = 0"
proof -
  have c: "signal_ok s \<Longrightarrow> component_ok (gr_signals (group_of [s]))" by (simp add: component_ok_def sortSignals_def)
  have "signal_ok s" "routeToNewIncident i command s = Inr r"
    using RouteSignal_Inr [OF assms(1,2)] assms(3) by (auto simp: appendSignal_def Let_def bind_res_Inr_iff)
  then obtain m where "rr_NewIncident r = Some m" "NewIncident (group_of [s]) (cm_At command) = Inr m"
    by (auto elim: routeToNewIncident_Inr)
  with assms(3) c \<open>signal_ok s\<close> NewIncident_wf NewIncident_iff show ?thesis by fastforce
qed

lemma route_extends:
  assumes "evidence_ok i" "RouteSignal i command s = Inr r" "rr_Current r \<noteq> i"
  obtains f n where "signal_ok s" "joins i (cm_At command) s" "sg_SignalID s \<notin> sg_SignalID ` set (in_signals i)"
    "sg_WindowEnd s \<le> cm_At command" "prepareCommand i command ''route_signal'' (route_payload s) = Inr (f, None)"
    "rr_Disposition r = (if in_state i = IncidentClosed then RouteReopened else RouteAppended)" "rr_NewIncident r = None"
    "extended i s (rr_Current r)" "component_ok (in_signals (rr_Current r))"
    "rr_Current r = commit n command f" "in_commands n = in_commands i" "in_version n = in_version i"
    "in_revision n = in_revision i" "in_createdAt n = in_createdAt i"
proof -
  have new: "rr_Current r = i" if "routeToNewIncident i command s = Inr r" "signal_ok s"
    using that by (auto elim: routeToNewIncident_Inr)
  obtain f where f: "signal_ok s" "joins i (cm_At command) s" "sg_SignalID s \<notin> sg_SignalID ` set (in_signals i)"
    "sg_WindowEnd s \<le> cm_At command" "prepareCommand i command ''route_signal'' (route_payload s) = Inr (f, None)"
    "appendSignal i command f s (in_state i = IncidentClosed) = Inr r"
    using RouteSignal_Inr [OF assms(1,2)] assms(3) new by auto
  have c: "component_ok (sortSignals (in_signals i @ [s]))"
    using f(1-3) assms(1) source_of_snapshot [OF assms(1)] by (intro component_ok_append) (auto simp: joins_def evidence_ok_def)
  from appendSignal_Inr [OF c f(6)] obtain n where n: "rr_Current r = commit n command f" "in_commands n = in_commands i"
    "in_version n = in_version i" "in_revision n = in_revision i" "in_createdAt n = in_createdAt i"
    "rr_Disposition r = (if in_state i = IncidentClosed then RouteReopened else RouteAppended)" "rr_NewIncident r = None"
    "extended i s (rr_Current r)" by auto
  moreover have "component_ok (in_signals (rr_Current r))" using n(8) c by (simp add: extended_def)
  ultimately show ?thesis using that f by blast
qed

lemma RouteSignal_wf:
  assumes "wf_incident i" "RouteSignal i command s = Inr r"
  shows "wf_incident (rr_Current r) \<and> in_analysisAttempts (rr_Current r) = in_analysisAttempts i"
proof (cases "rr_Current r = i")
  case False
  have w: "evidence_ok i" "state_ok i" "log_ok i" "times_ok i" using assms(1) by (auto simp: wf_incident_def)
  obtain f n where s: "sg_WindowEnd s \<le> cm_At command"
    and p: "prepareCommand i command ''route_signal'' (route_payload s) = Inr (f, None)"
    and x: "extended i s (rr_Current r)" and c: "component_ok (in_signals (rr_Current r))" and j: "rr_Current r = commit n command f"
    and n: "in_commands n = in_commands i" "in_version n = in_version i" "in_revision n = in_revision i"
      "in_createdAt n = in_createdAt i"
    by (rule route_extends [OF w(1) assms(2) False])
  have p': "cm_ID command \<notin> cr_id ` set (in_commands i)" "in_updatedAt i \<le> cm_At command" using p by (auto simp: prepareCommand_fresh)
  have "log_ok (rr_Current r)" unfolding j by (rule commit_log [OF w(3) p'(1) n(1-3)])
  moreover have "evidence_ok (rr_Current r)" using x c sorted_sortSignals by (simp add: evidence_ok_def extended_def)
  moreover have "state_ok (rr_Current r)" using x w(2) by (auto simp: state_ok_def extended_def)
  moreover have "times_ok (rr_Current r)"
  proof -
    have "in_lastSignalAt i = Max (sg_WindowEnd ` set (in_signals i))" "in_signals i \<noteq> []"
      using w(1) by (simp_all add: evidence_ok_def snapshot_of_def Let_def component_ok_def)
    moreover have "in_lastSignalAt (rr_Current r) = Max (sg_WindowEnd ` insert s (set (in_signals i)))"
      using x by (simp add: extended_def snapshot_of_def Let_def)
    ultimately show ?thesis using s w(4) p'(2) by (auto simp: times_ok_def j n(4))
  qed
  ultimately show ?thesis using x by (simp add: wf_incident_def extended_def)
qed (use assms(1) in simp)

lemma apply_op_attempts:
  assumes "apply_op i op command = Inr (j, res)"
  shows "in_analysisAttempts j =
    (if tr_Disposition res = TransitionApplied \<and> op = OpBegin then in_analysisAttempts i + 1 else in_analysisAttempts i)"
  using assms by (cases op)
    (auto simp: apply_op_iff appliedTransition_def duplicateTransition_def op_effect_def split: option.splits)

lemma incident_wf:
  "incident_history ops i \<Longrightarrow> wf_incident i \<and> in_analysisAttempts i = int (length (filter (\<lambda>op. op = OpBegin) ops))"
proof (induction rule: incident_history.induct)
  case (correlated signals groups g at i)
  note ok = Correlate_component_ok [OF correlated(1,2)]
  show ?case using NewIncident_wf [OF ok correlated(3)] NewIncident_attempts [OF ok correlated(3)] by simp
next
  case (routed ops i command s r n)
  then have "evidence_ok i" by (simp add: wf_incident_def)
  from route_new_wf [OF this routed(2,3)] show ?case by simp
next
  case (applied ops i op command j res)
  then have w: "wf_incident i" by simp
  show ?case using apply_op_wf [OF w applied(2)] apply_op_attempts [OF applied(2)] applied.IH by simp
next
  case (signal ops i command s r)
  then have w: "wf_incident i" by simp
  show ?case using RouteSignal_wf [OF w signal(2)] signal.IH by simp
qed

text \<open>Later states of an incident: commands and signals in any order.\<close>

inductive later :: "incident \<Rightarrow> incident \<Rightarrow> bool" where
  later_refl: "later i i"
| later_op: "later i j \<Longrightarrow> apply_op j op command = Inr (k, res) \<Longrightarrow> later i k"
| later_signal: "later i j \<Longrightarrow> RouteSignal j command s = Inr r \<Longrightarrow> later i (rr_Current r)"

lemma apply_op_commands: "apply_op i op command = Inr (j, res) \<Longrightarrow> \<exists>cs. in_commands j = in_commands i @ cs"
  by (auto simp: apply_op_iff commit_def split: option.splits)

lemma RouteSignal_commands:
  assumes "wf_incident i" "RouteSignal i command s = Inr r"
  shows "\<exists>cs. in_commands (rr_Current r) = in_commands i @ cs"
proof (cases "rr_Current r = i")
  case False
  have e: "evidence_ok i" using assms(1) by (simp add: wf_incident_def)
  obtain f n where "rr_Current r = commit n command f" "in_commands n = in_commands i"
    by (rule route_extends [OF e assms(2) False])
  then show ?thesis by (simp add: commit_def)
qed simp

lemma later_commands: "later i j \<Longrightarrow> wf_incident i \<Longrightarrow> wf_incident j \<and> (\<exists>cs. in_commands j = in_commands i @ cs)"
proof (induction rule: later.induct)
  case (later_op i j op command k res)
  then have w: "wf_incident j" by blast
  show ?case using apply_op_wf [OF w later_op(2)] apply_op_commands [OF later_op(2)] later_op.IH later_op.prems by auto
next
  case (later_signal i j command s r)
  then have w: "wf_incident j" by blast
  show ?case using RouteSignal_wf [OF w later_signal(2)] RouteSignal_commands [OF w later_signal(2)]
      later_signal.IH later_signal.prems by auto
qed simp

lemma find_append_Some: "find P xs = Some x \<Longrightarrow> find P (xs @ ys) = Some x"
  by (induction xs) auto

lemma find_append_fresh: "find P xs = None \<Longrightarrow> P y \<Longrightarrow> find P (xs @ [y]) = Some y"
  by (induction xs) (auto split: if_splits)

text \<open>The record an accepted command leaves behind.\<close>

lemma accepted_record:
  assumes "apply_op i op command = Inr (j, res)"
  obtains r where "find (\<lambda>r. cr_id r = cm_ID command) (in_commands j) = Some r"
    "cr_fingerprint r = commandFingerprint (op_kind op) command (op_payload op)" "cr_appliedRevision r = tr_AppliedRevision res"
    "op_known op" "re_matches digestPattern (cm_ID command)" "cm_At command \<noteq> 0"
proof -
  obtain f d where p: "prepareCommand i command (op_kind op) (op_payload op) = Inr (f, d)" and k: "op_known op"
    and d: "case d of Some r \<Rightarrow> j = i \<and> res = duplicateTransition i r
      | None \<Rightarrow> op_allowed i op (cm_At command) \<and> j = commit (op_effect op i) command f \<and> res = appliedTransition (in_revision i + 1)"
    using assms unfolding apply_op_iff by blast
  show ?thesis
  proof (cases d)
    case None
    then have fr: "cm_ID command \<notin> cr_id ` set (in_commands i)" "f = commandFingerprint (op_kind op) command (op_payload op)"
      "re_matches digestPattern (cm_ID command)" "cm_At command \<noteq> 0" using p by (simp_all add: prepareCommand_fresh)
    let ?r = "\<lparr>cr_id = cm_ID command, cr_fingerprint = f, cr_appliedRevision = in_revision i + 1\<rparr>"
    have "in_commands j = in_commands i @ [?r]" using d None by (simp add: commit_def)
    then have "find (\<lambda>r. cr_id r = cm_ID command) (in_commands j) = Some ?r"
      using fr(1) by (simp add: find_append_fresh find_id_None)
    with that fr k d None show ?thesis by (simp add: appliedTransition_def)
  next
    case (Some r)
    then show ?thesis using that [of r] p d k by (simp add: prepareCommand_replay duplicateTransition_def)
  qed
qed

text \<open>A new command that names the current revision is applied whenever the state allows it.\<close>

lemma apply_op_fresh:
  assumes "op_known op" "op_allowed i op (cm_At command)" "re_matches digestPattern (cm_ID command)" "cm_At command \<noteq> 0"
    "cm_ID command \<notin> cr_id ` set (in_commands i)" "cm_ExpectedRevision command = in_revision i" "in_updatedAt i \<le> cm_At command"
  shows "apply_op i op command = Inr (commit (op_effect op i) command (commandFingerprint (op_kind op) command (op_payload op)),
    appliedTransition (in_revision i + 1))"
proof -
  have "prepareCommand i command (op_kind op) (op_payload op) = Inr (commandFingerprint (op_kind op) command (op_payload op), None)"
    unfolding prepareCommand_fresh using assms by simp
  then show ?thesis unfolding apply_op_iff using assms by simp
qed

section \<open>Properties\<close>

text \<open>
  C14: Every incident that a history can produce is well formed, and at most two analyses are
  started in its life. Its signals are valid, have one source and distinct identifiers, and its
  snapshot is the snapshot of exactly these signals; a failure reason is present exactly while the
  analysis has failed (or was kept when such an incident was closed); it is closed fifteen minutes
  after its last signal; version and revision agree and count the commands that took effect, whose
  identifiers are distinct.
\<close>

theorem incident_invariant:
  assumes "incident_history ops i"
  shows "wf_incident i \<and> length (filter (\<lambda>op. op = OpBegin) ops) \<le> 2"
  using incident_wf [OF assms] by (auto simp: wf_incident_def state_ok_def)

text \<open>
  C22: Commands are idempotent. Once a command was accepted, sending it again at any later time
  leaves the incident unchanged and reports the revision it produced at first, whatever commands
  and signals came in between.
\<close>

theorem replay_idempotent:
  assumes "incident_history ops i" "apply_op i op command = Inr (j, res)" "later j k"
  shows "apply_op k op command = Inr (k, \<lparr>tr_Disposition = TransitionIdempotentDuplicate,
    tr_AppliedRevision = tr_AppliedRevision res, tr_CurrentRevision = in_revision k\<rparr>)"
proof -
  have "wf_incident j" using apply_op_wf incident_wf assms(1,2) by blast
  then obtain cs where cs: "in_commands k = in_commands j @ cs" using later_commands [OF assms(3)] by blast
  obtain r where r: "find (\<lambda>r. cr_id r = cm_ID command) (in_commands j) = Some r"
    "cr_fingerprint r = commandFingerprint (op_kind op) command (op_payload op)" "cr_appliedRevision r = tr_AppliedRevision res"
    "op_known op" "re_matches digestPattern (cm_ID command)" "cm_At command \<noteq> 0"
    by (rule accepted_record [OF assms(2)])
  then have "prepareCommand k command (op_kind op) (op_payload op) =
      Inr (commandFingerprint (op_kind op) command (op_payload op), Some r)"
    unfolding prepareCommand_replay using find_append_Some [OF r(1)] by (simp add: cs)
  with r show ?thesis unfolding apply_op_iff by (force simp: duplicateTransition_def)
qed

text \<open>
  C34: Routing never merges different sources. A signal that is added goes to an incident of its own
  source that is directly related to it, or that was closed at most thirty minutes before; a signal
  that does not join starts a new incident holding only this signal and leaves the present one
  unchanged; a duplicate changes nothing.
\<close>

theorem route_decides:
  assumes "incident_history ops i" "RouteSignal i command s = Inr r"
  shows "case rr_Disposition r of
      RouteAppended \<Rightarrow> joins i (cm_At command) s \<and> in_state i \<noteq> IncidentClosed \<and> extended i s (rr_Current r) \<and> rr_NewIncident r = None
    | RouteReopened \<Rightarrow> joins i (cm_At command) s \<and> in_state i = IncidentClosed \<and> extended i s (rr_Current r) \<and> rr_NewIncident r = None
    | RouteNewIncident \<Rightarrow> \<not> joins i (cm_At command) s \<and> rr_Current r = i \<and>
        (\<exists>n. rr_NewIncident r = Some n \<and> in_signals n = [s] \<and> in_state n = IncidentOpen)
    | RouteDuplicateSignal \<Rightarrow> rr_Current r = i \<and> rr_NewIncident r = None \<and>
        (s \<in> set (in_signals i) \<or> cm_ID command \<in> cr_id ` set (in_commands i))"
proof -
  have e: "evidence_ok i" using incident_wf [OF assms(1)] by (simp add: wf_incident_def)
  note rs = RouteSignal_Inr [OF e assms(2)]
  then have ok: "signal_ok s" by blast
  from rs consider (dup) "r = \<lparr>rr_Disposition = RouteDuplicateSignal, rr_Current = i, rr_NewIncident = None\<rparr>"
      "s \<in> set (in_signals i) \<or> cm_ID command \<in> cr_id ` set (in_commands i)"
    | (new) "\<not> joins i (cm_At command) s" "routeToNewIncident i command s = Inr r"
    | (join) f where "joins i (cm_At command) s" "sg_SignalID s \<notin> sg_SignalID ` set (in_signals i)"
        "appendSignal i command f s (in_state i = IncidentClosed) = Inr r" by blast
  then show ?thesis
  proof cases
    case new
    obtain n where n: "r = \<lparr>rr_Disposition = RouteNewIncident, rr_Current = i, rr_NewIncident = Some n\<rparr>"
      "NewIncident (group_of [s]) (cm_At command) = Inr n" by (rule routeToNewIncident_Inr [OF ok new(2)])
    have "component_ok (gr_signals (group_of [s]))" using ok by (simp add: component_ok_def sortSignals_def)
    from n(2) [unfolded NewIncident_iff [OF this]] have "in_signals n = [s]" "in_state n = IncidentOpen"
      by (simp_all add: sortSignals_def)
    with n(1) new(1) show ?thesis by simp
  next
    case join
    have "component_ok (sortSignals (in_signals i @ [s]))"
      using ok join e source_of_snapshot [OF e] by (intro component_ok_append) (auto simp: joins_def evidence_ok_def)
    from appendSignal_Inr [OF this join(3)] join(1) show ?thesis by auto
  qed simp
qed

text \<open>
  C35: An incident never gets stuck. From every incident of a history at most two further commands
  close it: one that ends a running analysis, if there is one, and one that closes it once it has
  been idle for fifteen minutes.
\<close>

theorem incident_can_close:
  assumes "incident_history ops i" "in_state i \<noteq> IncidentClosed"
    and "re_matches digestPattern a" "re_matches digestPattern b" "a \<noteq> b" "a \<notin> cr_id ` set (in_commands i)"
      "b \<notin> cr_id ` set (in_commands i)" "at \<noteq> 0" "in_updatedAt i \<le> at" "in_lastSignalAt i + 15 * Minute \<le> at"
  shows "\<exists>j k res. (j = i \<or> apply_op i OpComplete \<lparr>cm_ID = a, cm_ExpectedRevision = in_revision i, cm_At = at\<rparr> = Inr (j, res)) \<and>
    (\<exists>res. apply_op j OpClose \<lparr>cm_ID = b, cm_ExpectedRevision = in_revision j, cm_At = at\<rparr> = Inr (k, res)) \<and>
    in_state k = IncidentClosed"
proof -
  have close: "\<exists>k res. apply_op j OpClose \<lparr>cm_ID = b, cm_ExpectedRevision = in_revision j, cm_At = at\<rparr> = Inr (k, res) \<and>
      in_state k = IncidentClosed"
    if "b \<notin> cr_id ` set (in_commands j)" "in_updatedAt j \<le> at" "in_lastSignalAt j + 15 * Minute \<le> at"
      "in_state j \<notin> {IncidentClosed, IncidentAnalyzing}" for j
    using that assms(4,8)
    by (subst apply_op_fresh) (simp_all add: op_known_def op_allowed_def, simp add: op_effect_def)
  show ?thesis
  proof (cases "in_state i = IncidentAnalyzing")
    case True
    let ?c = "\<lparr>cm_ID = a, cm_ExpectedRevision = in_revision i, cm_At = at\<rparr>"
    let ?j = "commit (op_effect OpComplete i) ?c (commandFingerprint (op_kind OpComplete) ?c (op_payload OpComplete))"
    have j: "apply_op i OpComplete ?c = Inr (?j, appliedTransition (in_revision i + 1))"
      by (rule apply_op_fresh) (use assms True in \<open>simp_all add: op_known_def op_allowed_def\<close>)
    have "b \<notin> cr_id ` set (in_commands ?j)" using assms(5,7) by (simp add: commit_def)
    moreover have "in_state ?j = IncidentReviewReady" by (simp add: op_effect_def)
    ultimately show ?thesis using close [of ?j] j assms(10) by auto
  next
    case False
    then show ?thesis using close [of i] assms by auto
  qed
qed

section \<open>An incident of one signal\<close>

definition opened :: incident where
  "opened = projr (NewIncident (group_of [example_signal 0]) (2000 * Minute))"

definition example_command :: "char \<Rightarrow> uint64 \<Rightarrow> incident_command" where
  "example_command c revision =
     \<lparr>cm_ID = ''sha256:'' @ replicate 64 c, cm_ExpectedRevision = revision, cm_At = 2001 * Minute\<rparr>"

lemma example_command_ok:
  "re_matches digestPattern (cm_ID (example_command CHR ''a'' v))" "re_matches digestPattern (cm_ID (example_command CHR ''b'' v))"
  by (simp_all add: example_command_def digestPattern_iff list_all_iff is_hexlow_def in_range_def is_digit_def)

lemma opened_new: "NewIncident (group_of [example_signal 0]) (2000 * Minute) = Inr opened"
proof -
  have c: "component_ok (gr_signals (group_of [example_signal 0]))"
    using example_signals_ok(1) by (simp add: component_ok_def sortSignals_def)
  have "\<exists>i. NewIncident (group_of [example_signal 0]) (2000 * Minute) = Inr i"
    unfolding NewIncident_iff [OF c] by (simp add: sortSignals_def example_signal_def)
  then show ?thesis by (auto simp: opened_def)
qed

lemma opened_facts:
  "in_state opened = IncidentOpen" "in_revision opened = 1" "in_commands opened = []" "in_updatedAt opened = 2000 * Minute"
  "in_lastSignalAt opened = 1000 * Minute" "in_analysisAttempts opened = 0" "in_signals opened = [example_signal 0]"
proof -
  have c: "component_ok (gr_signals (group_of [example_signal 0]))"
    using example_signals_ok(1) by (simp add: component_ok_def sortSignals_def)
  have w: "sg_WindowEnd (example_signal 0) = 1000 * Minute" by (simp add: example_signal_def)
  have i: "at \<noteq> 0 \<and> Max (sg_WindowEnd ` set (gr_signals g)) \<le> at \<and> opened = x \<Longrightarrow> opened = x" for at g x by blast
  note o = i [OF opened_new [unfolded NewIncident_iff [OF c]]]
  show "in_state opened = IncidentOpen" "in_revision opened = 1" "in_commands opened = []" "in_updatedAt opened = 2000 * Minute"
    "in_lastSignalAt opened = 1000 * Minute" "in_analysisAttempts opened = 0" "in_signals opened = [example_signal 0]"
    by (subst o, simp add: sortSignals_def w)+
qed

lemma opened_history: "incident_history [] opened"
proof -
  have n: "normalizeSignals [example_signal 0] = Inr [example_signal 0]" using normalize_single example_signals_ok(1) by blast
  have "Correlate [example_signal 0] = Inr [group_of [example_signal 0]]" using Correlate_eq [OF n] by (simp add: components_def)
  from incident_history.correlated [OF this _ opened_new] show ?thesis by simp
qed

lemma opened_begin: "\<exists>j. apply_op opened OpBegin (example_command CHR ''a'' 1) = Inr (j, appliedTransition 2) \<and> in_state j = IncidentAnalyzing"
proof -
  have "op_allowed opened OpBegin (cm_At (example_command CHR ''a'' 1))" by (simp add: op_allowed_def opened_facts)
  from apply_op_fresh [OF _ this example_command_ok(1)] show ?thesis
    by (simp add: op_known_def opened_facts op_effect_def) (simp add: example_command_def)
qed

theorem incident_invariant_witness:
  "\<exists>j. incident_history [OpBegin] j \<and> wf_incident j \<and> in_state j = IncidentAnalyzing"
proof -
  obtain j where j: "apply_op opened OpBegin (example_command CHR ''a'' 1) = Inr (j, appliedTransition 2)" "in_state j = IncidentAnalyzing"
    using opened_begin by blast
  from incident_history.applied [OF opened_history j(1)] have "incident_history [OpBegin] j" by (simp add: appliedTransition_def)
  with incident_invariant [OF this] j(2) show ?thesis by blast
qed

theorem replay_idempotent_witness:
  "\<exists>j. apply_op opened OpBegin (example_command CHR ''a'' 1) = Inr (j, appliedTransition 2) \<and>
     (\<exists>res. apply_op j OpBegin (example_command CHR ''a'' 1) = Inr (j, res) \<and> tr_AppliedRevision res = 2)"
proof -
  obtain j where j: "apply_op opened OpBegin (example_command CHR ''a'' 1) = Inr (j, appliedTransition 2)" using opened_begin by blast
  from replay_idempotent [OF opened_history j later_refl] j show ?thesis by (auto simp: appliedTransition_def)
qed

theorem route_decides_witness:
  "\<exists>r. RouteSignal opened (example_command CHR ''a'' 1) (example_signal 0) = Inr r \<and> rr_Disposition r = RouteDuplicateSignal \<and>
     rr_Current r = opened"
proof -
  let ?r = "\<lparr>rr_Disposition = RouteDuplicateSignal, rr_Current = opened, rr_NewIncident = None\<rparr>"
  have n: "normalizeSignals [example_signal 0] = Inr [example_signal 0]" using normalize_single example_signals_ok(1) by blast
  have "validateDuplicateSignalCommand opened (example_command CHR ''a'' 1) (example_signal 0) = None"
    using example_command_ok(1) by (simp add: validateDuplicateSignalCommand_def opened_facts) (simp add: example_command_def)
  moreover have at: "cm_At (example_command CHR ''a'' 1) \<noteq> 0 \<and> sg_WindowEnd (example_signal 0) \<le> cm_At (example_command CHR ''a'' 1)"
    by (simp add: example_command_def example_signal_def)
  ultimately have r: "RouteSignal opened (example_command CHR ''a'' 1) (example_signal 0) = Inr ?r"
    using at by (simp add: RouteSignal_def n opened_facts equalSignal_eq Let_def)
  from route_decides [OF opened_history r] r show ?thesis by auto
qed

theorem incident_can_close_witness:
  "\<exists>j k res. apply_op j OpClose \<lparr>cm_ID = cm_ID (example_command CHR ''b'' 1), cm_ExpectedRevision = in_revision j, cm_At = 2001 * Minute\<rparr> =
     Inr (k, res) \<and> in_state k = IncidentClosed"
proof -
  have ne: "cm_ID (example_command CHR ''a'' 1) \<noteq> cm_ID (example_command CHR ''b'' 1)" by (simp add: example_command_def)
  show ?thesis
    using incident_can_close [OF opened_history _ example_command_ok [of 1] ne, of "2001 * Minute"]
    by (auto simp: opened_facts)
qed

end
