(* ===== verification/Pipeline.thy ===== *)
theory Pipeline
  imports Incident_Lifecycle
begin

text \<open>
  From detection to correlation: what \<open>validateSignal\<close> answers for the signals the detectors emit. The
  lemmas collect, rule by rule, the parts of a signal that it asks for; two of its limits (a window that
  does not start at the zero time, at most 1000000 events) are not checks of the detectors, and remain.
\<close>

section \<open>Emitted signals\<close>

definition metrics_fit :: "string \<Rightarrow> metrics \<Rightarrow> bool" where
  "metrics_fit r m \<longleftrightarrow> 0 \<le> mt_DistinctAccountCount m \<and> mt_DistinctAccountCount m \<le> mt_EventCount m \<and>
     0 \<le> mt_DistinctSuspiciousPathCount m \<and> mt_DistinctSuspiciousPathCount m \<le> 8 \<and> metricsReproduceRule r m"

definition group_ok :: "group_key \<Rightarrow> bool" where
  "group_ok g \<longleftrightarrow> canonical_ipv4 (fst g) \<and> re_matches labelPattern (snd g)"

definition detector_ok :: "detector \<Rightarrow> bool" where
  "detector_ok d \<longleftrightarrow> frozen (dt_config d) \<and> re_matches versionPattern (cf_Version (dt_config d)) \<and>
     re_matches digestPattern (dt_configDigest d)"

lemma New_detector_ok: "New c = Inr d \<Longrightarrow> detector_ok d"
  using New_frozen [of c d]
  by (auto simp: detector_ok_def New_def bind_res_Inr_iff validateAndNormalizeConfig_def Let_def digestConfig_def
      sha256Digest_matches split: if_splits)

text \<open>Everything validation asks for, apart from the two limits.\<close>

definition emitted_ok :: "signal \<Rightarrow> bool" where
  "emitted_ok s \<longleftrightarrow>
     re_matches uuidPattern (sg_SignalID s) \<and> validRuleClassification (sg_RuleID s) (sg_Classification s) \<and>
     re_matches versionPattern (sg_ConfigurationVersion s) \<and> re_matches digestPattern (sg_ConfigurationDigest s) \<and>
     canonical_ipv4 (sg_SourceIP s) \<and> re_matches labelPattern (sg_ServiceLabel s) \<and>
     sg_WindowEnd s \<noteq> 0 \<and> sg_WindowStart s \<le> sg_WindowEnd s \<and> 1 \<le> mt_EventCount (sg_Metrics s) \<and>
     metrics_fit (sg_RuleID s) (sg_Metrics s) \<and> sg_SourceHealthStatus s = SourceHealthStatusComplete \<and>
     int (length (sg_EvidenceIDs s)) = mt_EventCount (sg_Metrics s) \<and>
     list_all (re_matches uuidPattern) (sg_EvidenceIDs s) \<and> sorted_wrt (<) (sg_EvidenceIDs s) \<and>
     re_matches digestPattern (sg_EvidenceDigest s) \<and> re_matches digestPattern (sg_Digest s)"

lemma validate_emitted:
  assumes "emitted_ok s"
  shows "validateSignal s field =
    (if sg_WindowStart s = 0 then Some (CorrError CorrInvalidInput (field @ ''.window''))
     else if 1000000 < mt_EventCount (sg_Metrics s) then Some (CorrError CorrInvalidInput (field @ ''.metrics''))
     else None)"
proof -
  have "evidence_error field None (sg_EvidenceIDs s) = None" using assms by (simp add: evidence_error_None emitted_ok_def)
  moreover have "sg_EvidenceIDs s \<noteq> []" using assms by (auto simp: emitted_ok_def)
  ultimately show ?thesis using assms by (auto simp: validateSignal_def emitted_ok_def metrics_fit_def Let_def not_less)
qed

lemma built_signal_ok:
  assumes "detector_ok d" "group_ok g" "validRuleClassification r cl" "we \<noteq> 0" "ws \<le> we" "metrics_fit r m"
    and "mt_EventCount m = int (length ids)" "distinct ids" "1 \<le> length ids" "list_all (re_matches uuidPattern) ids"
  shows "emitted_ok (buildSignal d r cl g ws we m ids)"
proof -
  have "length (sorted_list_of_set (set ids)) = length ids" using assms(8) distinct_card by fastforce
  moreover have "list_all (re_matches uuidPattern) (sorted_list_of_set (set ids))" using assms(10) by (simp add: list_all_iff)
  moreover have "re_matches uuidPattern (sg_SignalID (buildSignal d r cl g ws we m ids))"
    using buildSignal_shape(1) by (simp add: uuid_v8_def)
  ultimately show ?thesis
    using assms buildSignal_shape(2,3) [of d r cl g ws we m ids]
    by (simp add: emitted_ok_def group_ok_def detector_ok_def strictly_sorted_list_of_set)
      (simp add: buildSignal_def Let_def)
qed

context rule_scan
begin

lemma distinct_le_evidence:
  "length (sc_distinct (fold step es scan_start)) \<le> length (sc_evidence (fold step es scan_start))"
proof -
  have "{a. \<exists>e \<in> set es. good e \<and> attr e = Some a} \<subseteq> (\<lambda>e. the (attr e)) ` set (filter good es)" by force
  then have "card {a. \<exists>e \<in> set es. good e \<and> attr e = Some a} \<le> card (set (filter good es))"
    by (meson card_image_le card_mono finite_imageI List.finite_set le_trans)
  also have "\<dots> \<le> length (filter good es)" by (rule card_length)
  finally show ?thesis by (simp add: clean_scan)
qed

lemma evidence_le: "length (sc_evidence (fold step es scan_start)) \<le> length es"
  by (simp add: clean_scan)

lemma evidence_of:
  assumes "distinct es" "inj_on ident (set es)" "\<forall>e \<in> set es. re_matches uuidPattern (ident e)"
  shows "distinct (sc_evidence (fold step es scan_start)) \<and> list_all (re_matches uuidPattern) (sc_evidence (fold step es scan_start))"
  using assms by (auto simp: clean_scan list_all_iff distinct_map intro: inj_on_subset)

lemma distinct_in_range:
  assumes "\<forall>e \<in> set es. \<forall>a. good e \<longrightarrow> attr e = Some a \<longrightarrow> a \<in> A" "finite A"
  shows "length (sc_distinct (fold step es scan_start)) \<le> card A"
  unfolding clean_scan(3) by (rule card_mono) (use assms in auto)

end

lemma catalogue_size:
  assumes "\<forall>e \<in> set es. validSuspiciousPathID (ge_SuspiciousPathID e)"
  shows "length (sc_distinct (fold path_scan_step es scan_start)) \<le> 8"
proof -
  have "length (sc_distinct (fold path_scan_step es scan_start)) \<le> card (set defaultSuspiciousPathIDs)"
    by (rule paths.distinct_in_range)
      (use assms in \<open>auto simp: paths.good_def suspicious_def validSuspiciousPathID_def\<close>)
  also have "\<dots> = 8" by (simp add: defaultSuspiciousPathIDs_def)
  finally show ?thesis .
qed

section \<open>The four rules\<close>

text \<open>What an evaluation with a signal was made from.\<close>

lemma finalize_Some:
  assumes "e = finalizeEvaluation d r g ws we th ob h u b m cl ids" "ev_Signal e = Some sg"
  shows "m \<and> sg = buildSignal d r cl g ws we ob ids \<and> ev_WindowStart e = ws \<and> ev_Observed e = ob"
  using assms by (auto simp: finalizeEvaluation_def Let_def split: if_splits)

text \<open>The evaluation reports what its signal says.\<close>

definition reports :: "rule_evaluation \<Rightarrow> signal \<Rightarrow> bool" where
  "reports e sg \<longleftrightarrow> emitted_ok sg \<and> sg_WindowStart sg = ev_WindowStart e \<and> sg_Metrics sg = ev_Observed e"

lemma built_fields [simp]:
  "sg_WindowStart (buildSignal d r cl g ws we m ids) = ws" "sg_Metrics (buildSignal d r cl g ws we m ids) = m"
  by (simp_all add: buildSignal_def Let_def)

lemma normalized_events_le:
  assumes "normalizeInput inp c = Inr n"
  shows "length (ei_GatewayEvents n) \<le> length (ei_GatewayEvents inp)" "length (ei_AuthEvents n) \<le> length (ei_AuthEvents inp)"
  using normalizeInput_facts [OF assms] by (metis card_length distinct_card)+

lemma normalized_events_ok:
  assumes "normalizeInput inp c = Inr n"
  shows "list_all (gateway_event_ok c) (ei_GatewayEvents n)" "list_all auth_event_ok (ei_AuthEvents n)" "ei_Now n \<noteq> 0"
proof -
  obtain ges aes where g: "normalizeGatewayEvents (ei_GatewayEvents inp) c = Inr ges" "normalizeAuthEvents (ei_AuthEvents inp) = Inr aes"
    using assms by (auto simp: normalizeInput_eq)
  then have "list_all (gateway_event_ok c) (ei_GatewayEvents inp)" "list_all auth_event_ok (ei_AuthEvents inp)"
    using normalizeGatewayEvents_ok normalizeAuthEvents_ok by blast+
  then show "list_all (gateway_event_ok c) (ei_GatewayEvents n)" "list_all auth_event_ok (ei_AuthEvents n)"
    unfolding list_all_iff normalizeInput_facts(2,5) [OF assms] by simp_all
  show "ei_Now n \<noteq> 0" using assms by (auto simp: normalizeInput_eq)
qed

lemma gateway_group_ok:
  assumes "(g, es) \<in> set (groupGatewayEvents vs s f)" "list_all (gateway_event_ok c) vs" "distinct vs" "inj_on ge_EventID (set vs)"
  shows "group_ok g" "distinct es" "inj_on ge_EventID (set es)" "\<forall>e \<in> set es. re_matches uuidPattern (ge_EventID e)"
    "\<forall>e \<in> set es. validSuspiciousPathID (ge_SuspiciousPathID e)" "length es \<le> length vs"
proof -
  have es: "es = filter (in_group ge_OccurredAt gateway_key s f g) vs" "es \<noteq> []"
    using assms(1) unfolding groupGatewayEvents_def group_events_iff by blast+
  then show "length es \<le> length vs" by simp
  from es obtain v where "v \<in> set vs" "gateway_key v = g" by (auto simp: filter_empty_conv in_group_def)
  then show "group_ok g" using assms(2) by (auto simp: list_all_iff gateway_event_ok_def group_ok_def gateway_key_def)
  show "distinct es" using es(1) assms(3) by simp
  have sub: "set es \<subseteq> set vs" using es(1) by auto
  show "inj_on ge_EventID (set es)" using inj_on_subset [OF assms(4) sub] .
  show "\<forall>e \<in> set es. re_matches uuidPattern (ge_EventID e)" "\<forall>e \<in> set es. validSuspiciousPathID (ge_SuspiciousPathID e)"
    using sub assms(2) by (auto simp: list_all_iff gateway_event_ok_def)
qed

lemma auth_group_ok:
  assumes "(g, es) \<in> set (groupAuthEvents vs s f)" "list_all auth_event_ok vs" "distinct vs" "inj_on ae_EventID (set vs)"
  shows "group_ok g" "distinct es" "inj_on ae_EventID (set es)" "\<forall>e \<in> set es. re_matches uuidPattern (ae_EventID e)"
    "length es \<le> length vs"
proof -
  have es: "es = filter (in_group ae_OccurredAt auth_key s f g) vs" "es \<noteq> []"
    using assms(1) unfolding groupAuthEvents_def group_events_iff by blast+
  then show "length es \<le> length vs" by simp
  from es obtain v where "v \<in> set vs" "auth_key v = g" by (auto simp: filter_empty_conv in_group_def)
  then show "group_ok g" using assms(2) by (auto simp: list_all_iff auth_event_ok_def group_ok_def auth_key_def)
  show "distinct es" using es(1) assms(3) by simp
  have sub: "set es \<subseteq> set vs" using es(1) by auto
  show "inj_on ae_EventID (set es)" using inj_on_subset [OF assms(4) sub] .
  show "\<forall>e \<in> set es. re_matches uuidPattern (ae_EventID e)" using sub assms(2) by (auto simp: list_all_iff auth_event_ok_def)
qed

lemma rule_names_distinct:
  "RulePathScan \<noteq> RuleRequestBurst" "RulePathScan \<noteq> RuleLoginBruteForce" "RulePathScan \<noteq> RuleCredentialStuffing"
  "RuleRequestBurst \<noteq> RuleLoginBruteForce" "RuleRequestBurst \<noteq> RuleCredentialStuffing" "RuleLoginBruteForce \<noteq> RuleCredentialStuffing"
  by code_simp+

lemmas rule_distinct = rule_names_distinct rule_names_distinct [symmetric]

lemma classifications:
  "validRuleClassification RulePathScan ClassificationPathScan" "validRuleClassification RuleRequestBurst ClassificationRequestBurst"
  "validRuleClassification RuleLoginBruteForce ClassificationLoginBruteForce"
  "validRuleClassification RuleCredentialStuffing ClassificationCredentialStuffing"
  by (simp_all add: validRuleClassification_def rule_distinct)

lemma path_scan_signal_ok:
  assumes "detector_ok d" "normalizeInput inp (dt_config d) = Inr n" "e \<in> set (evaluatePathScan d n)" "ev_Signal e = Some sg"
  shows "reports e sg" "mt_EventCount (ev_Observed e) \<le> int (length (ei_GatewayEvents inp))"
proof -
  note nf = normalizeInput_facts [OF assms(2)] and ok = normalized_events_ok [OF assms(2)]
  have fr: "cf_PathScanThreshold (dt_config d) = 8" "cf_PathScanWindow (dt_config d) = 60 * Second"
    using assms(1) by (simp_all add: detector_ok_def frozen_def)
  obtain g es th h u where ge: "(g, es) \<in> set (groupGatewayEvents (ei_GatewayEvents n) (ei_Now n - 60 * Second) (ei_Now n))"
    and e: "e = finalizeEvaluation d RulePathScan g (ei_Now n - 60 * Second) (ei_Now n) th
      (zero_metrics\<lparr>mt_EventCount := int (length (sc_evidence (fold path_scan_step es scan_start))),
        mt_DistinctSuspiciousPathCount := int (length (sc_distinct (fold path_scan_step es scan_start)))\<rparr>)
      h u False (8 \<le> int (length (sc_distinct (fold path_scan_step es scan_start)))) ClassificationPathScan
      (sc_evidence (fold path_scan_step es scan_start))"
    using assms(3) unfolding evaluatePathScan_def Let_def fr by auto
  note f = finalize_Some [OF e assms(4)] and go = gateway_group_ok [OF ge ok(1) nf(3,4)]
  have le: "length (sc_distinct (fold path_scan_step es scan_start)) \<le> length (sc_evidence (fold path_scan_step es scan_start))"
    by (rule paths.distinct_le_evidence)
  have "emitted_ok sg" unfolding f [THEN conjunct2, THEN conjunct1]
    by (rule built_signal_ok)
      (use assms f go ok(3) le catalogue_size [OF go(5)] paths.evidence_of [OF go(2-4)] in
        \<open>simp_all add: classifications metrics_fit_def metricsReproduceRule_def rule_distinct zero_metrics_def PathScanThreshold_def\<close>)
  then show "reports e sg" using f by (simp add: reports_def)
  show "mt_EventCount (ev_Observed e) \<le> int (length (ei_GatewayEvents inp))"
    using f go(6) paths.evidence_le [of es] normalized_events_le(1) [OF assms(2)] by (simp add: zero_metrics_def)
qed

lemma request_burst_signal_ok:
  assumes "detector_ok d" "normalizeInput inp (dt_config d) = Inr n" "e \<in> set (evaluateRequestBurst d n)" "ev_Signal e = Some sg"
  shows "reports e sg" "mt_EventCount (ev_Observed e) \<le> int (length (ei_GatewayEvents inp))"
proof -
  note nf = normalizeInput_facts [OF assms(2)] and ok = normalized_events_ok [OF assms(2)]
  have fr: "cf_RequestBurstThreshold (dt_config d) = 120" "cf_RequestBurstWindow (dt_config d) = 10 * Second"
    using assms(1) by (simp_all add: detector_ok_def frozen_def)
  obtain g es th h u where ge: "(g, es) \<in> set (groupGatewayEvents (ei_GatewayEvents n) (ei_Now n - 10 * Second) (ei_Now n))"
    and e: "e = finalizeEvaluation d RuleRequestBurst g (ei_Now n - 10 * Second) (ei_Now n) th
      (zero_metrics\<lparr>mt_EventCount := int (length (sc_evidence (fold burst_step es scan_start)))\<rparr>)
      h u False (120 \<le> int (length (sc_evidence (fold burst_step es scan_start)))) ClassificationRequestBurst
      (sc_evidence (fold burst_step es scan_start))"
    using assms(3) unfolding evaluateRequestBurst_def Let_def fr by auto
  note f = finalize_Some [OF e assms(4)] and go = gateway_group_ok [OF ge ok(1) nf(3,4)]
  have "emitted_ok sg" unfolding f [THEN conjunct2, THEN conjunct1]
    by (rule built_signal_ok)
      (use assms f go ok(3) burst.evidence_of [OF go(2-4)] in
        \<open>simp_all add: classifications metrics_fit_def metricsReproduceRule_def rule_distinct zero_metrics_def RequestBurstThreshold_def\<close>)
  then show "reports e sg" using f by (simp add: reports_def)
  show "mt_EventCount (ev_Observed e) \<le> int (length (ei_GatewayEvents inp))"
    using f go(6) burst.evidence_le [of es] normalized_events_le(1) [OF assms(2)] by (simp add: zero_metrics_def)
qed

lemma login_bruteforce_signal_ok:
  assumes "detector_ok d" "normalizeInput inp (dt_config d) = Inr n" "e \<in> set (evaluateLoginBruteForce d n)" "ev_Signal e = Some sg"
  shows "reports e sg" "mt_EventCount (ev_Observed e) \<le> int (length (ei_GatewayEvents inp))"
proof -
  note nf = normalizeInput_facts [OF assms(2)] and ok = normalized_events_ok [OF assms(2)]
  have fr: "cf_LoginBruteForceThreshold (dt_config d) = 10" "cf_LoginBruteForceWindow (dt_config d) = 60 * Second"
    using assms(1) by (simp_all add: detector_ok_def frozen_def)
  obtain g es th h u v where ge: "(g, es) \<in> set (groupGatewayEvents (ei_GatewayEvents n) (ei_Now n - 60 * Second) (ei_Now n))"
    and e: "e = finalizeEvaluation d RuleLoginBruteForce g (ei_Now n - 60 * Second) (ei_Now n) th
      (zero_metrics\<lparr>mt_EventCount := int (length (sc_evidence (fold (brute_force_step (cf_LoginRouteLabel (dt_config d))) es scan_start)))\<rparr>)
      h u v (10 \<le> int (length (sc_evidence (fold (brute_force_step (cf_LoginRouteLabel (dt_config d))) es scan_start))))
      ClassificationLoginBruteForce (sc_evidence (fold (brute_force_step (cf_LoginRouteLabel (dt_config d))) es scan_start))"
    using assms(3) unfolding evaluateLoginBruteForce_def Let_def fr by auto
  note f = finalize_Some [OF e assms(4)] and go = gateway_group_ok [OF ge ok(1) nf(3,4)]
  have "emitted_ok sg" unfolding f [THEN conjunct2, THEN conjunct1]
    by (rule built_signal_ok)
      (use assms f go ok(3) logins.evidence_of [OF go(2-4)] in
        \<open>simp_all add: classifications metrics_fit_def metricsReproduceRule_def rule_distinct zero_metrics_def LoginBruteForceThreshold_def\<close>)
  then show "reports e sg" using f by (simp add: reports_def)
  show "mt_EventCount (ev_Observed e) \<le> int (length (ei_GatewayEvents inp))"
    using f go(6) logins.evidence_le [of "cf_LoginRouteLabel (dt_config d)" es] normalized_events_le(1) [OF assms(2)] by (simp add: zero_metrics_def)
qed

lemma credential_stuffing_signal_ok:
  assumes "detector_ok d" "normalizeInput inp (dt_config d) = Inr n" "e \<in> set (evaluateCredentialStuffing d n)" "ev_Signal e = Some sg"
  shows "reports e sg" "mt_EventCount (ev_Observed e) \<le> int (length (ei_AuthEvents inp))"
proof -
  note nf = normalizeInput_facts [OF assms(2)] and ok = normalized_events_ok [OF assms(2)]
  have fr: "cf_CredentialStuffingEventThreshold (dt_config d) = 20" "cf_CredentialStuffingAccountThreshold (dt_config d) = 8"
    "cf_CredentialStuffingWindow (dt_config d) = 5 * Minute" using assms(1) by (simp_all add: detector_ok_def frozen_def)
  obtain g es th h u v where ge: "(g, es) \<in> set (groupAuthEvents (ei_AuthEvents n) (ei_Now n - 5 * Minute) (ei_Now n))"
    and e: "e = finalizeEvaluation d RuleCredentialStuffing g (ei_Now n - 5 * Minute) (ei_Now n) th
      (zero_metrics\<lparr>mt_EventCount := int (length (sc_evidence (fold stuffing_step es scan_start))),
        mt_DistinctAccountCount := int (length (sc_distinct (fold stuffing_step es scan_start)))\<rparr>)
      h u v (20 \<le> int (length (sc_evidence (fold stuffing_step es scan_start))) \<and>
        8 \<le> int (length (sc_distinct (fold stuffing_step es scan_start)))) ClassificationCredentialStuffing
      (sc_evidence (fold stuffing_step es scan_start))"
    using assms(3) unfolding evaluateCredentialStuffing_def Let_def fr by auto
  note f = finalize_Some [OF e assms(4)] and go = auth_group_ok [OF ge ok(2) nf(6,7)]
  have le: "length (sc_distinct (fold stuffing_step es scan_start)) \<le> length (sc_evidence (fold stuffing_step es scan_start))"
    by (rule stuffing.distinct_le_evidence)
  have "emitted_ok sg" unfolding f [THEN conjunct2, THEN conjunct1]
    by (rule built_signal_ok)
      (use assms f go ok(3) le stuffing.evidence_of [OF go(2-4)] in
        \<open>simp_all add: classifications metrics_fit_def metricsReproduceRule_def rule_distinct zero_metrics_def
          CredentialStuffingEventThreshold_def CredentialStuffingAccountThreshold_def\<close>)
  then show "reports e sg" using f by (simp add: reports_def)
  show "mt_EventCount (ev_Observed e) \<le> int (length (ei_AuthEvents inp))"
    using f go(5) stuffing.evidence_le [of es] normalized_events_le(2) [OF assms(2)] by (simp add: zero_metrics_def)
qed

lemma example_matched:
  "\<exists>out e sg. Evaluate example_detector scan_up = Inr out \<and> e \<in> set (out_PathScan out) \<and> ev_Signal e = Some sg \<and>
     ev_WindowStart e = 999 * Minute \<and> mt_EventCount (ev_Observed e) \<le> 1000000"
proof -
  obtain n where n: "normalizeInput scan_up (dt_config example_detector) = Inr n" using example_normalize by blast
  have fr: "frozen (dt_config example_detector)" by (rule New_frozen [OF example_New])
  then obtain e where e: "e \<in> set (evaluatePathScan example_detector n)" "ev_Group e = (''192.0.2.10'', ''shop'')"
    using example_evaluated [OF n] by (auto simp: frozen_def)
  have "ev_Signal e \<noteq> None"
    using path_scan_decides [OF fr n e(1)] example_fires unfolding e(2) decided_def by (cases "ev_Signal e") simp_all
  moreover have "ev_WindowStart e = 999 * Minute \<and> mt_EventCount (ev_Observed e) \<le> 8"
  proof -
    have w: "cf_PathScanWindow (dt_config example_detector) = 60 * Second" using fr by (simp add: frozen_def)
    obtain g es where ge: "(g, es) \<in> set (groupGatewayEvents (ei_GatewayEvents n) (ei_Now n - 60 * Second) (ei_Now n))"
      and "ev_WindowStart e = ei_Now n - 60 * Second"
        "mt_EventCount (ev_Observed e) = int (length (sc_evidence (fold path_scan_step es scan_start)))"
      using e(1) unfolding evaluatePathScan_def Let_def w by (auto simp: finalizeEvaluation_def Let_def)
    moreover have "length (sc_evidence (fold path_scan_step es scan_start)) \<le> length es" by (simp add: paths.clean_scan)
    moreover have "length es \<le> length (ei_GatewayEvents n)" using ge by (auto simp: groupGatewayEvents_def group_events_iff)
    moreover have "length (ei_GatewayEvents n) = card (set (ei_GatewayEvents scan_up))"
      using normalizeInput_facts(2,3) [OF n] distinct_card by metis
    moreover have "card (set (ei_GatewayEvents scan_up)) \<le> 8"
      using card_length [of "ei_GatewayEvents scan_up"] by (simp add: example_input_def)
    moreover have "ei_Now n = 1000 * Minute" using normalizeInput_facts(1) [OF n] by (simp add: example_input_def example_time_def)
    ultimately show ?thesis by auto
  qed
  moreover have "Evaluate example_detector scan_up = Inr \<lparr>out_ConfigurationVersion = cf_Version (dt_config example_detector),
      out_ConfigurationDigest = dt_configDigest example_detector, out_PathScan = evaluatePathScan example_detector n,
      out_RequestBurst = evaluateRequestBurst example_detector n, out_LoginBruteForce = evaluateLoginBruteForce example_detector n,
      out_CredentialStuffing = evaluateCredentialStuffing example_detector n\<rparr>" unfolding Evaluate_def n by simp
  ultimately show ?thesis using e(1) by force
qed

end
