(* ===== verification/Go_Base64.thy ===== *)
theory Go_Base64
  imports Prelude "HOL-Library.Monad_Syntax"
begin

text \<open>
  \<open>base64.RawURLEncoding\<close>: three bytes are four characters of the URL alphabet, without padding.
  Decoding skips line breaks; \<open>Strict()\<close> also refuses unused bits that are not zero. Capabilities and
  journal records compare the encoding of the decoded bytes with the text, so what they accept is exactly an
  encoding; the transport envelope does not (\<open>Ipc\<close>).
\<close>

definition b64_alphabet :: string where
  "b64_alphabet = ''ABCDEFGHIJKLMNOPQRSTUVWXYZabcdefghijklmnopqrstuvwxyz0123456789-_''"

definition b64_char :: "nat \<Rightarrow> char" where
  "b64_char n = b64_alphabet ! n"

definition b64_val :: "char \<Rightarrow> nat option" where
  "b64_val c =
     (let n = (of_char c :: nat) in
      if is_upper c then Some (n - 65) else if is_lower c then Some (n - 71)
      else if is_digit c then Some (n + 4) else if c = CHR ''-'' then Some 62
      else if c = CHR ''_'' then Some 63 else None)"

definition is_b64 :: "char \<Rightarrow> bool" where
  "is_b64 c \<longleftrightarrow> is_upper c \<or> is_lower c \<or> is_digit c \<or> c = CHR ''-'' \<or> c = CHR ''_''"

abbreviation ord :: "char \<Rightarrow> nat" where
  "ord c \<equiv> of_char c"

fun b64_encode :: "bytes \<Rightarrow> string" where
  "b64_encode [] = []"
| "b64_encode [a] = [b64_char (ord a div 4), b64_char (ord a mod 4 * 16)]"
| "b64_encode [a, b] =
     [b64_char (ord a div 4), b64_char (ord a mod 4 * 16 + ord b div 16), b64_char (ord b mod 16 * 4)]"
| "b64_encode (a # b # c # r) =
     b64_char (ord a div 4) # b64_char (ord a mod 4 * 16 + ord b div 16) #
     b64_char (ord b mod 16 * 4 + ord c div 64) # b64_char (ord c mod 64) # b64_encode r"

text \<open>\<open>decodeQuantum\<close>, on the six-bit values of the characters.\<close>

fun b64_quanta :: "bool \<Rightarrow> nat list \<Rightarrow> bytes option" where
  "b64_quanta strict [] = Some []"
| "b64_quanta strict [u] = None"
| "b64_quanta strict [u, v] =
     (if strict \<and> v mod 16 \<noteq> 0 then None else Some [char_of (u * 4 + v div 16)])"
| "b64_quanta strict [u, v, w] =
     (if strict \<and> w mod 4 \<noteq> 0 then None
      else Some [char_of (u * 4 + v div 16), char_of (v mod 16 * 16 + w div 4)])"
| "b64_quanta strict (u # v # w # x # r) =
     map_option (\<lambda>bs. char_of (u * 4 + v div 16) # char_of (v mod 16 * 16 + w div 4) #
       char_of (w mod 4 * 64 + x) # bs) (b64_quanta strict r)"

definition b64_values :: "string \<Rightarrow> nat list option" where
  "b64_values s =
     (let vs = map b64_val (filter (\<lambda>c. c \<noteq> CHR 0x0A \<and> c \<noteq> CHR 0x0D) s)
      in if list_all (\<lambda>v. v \<noteq> None) vs then Some (map the vs) else None)"

definition b64_decode :: "bool \<Rightarrow> string \<Rightarrow> bytes option" where
  "b64_decode strict s = Option.bind (b64_values s) (b64_quanta strict)"

section \<open>Round trip\<close>

lemma b64_table: "map b64_val b64_alphabet = map Some [0..<64]" "list_all is_b64 b64_alphabet"
  by (simp_all add: b64_alphabet_def b64_val_def is_b64_def class_defs upt_rec)

lemma b64_char_ok: "n < 64 \<Longrightarrow> b64_val (b64_char n) = Some n" "n < 64 \<Longrightarrow> is_b64 (b64_char n)"
proof -
  have len: "length b64_alphabet = 64" by (simp add: b64_alphabet_def)
  show "n < 64 \<Longrightarrow> is_b64 (b64_char n)"
    using b64_table(2) by (simp add: b64_char_def list_all_length len)
  assume n: "n < 64"
  then have "map b64_val b64_alphabet ! n = map Some [0..<64] ! n" by (simp only: b64_table(1))
  with n show "b64_val (b64_char n) = Some n" by (simp add: b64_char_def len)
qed

lemma sextet_bounds:
  "ord a div 4 < 64" "ord a mod 4 * 16 < 64" "ord a mod 4 * 16 + ord b div 16 < 64"
  "ord b mod 16 * 4 < 64" "ord b mod 16 * 4 + ord c div 64 < 64" "ord c mod 64 < 64"
proof -
  have lt: "ord x < 256" for x :: char by simp
  have "ord x div 4 < 64" "ord x div 16 < 16" "ord x div 64 < 4" "ord x mod 4 < 4" "ord x mod 16 < 16" for x :: char
    using lt [of x] by (simp_all add: less_mult_imp_div_less)
  note b = this
  show "ord a div 4 < 64" "ord c mod 64 < 64" by (simp_all add: b)
  show "ord a mod 4 * 16 < 64" using b(4) [of a] by linarith
  show "ord a mod 4 * 16 + ord b div 16 < 64" using b(4) [of a] b(2) [of b] by linarith
  show "ord b mod 16 * 4 < 64" using b(5) [of b] by linarith
  show "ord b mod 16 * 4 + ord c div 64 < 64" using b(5) [of b] b(3) [of c] by linarith
qed

lemma b64_encode_chars: "list_all is_b64 (b64_encode bs)"
  by (induction bs rule: b64_encode.induct) (simp_all add: b64_char_ok sextet_bounds)

lemma b64_encode_length: "length (b64_encode bs) = (4 * length bs + 2) div 3"
  by (induction bs rule: b64_encode.induct) simp_all

lemma is_b64_visible: "is_b64 c \<Longrightarrow> c \<noteq> CHR 0x0A \<and> c \<noteq> CHR 0x0D"
  by (auto simp: is_b64_def class_defs)

definition sextets :: "bytes \<Rightarrow> nat list" where
  "sextets bs = map (the \<circ> b64_val) (b64_encode bs)"

lemma is_b64_val: "is_b64 c \<Longrightarrow> b64_val c \<noteq> None"
  by (auto simp: is_b64_def b64_val_def Let_def)

lemma b64_values_encode: "b64_values (b64_encode bs) = Some (sextets bs)"
proof -
  have f: "filter (\<lambda>c. c \<noteq> CHR 0x0A \<and> c \<noteq> CHR 0x0D) (b64_encode bs) = b64_encode bs"
    using b64_encode_chars [of bs] by (simp add: filter_id_conv list_all_iff is_b64_visible)
  have "list_all (\<lambda>v. v \<noteq> None) (map b64_val (b64_encode bs))"
    using b64_encode_chars [of bs] is_b64_val by (auto simp: list_all_iff)
  with f show ?thesis by (simp add: b64_values_def sextets_def)
qed

lemma quantum_bytes:
  "ord a div 4 * 4 + (ord a mod 4 * 16 + ord b div 16) div 16 = ord a"
  "(ord a mod 4 * 16 + ord b div 16) mod 16 * 16 + (ord b mod 16 * 4 + ord c div 64) div 4 = ord b"
  "(ord b mod 16 * 4 + ord c div 64) mod 4 * 64 + ord c mod 64 = ord c"
proof -
  have lt: "ord x < 256" for x :: char by simp
  have b: "ord b div 16 < 16" "ord c div 64 < 4" using lt [of b] lt [of c] by (simp_all add: less_mult_imp_div_less)
  have "(ord a mod 4 * 16 + ord b div 16) div 16 = ord a mod 4" using b by simp
  then show "ord a div 4 * 4 + (ord a mod 4 * 16 + ord b div 16) div 16 = ord a" by simp
  have "(ord a mod 4 * 16 + ord b div 16) mod 16 = ord b div 16" "(ord b mod 16 * 4 + ord c div 64) div 4 = ord b mod 16"
    using b by simp_all
  then show "(ord a mod 4 * 16 + ord b div 16) mod 16 * 16 + (ord b mod 16 * 4 + ord c div 64) div 4 = ord b" by simp
  have "(ord b mod 16 * 4 + ord c div 64) mod 4 = ord c div 64" using b by simp
  then show "(ord b mod 16 * 4 + ord c div 64) mod 4 * 64 + ord c mod 64 = ord c" by simp
qed

lemma b64_quanta_sextets: "b64_quanta strict (sextets bs) = Some bs"
proof (induction bs rule: b64_encode.induct)
  case (2 a)
  have "ord a mod 4 * 16 div 16 = ord a mod 4" by simp
  then have "char_of (ord a div 4 * 4 + ord a mod 4 * 16 div 16) = a" by simp
  then show ?case by (simp add: sextets_def b64_char_ok sextet_bounds del: of_char_of)
next
  case (3 a b)
  have "ord b mod 16 * 4 div 4 = ord b mod 16" by simp
  then have "(ord a mod 4 * 16 + ord b div 16) mod 16 * 16 + ord b mod 16 * 4 div 4 = ord b"
    using quantum_bytes(2) [of a b "CHR 0x00"] by simp
  then show ?case
    by (simp add: sextets_def b64_char_ok sextet_bounds quantum_bytes(1))
next
  case (4 a b c r)
  have "sextets (a # b # c # r) = ord a div 4 # (ord a mod 4 * 16 + ord b div 16) #
      (ord b mod 16 * 4 + ord c div 64) # ord c mod 64 # sextets r"
    by (simp add: sextets_def b64_char_ok sextet_bounds)
  with 4 show ?case by (simp only: b64_quanta.simps quantum_bytes) simp
qed (simp add: sextets_def)

theorem b64_decode_encode: "b64_decode strict (b64_encode bs) = Some bs"
  by (simp add: b64_decode_def b64_values_encode b64_quanta_sextets)

lemma b64_encode_inj: "b64_encode a = b64_encode b \<longleftrightarrow> a = b"
  by (metis b64_decode_encode option.inject)

lemma b64_encode_Nil_iff: "b64_encode bs = [] \<longleftrightarrow> bs = []"
  using b64_encode_inj [of bs "[]"] by simp

text \<open>Decoding followed by the comparison of the encoding.\<close>

lemma b64_exact: "(\<exists>bs. b64_decode strict s = Some bs \<and> b64_encode bs = s \<and> P bs) \<longleftrightarrow> (\<exists>bs. s = b64_encode bs \<and> P bs)"
  using b64_decode_encode by metis

end
