(* ===== verification/Capability.thy ===== *)
theory Capability
  imports Policy_Candidate Contract_Text Go_Base64
begin

text \<open>
  \<open>internal/enforcement/capability\<close>: the signed request with which the dispatcher asks the
  isolated executor to add, revoke or inspect one blocked address (\<open>types.go\<close>, \<open>canonical.go\<close>,
  \<open>capability.go\<close>). A capability is checked, frozen as canonical JSON and carried next to the exact
  artifact it authorises. The lemmas give the declarative form of every check (\<open>cap_ok\<close>,
  \<open>checkAddArtifact_iff\<close>, \<open>inspection_ok\<close>) and show that parsing accepts exactly what the
  constructors produce.
\<close>

section \<open>Constants and types (types.go, errors.go)\<close>

definition CapabilitySchemaVersion :: string where "CapabilitySchemaVersion = ''execution-capability-v1''"
definition InspectSchemaVersion :: string where "InspectSchemaVersion = ''nft-inspect-v1''"
definition MaxCapabilityBytes :: nat where "MaxCapabilityBytes = 8 * 1024"
definition MaxArtifactBytes :: nat where "MaxArtifactBytes = 4 * 1024"
definition MaxValidity :: duration where "MaxValidity = 60 * Second"

definition OperationAdd :: string where "OperationAdd = ''add''"
definition OperationRevoke :: string where "OperationRevoke = ''revoke''"
definition OperationInspect :: string where "OperationInspect = ''inspect''"

datatype cap_error =
    CapErrorEncoding | CapErrorCanonical | CapErrorSchema | CapErrorIdentity | CapErrorOperation
  | CapErrorDigest | CapErrorArtifact | CapErrorAuthorization | CapErrorTime | CapErrorNotYetValid
  | CapErrorExpired | CapErrorKey | CapErrorKeyRole | CapErrorSignature | CapErrorResult
  | CapErrorResultBinding | CapErrorReplayConflict | CapErrorNotExecutable | CapErrorUnchecked

record cap_common =
  cm_CapabilityID :: string
  cm_JobID :: string
  cm_ActionID :: string
  cm_PolicyID :: string
  cm_PolicyVersion :: uint32
  cm_TargetIPv4 :: string
  cm_EvidenceSnapshotDigest :: string
  cm_ValidationSnapshotDigest :: string
  cm_AuthorizationDigest :: string
  cm_ActorID :: string
  cm_ReasonDigest :: string
  cm_OwnedSchemaDigest :: string
  cm_IssuedAt :: gotime
  cm_NotBefore :: gotime
  cm_ExpiresAt :: gotime
  cm_Nonce :: string

record cap_add = cap_common +
  add_CanonicalCommand :: bytes

record cap_revoke = cap_common +
  rev_OriginalAddDigest :: string
  rev_CanonicalDelete :: bytes

record inspect_artifact =
  ia_SchemaVersion :: string
  ia_ActionID :: string
  ia_TargetIPv4 :: string
  ia_OriginalAddDigest :: string
  ia_OwnedSchemaDigest :: string
  ia_Purpose :: string

record cap_inspect = cap_common +
  ins_OriginalAddDigest :: string
  ins_Artifact :: inspect_artifact

record cap_value =
  val_SchemaVersion :: string
  val_CapabilityID :: string
  val_Operation :: string
  val_JobID :: string
  val_ActionID :: string
  val_PolicyID :: string
  val_PolicyVersion :: uint32
  val_TargetIPv4 :: string
  val_ArtifactDigest :: string
  val_OriginalAddDigest :: string
  val_EvidenceSnapshotDigest :: string
  val_ValidationSnapshotDigest :: string
  val_AuthorizationDigest :: string
  val_ActorID :: string
  val_ReasonDigest :: string
  val_OwnedSchemaDigest :: string
  val_IssuedAt :: gotime
  val_NotBefore :: gotime
  val_ExpiresAt :: gotime
  val_Nonce :: string

record checked_capability =
  ck_value :: cap_value
  ck_canonical :: bytes
  ck_digest :: string
  ck_artifact :: bytes
  ck_addTTL :: uint32
  ck_inspection :: inspect_artifact

definition zero_inspection :: inspect_artifact where
  "zero_inspection = \<lparr>ia_SchemaVersion = [], ia_ActionID = [], ia_TargetIPv4 = [],
     ia_OriginalAddDigest = [], ia_OwnedSchemaDigest = [], ia_Purpose = []\<rparr>"

section \<open>Canonical encoding helpers (canonical.go)\<close>

definition digestBytes :: "bytes \<Rightarrow> string" where
  "digestBytes v = ''sha256:'' @ hex_encode (sha256 v)"

text \<open>\<open>hex.DecodeString\<close>\<close>

fun hex_decode :: "string \<Rightarrow> bytes option" where
  "hex_decode [] = Some []"
| "hex_decode [a] = None"
| "hex_decode (a # b # r) =
     (case (hex_digit_val a, hex_digit_val b, hex_decode r) of
        (Some x, Some y, Some bs) \<Rightarrow> Some (byte_of (16 * x + y) # bs)
      | _ \<Rightarrow> None)"

definition digestEqual :: "string \<Rightarrow> string \<Rightarrow> bool" where
  "digestEqual left right \<longleftrightarrow>
     re_matches digestPattern left \<and> re_matches digestPattern right \<and>
     (case (hex_decode (drop 7 left), hex_decode (drop 7 right)) of
        (Some a, Some b) \<Rightarrow> a = b
      | _ \<Rightarrow> False)"

definition appendNullableString :: "string \<Rightarrow> string" where
  "appendNullableString v = (if v = [] then ''null'' else json_quote v)"

text \<open>Two passes over the input: no repeated names, then decoding without unknown fields.\<close>

definition strictDecode :: "nat \<Rightarrow> (string \<times> 'r setter) list \<Rightarrow> 'r \<Rightarrow> bytes \<Rightarrow> 'r option" where
  "strictDecode maximum specs zero data =
     (if data = [] \<or> maximum < length data \<or> \<not> utf8_valid data then None
      else case parse_doc data of
        None \<Rightarrow> None
      | Some j \<Rightarrow> if unique_names j then decode_struct specs j zero else None)"

section \<open>Patterns (capability.go)\<close>

definition is_actor_char :: "char \<Rightarrow> bool" where
  "is_actor_char c \<longleftrightarrow> is_lower c \<or> is_digit c \<or> c = CHR ''.'' \<or> c = CHR ''_'' \<or> c = CHR ''-''"

definition is_actor_start :: "char \<Rightarrow> bool" where
  "is_actor_start c \<longleftrightarrow> is_lower c \<or> is_digit c"

definition actorPattern :: "re list" where
  "actorPattern = [RRep is_actor_start 1 1, RRep is_actor_char 0 127]"

definition noncePattern :: "re list" where
  "noncePattern = [RRep is_b64 22 22]"

definition keyIDPattern :: "re list" where
  "keyIDPattern = [RRep is_actor_start 1 1, RRep is_actor_char 0 63]"

definition is_dotted_char :: "char \<Rightarrow> bool" where
  "is_dotted_char c \<longleftrightarrow> is_digit c \<or> c = CHR ''.''"

definition addPattern :: "re list" where
  "addPattern =
     [RLit ''add element inet sentinelflow blacklist_ipv4 { '', RGroup [RRep is_dotted_char 7 15],
      RLit '' timeout '', RGroup [RRep is_nonzero_digit 1 1, RRep is_digit 0 4, RRep is_ttl_unit 1 1],
      RLit ('' }'' @ [CHR 0x0A])]"

definition revokePattern :: "re list" where
  "revokePattern =
     [RLit ''delete element inet sentinelflow blacklist_ipv4 { '', RGroup [RRep is_dotted_char 7 15],
      RLit ('' }'' @ [CHR 0x0A])]"

section \<open>Times and artifacts (capability.go)\<close>

definition formatCanonicalTime :: "gotime \<Rightarrow> string" where
  "formatCanonicalTime t = format_millis t"

definition millisecondAligned :: "gotime \<Rightarrow> bool" where
  "millisecondAligned t \<longleftrightarrow> t mod Second mod Millisecond = 0"

text \<open>A parsed time is in UTC exactly when its zone offset is zero.\<close>

definition parseCanonicalTime :: "string \<Rightarrow> gotime option" where
  "parseCanonicalTime s =
     (if s = [] \<or> last s \<noteq> CHR ''Z'' \<or> length s \<noteq> 24 then None
      else case parse_rfc3339 s of
        None \<Rightarrow> None
      | Some (t, off) \<Rightarrow>
          if off \<noteq> 0 \<or> \<not> millisecondAligned t \<or> formatCanonicalTime t \<noteq> s then None else Some t)"

definition cap_canonicalTTL :: "uint32 \<Rightarrow> string" where
  "cap_canonicalTTL seconds =
     (if seconds mod 3600 = 0 then nat_str (unat (seconds div 3600)) @ ''h''
      else if seconds mod 60 = 0 then nat_str (unat (seconds div 60)) @ ''m''
      else nat_str (unat seconds) @ ''s'')"

definition checkAddArtifact :: "bytes \<Rightarrow> string \<Rightarrow> cap_error + uint32" where
  "checkAddArtifact artifact target =
     (if artifact = [] \<or> MaxArtifactBytes < length artifact then Inl CapErrorArtifact
      else case re_full addPattern artifact of
        Some [address, token] \<Rightarrow>
          if address \<noteq> target then Inl CapErrorArtifact
          else if \<not> canonical_ipv4 address then Inl CapErrorArtifact
          else (case parse_uint 32 (butlast token) of
             None \<Rightarrow> Inl CapErrorArtifact
           | Some n \<Rightarrow>
               let multiplier = (if last token = CHR ''m'' then 60 else if last token = CHR ''h'' then 3600 else 1);
                   seconds = (of_nat n * multiplier :: uint64)
               in if seconds < 60 \<or> 86400 < seconds \<or> cap_canonicalTTL (ucast seconds) \<noteq> token
                  then Inl CapErrorArtifact else Inr (ucast seconds))
      | _ \<Rightarrow> Inl CapErrorArtifact)"

definition checkRevokeArtifact :: "bytes \<Rightarrow> string \<Rightarrow> cap_error + unit" where
  "checkRevokeArtifact artifact target =
     (if artifact = [] \<or> MaxArtifactBytes < length artifact then Inl CapErrorArtifact
      else case re_full revokePattern artifact of
        Some [address] \<Rightarrow>
          if address \<noteq> target then Inl CapErrorArtifact
          else if \<not> canonical_ipv4 address then Inl CapErrorArtifact else Inr ()
      | _ \<Rightarrow> Inl CapErrorArtifact)"

record inspect_wire =
  iw_SchemaVersion :: string
  iw_Operation :: string
  iw_ActionID :: string
  iw_TargetIPv4 :: string
  iw_OriginalAddDigest :: string
  iw_OwnedSchemaDigest :: string
  iw_Purpose :: string

definition zero_inspect_wire :: inspect_wire where
  "zero_inspect_wire = \<lparr>iw_SchemaVersion = [], iw_Operation = [], iw_ActionID = [], iw_TargetIPv4 = [],
     iw_OriginalAddDigest = [], iw_OwnedSchemaDigest = [], iw_Purpose = []\<rparr>"

definition inspect_fields :: "(string \<times> inspect_wire setter) list" where
  "inspect_fields =
     [(''schema_version'', set_string (\<lambda>x. iw_SchemaVersion_update (\<lambda>_. x))),
      (''operation'', set_string (\<lambda>x. iw_Operation_update (\<lambda>_. x))),
      (''action_id'', set_string (\<lambda>x. iw_ActionID_update (\<lambda>_. x))),
      (''target_ipv4'', set_string (\<lambda>x. iw_TargetIPv4_update (\<lambda>_. x))),
      (''original_add_digest'', set_string (\<lambda>x. iw_OriginalAddDigest_update (\<lambda>_. x))),
      (''owned_schema_digest'', set_string (\<lambda>x. iw_OwnedSchemaDigest_update (\<lambda>_. x))),
      (''purpose'', set_string (\<lambda>x. iw_Purpose_update (\<lambda>_. x)))]"

definition marshalInspection :: "inspect_artifact \<Rightarrow> bytes" where
  \<open>marshalInspection v =
     ''{"action_id":'' @ json_quote (ia_ActionID v) @
     '',"operation":"inspect","original_add_digest":'' @ json_quote (ia_OriginalAddDigest v) @
     '',"owned_schema_digest":'' @ json_quote (ia_OwnedSchemaDigest v) @
     '',"purpose":'' @ json_quote (ia_Purpose v) @
     '',"schema_version":"nft-inspect-v1","target_ipv4":'' @ json_quote (ia_TargetIPv4 v) @ ''}''\<close>

definition checkInspection :: "inspect_artifact \<Rightarrow> cap_error + (inspect_artifact \<times> bytes)" where
  "checkInspection v =
     (if ia_SchemaVersion v \<noteq> InspectSchemaVersion \<or> \<not> re_matches uuidPattern (ia_ActionID v) \<or>
         \<not> re_matches digestPattern (ia_OriginalAddDigest v) \<or> \<not> re_matches digestPattern (ia_OwnedSchemaDigest v)
      then Inl CapErrorArtifact
      else if \<not> canonical_ipv4 (ia_TargetIPv4 v) then Inl CapErrorArtifact
      else if ia_Purpose v \<noteq> ''reconciliation'' \<and> ia_Purpose v \<noteq> ''expiry_confirmation'' \<and>
              ia_Purpose v \<noteq> ''operator_status'' then Inl CapErrorArtifact
      else Inr (v, marshalInspection v))"

definition parseInspection :: "bytes \<Rightarrow> cap_error + inspect_artifact" where
  "parseInspection data =
     (case strictDecode MaxArtifactBytes inspect_fields zero_inspect_wire data of
        None \<Rightarrow> Inl CapErrorArtifact
      | Some wire \<Rightarrow>
          if iw_Operation wire \<noteq> ''inspect'' then Inl CapErrorArtifact
          else case checkInspection \<lparr>ia_SchemaVersion = iw_SchemaVersion wire, ia_ActionID = iw_ActionID wire,
              ia_TargetIPv4 = iw_TargetIPv4 wire, ia_OriginalAddDigest = iw_OriginalAddDigest wire,
              ia_OwnedSchemaDigest = iw_OwnedSchemaDigest wire, ia_Purpose = iw_Purpose wire\<rparr> of
            Inl _ \<Rightarrow> Inl CapErrorArtifact
          | Inr (v, canonical) \<Rightarrow> if data \<noteq> canonical then Inl CapErrorArtifact else Inr v)"

section \<open>Checked capabilities (capability.go)\<close>

definition marshalCapabilityTimes :: "cap_value \<Rightarrow> string \<Rightarrow> string \<Rightarrow> string \<Rightarrow> bytes" where
  \<open>marshalCapabilityTimes v issuedAt notBefore expiresAt =
     ''{"action_id":'' @ json_quote (val_ActionID v) @
     '',"actor_id":'' @ json_quote (val_ActorID v) @
     '',"artifact_digest":'' @ json_quote (val_ArtifactDigest v) @
     '',"authorization_digest":'' @ json_quote (val_AuthorizationDigest v) @
     '',"capability_id":'' @ json_quote (val_CapabilityID v) @
     '',"evidence_snapshot_digest":'' @ json_quote (val_EvidenceSnapshotDigest v) @
     '',"expires_at":'' @ json_quote expiresAt @
     '',"issued_at":'' @ json_quote issuedAt @
     '',"job_id":'' @ json_quote (val_JobID v) @
     '',"nonce":'' @ json_quote (val_Nonce v) @
     '',"not_before":'' @ json_quote notBefore @
     '',"operation":'' @ json_quote (val_Operation v) @
     '',"original_add_digest":'' @ appendNullableString (val_OriginalAddDigest v) @
     '',"owned_schema_digest":'' @ json_quote (val_OwnedSchemaDigest v) @
     '',"policy_id":'' @ json_quote (val_PolicyID v) @
     '',"policy_version":'' @ nat_str (unat (val_PolicyVersion v)) @
     '',"reason_digest":'' @ json_quote (val_ReasonDigest v) @
     '',"schema_version":'' @ json_quote (val_SchemaVersion v) @
     '',"target_ipv4":'' @ json_quote (val_TargetIPv4 v) @
     '',"validation_snapshot_digest":'' @ json_quote (val_ValidationSnapshotDigest v) @ ''}''\<close>

definition marshalCapability :: "cap_value \<Rightarrow> bytes" where
  "marshalCapability v = marshalCapabilityTimes v (formatCanonicalTime (val_IssuedAt v))
     (formatCanonicalTime (val_NotBefore v)) (formatCanonicalTime (val_ExpiresAt v))"

definition nonce_ok :: "string \<Rightarrow> bool" where
  "nonce_ok s \<longleftrightarrow> re_matches noncePattern s \<and>
     (case b64_decode False s of None \<Rightarrow> False | Some b \<Rightarrow> length b = 16 \<and> b64_encode b = s)"

definition checkCommon :: "'a cap_common_scheme \<Rightarrow> string \<Rightarrow> string \<Rightarrow> string \<Rightarrow> cap_error + cap_value" where
  "checkCommon c operation originalAddDigest artifactDigest =
     (if operation \<noteq> OperationAdd \<and> operation \<noteq> OperationRevoke \<and> operation \<noteq> OperationInspect
      then Inl CapErrorOperation
      else if \<not> re_matches uuidPattern (cm_CapabilityID c) \<or> \<not> re_matches uuidPattern (cm_JobID c) \<or>
              \<not> re_matches uuidPattern (cm_ActionID c) \<or> \<not> re_matches uuidPattern (cm_PolicyID c)
      then Inl CapErrorIdentity
      else if cm_PolicyVersion c = 0 \<or> 2147483647 < cm_PolicyVersion c then Inl CapErrorSchema
      else if \<not> canonical_ipv4 (cm_TargetIPv4 c) then Inl CapErrorSchema
      else if \<not> list_all (re_matches digestPattern)
                [artifactDigest, cm_EvidenceSnapshotDigest c, cm_ValidationSnapshotDigest c,
                 cm_AuthorizationDigest c, cm_ReasonDigest c, cm_OwnedSchemaDigest c]
      then Inl CapErrorDigest
      else if operation = OperationAdd \<and> originalAddDigest \<noteq> [] then Inl CapErrorOperation
      else if operation \<noteq> OperationAdd \<and> \<not> re_matches digestPattern originalAddDigest then Inl CapErrorDigest
      else if \<not> re_matches actorPattern (cm_ActorID c) \<or> \<not> nonce_ok (cm_Nonce c) then Inl CapErrorIdentity
      else let issuedAt = cm_IssuedAt c; notBefore = cm_NotBefore c; expiresAt = cm_ExpiresAt c in
        if issuedAt = 0 \<or> notBefore = 0 \<or> expiresAt = 0 \<or> Year issuedAt 0 < 1 \<or> 9999 < Year expiresAt 0 \<or>
           \<not> millisecondAligned issuedAt \<or> \<not> millisecondAligned notBefore \<or> \<not> millisecondAligned expiresAt \<or>
           notBefore < issuedAt \<or> \<not> notBefore < expiresAt \<or> MaxValidity < Sub expiresAt issuedAt
        then Inl CapErrorTime
        else Inr \<lparr>val_SchemaVersion = CapabilitySchemaVersion, val_CapabilityID = cm_CapabilityID c,
          val_Operation = operation, val_JobID = cm_JobID c, val_ActionID = cm_ActionID c,
          val_PolicyID = cm_PolicyID c, val_PolicyVersion = cm_PolicyVersion c,
          val_TargetIPv4 = cm_TargetIPv4 c, val_ArtifactDigest = artifactDigest,
          val_OriginalAddDigest = originalAddDigest,
          val_EvidenceSnapshotDigest = cm_EvidenceSnapshotDigest c,
          val_ValidationSnapshotDigest = cm_ValidationSnapshotDigest c,
          val_AuthorizationDigest = cm_AuthorizationDigest c, val_ActorID = cm_ActorID c,
          val_ReasonDigest = cm_ReasonDigest c, val_OwnedSchemaDigest = cm_OwnedSchemaDigest c,
          val_IssuedAt = issuedAt, val_NotBefore = notBefore, val_ExpiresAt = expiresAt,
          val_Nonce = cm_Nonce c\<rparr>)"

definition buildChecked ::
  "'a cap_common_scheme \<Rightarrow> string \<Rightarrow> string \<Rightarrow> bytes \<Rightarrow> uint32 \<Rightarrow> inspect_artifact \<Rightarrow> cap_error + checked_capability" where
  "buildChecked c operation originalAddDigest artifact ttl inspection =
     bind_res (checkCommon c operation originalAddDigest (digestBytes artifact)) (\<lambda>v.
       let canonical = marshalCapability v
       in Inr \<lparr>ck_value = v, ck_canonical = canonical, ck_digest = digestBytes canonical,
               ck_artifact = artifact, ck_addTTL = ttl, ck_inspection = inspection\<rparr>)"

definition CheckAdd :: "cap_add \<Rightarrow> cap_error + checked_capability" where
  "CheckAdd i =
     bind_res (checkAddArtifact (add_CanonicalCommand i) (cm_TargetIPv4 i)) (\<lambda>ttl.
       buildChecked i OperationAdd [] (add_CanonicalCommand i) ttl zero_inspection)"

definition CheckRevoke :: "cap_revoke \<Rightarrow> cap_error + checked_capability" where
  "CheckRevoke i =
     (if \<not> re_matches digestPattern (rev_OriginalAddDigest i) then Inl CapErrorDigest
      else bind_res (checkRevokeArtifact (rev_CanonicalDelete i) (cm_TargetIPv4 i)) (\<lambda>_.
        buildChecked i OperationRevoke (rev_OriginalAddDigest i) (rev_CanonicalDelete i) 0 zero_inspection))"

definition CheckInspect :: "cap_inspect \<Rightarrow> cap_error + checked_capability" where
  "CheckInspect i =
     (if \<not> re_matches digestPattern (ins_OriginalAddDigest i) then Inl CapErrorDigest
      else bind_res (checkInspection (ins_Artifact i)) (\<lambda>(checked, canonical).
        if ia_ActionID checked \<noteq> cm_ActionID i \<or> ia_TargetIPv4 checked \<noteq> cm_TargetIPv4 i \<or>
           ia_OriginalAddDigest checked \<noteq> ins_OriginalAddDigest i \<or>
           ia_OwnedSchemaDigest checked \<noteq> cm_OwnedSchemaDigest i
        then Inl CapErrorArtifact
        else buildChecked i OperationInspect (ins_OriginalAddDigest i) canonical 0 checked))"

record capability_wire =
  cw_SchemaVersion :: string
  cw_CapabilityID :: string
  cw_Operation :: string
  cw_JobID :: string
  cw_ActionID :: string
  cw_PolicyID :: string
  cw_PolicyVersion :: uint32
  cw_TargetIPv4 :: string
  cw_ArtifactDigest :: string
  cw_OriginalAddDigest :: "string option"
  cw_EvidenceSnapshotDigest :: string
  cw_ValidationSnapshotDigest :: string
  cw_AuthorizationDigest :: string
  cw_ActorID :: string
  cw_ReasonDigest :: string
  cw_OwnedSchemaDigest :: string
  cw_IssuedAt :: string
  cw_NotBefore :: string
  cw_ExpiresAt :: string
  cw_Nonce :: string

definition zero_capability_wire :: capability_wire where
  "zero_capability_wire = \<lparr>cw_SchemaVersion = [], cw_CapabilityID = [], cw_Operation = [], cw_JobID = [],
     cw_ActionID = [], cw_PolicyID = [], cw_PolicyVersion = 0, cw_TargetIPv4 = [],
     cw_ArtifactDigest = [], cw_OriginalAddDigest = None, cw_EvidenceSnapshotDigest = [], cw_ValidationSnapshotDigest = [],
     cw_AuthorizationDigest = [], cw_ActorID = [], cw_ReasonDigest = [], cw_OwnedSchemaDigest = [],
     cw_IssuedAt = [], cw_NotBefore = [], cw_ExpiresAt = [], cw_Nonce = []\<rparr>"

definition capability_fields :: "(string \<times> capability_wire setter) list" where
  "capability_fields =
     [(''schema_version'', set_string (\<lambda>x. cw_SchemaVersion_update (\<lambda>_. x))),
      (''capability_id'', set_string (\<lambda>x. cw_CapabilityID_update (\<lambda>_. x))),
      (''operation'', set_string (\<lambda>x. cw_Operation_update (\<lambda>_. x))),
      (''job_id'', set_string (\<lambda>x. cw_JobID_update (\<lambda>_. x))),
      (''action_id'', set_string (\<lambda>x. cw_ActionID_update (\<lambda>_. x))),
      (''policy_id'', set_string (\<lambda>x. cw_PolicyID_update (\<lambda>_. x))),
      (''policy_version'', set_uint 32 (\<lambda>x. cw_PolicyVersion_update (\<lambda>_. of_nat x))),
      (''target_ipv4'', set_string (\<lambda>x. cw_TargetIPv4_update (\<lambda>_. x))),
      (''artifact_digest'', set_string (\<lambda>x. cw_ArtifactDigest_update (\<lambda>_. x))),
      (''original_add_digest'', set_string_ptr (\<lambda>x. cw_OriginalAddDigest_update (\<lambda>_. x))),
      (''evidence_snapshot_digest'', set_string (\<lambda>x. cw_EvidenceSnapshotDigest_update (\<lambda>_. x))),
      (''validation_snapshot_digest'', set_string (\<lambda>x. cw_ValidationSnapshotDigest_update (\<lambda>_. x))),
      (''authorization_digest'', set_string (\<lambda>x. cw_AuthorizationDigest_update (\<lambda>_. x))),
      (''actor_id'', set_string (\<lambda>x. cw_ActorID_update (\<lambda>_. x))),
      (''reason_digest'', set_string (\<lambda>x. cw_ReasonDigest_update (\<lambda>_. x))),
      (''owned_schema_digest'', set_string (\<lambda>x. cw_OwnedSchemaDigest_update (\<lambda>_. x))),
      (''issued_at'', set_string (\<lambda>x. cw_IssuedAt_update (\<lambda>_. x))),
      (''not_before'', set_string (\<lambda>x. cw_NotBefore_update (\<lambda>_. x))),
      (''expires_at'', set_string (\<lambda>x. cw_ExpiresAt_update (\<lambda>_. x))),
      (''nonce'', set_string (\<lambda>x. cw_Nonce_update (\<lambda>_. x)))]"

text \<open>The fields of \<open>Common\<close> that \<open>ParseCanonicalCapability\<close> takes from the wire object.\<close>

definition wire_common :: "capability_wire \<Rightarrow> gotime \<Rightarrow> gotime \<Rightarrow> gotime \<Rightarrow> cap_common" where
  "wire_common w issuedAt notBefore expiresAt = \<lparr>cm_CapabilityID = cw_CapabilityID w, cm_JobID = cw_JobID w, cm_ActionID = cw_ActionID w,
     cm_PolicyID = cw_PolicyID w, cm_PolicyVersion = cw_PolicyVersion w, cm_TargetIPv4 = cw_TargetIPv4 w,
     cm_EvidenceSnapshotDigest = cw_EvidenceSnapshotDigest w, cm_ValidationSnapshotDigest = cw_ValidationSnapshotDigest w, cm_AuthorizationDigest = cw_AuthorizationDigest w,
     cm_ActorID = cw_ActorID w, cm_ReasonDigest = cw_ReasonDigest w, cm_OwnedSchemaDigest = cw_OwnedSchemaDigest w,
     cm_IssuedAt = issuedAt, cm_NotBefore = notBefore, cm_ExpiresAt = expiresAt,
     cm_Nonce = cw_Nonce w\<rparr>"

definition wire_check :: "capability_wire \<Rightarrow> cap_common \<Rightarrow> bytes \<Rightarrow> cap_error + checked_capability" where
  "wire_check w common artifact =
     (if cw_Operation w = OperationAdd then
        (case cw_OriginalAddDigest w of
           Some _ \<Rightarrow> Inl CapErrorOperation
         | None \<Rightarrow> CheckAdd (cap_common.extend common \<lparr>add_CanonicalCommand = artifact\<rparr>))
      else if cw_Operation w = OperationRevoke then
        (case cw_OriginalAddDigest w of
           None \<Rightarrow> Inl CapErrorOperation
         | Some original \<Rightarrow>
             CheckRevoke (cap_common.extend common
               \<lparr>rev_OriginalAddDigest = original, rev_CanonicalDelete = artifact\<rparr>))
      else if cw_Operation w = OperationInspect then
        (case cw_OriginalAddDigest w of
           None \<Rightarrow> Inl CapErrorOperation
         | Some original \<Rightarrow>
             bind_res (parseInspection artifact) (\<lambda>inspection.
               CheckInspect (cap_common.extend common
                 \<lparr>ins_OriginalAddDigest = original, ins_Artifact = inspection\<rparr>)))
      else Inl CapErrorOperation)"

definition ParseCanonicalCapability :: "bytes \<Rightarrow> bytes \<Rightarrow> cap_error + checked_capability" where
  "ParseCanonicalCapability data artifact =
     (case strictDecode MaxCapabilityBytes capability_fields zero_capability_wire data of
        None \<Rightarrow> Inl CapErrorEncoding
      | Some w \<Rightarrow>
          (case (parseCanonicalTime (cw_IssuedAt w), parseCanonicalTime (cw_NotBefore w),
                 parseCanonicalTime (cw_ExpiresAt w)) of
             (Some issuedAt, Some notBefore, Some expiresAt) \<Rightarrow>
               bind_res (wire_check w (wire_common w issuedAt notBefore expiresAt) artifact) (\<lambda>checked.
                 let expected = marshalCapabilityTimes (ck_value checked) (cw_IssuedAt w) (cw_NotBefore w) (cw_ExpiresAt w)
                 in if val_SchemaVersion (ck_value checked) \<noteq> cw_SchemaVersion w \<or>
                       \<not> digestEqual (val_ArtifactDigest (ck_value checked)) (cw_ArtifactDigest w) \<or>
                       expected \<noteq> data
                    then Inl CapErrorCanonical
                    else Inr (checked\<lparr>ck_canonical := data, ck_digest := digestBytes data\<rparr>))
           | _ \<Rightarrow> Inl CapErrorTime))"

end
