(* ===== verification/Flat_Json.thy ===== *)
theory Flat_Json
  imports Contract_Text
begin

text \<open>
  Flat contract documents: one JSON object whose names and strings need no escaping and whose other
  members are numbers or \<open>null\<close>. The enforcement contracts (capability, inspection, result, journal
  record, transport envelope) are all of this form; here are the facts their codecs share.
\<close>

fun flat_value :: "json \<Rightarrow> bool" where
  "flat_value JNull \<longleftrightarrow> True"
| "flat_value (JStr s) \<longleftrightarrow> list_all html_safe s"
| "flat_value (JNum t) \<longleftrightarrow> (\<exists>n. t = nat_str n)"
| "flat_value _ \<longleftrightarrow> False"

definition flat_doc :: "(bytes \<times> json) list \<Rightarrow> bool" where
  "flat_doc ms \<longleftrightarrow> list_all (\<lambda>m. list_all html_safe (fst m)) ms \<and> distinct (map fst ms) \<and>
     list_all (\<lambda>m. flat_value (snd m)) ms"

definition opt_str :: "string option \<Rightarrow> json" where
  "opt_str v = (case v of None \<Rightarrow> JNull | Some s \<Rightarrow> JStr s)"

lemma opt_str_simps [simp]: "opt_str None = JNull" "opt_str (Some s) = JStr s"
  by (simp_all add: opt_str_def)

lemma opt_str_inj: "opt_str a = opt_str b \<longleftrightarrow> a = b"
  by (auto simp: opt_str_def split: option.splits)

lemma set_string_ptr_opt [simp]: "set_string_ptr upd (opt_str v) r = Some (upd v r)"
  by (cases v) simp_all

lemma flat_opt_str: "flat_value (opt_str v) \<longleftrightarrow> (case v of None \<Rightarrow> True | Some s \<Rightarrow> list_all html_safe s)"
  by (cases v) simp_all

lemma flat_value_wf: "flat_value v \<Longrightarrow> wf_json v \<and> unique_names v"
  by (cases v) (auto simp: utf8_valid_safe)

lemma flat_doc_wf: "flat_doc ms \<Longrightarrow> wf_json (JObj ms) \<and> unique_names (JObj ms)"
  by (auto simp: flat_doc_def list_all_iff utf8_valid_safe flat_value_wf)

lemma ascii_quote: "list_all html_safe s \<Longrightarrow> list_all is_ascii (json_quote s)"
  by (auto simp: json_quote_safe list_all_iff html_safe_ascii) (simp_all add: QUOTE_def is_ascii_def)

lemma ascii_flat: "flat_value v \<Longrightarrow> list_all is_ascii (json_print v)"
proof (cases v)
  case JNull
  then show ?thesis by (simp add: is_ascii_def)
next
  case (JNum t)
  moreover assume "flat_value v"
  ultimately show ?thesis using nat_str_digits by (auto simp: list_all_iff class_defs) fastforce
qed (auto simp: ascii_quote)

lemma ascii_commas: "list_all (list_all is_ascii) xs \<Longrightarrow> list_all is_ascii (commas xs)"
  by (induction xs rule: commas.induct) (auto simp: is_ascii_def)

lemma flat_doc_ascii: "flat_doc ms \<Longrightarrow> utf8_valid (json_print (JObj ms))"
proof -
  assume "flat_doc ms"
  then have "list_all (list_all is_ascii) (map (\<lambda>m. json_quote (fst m) @ CHR '':'' # json_print (snd m)) ms)"
    by (auto simp: flat_doc_def list_all_iff is_ascii_def ascii_quote [unfolded list_all_iff is_ascii_def]
        ascii_flat [unfolded list_all_iff is_ascii_def])
  then have "list_all is_ascii (json_print (JObj ms))" using ascii_commas by (simp add: is_ascii_def)
  then show ?thesis by (auto simp: list_all_iff intro: utf8_valid_ascii)
qed

lemma flat_doc_parse: "flat_doc ms \<Longrightarrow> parse_doc (json_print (JObj ms)) = Some (JObj ms)"
  using flat_doc_wf parse_doc_print by blast

text \<open>A bound on the encoded size, member by member.\<close>

definition member_size :: "bytes \<times> json \<Rightarrow> nat" where
  "member_size m = length (fst m) + 4 + length (json_print (snd m))"

lemma length_commas_sum: "length (commas xs) \<le> sum_list (map (\<lambda>x. length x + 1) xs)"
  by (induction xs rule: commas.induct) simp_all

lemma json_print_size:
  assumes "flat_doc ms"
  shows "length (json_print (JObj ms)) \<le> 2 + sum_list (map member_size ms)"
proof -
  let ?t = "\<lambda>m. json_quote (fst m) @ CHR '':'' # json_print (snd m)"
  have e: "length (?t m) + 1 = member_size m" if "m \<in> set ms" for m
    using that assms by (auto simp: flat_doc_def list_all_iff member_size_def json_quote_length)
  have "map (\<lambda>m. length (?t m) + 1) ms = map member_size ms" by (rule map_cong [OF refl e])
  moreover have "map (\<lambda>x. length x + 1) (map ?t ms) = map (\<lambda>m. length (?t m) + 1) ms"
    unfolding map_map comp_def by (rule refl)
  ultimately have "length (commas (map ?t ms)) \<le> sum_list (map member_size ms)"
    using length_commas_sum [of "map ?t ms"] by (simp only:)
  then show ?thesis by simp
qed

lemma json_print_nonempty: "json_print (JObj ms) \<noteq> []"
  by simp

lemma is_b64_safe: "is_upper c \<or> is_lower c \<or> is_digit c \<or> c = CHR ''-'' \<or> c = CHR ''_'' \<Longrightarrow> html_safe c"
  by (auto simp: html_safe_classes)

lemma format_millis_safe: "list_all html_safe (format_millis t)"
  using digits_all [of 3 "nat (t mod Second div Millisecond)"]
  by (auto simp: format_millis_def list_all_iff html_safe_classes clock_text_safe [unfolded list_all_iff, rule_format])

lemma length_format_millis: "printable_year t \<Longrightarrow> length (format_millis t) = 24"
  by (simp add: format_millis_def length_clock_text)

text \<open>Outside those years the text is longer.\<close>

lemma length_append_int_ge: "k \<le> length (append_int x k)" "x < 0 \<Longrightarrow> k < length (append_int x k)"
  by (simp_all add: append_int_def Let_def)

lemma length_append_int_big: "10 ^ k \<le> x \<Longrightarrow> k < length (append_int x k)"
proof -
  assume x: "10 ^ k \<le> x"
  have "10 ^ k \<le> nat x" using x by (simp add: le_nat_iff)
  moreover have "nat x < 10 ^ length (nat_str (nat x))"
    using dec_val_bound [OF nat_str_digits [of "nat x"]] by simp
  ultimately have "(10 :: nat) ^ k < 10 ^ length (nat_str (nat x))" by linarith
  then have "k < length (nat_str (nat x))" by (simp add: power_less_imp_less_exp)
  moreover have "\<not> x < 0" using x by (smt (verit) zero_le_power)
  ultimately show ?thesis by (simp add: append_int_def Let_def)
qed

lemma length_format_millis_unprintable: "\<not> printable_year t \<Longrightarrow> 24 < length (format_millis t)"
proof -
  assume t: "\<not> printable_year t"
  obtain y m d where c: "civil_of_days (t div Day) = (y, m, d)" by (metis prod_cases3)
  have "y = Year t 0" using civil_days_of [OF c] by (auto simp: Year_def)
  with t have "y < 0 \<or> 10 ^ 4 \<le> y" by (auto simp: printable_year_def)
  then have y: "4 < length (append_int y 4)" using length_append_int_ge(2) length_append_int_big by blast
  have g: "2 \<le> length (append_int x 2)" for x by (rule length_append_int_ge)
  note fields = g [of "int m"] g [of d] g [of "t mod Day div Second div 3600"]
    g [of "t mod Day div Second div 60 mod 60"] g [of "t mod Day div Second mod 60"]
  have "length (format_millis t) = length (append_int y 4) + length (append_int (int m) 2) + length (append_int d 2) +
      length (append_int (t mod Day div Second div 3600) 2) + length (append_int (t mod Day div Second div 60 mod 60) 2) +
      length (append_int (t mod Day div Second mod 60) 2) + 10"
    by (simp add: format_millis_def clock_text_def c)
  with y fields show ?thesis by linarith
qed

end
