(* ===== verification/Capability_Parse.thy ===== *)
theory Capability_Parse
  imports Capability Flat_Json
begin

text \<open>
  What the checks of \<open>capability.go\<close> accept, in declarative form, and the exactness of
  \<open>ParseCanonicalCapability\<close>: it accepts the canonical bytes of a checked capability together with
  its artifact and nothing else.
\<close>

section \<open>Digests, identifiers, nonces\<close>

lemma digestBytes_eq: "digestBytes v = digest_text (sha256 v)"
  by (simp add: digestBytes_def digest_text_def)

lemma digestBytes_matches [simp]: "re_matches digestPattern (digestBytes v)"
  by (simp add: digestBytes_eq sha.digest_matches)

lemma digestBytes_inj: "digestBytes v = digestBytes w \<longleftrightarrow> sha256 v = sha256 w"
  by (simp add: digestBytes_eq digest_text_inj)

lemma digestBytes_nonempty [simp]: "digestBytes v \<noteq> []"
  by (simp add: digestBytes_def)

lemma hexlow_digit: "is_hexlow c \<Longrightarrow> \<exists>n < 16. hex_digit_val c = Some (int n) \<and> hex_char n = c"
proof -
  assume h: "is_hexlow c"
  define n where "n = (if is_digit c then ord c - 48 else ord c - 87)"
  have "n < 16" "hex_digit_val c = Some (int n)"
    using h by (auto simp: n_def class_defs hex_digit_val_def byte_in_def byte_val_def)
  moreover have "ord (hex_char n) = ord c"
    using h by (auto simp: n_def class_defs hex_char_def of_char_of)
  ultimately show ?thesis by (auto intro: exI [of _ n])
qed

lemma hex_decode_low:
  "list_all is_hexlow s \<Longrightarrow> even (length s) \<Longrightarrow> \<exists>bs. hex_decode s = Some bs \<and> hex_encode bs = s"
proof (induction s rule: hex_decode.induct)
  case (3 a b r)
  then obtain bs where bs: "hex_decode r = Some bs" "hex_encode bs = r" by auto
  from "3.prems" have ab: "is_hexlow a" "is_hexlow b" by simp_all
  obtain x where x: "x < 16" "hex_digit_val a = Some (int x)" "hex_char x = a" using hexlow_digit [OF ab(1)] by blast
  obtain y where y: "y < 16" "hex_digit_val b = Some (int y)" "hex_char y = b" using hexlow_digit [OF ab(2)] by blast
  have e: "byte_of (16 * int x + int y) = char_of (16 * x + y)"
    using x y by (simp add: byte_of_def nat_add_distrib nat_mult_distrib)
  have "16 * x + y < 256" using x(1) y(1) by linarith
  then have "hex_byte (char_of (16 * x + y)) = [a, b]" using x y by (simp add: hex_byte_def of_char_of)
  with bs x y e show ?case by simp
qed simp_all

lemma digestEqual_iff: "digestEqual l r \<longleftrightarrow> re_matches digestPattern l \<and> l = r"
proof -
  have d: "\<exists>bs. hex_decode (drop 7 s) = Some bs \<and> s = ''sha256:'' @ hex_encode bs" if m: "re_matches digestPattern s" for s
  proof -
    from m obtain h where h: "s = ''sha256:'' @ h" "length h = 64" "list_all is_hexlow h"
      by (auto simp: digestPattern_iff)
    then obtain bs where "hex_decode h = Some bs" "hex_encode bs = h" using hex_decode_low [of h] by auto
    with h show ?thesis by auto
  qed
  show ?thesis
  proof
    assume "digestEqual l r"
    then show "re_matches digestPattern l \<and> l = r"
      using d [of l] d [of r] by (auto simp: digestEqual_def)
  next
    assume "re_matches digestPattern l \<and> l = r"
    with d [of l] show "digestEqual l r" by (auto simp: digestEqual_def)
  qed
qed

lemma digestEqual_digestBytes [simp]: "digestEqual (digestBytes v) (digestBytes w) \<longleftrightarrow> digestBytes v = digestBytes w"
  by (simp add: digestEqual_iff)

lemma actor_safe: "re_matches actorPattern s \<Longrightarrow> list_all html_safe s"
  by (erule re_matches_list_all) (auto simp: actorPattern_def is_actor_char_def is_actor_start_def html_safe_classes)

lemma actor_length: "re_matches actorPattern s \<Longrightarrow> s \<noteq> [] \<and> length s \<le> 128"
proof -
  assume "re_matches actorPattern s"
  then obtain k where "seq_shape actorPattern s k" by (auto simp: re_matches_iff)
  from shape_length(2) [OF this] show ?thesis by (auto simp: actorPattern_def)
qed

lemma keyID_nonempty: "re_matches keyIDPattern s \<Longrightarrow> s \<noteq> []"
  by (auto simp: keyIDPattern_def re_matches_iff)

lemma noncePattern_iff: "re_matches noncePattern s \<longleftrightarrow> length s = 22 \<and> list_all is_b64 s"
  by (auto simp: re_matches_iff noncePattern_def)

lemma nonce_ok_iff: "nonce_ok s \<longleftrightarrow> (\<exists>b. length b = 16 \<and> s = b64_encode b)"
proof
  assume "nonce_ok s"
  then show "\<exists>b. length b = 16 \<and> s = b64_encode b"
    by (auto simp: nonce_ok_def split: option.splits)
next
  assume "\<exists>b. length b = 16 \<and> s = b64_encode b"
  then show "nonce_ok s"
    by (auto simp: nonce_ok_def noncePattern_iff b64_decode_encode b64_encode_length b64_encode_chars)
qed

lemma b64_safe: "list_all html_safe (b64_encode bs)"
  using b64_encode_chars [of bs] by (auto simp: list_all_iff is_b64_def intro!: is_b64_safe)

lemma nonce_text: "nonce_ok s \<Longrightarrow> list_all html_safe s \<and> length s = 22"
  by (auto simp: nonce_ok_iff b64_safe b64_encode_length)

section \<open>Times\<close>

lemma millisecondAligned_iff: "millisecondAligned t \<longleftrightarrow> t mod Millisecond = 0"
proof -
  have "t mod Second mod Millisecond = t mod Millisecond" by (rule mod_mod_cancel) simp
  then show ?thesis by (simp add: millisecondAligned_def)
qed

lemma parseCanonicalTime_format:
  "printable_year t \<Longrightarrow> millisecondAligned t \<Longrightarrow> parseCanonicalTime (formatCanonicalTime t) = Some t"
  using parse_rfc3339_millis [of t] length_format_millis [of t]
  by (auto simp: parseCanonicalTime_def formatCanonicalTime_def millisecondAligned_iff)
    (simp add: format_millis_def)

lemma parseCanonicalTime_Some:
  "parseCanonicalTime s = Some t \<Longrightarrow> s = formatCanonicalTime t \<and> millisecondAligned t \<and> printable_year t"
  by (cases "printable_year t")
    (auto simp: parseCanonicalTime_def formatCanonicalTime_def dest: length_format_millis_unprintable
      split: if_splits option.splits)

lemma formatCanonicalTime_inj:
  "printable_year t \<Longrightarrow> millisecondAligned t \<Longrightarrow> printable_year u \<Longrightarrow> millisecondAligned u \<Longrightarrow>
     formatCanonicalTime t = formatCanonicalTime u \<longleftrightarrow> t = u"
  by (metis option.inject parseCanonicalTime_format)

section \<open>Artifacts\<close>

lemma addPattern_shape:
  "seq_shape addPattern g k \<longleftrightarrow>
     (\<exists>a t. g = add_command a t \<and> 7 \<le> length a \<and> length a \<le> 15 \<and> list_all is_dotted_char a \<and>
        ttl_token t \<and> k = [a, t])"
proof -
  have p: "addPattern = [RLit add_prefix, RGroup [RRep is_dotted_char 7 15], RLit '' timeout '',
      RGroup (ttl_number_re @ [RRep is_ttl_unit 1 1]), RLit ('' }'' @ [CHR 0x0A])]"
    by (simp add: addPattern_def add_prefix_def ttl_number_re_def)
  have d: "seq_shape [RRep is_dotted_char 7 15] a k \<longleftrightarrow>
      7 \<le> length a \<and> length a \<le> 15 \<and> list_all is_dotted_char a \<and> k = []" for a k by auto
  have e: "seq_shape [RLit ('' }'' @ [CHR 0x0A])] c k \<longleftrightarrow> c = '' }'' @ [CHR 0x0A] \<and> k = []" for c k by auto
  show ?thesis
    unfolding p seq_shape_RLit [of add_prefix] seq_shape_RLit [of "'' timeout ''"] seq_shape_RGroup d e
      ttl_token_shape add_command_def
    by (rule iffI; elim exE conjE; simp)
qed

lemma dotted_no_space: "list_all is_dotted_char a \<Longrightarrow> CHR '' '' \<notin> set a"
  by (auto simp: list_all_iff is_dotted_char_def class_defs)

lemma token_no_space: "ttl_token t \<Longrightarrow> CHR '' '' \<notin> set t"
  using ttl_token_chars [of t "CHR '' ''"] by auto

lemma re_full_addPattern:
  "re_full addPattern g = Some k \<longleftrightarrow>
     (\<exists>a t. g = add_command a t \<and> 7 \<le> length a \<and> length a \<le> 15 \<and> list_all is_dotted_char a \<and>
        ttl_token t \<and> k = [a, t])" (is "_ \<longleftrightarrow> ?R k")
proof
  assume "re_full addPattern g = Some k"
  then show "?R k" by (subst addPattern_shape [symmetric]) (rule re_full_SomeD)
next
  assume r: "?R k"
  show "re_full addPattern g = Some k"
  proof (rule re_full_unique)
    show "seq_shape addPattern g k" using r by (simp only: addPattern_shape)
    fix k' assume "seq_shape addPattern g k'"
    then have "?R k'" by (simp only: addPattern_shape)
    with r command_text_inj [where nl = "[CHR 0x0A]" and nl' = "[CHR 0x0A]"] dotted_no_space token_no_space
    show "k' = k" unfolding add_command_def by metis
  qed
qed

lemma addr_string_min: "7 \<le> length (addr_string x)"
proof (cases x)
  case (Addr4 a b c d)
  have l: "1 \<le> length (nat_str n)" for n using nat_str_nonempty [of n] by (cases "nat_str n") simp_all
  show ?thesis using l [of "unat a"] l [of "unat b"] l [of "unat c"] l [of "unat d"] Addr4 by simp
qed

lemma addr_string_dotted_chars: "list_all is_dotted_char (addr_string x)"
  using addr_string_chars [of _ x] by (auto simp: list_all_iff is_dotted_char_def)

lemma canonicalTTL_agrees: "ttl_in_range n \<Longrightarrow> CanonicalTTL n = Inr (cap_canonicalTTL n)"
  by (auto simp: CanonicalTTL_def cap_canonicalTTL_def ttl_in_range_word)

text \<open>The seconds of a token, computed in 64 bits as the source does.\<close>

definition token_seconds :: "string \<Rightarrow> uint64" where
  "token_seconds token =
     of_nat (dec_val (butlast token)) *
       (if last token = CHR ''m'' then 60 else if last token = CHR ''h'' then 3600 else 1)"

lemma token_seconds_unat:
  assumes "ttl_number s"
  shows "unat (token_seconds (s @ [u])) = dec_val s * ttl_multiplier u" and "dec_val s < 2 ^ 32"
proof -
  have "dec_val s < 10 ^ length s" using assms dec_val_bound by (auto simp: ttl_number_def)
  also have "\<dots> \<le> 10 ^ 5" using assms by (intro power_increasing) (auto simp: ttl_number_def)
  finally have b: "dec_val s < 10 ^ 5" .
  then show "dec_val s < 2 ^ 32" by simp
  define m :: uint64 where "m = (if u = CHR ''m'' then 60 else if u = CHR ''h'' then 3600 else 1)"
  have m: "unat m = ttl_multiplier u" by (simp add: m_def ttl_multiplier_def)
  have v: "unat (of_nat (dec_val s) :: uint64) = dec_val s" using b by (simp add: unat_of_nat)
  have "dec_val s * ttl_multiplier u \<le> 10 ^ 5 * 3600"
    using b by (intro mult_mono) (auto simp: ttl_multiplier_def)
  then have "unat (of_nat (dec_val s) * m) = dec_val s * ttl_multiplier u"
    using m v by (subst unat_mult_lem [THEN iffD1]) auto
  then show "unat (token_seconds (s @ [u])) = dec_val s * ttl_multiplier u"
    by (simp only: token_seconds_def m_def butlast_snoc last_snoc)
qed

lemma token_seconds_ParseTTL:
  assumes "ttl_token t"
  shows "ParseTTL t = (if 60 \<le> token_seconds t \<and> token_seconds t \<le> 86400
    then Inr (ucast (token_seconds t)) else Inl ErrorTTL)"
proof -
  obtain s u where t: "t = s @ [u]" "ttl_number s" "is_ttl_unit u" using assms by (auto simp: ttl_token_def)
  show ?thesis
    unfolding t(1) ttl_value [OF t(2,3)] Let_def
    by (simp add: word_le_nat_alt token_seconds_unat [OF t(2)] ucast_of_nat_unat del: of_nat_mult)
qed

lemma checkAddArtifact_token:
  assumes "ttl_token t" and "length (addr_string x) \<le> 15"
  shows "checkAddArtifact (add_command (addr_string x) t) target =
    (if addr_string x \<noteq> target then Inl CapErrorArtifact
     else case ParseTTL t of
        Inl _ \<Rightarrow> Inl CapErrorArtifact
      | Inr n \<Rightarrow> if cap_canonicalTTL n = t then Inr n else Inl CapErrorArtifact)"
proof -
  have full: "re_full addPattern (add_command (addr_string x) t) = Some [addr_string x, t]"
    using assms addr_string_min addr_string_dotted_chars by (auto simp: re_full_addPattern)
  have len: "length (add_command (addr_string x) t) \<le> MaxArtifactBytes" "add_command (addr_string x) t \<noteq> []"
    using assms ttl_token_length [OF assms(1)] by (auto simp: add_command_def add_prefix_def MaxArtifactBytes_def)
  obtain s u where t: "t = s @ [u]" "ttl_number s" "is_ttl_unit u" using assms by (auto simp: ttl_token_def)
  have p: "parse_uint 32 (butlast t) = Some (dec_val (butlast t))"
    using token_seconds_unat(2) [OF t(2)] t by (auto simp: parse_uint_def ttl_number_def)
  have m: "of_nat (dec_val (butlast t)) * (if last t = CHR ''m'' then 60 else if last t = CHR ''h'' then 3600 else 1) =
      token_seconds t" by (simp add: token_seconds_def)
  have c: "canonical_ipv4 (addr_string x)" by (auto simp: canonical_ipv4_iff)
  show ?thesis
    using len unfolding checkAddArtifact_def full
    by (simp only: list.case option.case p Let_def m token_seconds_ParseTTL [OF assms(1)])
      (auto simp: not_less c split: sum.splits if_splits)
qed

text \<open>
  The exact add artifact is the canonical command of the policy grammar for that target, with the
  canonical token of its duration.
\<close>

lemma checkAddArtifact_iff:
  "checkAddArtifact artifact target = Inr n \<longleftrightarrow>
     (\<exists>x token. target = addr_string x \<and> CanonicalTTL n = Inr token \<and> artifact = add_command target token)"
proof
  assume c: "checkAddArtifact artifact target = Inr n"
  then obtain k where k: "re_full addPattern artifact = Some k"
    by (cases "re_full addPattern artifact") (auto simp: checkAddArtifact_def split: if_splits)
  then obtain a t where a: "artifact = add_command a t" "length a \<le> 15" "ttl_token t" "k = [a, t]"
    by (auto simp: re_full_addPattern)
  have "canonical_ipv4 a \<and> a = target" using c k a(4) by (auto simp: checkAddArtifact_def split: if_splits)
  then obtain x where x: "a = addr_string x" "target = addr_string x" by (auto simp: canonical_ipv4_iff)
  with c a checkAddArtifact_token [of t x target] obtain "ParseTTL t = Inr n" "cap_canonicalTTL n = t"
    by (auto split: sum.splits if_splits)
  then have "CanonicalTTL n = Inr t"
    using canonicalTTL_agrees [of n] ParseTTL_range [of t n] by (simp add: ttl_in_range_def)
  with a x show "\<exists>x token. target = addr_string x \<and> CanonicalTTL n = Inr token \<and> artifact = add_command target token"
    by auto
next
  assume "\<exists>x token. target = addr_string x \<and> CanonicalTTL n = Inr token \<and> artifact = add_command target token"
  then obtain x token where t: "target = addr_string x" "CanonicalTTL n = Inr token" "artifact = add_command target token"
    by auto
  have p: "ParseTTL token = Inr n" "ttl_in_range n" using CanonicalTTL_Inr [OF t(2)] by simp_all
  moreover have "cap_canonicalTTL n = token" using canonicalTTL_agrees [OF p(2)] t(2) by simp
  ultimately show "checkAddArtifact artifact target = Inr n"
    using checkAddArtifact_token [OF ParseTTL_token [OF p(1)] addr_string_length, of x target] t by simp
qed

definition delete_command :: "string \<Rightarrow> bytes" where
  "delete_command target = ''delete element inet sentinelflow blacklist_ipv4 { '' @ target @ '' }'' @ [CHR 0x0A]"

lemma re_full_revokePattern:
  "re_full revokePattern g = Some k \<longleftrightarrow>
     (\<exists>a. g = delete_command a \<and> 7 \<le> length a \<and> length a \<le> 15 \<and> list_all is_dotted_char a \<and> k = [a])"
  (is "_ \<longleftrightarrow> ?R k")
proof -
  have d: "seq_shape [RRep is_dotted_char 7 15] a k \<longleftrightarrow>
      7 \<le> length a \<and> length a \<le> 15 \<and> list_all is_dotted_char a \<and> k = []" for a k by auto
  have e: "seq_shape [RLit ('' }'' @ [CHR 0x0A])] c k \<longleftrightarrow> c = '' }'' @ [CHR 0x0A] \<and> k = []" for c k by auto
  have s: "seq_shape revokePattern g k \<longleftrightarrow> ?R k" for k
    unfolding revokePattern_def
      seq_shape_RLit [of "''delete element inet sentinelflow blacklist_ipv4 { ''"] seq_shape_RGroup d e delete_command_def
    by auto
  have i: "a = b" if "delete_command a = delete_command b" for a b using that by (simp add: delete_command_def)
  show ?thesis
  proof
    assume "re_full revokePattern g = Some k"
    then show "?R k" by (subst s [symmetric]) (rule re_full_SomeD)
  next
    assume r: "?R k"
    show "re_full revokePattern g = Some k"
      by (rule re_full_unique) (use r i in \<open>auto simp: s\<close>)
  qed
qed

lemma checkRevokeArtifact_iff:
  "checkRevokeArtifact artifact target = Inr () \<longleftrightarrow> (\<exists>x. target = addr_string x \<and> artifact = delete_command target)"
proof
  assume c: "checkRevokeArtifact artifact target = Inr ()"
  then obtain k where k: "re_full revokePattern artifact = Some k"
    by (cases "re_full revokePattern artifact") (auto simp: checkRevokeArtifact_def split: if_splits)
  then obtain a where "artifact = delete_command a" "k = [a]" by (auto simp: re_full_revokePattern)
  with c k show "\<exists>x. target = addr_string x \<and> artifact = delete_command target"
    by (auto simp: checkRevokeArtifact_def canonical_ipv4_iff split: if_splits)
next
  assume "\<exists>x. target = addr_string x \<and> artifact = delete_command target"
  then obtain x where x: "target = addr_string x" "artifact = delete_command target" by auto
  then have "re_full revokePattern artifact = Some [target]"
    using addr_string_min addr_string_length addr_string_dotted_chars by (auto simp: re_full_revokePattern)
  moreover have "length artifact \<le> MaxArtifactBytes" "artifact \<noteq> []"
    using addr_string_length [of x] x by (simp_all add: delete_command_def MaxArtifactBytes_def)
  ultimately show "checkRevokeArtifact artifact target = Inr ()"
    using x by (auto simp: checkRevokeArtifact_def canonical_ipv4_iff)
qed

section \<open>Strict decoding of flat documents\<close>

lemma strictDecode_print:
  assumes "flat_doc ms" and "length (json_print (JObj ms)) \<le> maximum"
  shows "strictDecode maximum specs zero (json_print (JObj ms)) = decode_struct specs (JObj ms) zero"
proof -
  have "json_print (JObj ms) \<noteq> []" by simp
  with assms flat_doc_wf [OF assms(1)] show ?thesis
    unfolding strictDecode_def by (simp add: flat_doc_ascii flat_doc_parse del: json_print.simps)
qed

lemma contract_keys:
  \<open>json_quote ''action_id'' = ''"action_id"''\<close>
  \<open>json_quote ''actor_id'' = ''"actor_id"''\<close>
  \<open>json_quote ''artifact_digest'' = ''"artifact_digest"''\<close>
  \<open>json_quote ''authorization_digest'' = ''"authorization_digest"''\<close>
  \<open>json_quote ''capability_id'' = ''"capability_id"''\<close>
  \<open>json_quote ''evidence_snapshot_digest'' = ''"evidence_snapshot_digest"''\<close>
  \<open>json_quote ''expires_at'' = ''"expires_at"''\<close>
  \<open>json_quote ''issued_at'' = ''"issued_at"''\<close>
  \<open>json_quote ''job_id'' = ''"job_id"''\<close>
  \<open>json_quote ''nonce'' = ''"nonce"''\<close>
  \<open>json_quote ''not_before'' = ''"not_before"''\<close>
  \<open>json_quote ''operation'' = ''"operation"''\<close>
  \<open>json_quote ''original_add_digest'' = ''"original_add_digest"''\<close>
  \<open>json_quote ''owned_schema_digest'' = ''"owned_schema_digest"''\<close>
  \<open>json_quote ''policy_id'' = ''"policy_id"''\<close>
  \<open>json_quote ''policy_version'' = ''"policy_version"''\<close>
  \<open>json_quote ''purpose'' = ''"purpose"''\<close>
  \<open>json_quote ''reason_digest'' = ''"reason_digest"''\<close>
  \<open>json_quote ''schema_version'' = ''"schema_version"''\<close>
  \<open>json_quote ''target_ipv4'' = ''"target_ipv4"''\<close>
  \<open>json_quote ''validation_snapshot_digest'' = ''"validation_snapshot_digest"''\<close>
  \<open>json_quote ''inspect'' = ''"inspect"''\<close>
  \<open>json_quote ''nft-inspect-v1'' = ''"nft-inspect-v1"''\<close>
  by (simp_all add: json_quote_safe html_safe_def byte_in_def byte_val_def QUOTE_def)

lemma lower_text_safe: "list_all (\<lambda>c. is_lower c \<or> is_digit c \<or> c = CHR ''_'' \<or> c = CHR ''-'') s \<Longrightarrow> list_all html_safe s"
  by (auto simp: list_all_iff html_safe_classes)

section \<open>Inspection artifacts\<close>

definition inspection_ok :: "inspect_artifact \<Rightarrow> bool" where
  "inspection_ok v \<longleftrightarrow> ia_SchemaVersion v = InspectSchemaVersion \<and> re_matches uuidPattern (ia_ActionID v) \<and>
     re_matches digestPattern (ia_OriginalAddDigest v) \<and> re_matches digestPattern (ia_OwnedSchemaDigest v) \<and>
     canonical_ipv4 (ia_TargetIPv4 v) \<and>
     ia_Purpose v \<in> {''reconciliation'', ''expiry_confirmation'', ''operator_status''}"

definition inspection_members :: "inspect_artifact \<Rightarrow> (bytes \<times> json) list" where
  "inspection_members v =
     [(''action_id'', JStr (ia_ActionID v)), (''operation'', JStr ''inspect''),
      (''original_add_digest'', JStr (ia_OriginalAddDigest v)),
      (''owned_schema_digest'', JStr (ia_OwnedSchemaDigest v)), (''purpose'', JStr (ia_Purpose v)),
      (''schema_version'', JStr ''nft-inspect-v1''), (''target_ipv4'', JStr (ia_TargetIPv4 v))]"

lemma checkInspection_iff:
  "checkInspection v = Inr r \<longleftrightarrow> inspection_ok v \<and> r = (v, marshalInspection v)"
  by (auto simp: checkInspection_def inspection_ok_def)

lemma marshalInspection_print: "marshalInspection v = json_print (JObj (inspection_members v))"
  unfolding marshalInspection_def inspection_members_def by (simp add: contract_keys)

lemma purpose_text:
  "p \<in> {''reconciliation'', ''expiry_confirmation'', ''operator_status''} \<Longrightarrow> list_all html_safe p \<and> length p \<le> 19"
  by (auto simp: html_safe_def byte_in_def byte_val_def)

lemma inspection_flat: "inspection_ok v \<Longrightarrow> flat_doc (inspection_members v)"
proof -
  assume ok: "inspection_ok v"
  have k: "list_all (\<lambda>m. list_all html_safe (fst m)) (inspection_members v)"
    by (simp add: inspection_members_def html_safe_def byte_in_def byte_val_def)
  have d: "distinct (map fst (inspection_members v))" by (simp add: inspection_members_def)
  have "list_all html_safe ''inspect''" "list_all html_safe ''nft-inspect-v1''"
    by (simp_all add: html_safe_def byte_in_def byte_val_def)
  then have "list_all (\<lambda>m. flat_value (snd m)) (inspection_members v)"
    using ok purpose_text [of "ia_Purpose v"]
    by (simp add: inspection_members_def inspection_ok_def uuid_safe digest_safe addr_safe)
  with k d show ?thesis by (simp add: flat_doc_def)
qed

lemma addr_text_length: "canonical_ipv4 s \<Longrightarrow> length s \<le> 15"
  by (auto simp: canonical_ipv4_iff addr_string_length)

lemma inspection_size: "inspection_ok v \<Longrightarrow> length (marshalInspection v) \<le> MaxArtifactBytes"
proof -
  assume ok: "inspection_ok v"
  then have q: "length (json_quote (ia_ActionID v)) = 38" "length (json_quote (ia_OriginalAddDigest v)) = 73"
      "length (json_quote (ia_OwnedSchemaDigest v)) = 73" "length (json_quote (ia_Purpose v)) \<le> 21"
      "length (json_quote (ia_TargetIPv4 v)) \<le> 17"
    using purpose_text [of "ia_Purpose v"]
    by (auto simp: inspection_ok_def quoted_length json_quote_length addr_safe addr_text_length)
  then show ?thesis by (simp add: marshalInspection_def MaxArtifactBytes_def)
qed

lemma decode_inspection:
  "decode_struct inspect_fields (JObj (inspection_members v)) zero_inspect_wire =
     Some \<lparr>iw_SchemaVersion = ''nft-inspect-v1'', iw_Operation = ''inspect'', iw_ActionID = ia_ActionID v,
       iw_TargetIPv4 = ia_TargetIPv4 v, iw_OriginalAddDigest = ia_OriginalAddDigest v,
       iw_OwnedSchemaDigest = ia_OwnedSchemaDigest v, iw_Purpose = ia_Purpose v\<rparr>"
  unfolding decode_struct_def inspection_members_def
  by (simp add: find_field_def inspect_fields_def zero_inspect_wire_def)

lemma parseInspection_iff: "parseInspection data = Inr v \<longleftrightarrow> inspection_ok v \<and> data = marshalInspection v"
proof
  assume "parseInspection data = Inr v"
  then show "inspection_ok v \<and> data = marshalInspection v"
    by (auto simp: parseInspection_def checkInspection_iff split: option.splits if_splits sum.splits)
next
  assume a: "inspection_ok v \<and> data = marshalInspection v"
  then have ok: "inspection_ok v" by simp
  have s: "strictDecode MaxArtifactBytes inspect_fields zero_inspect_wire data =
      Some \<lparr>iw_SchemaVersion = ''nft-inspect-v1'', iw_Operation = ''inspect'', iw_ActionID = ia_ActionID v,
       iw_TargetIPv4 = ia_TargetIPv4 v, iw_OriginalAddDigest = ia_OriginalAddDigest v,
       iw_OwnedSchemaDigest = ia_OwnedSchemaDigest v, iw_Purpose = ia_Purpose v\<rparr>"
    unfolding conjunct2 [OF a] marshalInspection_print
    by (rule trans [OF strictDecode_print [OF inspection_flat [OF ok]
          inspection_size [OF ok, unfolded marshalInspection_print]] decode_inspection])
  have v: "\<lparr>ia_SchemaVersion = ''nft-inspect-v1'', ia_ActionID = ia_ActionID v, ia_TargetIPv4 = ia_TargetIPv4 v,
      ia_OriginalAddDigest = ia_OriginalAddDigest v, ia_OwnedSchemaDigest = ia_OwnedSchemaDigest v,
      ia_Purpose = ia_Purpose v\<rparr> = v"
    using a by (cases v) (simp add: inspection_ok_def InspectSchemaVersion_def)
  have "checkInspection v = Inr (v, marshalInspection v)" using a by (simp add: checkInspection_iff)
  with s v a show "parseInspection data = Inr v" by (simp add: parseInspection_def)
qed

section \<open>Capability values\<close>

definition value_of :: "'a cap_common_scheme \<Rightarrow> string \<Rightarrow> string \<Rightarrow> string \<Rightarrow> cap_value" where
  "value_of c operation original artifactDigest =
     \<lparr>val_SchemaVersion = CapabilitySchemaVersion, val_CapabilityID = cm_CapabilityID c,
      val_Operation = operation, val_JobID = cm_JobID c, val_ActionID = cm_ActionID c,
      val_PolicyID = cm_PolicyID c, val_PolicyVersion = cm_PolicyVersion c,
      val_TargetIPv4 = cm_TargetIPv4 c, val_ArtifactDigest = artifactDigest, val_OriginalAddDigest = original,
      val_EvidenceSnapshotDigest = cm_EvidenceSnapshotDigest c,
      val_ValidationSnapshotDigest = cm_ValidationSnapshotDigest c,
      val_AuthorizationDigest = cm_AuthorizationDigest c, val_ActorID = cm_ActorID c,
      val_ReasonDigest = cm_ReasonDigest c, val_OwnedSchemaDigest = cm_OwnedSchemaDigest c,
      val_IssuedAt = cm_IssuedAt c, val_NotBefore = cm_NotBefore c, val_ExpiresAt = cm_ExpiresAt c,
      val_Nonce = cm_Nonce c\<rparr>"

definition times_ok :: "gotime \<Rightarrow> gotime \<Rightarrow> gotime \<Rightarrow> bool" where
  "times_ok issued notBefore expires \<longleftrightarrow>
     0 < issued \<and> issued \<le> notBefore \<and> notBefore < expires \<and> expires - issued \<le> MaxValidity \<and>
     four_digit_time issued \<and> four_digit_time notBefore \<and> four_digit_time expires \<and>
     millisecondAligned issued \<and> millisecondAligned notBefore \<and> millisecondAligned expires"

text \<open>Every field of an accepted capability.\<close>

definition cap_ok :: "cap_value \<Rightarrow> bool" where
  "cap_ok v \<longleftrightarrow>
     val_SchemaVersion v = CapabilitySchemaVersion \<and>
     val_Operation v \<in> {OperationAdd, OperationRevoke, OperationInspect} \<and>
     re_matches uuidPattern (val_CapabilityID v) \<and> re_matches uuidPattern (val_JobID v) \<and>
     re_matches uuidPattern (val_ActionID v) \<and> re_matches uuidPattern (val_PolicyID v) \<and>
     val_PolicyVersion v \<noteq> 0 \<and> val_PolicyVersion v \<le> 2147483647 \<and> canonical_ipv4 (val_TargetIPv4 v) \<and>
     re_matches digestPattern (val_ArtifactDigest v) \<and> re_matches digestPattern (val_EvidenceSnapshotDigest v) \<and>
     re_matches digestPattern (val_ValidationSnapshotDigest v) \<and> re_matches digestPattern (val_AuthorizationDigest v) \<and>
     re_matches digestPattern (val_ReasonDigest v) \<and> re_matches digestPattern (val_OwnedSchemaDigest v) \<and>
     (if val_Operation v = OperationAdd then val_OriginalAddDigest v = []
      else re_matches digestPattern (val_OriginalAddDigest v)) \<and>
     re_matches actorPattern (val_ActorID v) \<and> nonce_ok (val_Nonce v) \<and>
     times_ok (val_IssuedAt v) (val_NotBefore v) (val_ExpiresAt v)"

lemma times_ok_iff:
  "times_ok i n e \<longleftrightarrow>
     \<not> (i = 0 \<or> n = 0 \<or> e = 0 \<or> Year i 0 < 1 \<or> 9999 < Year e 0 \<or>
        \<not> millisecondAligned i \<or> \<not> millisecondAligned n \<or> \<not> millisecondAligned e \<or>
        n < i \<or> \<not> n < e \<or> MaxValidity < Sub e i)" (is "_ \<longleftrightarrow> ?R")
proof
  assume t: "times_ok i n e"
  then have "1 \<le> Year i 0" "Year e 0 \<le> 9999" using Year_range by (auto simp: times_ok_def)
  with t show ?R by (auto simp: times_ok_def Sub_greater MaxValidity_def)
next
  assume r: ?R
  have i: "0 \<le> i"
  proof (rule ccontr)
    assume "\<not> 0 \<le> i"
    then have "i div Day < days_before_year 1" by (simp add: days_before_year_1 div_less_int)
    then have "Year i 0 < 1" unfolding Year_def using year_of_days_less [of "i div Day" 1] by simp
    with r show False by simp
  qed
  have e: "e < year_10000"
  proof (rule ccontr)
    assume "\<not> e < year_10000"
    then have "days_before_year 10000 \<le> e div Day" by (simp add: year_10000_def le_div_int)
    then have "10000 \<le> Year e 0" unfolding Year_def using year_of_days_ge [of 10000 "e div Day"] by simp
    with r show False by simp
  qed
  show "times_ok i n e"
    using r i e by (auto simp: times_ok_def four_digit_time_def Sub_greater MaxValidity_def)
qed

lemma checkCommon_iff:
  "checkCommon c operation original artifactDigest = Inr v \<longleftrightarrow>
     v = value_of c operation original artifactDigest \<and> cap_ok v"
proof (cases "v = value_of c operation original artifactDigest")
  case True
  show ?thesis
    unfolding checkCommon_def Let_def if_Inl_eq_Inr value_of_def [symmetric] cap_ok_def True
    by (cases "operation = OperationAdd"; cases "operation = OperationRevoke")
      (simp_all add: value_of_def not_less times_ok_iff, blast+)
next
  case False
  then show ?thesis unfolding checkCommon_def Let_def if_Inl_eq_Inr value_of_def [symmetric] by simp
qed

section \<open>Canonical capability documents\<close>

definition cap_members :: "cap_value \<Rightarrow> (bytes \<times> json) list" where
  "cap_members v =
     [(''action_id'', JStr (val_ActionID v)), (''actor_id'', JStr (val_ActorID v)),
      (''artifact_digest'', JStr (val_ArtifactDigest v)), (''authorization_digest'', JStr (val_AuthorizationDigest v)),
      (''capability_id'', JStr (val_CapabilityID v)), (''evidence_snapshot_digest'', JStr (val_EvidenceSnapshotDigest v)),
      (''expires_at'', JStr (formatCanonicalTime (val_ExpiresAt v))),
      (''issued_at'', JStr (formatCanonicalTime (val_IssuedAt v))),
      (''job_id'', JStr (val_JobID v)), (''nonce'', JStr (val_Nonce v)),
      (''not_before'', JStr (formatCanonicalTime (val_NotBefore v))), (''operation'', JStr (val_Operation v)),
      (''original_add_digest'', opt_str (if val_OriginalAddDigest v = [] then None else Some (val_OriginalAddDigest v))),
      (''owned_schema_digest'', JStr (val_OwnedSchemaDigest v)), (''policy_id'', JStr (val_PolicyID v)),
      (''policy_version'', JNum (nat_str (unat (val_PolicyVersion v)))), (''reason_digest'', JStr (val_ReasonDigest v)),
      (''schema_version'', JStr (val_SchemaVersion v)), (''target_ipv4'', JStr (val_TargetIPv4 v)),
      (''validation_snapshot_digest'', JStr (val_ValidationSnapshotDigest v))]"

definition wire_of :: "cap_value \<Rightarrow> capability_wire" where
  "wire_of v = \<lparr>cw_SchemaVersion = val_SchemaVersion v,
     cw_CapabilityID = val_CapabilityID v,
     cw_Operation = val_Operation v,
     cw_JobID = val_JobID v,
     cw_ActionID = val_ActionID v,
     cw_PolicyID = val_PolicyID v,
     cw_PolicyVersion = val_PolicyVersion v,
     cw_TargetIPv4 = val_TargetIPv4 v,
     cw_ArtifactDigest = val_ArtifactDigest v,
     cw_OriginalAddDigest = (if val_OriginalAddDigest v = [] then None else Some (val_OriginalAddDigest v)),
     cw_EvidenceSnapshotDigest = val_EvidenceSnapshotDigest v,
     cw_ValidationSnapshotDigest = val_ValidationSnapshotDigest v,
     cw_AuthorizationDigest = val_AuthorizationDigest v,
     cw_ActorID = val_ActorID v,
     cw_ReasonDigest = val_ReasonDigest v,
     cw_OwnedSchemaDigest = val_OwnedSchemaDigest v,
     cw_IssuedAt = formatCanonicalTime (val_IssuedAt v),
     cw_NotBefore = formatCanonicalTime (val_NotBefore v),
     cw_ExpiresAt = formatCanonicalTime (val_ExpiresAt v),
     cw_Nonce = val_Nonce v\<rparr>"

definition common_of :: "cap_value \<Rightarrow> cap_common" where
  "common_of v = \<lparr>cm_CapabilityID = val_CapabilityID v, cm_JobID = val_JobID v,
     cm_ActionID = val_ActionID v, cm_PolicyID = val_PolicyID v,
     cm_PolicyVersion = val_PolicyVersion v, cm_TargetIPv4 = val_TargetIPv4 v,
     cm_EvidenceSnapshotDigest = val_EvidenceSnapshotDigest v, cm_ValidationSnapshotDigest = val_ValidationSnapshotDigest v,
     cm_AuthorizationDigest = val_AuthorizationDigest v, cm_ActorID = val_ActorID v,
     cm_ReasonDigest = val_ReasonDigest v, cm_OwnedSchemaDigest = val_OwnedSchemaDigest v,
     cm_IssuedAt = val_IssuedAt v, cm_NotBefore = val_NotBefore v,
     cm_ExpiresAt = val_ExpiresAt v, cm_Nonce = val_Nonce v\<rparr>"

lemma marshalCapability_print: "marshalCapability v = json_print (JObj (cap_members v))"
  unfolding marshalCapability_def marshalCapabilityTimes_def cap_members_def appendNullableString_def
  by (simp add: contract_keys)

lemma operation_text:
  "op \<in> {OperationAdd, OperationRevoke, OperationInspect} \<Longrightarrow> list_all html_safe op \<and> length op \<le> 7"
  by (auto simp: OperationAdd_def OperationRevoke_def OperationInspect_def html_safe_def byte_in_def byte_val_def)

lemma schema_text: "list_all html_safe CapabilitySchemaVersion" "length CapabilitySchemaVersion = 23"
  by (simp_all add: CapabilitySchemaVersion_def html_safe_def byte_in_def byte_val_def)

lemma time_text:
  "list_all html_safe (formatCanonicalTime t)"
  "printable_year t \<Longrightarrow> length (formatCanonicalTime t) = 24"
  by (simp_all add: formatCanonicalTime_def format_millis_safe length_format_millis)

lemma original_text: "cap_ok v \<Longrightarrow> list_all html_safe (val_OriginalAddDigest v) \<and> length (val_OriginalAddDigest v) \<le> 71"
  by (auto simp: cap_ok_def digest_safe digest_length split: if_splits)

lemma cap_flat: "cap_ok v \<Longrightarrow> flat_doc (cap_members v)"
proof -
  assume ok: "cap_ok v"
  have k: "list_all (\<lambda>m. list_all html_safe (fst m)) (cap_members v)"
    by (simp add: cap_members_def html_safe_def byte_in_def byte_val_def)
  have d: "distinct (map fst (cap_members v))" by (simp add: cap_members_def)
  have o: "list_all html_safe (val_Operation v)" using ok operation_text by (simp add: cap_ok_def)
  have "list_all (\<lambda>m. flat_value (snd m)) (cap_members v)"
    using ok o original_text [OF ok] nonce_text [of "val_Nonce v"]
    by (auto simp: cap_members_def cap_ok_def uuid_safe digest_safe addr_safe actor_safe schema_text time_text)
  with k d show ?thesis by (simp add: flat_doc_def)
qed

lemma uint32_digits: "length (nat_str (unat (v :: uint32))) \<le> 10"
proof -
  have "unat v < 10 ^ 10" using unat_less_32 [of v] by simp
  then show ?thesis using nat_str_length_le [of 10 "unat v"] by simp
qed

lemma cap_size: "cap_ok v \<Longrightarrow> length (marshalCapability v) \<le> MaxCapabilityBytes"
proof -
  assume ok: "cap_ok v"
  have four: "four_digit_time (val_IssuedAt v)" "four_digit_time (val_NotBefore v)" "four_digit_time (val_ExpiresAt v)"
    using ok by (simp_all add: cap_ok_def times_ok_def)
  have u: "length (json_quote (val_ActionID v)) = 38" "length (json_quote (val_CapabilityID v)) = 38"
      "length (json_quote (val_JobID v)) = 38" "length (json_quote (val_PolicyID v)) = 38"
    using ok by (simp_all add: cap_ok_def quoted_length)
  have g: "length (json_quote (val_ArtifactDigest v)) = 73" "length (json_quote (val_AuthorizationDigest v)) = 73"
      "length (json_quote (val_EvidenceSnapshotDigest v)) = 73" "length (json_quote (val_OwnedSchemaDigest v)) = 73"
      "length (json_quote (val_ReasonDigest v)) = 73" "length (json_quote (val_ValidationSnapshotDigest v)) = 73"
    using ok by (simp_all add: cap_ok_def quoted_length)
  have x: "length (json_quote (val_ActorID v)) \<le> 130" "length (json_quote (val_Nonce v)) = 24"
      "length (json_quote (val_TargetIPv4 v)) \<le> 17" "length (json_quote (val_SchemaVersion v)) = 25"
      "length (json_quote (val_Operation v)) \<le> 9"
    using ok actor_safe [of "val_ActorID v"] actor_length [of "val_ActorID v"] nonce_text [of "val_Nonce v"]
      operation_text [of "val_Operation v"] addr_safe [of "val_TargetIPv4 v"] addr_text_length [of "val_TargetIPv4 v"]
    by (simp_all add: cap_ok_def json_quote_length schema_text)
  have t: "length (json_quote (formatCanonicalTime (val_IssuedAt v))) = 26"
      "length (json_quote (formatCanonicalTime (val_NotBefore v))) = 26"
      "length (json_quote (formatCanonicalTime (val_ExpiresAt v))) = 26"
    using four by (simp_all add: json_quote_length time_text four_digit_printable)
  have o: "length (appendNullableString (val_OriginalAddDigest v)) \<le> 73"
    using original_text [OF ok] by (simp add: appendNullableString_def json_quote_length)
  show ?thesis
    unfolding marshalCapability_def marshalCapabilityTimes_def MaxCapabilityBytes_def
    using x o uint32_digits [of "val_PolicyVersion v"] by (simp add: u g t)
qed

lemma decode_capability:
  "decode_struct capability_fields (JObj (cap_members v)) zero_capability_wire = Some (wire_of v)"
  unfolding decode_struct_def cap_members_def wire_of_def
  by (simp add: find_field_def capability_fields_def zero_capability_wire_def unat_less_32 [simplified])

lemma strictDecode_capability:
  "cap_ok v \<Longrightarrow> strictDecode MaxCapabilityBytes capability_fields zero_capability_wire (marshalCapability v) = Some (wire_of v)"
  unfolding marshalCapability_print
  by (rule trans [OF strictDecode_print decode_capability]) (simp_all only: cap_flat cap_size flip: marshalCapability_print)

section \<open>Constructors and parsing\<close>

definition built :: "cap_value \<Rightarrow> bytes \<Rightarrow> uint32 \<Rightarrow> inspect_artifact \<Rightarrow> checked_capability" where
  "built v artifact ttl inspection =
     \<lparr>ck_value = v, ck_canonical = marshalCapability v, ck_digest = digestBytes (marshalCapability v),
      ck_artifact = artifact, ck_addTTL = ttl, ck_inspection = inspection\<rparr>"

text \<open>The artifact a capability authorises, by operation.\<close>

definition artifact_ok :: "cap_value \<Rightarrow> bytes \<Rightarrow> uint32 \<Rightarrow> inspect_artifact \<Rightarrow> bool" where
  "artifact_ok v artifact ttl inspection \<longleftrightarrow>
     (if val_Operation v = OperationAdd then
        checkAddArtifact artifact (val_TargetIPv4 v) = Inr ttl \<and> inspection = zero_inspection
      else if val_Operation v = OperationRevoke then
        checkRevokeArtifact artifact (val_TargetIPv4 v) = Inr () \<and> ttl = 0 \<and> inspection = zero_inspection
      else inspection_ok inspection \<and> artifact = marshalInspection inspection \<and> ttl = 0 \<and>
        ia_ActionID inspection = val_ActionID v \<and> ia_TargetIPv4 inspection = val_TargetIPv4 v \<and>
        ia_OriginalAddDigest inspection = val_OriginalAddDigest v \<and>
        ia_OwnedSchemaDigest inspection = val_OwnedSchemaDigest v)"

lemma operations_distinct [simp]:
  "OperationRevoke \<noteq> OperationAdd" "OperationInspect \<noteq> OperationAdd" "OperationInspect \<noteq> OperationRevoke"
  "OperationAdd \<noteq> OperationRevoke" "OperationAdd \<noteq> OperationInspect" "OperationRevoke \<noteq> OperationInspect"
  by (simp_all add: OperationAdd_def OperationRevoke_def OperationInspect_def)

lemma buildChecked_iff:
  "buildChecked c op original artifact ttl inspection = Inr k \<longleftrightarrow>
     (\<exists>v. v = value_of c op original (digestBytes artifact) \<and> cap_ok v \<and> k = built v artifact ttl inspection)"
  by (auto simp: buildChecked_def bind_res_Inr_iff checkCommon_iff built_def Let_def)

lemma CheckAdd_iff:
  "CheckAdd i = Inr k \<longleftrightarrow>
     (\<exists>v ttl. v = value_of i OperationAdd [] (digestBytes (add_CanonicalCommand i)) \<and> cap_ok v \<and>
        artifact_ok v (add_CanonicalCommand i) ttl zero_inspection \<and> k = built v (add_CanonicalCommand i) ttl zero_inspection)"
  by (auto simp: CheckAdd_def bind_res_Inr_iff buildChecked_iff artifact_ok_def value_of_def)

lemma CheckRevoke_iff:
  "CheckRevoke i = Inr k \<longleftrightarrow>
     (\<exists>v. v = value_of i OperationRevoke (rev_OriginalAddDigest i) (digestBytes (rev_CanonicalDelete i)) \<and> cap_ok v \<and>
        artifact_ok v (rev_CanonicalDelete i) 0 zero_inspection \<and> k = built v (rev_CanonicalDelete i) 0 zero_inspection)"
  by (auto simp: CheckRevoke_def bind_res_Inr_iff buildChecked_iff artifact_ok_def)
    (auto simp: value_of_def cap_ok_def)

lemma CheckInspect_iff:
  "CheckInspect i = Inr k \<longleftrightarrow>
     (\<exists>v a. v = value_of i OperationInspect (ins_OriginalAddDigest i) (digestBytes a) \<and> a = marshalInspection (ins_Artifact i) \<and>
        cap_ok v \<and> artifact_ok v a 0 (ins_Artifact i) \<and> k = built v a 0 (ins_Artifact i))"
  by (auto simp: CheckInspect_def bind_res_Inr_iff checkInspection_iff buildChecked_iff artifact_ok_def split: prod.splits)
    (auto simp: value_of_def cap_ok_def)

text \<open>What one of the three constructors returned.\<close>

definition constructed :: "checked_capability \<Rightarrow> bool" where
  "constructed k \<longleftrightarrow> (\<exists>i. CheckAdd i = Inr k) \<or> (\<exists>i. CheckRevoke i = Inr k) \<or> (\<exists>i. CheckInspect i = Inr k)"

lemma value_of_common:
  "val_SchemaVersion v = CapabilitySchemaVersion \<Longrightarrow>
     value_of (cap_common.extend (common_of v) x) (val_Operation v) (val_OriginalAddDigest v) (val_ArtifactDigest v) = v"
  by (cases v) (simp add: value_of_def common_of_def cap_common.extend_def)

lemma wire_check_of:
  assumes ok: "cap_ok v" and d: "val_ArtifactDigest v = digestBytes artifact" and a: "artifact_ok v artifact ttl inspection"
  shows "wire_check (wire_of v) (common_of v) artifact = Inr (built v artifact ttl inspection)"
proof -
  have sv: "val_SchemaVersion v = CapabilitySchemaVersion" using ok by (simp add: cap_ok_def)
  note vc = value_of_common [OF sv, unfolded d]
  from ok have "val_Operation v \<in> {OperationAdd, OperationRevoke, OperationInspect}" by (simp add: cap_ok_def)
  then consider "val_Operation v = OperationAdd" | "val_Operation v = OperationRevoke" | "val_Operation v = OperationInspect"
    by auto
  then show ?thesis
  proof cases
    case 1
    then have o: "val_OriginalAddDigest v = []" using ok by (simp add: cap_ok_def)
    have z: "inspection = zero_inspection" using a 1 by (simp add: artifact_ok_def)
    let ?i = "cap_common.extend (common_of v) \<lparr>add_CanonicalCommand = artifact\<rparr>"
    have e: "add_CanonicalCommand ?i = artifact" by (simp add: cap_common.extend_def)
    have "CheckAdd ?i = Inr (built v artifact ttl inspection)"
      unfolding CheckAdd_iff e using vc [of "\<lparr>add_CanonicalCommand = artifact\<rparr>"] a ok 1 o z by auto
    with 1 o show ?thesis by (simp add: wire_check_def wire_of_def)
  next
    case 2
    then have o: "val_OriginalAddDigest v \<noteq> []" using ok by (auto simp: cap_ok_def digestPattern_nonempty)
    have z: "inspection = zero_inspection" "ttl = 0" using a 2 by (simp_all add: artifact_ok_def)
    let ?x = "\<lparr>rev_OriginalAddDigest = val_OriginalAddDigest v, rev_CanonicalDelete = artifact\<rparr>"
    let ?i = "cap_common.extend (common_of v) ?x"
    have e: "rev_CanonicalDelete ?i = artifact" "rev_OriginalAddDigest ?i = val_OriginalAddDigest v"
      by (simp_all add: cap_common.extend_def)
    have "CheckRevoke ?i = Inr (built v artifact ttl inspection)"
      unfolding CheckRevoke_iff e using vc [of ?x] a ok 2 z by auto
    with 2 o show ?thesis by (simp add: wire_check_def wire_of_def)
  next
    case 3
    then have o: "val_OriginalAddDigest v \<noteq> []" using ok by (auto simp: cap_ok_def digestPattern_nonempty)
    have z: "inspection_ok inspection" "artifact = marshalInspection inspection" "ttl = 0"
      using a 3 by (simp_all add: artifact_ok_def)
    let ?x = "\<lparr>ins_OriginalAddDigest = val_OriginalAddDigest v, ins_Artifact = inspection\<rparr>"
    let ?i = "cap_common.extend (common_of v) ?x"
    have e: "ins_Artifact ?i = inspection" "ins_OriginalAddDigest ?i = val_OriginalAddDigest v"
      by (simp_all add: cap_common.extend_def)
    have "CheckInspect ?i = Inr (built v artifact ttl inspection)"
      unfolding CheckInspect_iff e using vc [of ?x] a ok 3 z by auto
    moreover have "parseInspection artifact = Inr inspection" using z by (simp add: parseInspection_iff)
    ultimately show ?thesis using 3 o by (simp add: wire_check_def wire_of_def)
  qed
qed

lemma constructed_iff:
  "constructed k \<longleftrightarrow>
     (\<exists>v artifact ttl inspection. cap_ok v \<and> val_ArtifactDigest v = digestBytes artifact \<and>
        artifact_ok v artifact ttl inspection \<and> k = built v artifact ttl inspection)" (is "_ \<longleftrightarrow> ?R")
proof
  assume "constructed k"
  then show ?R
    unfolding constructed_def CheckAdd_iff CheckRevoke_iff CheckInspect_iff
    by (elim disjE exE conjE) (metis value_of_def cap_value.select_convs(9))+
next
  assume ?R
  then obtain v artifact ttl inspection where "wire_check (wire_of v) (common_of v) artifact = Inr k"
    using wire_check_of by blast
  then show "constructed k"
    unfolding constructed_def wire_check_def
    by (auto simp: bind_res_Inr_iff split: if_splits option.splits)
qed

lemma wire_check_Inr:
  assumes "wire_check w (wire_common w i n e) artifact = Inr k"
  shows "constructed k \<and> ck_artifact k = artifact \<and> val_IssuedAt (ck_value k) = i \<and>
    val_NotBefore (ck_value k) = n \<and> val_ExpiresAt (ck_value k) = e"
proof -
  have x: "add_CanonicalCommand (cap_common.extend c \<lparr>add_CanonicalCommand = a\<rparr>) = a"
    "rev_CanonicalDelete (cap_common.extend c \<lparr>rev_OriginalAddDigest = o', rev_CanonicalDelete = a\<rparr>) = a"
    "ins_Artifact (cap_common.extend c \<lparr>ins_OriginalAddDigest = o', ins_Artifact = t\<rparr>) = t" for c a o' t
    by (simp_all add: cap_common.extend_def)
  have y: "val_IssuedAt (value_of (cap_common.extend (wire_common w i n e) x) op orig d) = i"
    "val_NotBefore (value_of (cap_common.extend (wire_common w i n e) x) op orig d) = n"
    "val_ExpiresAt (value_of (cap_common.extend (wire_common w i n e) x) op orig d) = e" for x :: 'a and op orig d
    by (simp_all add: value_of_def wire_common_def cap_common.extend_def)
  consider (add) "CheckAdd (cap_common.extend (wire_common w i n e) \<lparr>add_CanonicalCommand = artifact\<rparr>) = Inr k"
    | (revoke) o' where "CheckRevoke (cap_common.extend (wire_common w i n e)
        \<lparr>rev_OriginalAddDigest = o', rev_CanonicalDelete = artifact\<rparr>) = Inr k"
    | (inspect) o' t where "CheckInspect (cap_common.extend (wire_common w i n e)
        \<lparr>ins_OriginalAddDigest = o', ins_Artifact = t\<rparr>) = Inr k" "artifact = marshalInspection t"
    using assms unfolding wire_check_def
    by (auto simp: bind_res_Inr_iff parseInspection_iff split: if_splits option.splits)
  then show ?thesis
  proof cases
    case add
    then have "constructed k" by (auto simp: constructed_def)
    with add show ?thesis unfolding CheckAdd_iff x by (auto simp: built_def y)
  next
    case revoke
    then have "constructed k" by (auto simp: constructed_def)
    with revoke show ?thesis unfolding CheckRevoke_iff x by (auto simp: built_def y)
  next
    case inspect
    then have "constructed k" by (auto simp: constructed_def)
    with inspect show ?thesis unfolding CheckInspect_iff x by (auto simp: built_def y)
  qed
qed

lemma constructed_canonical:
  "constructed k \<Longrightarrow> cap_ok (ck_value k) \<and> ck_canonical k = marshalCapability (ck_value k) \<and>
     ck_digest k = digestBytes (ck_canonical k) \<and> val_ArtifactDigest (ck_value k) = digestBytes (ck_artifact k) \<and>
     artifact_ok (ck_value k) (ck_artifact k) (ck_addTTL k) (ck_inspection k)"
  by (auto simp: constructed_iff built_def)

lemma ParseCanonicalCapability_iff:
  "ParseCanonicalCapability data artifact = Inr k \<longleftrightarrow>
     constructed k \<and> data = ck_canonical k \<and> artifact = ck_artifact k"
proof
  assume "ParseCanonicalCapability data artifact = Inr k"
  then obtain w i n e c where w: "parseCanonicalTime (cw_IssuedAt w) = Some i"
      "parseCanonicalTime (cw_NotBefore w) = Some n" "parseCanonicalTime (cw_ExpiresAt w) = Some e"
    and c: "wire_check w (wire_common w i n e) artifact = Inr c"
    and x: "marshalCapabilityTimes (ck_value c) (cw_IssuedAt w) (cw_NotBefore w) (cw_ExpiresAt w) = data"
    and k: "k = c\<lparr>ck_canonical := data, ck_digest := digestBytes data\<rparr>"
    unfolding ParseCanonicalCapability_def
    by (auto simp: bind_res_Inr_iff Let_def split: option.splits if_splits)
  note r = wire_check_Inr [OF c]
  have "data = marshalCapability (ck_value c)"
    using x w [THEN parseCanonicalTime_Some] r by (simp add: marshalCapability_def)
  moreover have "ck_canonical c = marshalCapability (ck_value c)" "ck_digest c = digestBytes (ck_canonical c)"
    using constructed_canonical r by blast+
  ultimately have "k = c" "data = ck_canonical c" by (simp_all add: k)
  with r show "constructed k \<and> data = ck_canonical k \<and> artifact = ck_artifact k" by simp
next
  assume "constructed k \<and> data = ck_canonical k \<and> artifact = ck_artifact k"
  then have k: "constructed k" "data = ck_canonical k" "artifact = ck_artifact k" by simp_all
  from k(1) obtain v a ttl ins where o: "cap_ok v" "val_ArtifactDigest v = digestBytes a" "artifact_ok v a ttl ins"
      "k = built v a ttl ins" unfolding constructed_iff by blast
  have a: "a = artifact" and d: "data = marshalCapability v" using k(2,3) o(4) by (simp_all add: built_def)
  note v = o [unfolded a]
  have t: "parseCanonicalTime (formatCanonicalTime (val_IssuedAt v)) = Some (val_IssuedAt v)"
      "parseCanonicalTime (formatCanonicalTime (val_NotBefore v)) = Some (val_NotBefore v)"
      "parseCanonicalTime (formatCanonicalTime (val_ExpiresAt v)) = Some (val_ExpiresAt v)"
    using v(1) by (simp_all add: cap_ok_def times_ok_def parseCanonicalTime_format four_digit_printable)
  have c: "wire_common (wire_of v) (val_IssuedAt v) (val_NotBefore v) (val_ExpiresAt v) = common_of v"
    by (simp add: wire_common_def wire_of_def common_of_def)
  have w: "cw_IssuedAt (wire_of v) = formatCanonicalTime (val_IssuedAt v)"
      "cw_NotBefore (wire_of v) = formatCanonicalTime (val_NotBefore v)"
      "cw_ExpiresAt (wire_of v) = formatCanonicalTime (val_ExpiresAt v)"
      "cw_SchemaVersion (wire_of v) = val_SchemaVersion v" "cw_ArtifactDigest (wire_of v) = digestBytes artifact"
    using v(2) by (simp_all add: wire_of_def)
  have m: "marshalCapabilityTimes v (formatCanonicalTime (val_IssuedAt v)) (formatCanonicalTime (val_NotBefore v))
      (formatCanonicalTime (val_ExpiresAt v)) = data" by (simp add: d marshalCapability_def)
  show "ParseCanonicalCapability data artifact = Inr k"
    unfolding ParseCanonicalCapability_def d strictDecode_capability [OF v(1)]
    by (simp add: w t c wire_check_of [OF v(1-3)] built_def v(2,4) m [unfolded d])
qed

lemma constructed_inj:
  assumes "constructed a" "constructed b" "ck_canonical a = ck_canonical b" "ck_artifact a = ck_artifact b"
  shows "a = b"
  using assms ParseCanonicalCapability_iff by (metis Inr_inject)

text \<open>
  C15: Strict parsing of execution-capability-v1 is exact. \<open>ParseCanonicalCapability\<close> accepts a byte string
  with a separately carried artifact if and only if some call of \<open>CheckAdd\<close>, \<open>CheckRevoke\<close> or
  \<open>CheckInspect\<close> produces that very capability: the bytes are its canonical encoding, the artifact is the
  one it froze, and the parsed value, digest and duration are those of the constructor. No other spelling
  of the fields, times or nonce, and no other artifact, is accepted.
\<close>

theorem capability_parse_accepts_exactly:
  "ParseCanonicalCapability data artifact = Inr k \<longleftrightarrow>
     ((\<exists>i. CheckAdd i = Inr k) \<or> (\<exists>i. CheckRevoke i = Inr k) \<or> (\<exists>i. CheckInspect i = Inr k)) \<and>
     data = ck_canonical k \<and> artifact = ck_artifact k"
  unfolding ParseCanonicalCapability_iff constructed_def ..

end
