(* ===== verification/Capability_Result.thy ===== *)
theory Capability_Result
  imports Capability_Parse
begin

text \<open>
  \<open>internal/enforcement/capability/result.go\<close> and the result types of \<open>types.go\<close>: the
  executor's attestation of what happened, its outcome rules, canonical bytes and strict parsing.
  Classifications, exit classes, read-back states and error codes are open strings in the source;
  the checks close them.
\<close>

section \<open>Types and constants (types.go)\<close>

definition ResultSchemaVersion :: string where "ResultSchemaVersion = ''execution-result-v1''"
definition MaxResultBytes :: nat where "MaxResultBytes = 8 * 1024"

definition ClassificationApplied :: string where "ClassificationApplied = ''applied''"
definition ClassificationRecoveredActive :: string where "ClassificationRecoveredActive = ''recovered_active''"
definition ClassificationRevoked :: string where "ClassificationRevoked = ''revoked''"
definition ClassificationInspectActive :: string where "ClassificationInspectActive = ''inspect_active''"
definition ClassificationInspectAbsent :: string where "ClassificationInspectAbsent = ''inspect_absent''"
definition ClassificationInspectMismatch :: string where "ClassificationInspectMismatch = ''inspect_mismatch''"
definition ClassificationFailed :: string where "ClassificationFailed = ''failed''"
definition ClassificationIndeterminate :: string where "ClassificationIndeterminate = ''indeterminate''"

definition NFTExitSuccess :: string where "NFTExitSuccess = ''success''"
definition NFTExitNotInvoked :: string where "NFTExitNotInvoked = ''not_invoked''"
definition NFTExitNonzero :: string where "NFTExitNonzero = ''nonzero''"
definition NFTExitTimeout :: string where "NFTExitTimeout = ''timeout''"
definition NFTExitSignaled :: string where "NFTExitSignaled = ''signaled''"

definition ReadbackActive :: string where "ReadbackActive = ''active''"
definition ReadbackAbsent :: string where "ReadbackAbsent = ''absent''"
definition ReadbackMismatch :: string where "ReadbackMismatch = ''mismatch''"
definition ReadbackUnavailable :: string where "ReadbackUnavailable = ''unavailable''"

definition ResultErrorNone :: string where "ResultErrorNone = ''none''"
definition ResultErrorCapabilityInvalid :: string where "ResultErrorCapabilityInvalid = ''capability_invalid''"
definition ResultErrorArtifactMismatch :: string where "ResultErrorArtifactMismatch = ''artifact_mismatch''"
definition ResultErrorSchemaMismatch :: string where "ResultErrorSchemaMismatch = ''schema_mismatch''"
definition ResultErrorTargetExists :: string where "ResultErrorTargetExists = ''target_exists''"
definition ResultErrorTargetAbsent :: string where "ResultErrorTargetAbsent = ''target_absent''"
definition ResultErrorNFTFailed :: string where "ResultErrorNFTFailed = ''nft_failed''"
definition ResultErrorReadbackFailed :: string where "ResultErrorReadbackFailed = ''readback_failed''"
definition ResultErrorReadbackMismatch :: string where "ResultErrorReadbackMismatch = ''readback_mismatch''"
definition ResultErrorJournalFailed :: string where "ResultErrorJournalFailed = ''journal_failed''"
definition ResultErrorDeadlineExceeded :: string where "ResultErrorDeadlineExceeded = ''deadline_exceeded''"
definition ResultErrorReplayConflict :: string where "ResultErrorReplayConflict = ''replay_conflict''"
definition ResultErrorIndeterminate :: string where "ResultErrorIndeterminate = ''indeterminate''"

record exec_result =
  rs_ResultID :: string
  rs_CapabilityID :: string
  rs_CapabilityDigest :: string
  rs_Operation :: string
  rs_ActionID :: string
  rs_ArtifactDigest :: string
  rs_TargetIPv4 :: string
  rs_Classification :: string
  rs_NFTExitClass :: "string option"
  rs_ReadbackState :: string
  rs_ElementHandle :: "uint64 option"
  rs_RemainingTTLSeconds :: "uint64 option"
  rs_OwnedSchemaDigest :: string
  rs_StartedAt :: gotime
  rs_CompletedAt :: gotime
  rs_JournalSequence :: uint64
  rs_ErrorCode :: string

record checked_result =
  cr_value :: exec_result
  cr_canonical :: bytes
  cr_digest :: string

section \<open>Checks (result.go)\<close>

definition validClassification :: "string \<Rightarrow> string \<Rightarrow> bool" where
  "validClassification operation c \<longleftrightarrow>
     (if operation = OperationAdd then
        c = ClassificationApplied \<or> c = ClassificationRecoveredActive \<or>
        c = ClassificationFailed \<or> c = ClassificationIndeterminate
      else if operation = OperationRevoke then
        c = ClassificationRevoked \<or> c = ClassificationFailed \<or> c = ClassificationIndeterminate
      else if operation = OperationInspect then
        c = ClassificationInspectActive \<or> c = ClassificationInspectAbsent \<or>
        c = ClassificationInspectMismatch \<or> c = ClassificationFailed \<or>
        c = ClassificationIndeterminate
      else False)"

definition validExit :: "string option \<Rightarrow> bool" where
  "validExit v \<longleftrightarrow>
     (case v of
        None \<Rightarrow> True
      | Some x \<Rightarrow> x \<in> set [NFTExitSuccess, NFTExitNotInvoked, NFTExitNonzero, NFTExitTimeout, NFTExitSignaled])"

definition validReadback :: "string \<Rightarrow> bool" where
  "validReadback v \<longleftrightarrow> v = ReadbackActive \<or> v = ReadbackAbsent \<or> v = ReadbackMismatch \<or> v = ReadbackUnavailable"

definition validResultError :: "string \<Rightarrow> bool" where
  "validResultError v \<longleftrightarrow>
     v \<in> set [ResultErrorNone, ResultErrorCapabilityInvalid, ResultErrorArtifactMismatch, ResultErrorSchemaMismatch,
       ResultErrorTargetExists, ResultErrorTargetAbsent, ResultErrorNFTFailed, ResultErrorReadbackFailed,
       ResultErrorReadbackMismatch, ResultErrorJournalFailed, ResultErrorDeadlineExceeded,
       ResultErrorReplayConflict, ResultErrorIndeterminate]"

definition positive_ttl :: "uint64 option \<Rightarrow> bool" where
  "positive_ttl v \<longleftrightarrow> (case v of None \<Rightarrow> False | Some n \<Rightarrow> n \<noteq> 0)"

definition checkOutcome :: "exec_result \<Rightarrow> cap_error + unit" where
  "checkOutcome v =
     (let success = (rs_Classification v \<noteq> ClassificationFailed \<and> rs_Classification v \<noteq> ClassificationIndeterminate) in
      if success \<noteq> (rs_ErrorCode v = ResultErrorNone) then Inl CapErrorResult
      else if rs_Classification v = ClassificationApplied then
        if rs_NFTExitClass v \<noteq> Some NFTExitSuccess \<or> rs_ReadbackState v \<noteq> ReadbackActive \<or>
           rs_ElementHandle v \<noteq> None \<or> \<not> positive_ttl (rs_RemainingTTLSeconds v)
        then Inl CapErrorResult else Inr ()
      else if rs_Classification v = ClassificationRecoveredActive then
        if rs_NFTExitClass v \<noteq> Some NFTExitNotInvoked \<or> rs_ReadbackState v \<noteq> ReadbackActive \<or>
           rs_ElementHandle v \<noteq> None \<or> \<not> positive_ttl (rs_RemainingTTLSeconds v)
        then Inl CapErrorResult else Inr ()
      else if rs_Classification v = ClassificationRevoked \<or> rs_Classification v = ClassificationInspectAbsent then
        if (rs_NFTExitClass v \<noteq> Some NFTExitSuccess \<and> rs_NFTExitClass v \<noteq> Some NFTExitNotInvoked) \<or>
           rs_ReadbackState v \<noteq> ReadbackAbsent \<or> rs_ElementHandle v \<noteq> None \<or> rs_RemainingTTLSeconds v \<noteq> None
        then Inl CapErrorResult else Inr ()
      else if rs_Classification v = ClassificationInspectActive then
        if rs_NFTExitClass v \<noteq> Some NFTExitSuccess \<or> rs_ReadbackState v \<noteq> ReadbackActive \<or>
           rs_ElementHandle v \<noteq> None \<or> \<not> positive_ttl (rs_RemainingTTLSeconds v)
        then Inl CapErrorResult else Inr ()
      else if rs_Classification v = ClassificationInspectMismatch then
        if rs_NFTExitClass v \<noteq> Some NFTExitSuccess \<or> rs_ReadbackState v \<noteq> ReadbackMismatch
        then Inl CapErrorResult else Inr ()
      else Inr ())"

definition checkResultValue :: "exec_result \<Rightarrow> cap_error + unit" where
  "checkResultValue v =
     (if \<not> re_matches uuidPattern (rs_ResultID v) \<or> \<not> re_matches uuidPattern (rs_CapabilityID v) \<or>
         \<not> re_matches uuidPattern (rs_ActionID v) then Inl CapErrorIdentity
      else if \<not> re_matches digestPattern (rs_CapabilityDigest v) \<or> \<not> re_matches digestPattern (rs_ArtifactDigest v) \<or>
              \<not> re_matches digestPattern (rs_OwnedSchemaDigest v) then Inl CapErrorDigest
      else if \<not> canonical_ipv4 (rs_TargetIPv4 v) then Inl CapErrorResult
      else if rs_Operation v \<noteq> OperationAdd \<and> rs_Operation v \<noteq> OperationRevoke \<and> rs_Operation v \<noteq> OperationInspect
      then Inl CapErrorOperation
      else if \<not> validClassification (rs_Operation v) (rs_Classification v) \<or> \<not> validExit (rs_NFTExitClass v) \<or>
              \<not> validReadback (rs_ReadbackState v) \<or> \<not> validResultError (rs_ErrorCode v) then Inl CapErrorResult
      else if rs_ElementHandle v \<noteq> None then Inl CapErrorResult
      else if (case rs_RemainingTTLSeconds v of None \<Rightarrow> False | Some n \<Rightarrow> 86400 < n) then Inl CapErrorResult
      else if rs_JournalSequence v = 0 \<or> 2 ^ 53 - 1 < rs_JournalSequence v \<or> rs_StartedAt v = 0 \<or>
              rs_CompletedAt v = 0 \<or> rs_CompletedAt v < rs_StartedAt v \<or>
              \<not> millisecondAligned (rs_StartedAt v) \<or> \<not> millisecondAligned (rs_CompletedAt v) \<or>
              2 * Second < Sub (rs_CompletedAt v) (rs_StartedAt v) then Inl CapErrorTime
      else checkOutcome v)"

section \<open>Canonical bytes (result.go)\<close>

definition appendNullableUint :: "uint64 option \<Rightarrow> string" where
  "appendNullableUint v = (case v of None \<Rightarrow> ''null'' | Some n \<Rightarrow> nat_str (unat n))"

definition marshalResultTimes :: "exec_result \<Rightarrow> string \<Rightarrow> string \<Rightarrow> bytes" where
  \<open>marshalResultTimes v startedAt completedAt =
     ''{"action_id":'' @ json_quote (rs_ActionID v) @
     '',"artifact_digest":'' @ json_quote (rs_ArtifactDigest v) @
     '',"capability_digest":'' @ json_quote (rs_CapabilityDigest v) @
     '',"capability_id":'' @ json_quote (rs_CapabilityID v) @
     '',"classification":'' @ json_quote (rs_Classification v) @
     '',"completed_at":'' @ json_quote completedAt @
     '',"element_handle":'' @ appendNullableUint (rs_ElementHandle v) @
     '',"error_code":'' @ json_quote (rs_ErrorCode v) @
     '',"journal_sequence":'' @ nat_str (unat (rs_JournalSequence v)) @
     '',"nft_exit_class":'' @ (case rs_NFTExitClass v of None \<Rightarrow> ''null'' | Some x \<Rightarrow> json_quote x) @
     '',"operation":'' @ json_quote (rs_Operation v) @
     '',"owned_schema_digest":'' @ json_quote (rs_OwnedSchemaDigest v) @
     '',"readback_state":'' @ json_quote (rs_ReadbackState v) @
     '',"remaining_ttl_seconds":'' @ appendNullableUint (rs_RemainingTTLSeconds v) @
     '',"result_id":'' @ json_quote (rs_ResultID v) @
     '',"schema_version":"execution-result-v1","started_at":'' @ json_quote startedAt @
     '',"target_ipv4":'' @ json_quote (rs_TargetIPv4 v) @ ''}''\<close>

definition marshalResult :: "exec_result \<Rightarrow> bytes" where
  "marshalResult v = marshalResultTimes v (formatCanonicalTime (rs_StartedAt v)) (formatCanonicalTime (rs_CompletedAt v))"

definition CheckResult :: "exec_result \<Rightarrow> cap_error + checked_result" where
  "CheckResult v =
     bind_res (checkResultValue v) (\<lambda>_.
       let canonical = marshalResult v
       in Inr \<lparr>cr_value = v, cr_canonical = canonical, cr_digest = digestBytes canonical\<rparr>)"

record result_wire =
  rw_SchemaVersion :: string
  rw_ResultID :: string
  rw_CapabilityID :: string
  rw_CapabilityDigest :: string
  rw_Operation :: string
  rw_ActionID :: string
  rw_ArtifactDigest :: string
  rw_TargetIPv4 :: string
  rw_Classification :: string
  rw_NFTExitClass :: "string option"
  rw_ReadbackState :: string
  rw_ElementHandle :: "uint64 option"
  rw_RemainingTTLSeconds :: "uint64 option"
  rw_OwnedSchemaDigest :: string
  rw_StartedAt :: string
  rw_CompletedAt :: string
  rw_JournalSequence :: uint64
  rw_ErrorCode :: string

definition zero_result_wire :: result_wire where
  "zero_result_wire = \<lparr>rw_SchemaVersion = [], rw_ResultID = [], rw_CapabilityID = [],
     rw_CapabilityDigest = [], rw_Operation = [], rw_ActionID = [],
     rw_ArtifactDigest = [], rw_TargetIPv4 = [], rw_Classification = [],
     rw_NFTExitClass = None, rw_ReadbackState = [], rw_ElementHandle = None,
     rw_RemainingTTLSeconds = None, rw_OwnedSchemaDigest = [], rw_StartedAt = [],
     rw_CompletedAt = [], rw_JournalSequence = 0, rw_ErrorCode = []\<rparr>"

definition result_fields :: "(string \<times> result_wire setter) list" where
  "result_fields =
     [(''schema_version'', set_string (\<lambda>x. rw_SchemaVersion_update (\<lambda>_. x))),
      (''result_id'', set_string (\<lambda>x. rw_ResultID_update (\<lambda>_. x))),
      (''capability_id'', set_string (\<lambda>x. rw_CapabilityID_update (\<lambda>_. x))),
      (''capability_digest'', set_string (\<lambda>x. rw_CapabilityDigest_update (\<lambda>_. x))),
      (''operation'', set_string (\<lambda>x. rw_Operation_update (\<lambda>_. x))),
      (''action_id'', set_string (\<lambda>x. rw_ActionID_update (\<lambda>_. x))),
      (''artifact_digest'', set_string (\<lambda>x. rw_ArtifactDigest_update (\<lambda>_. x))),
      (''target_ipv4'', set_string (\<lambda>x. rw_TargetIPv4_update (\<lambda>_. x))),
      (''classification'', set_string (\<lambda>x. rw_Classification_update (\<lambda>_. x))),
      (''nft_exit_class'', set_string_ptr (\<lambda>x. rw_NFTExitClass_update (\<lambda>_. x))),
      (''readback_state'', set_string (\<lambda>x. rw_ReadbackState_update (\<lambda>_. x))),
      (''element_handle'', set_uint_ptr 64 (\<lambda>x. rw_ElementHandle_update (\<lambda>_. map_option of_nat x))),
      (''remaining_ttl_seconds'', set_uint_ptr 64 (\<lambda>x. rw_RemainingTTLSeconds_update (\<lambda>_. map_option of_nat x))),
      (''owned_schema_digest'', set_string (\<lambda>x. rw_OwnedSchemaDigest_update (\<lambda>_. x))),
      (''started_at'', set_string (\<lambda>x. rw_StartedAt_update (\<lambda>_. x))),
      (''completed_at'', set_string (\<lambda>x. rw_CompletedAt_update (\<lambda>_. x))),
      (''journal_sequence'', set_uint 64 (\<lambda>x. rw_JournalSequence_update (\<lambda>_. of_nat x))),
      (''error_code'', set_string (\<lambda>x. rw_ErrorCode_update (\<lambda>_. x)))]"

definition wire_result :: "result_wire \<Rightarrow> gotime \<Rightarrow> gotime \<Rightarrow> exec_result" where
  "wire_result w startedAt completedAt = \<lparr>rs_ResultID = rw_ResultID w, rs_CapabilityID = rw_CapabilityID w,
     rs_CapabilityDigest = rw_CapabilityDigest w, rs_Operation = rw_Operation w,
     rs_ActionID = rw_ActionID w, rs_ArtifactDigest = rw_ArtifactDigest w,
     rs_TargetIPv4 = rw_TargetIPv4 w, rs_Classification = rw_Classification w,
     rs_NFTExitClass = rw_NFTExitClass w, rs_ReadbackState = rw_ReadbackState w,
     rs_ElementHandle = rw_ElementHandle w, rs_RemainingTTLSeconds = rw_RemainingTTLSeconds w,
     rs_OwnedSchemaDigest = rw_OwnedSchemaDigest w,
     rs_StartedAt = startedAt, rs_CompletedAt = completedAt, rs_JournalSequence = rw_JournalSequence w,
     rs_ErrorCode = rw_ErrorCode w\<rparr>"

definition ParseCanonicalResult :: "bytes \<Rightarrow> cap_error + checked_result" where
  "ParseCanonicalResult data =
     (case strictDecode MaxResultBytes result_fields zero_result_wire data of
        None \<Rightarrow> Inl CapErrorEncoding
      | Some w \<Rightarrow>
          if rw_SchemaVersion w \<noteq> ResultSchemaVersion then Inl CapErrorSchema
          else case (parseCanonicalTime (rw_StartedAt w), parseCanonicalTime (rw_CompletedAt w)) of
            (Some startedAt, Some completedAt) \<Rightarrow>
              bind_res (CheckResult (wire_result w startedAt completedAt)) (\<lambda>checked.
                let expected = marshalResultTimes (cr_value checked) (rw_StartedAt w) (rw_CompletedAt w)
                in if data \<noteq> expected then Inl CapErrorCanonical
                   else Inr (checked\<lparr>cr_canonical := data, cr_digest := digestBytes data\<rparr>))
          | _ \<Rightarrow> Inl CapErrorTime)"

section \<open>Accepted results\<close>

lemma checkOutcome_cases: "checkOutcome v = Inl CapErrorResult \<or> checkOutcome v = Inr ()"
  by (simp add: checkOutcome_def Let_def)

definition result_ok :: "exec_result \<Rightarrow> bool" where
  "result_ok v \<longleftrightarrow>
     re_matches uuidPattern (rs_ResultID v) \<and> re_matches uuidPattern (rs_CapabilityID v) \<and>
     re_matches uuidPattern (rs_ActionID v) \<and> re_matches digestPattern (rs_CapabilityDigest v) \<and>
     re_matches digestPattern (rs_ArtifactDigest v) \<and> re_matches digestPattern (rs_OwnedSchemaDigest v) \<and>
     canonical_ipv4 (rs_TargetIPv4 v) \<and> rs_Operation v \<in> {OperationAdd, OperationRevoke, OperationInspect} \<and>
     validClassification (rs_Operation v) (rs_Classification v) \<and> validExit (rs_NFTExitClass v) \<and>
     validReadback (rs_ReadbackState v) \<and> validResultError (rs_ErrorCode v) \<and> rs_ElementHandle v = None \<and>
     (\<forall>n. rs_RemainingTTLSeconds v = Some n \<longrightarrow> n \<le> 86400) \<and>
     rs_JournalSequence v \<noteq> 0 \<and> rs_JournalSequence v \<le> 2 ^ 53 - 1 \<and>
     rs_StartedAt v \<noteq> 0 \<and> rs_CompletedAt v \<noteq> 0 \<and> rs_StartedAt v \<le> rs_CompletedAt v \<and>
     rs_CompletedAt v - rs_StartedAt v \<le> 2 * Second \<and>
     millisecondAligned (rs_StartedAt v) \<and> millisecondAligned (rs_CompletedAt v) \<and> checkOutcome v = Inr ()"

lemma checkResultValue_iff: "checkResultValue v = Inr () \<longleftrightarrow> result_ok v"
proof -
  have s: "2 * Second < Sub (rs_CompletedAt v) (rs_StartedAt v) \<longleftrightarrow> 2 * Second < rs_CompletedAt v - rs_StartedAt v"
    by (rule Sub_greater) simp_all
  have r: "(case rs_RemainingTTLSeconds v of None \<Rightarrow> False | Some n \<Rightarrow> 86400 < n) \<longleftrightarrow>
      \<not> (\<forall>n. rs_RemainingTTLSeconds v = Some n \<longrightarrow> n \<le> 86400)"
    by (auto simp: not_le split: option.split)
  show ?thesis
    unfolding checkResultValue_def if_Inl_eq_Inr result_ok_def s r
    by (simp add: not_less not_le) blast
qed

definition checked_result_of :: "exec_result \<Rightarrow> checked_result" where
  "checked_result_of v = \<lparr>cr_value = v, cr_canonical = marshalResult v, cr_digest = digestBytes (marshalResult v)\<rparr>"

lemma CheckResult_iff: "CheckResult v = Inr c \<longleftrightarrow> result_ok v \<and> c = checked_result_of v"
  by (auto simp: CheckResult_def bind_res_Inr_iff checkResultValue_iff checked_result_of_def Let_def)

section \<open>Canonical result documents\<close>

definition opt_num :: "uint64 option \<Rightarrow> json" where
  "opt_num v = (case v of None \<Rightarrow> JNull | Some n \<Rightarrow> JNum (nat_str (unat n)))"

lemma opt_num_facts:
  "json_print (opt_num v) = appendNullableUint v" "flat_value (opt_num v)"
  "set_uint_ptr 64 upd (opt_num v) r = Some (upd (map_option unat v) r)"
  using unat_less_64 by (cases v; force simp: opt_num_def appendNullableUint_def)+

definition result_members :: "exec_result \<Rightarrow> (bytes \<times> json) list" where
  "result_members v =
     [(''action_id'', JStr (rs_ActionID v)), (''artifact_digest'', JStr (rs_ArtifactDigest v)),
      (''capability_digest'', JStr (rs_CapabilityDigest v)), (''capability_id'', JStr (rs_CapabilityID v)),
      (''classification'', JStr (rs_Classification v)),
      (''completed_at'', JStr (formatCanonicalTime (rs_CompletedAt v))),
      (''element_handle'', opt_num (rs_ElementHandle v)), (''error_code'', JStr (rs_ErrorCode v)),
      (''journal_sequence'', JNum (nat_str (unat (rs_JournalSequence v)))),
      (''nft_exit_class'', opt_str (rs_NFTExitClass v)), (''operation'', JStr (rs_Operation v)),
      (''owned_schema_digest'', JStr (rs_OwnedSchemaDigest v)), (''readback_state'', JStr (rs_ReadbackState v)),
      (''remaining_ttl_seconds'', opt_num (rs_RemainingTTLSeconds v)), (''result_id'', JStr (rs_ResultID v)),
      (''schema_version'', JStr ResultSchemaVersion),
      (''started_at'', JStr (formatCanonicalTime (rs_StartedAt v))), (''target_ipv4'', JStr (rs_TargetIPv4 v))]"

lemma result_keys:
  \<open>json_quote ''capability_digest'' = ''"capability_digest"''\<close>
  \<open>json_quote ''classification'' = ''"classification"''\<close>
  \<open>json_quote ''completed_at'' = ''"completed_at"''\<close>
  \<open>json_quote ''element_handle'' = ''"element_handle"''\<close>
  \<open>json_quote ''error_code'' = ''"error_code"''\<close>
  \<open>json_quote ''journal_sequence'' = ''"journal_sequence"''\<close>
  \<open>json_quote ''nft_exit_class'' = ''"nft_exit_class"''\<close>
  \<open>json_quote ''readback_state'' = ''"readback_state"''\<close>
  \<open>json_quote ''remaining_ttl_seconds'' = ''"remaining_ttl_seconds"''\<close>
  \<open>json_quote ''result_id'' = ''"result_id"''\<close>
  \<open>json_quote ''started_at'' = ''"started_at"''\<close>
  \<open>json_quote ''execution-result-v1'' = ''"execution-result-v1"''\<close>
  by (simp_all add: json_quote_safe html_safe_def byte_in_def byte_val_def QUOTE_def)

lemma opt_str_print: "json_print (opt_str v) = (case v of None \<Rightarrow> ''null'' | Some x \<Rightarrow> json_quote x)"
  by (cases v) simp_all

lemma marshalResult_print: "marshalResult v = json_print (JObj (result_members v))"
  unfolding marshalResult_def marshalResultTimes_def result_members_def ResultSchemaVersion_def
  by (simp add: contract_keys result_keys opt_num_facts opt_str_print)

lemmas result_words =
  ClassificationApplied_def ClassificationRecoveredActive_def ClassificationRevoked_def
  ClassificationInspectActive_def ClassificationInspectAbsent_def ClassificationInspectMismatch_def
  ClassificationFailed_def ClassificationIndeterminate_def NFTExitSuccess_def NFTExitNotInvoked_def
  NFTExitNonzero_def NFTExitTimeout_def NFTExitSignaled_def ReadbackActive_def ReadbackAbsent_def
  ReadbackMismatch_def ReadbackUnavailable_def ResultErrorNone_def ResultErrorCapabilityInvalid_def
  ResultErrorArtifactMismatch_def ResultErrorSchemaMismatch_def ResultErrorTargetExists_def
  ResultErrorTargetAbsent_def ResultErrorNFTFailed_def ResultErrorReadbackFailed_def
  ResultErrorReadbackMismatch_def ResultErrorJournalFailed_def ResultErrorDeadlineExceeded_def
  ResultErrorReplayConflict_def ResultErrorIndeterminate_def

definition all_words :: "string list" where
  "all_words = [ClassificationApplied, ClassificationRecoveredActive, ClassificationRevoked,
     ClassificationInspectActive, ClassificationInspectAbsent, ClassificationInspectMismatch,
     ClassificationFailed, ClassificationIndeterminate, NFTExitSuccess, NFTExitNotInvoked,
     NFTExitNonzero, NFTExitTimeout, NFTExitSignaled, ReadbackActive, ReadbackAbsent,
     ReadbackMismatch, ReadbackUnavailable, ResultErrorNone, ResultErrorCapabilityInvalid,
     ResultErrorArtifactMismatch, ResultErrorSchemaMismatch, ResultErrorTargetExists,
     ResultErrorTargetAbsent, ResultErrorNFTFailed, ResultErrorReadbackFailed,
     ResultErrorReadbackMismatch, ResultErrorJournalFailed, ResultErrorDeadlineExceeded,
     ResultErrorReplayConflict, ResultErrorIndeterminate]"

lemma all_words_text: "list_all (\<lambda>w. list_all html_safe w \<and> length w \<le> 18) all_words"
  by (simp add: all_words_def result_words html_safe_def byte_in_def byte_val_def)

lemma word_text: "w \<in> set all_words \<Longrightarrow> list_all html_safe w \<and> length w \<le> 18"
  using all_words_text by (simp add: list_all_iff)

lemma result_words_known:
  "validClassification op w \<Longrightarrow> w \<in> set all_words" "validExit (Some w) \<Longrightarrow> w \<in> set all_words"
  "validReadback w \<Longrightarrow> w \<in> set all_words" "validResultError w \<Longrightarrow> w \<in> set all_words"
  unfolding all_words_def validClassification_def validExit_def validReadback_def validResultError_def
  by (auto split: if_splits)

lemma result_text:
  assumes "result_ok v"
  shows "list_all html_safe (rs_Classification v) \<and> length (rs_Classification v) \<le> 18"
    and "list_all html_safe (rs_ReadbackState v) \<and> length (rs_ReadbackState v) \<le> 18"
    and "list_all html_safe (rs_ErrorCode v) \<and> length (rs_ErrorCode v) \<le> 18"
    and "rs_NFTExitClass v = Some x \<Longrightarrow> list_all html_safe x \<and> length x \<le> 18"
    and "list_all html_safe (rs_Operation v) \<and> length (rs_Operation v) \<le> 7"
  using assms result_words_known word_text operation_text [of "rs_Operation v"]
  unfolding result_ok_def by metis+

lemma result_schema_text: "list_all html_safe ResultSchemaVersion"
  by (simp add: ResultSchemaVersion_def html_safe_def byte_in_def byte_val_def)

lemma result_flat: "result_ok v \<Longrightarrow> flat_doc (result_members v)"
proof -
  assume ok: "result_ok v"
  have k: "list_all (\<lambda>m. list_all html_safe (fst m)) (result_members v)"
    by (simp add: result_members_def html_safe_def byte_in_def byte_val_def)
  have d: "distinct (map fst (result_members v))" by (simp add: result_members_def)
  have x: "flat_value (opt_str (rs_NFTExitClass v))" using result_text(4) [OF ok] by (auto simp: flat_opt_str split: option.split)
  have s: "list_all html_safe (rs_ActionID v)" "list_all html_safe (rs_CapabilityID v)" "list_all html_safe (rs_ResultID v)"
      "list_all html_safe (rs_ArtifactDigest v)" "list_all html_safe (rs_CapabilityDigest v)"
      "list_all html_safe (rs_OwnedSchemaDigest v)" "list_all html_safe (rs_TargetIPv4 v)"
    using ok by (simp_all add: result_ok_def uuid_safe digest_safe addr_safe)
  have "list_all (\<lambda>m. flat_value (snd m)) (result_members v)"
    using s x result_text(1-3,5) [OF ok]
    by (auto simp: result_members_def opt_num_facts time_text result_schema_text)
  with k d show ?thesis by (simp add: flat_doc_def)
qed

lemma uint64_digits: "length (nat_str (unat (v :: uint64))) \<le> 20"
proof -
  have "unat v < 10 ^ 20" using unat_less_64 [of v] by simp
  then show ?thesis using nat_str_length_le [of 20 "unat v"] by simp
qed

lemma nullable_uint_size: "length (appendNullableUint v) \<le> 20"
  using uint64_digits by (auto simp: appendNullableUint_def split: option.split)

lemma result_size:
  assumes ok: "result_ok v" and y: "printable_year (rs_StartedAt v)" "printable_year (rs_CompletedAt v)"
  shows "length (marshalResult v) \<le> MaxResultBytes"
proof -
  have u: "length (json_quote (rs_ActionID v)) = 38" "length (json_quote (rs_CapabilityID v)) = 38"
      "length (json_quote (rs_ResultID v)) = 38" "length (json_quote (rs_ArtifactDigest v)) = 73"
      "length (json_quote (rs_CapabilityDigest v)) = 73" "length (json_quote (rs_OwnedSchemaDigest v)) = 73"
    using ok by (simp_all add: result_ok_def quoted_length)
  have t: "length (json_quote (formatCanonicalTime (rs_StartedAt v))) = 26"
      "length (json_quote (formatCanonicalTime (rs_CompletedAt v))) = 26"
    using y by (simp_all add: json_quote_length time_text)
  have w: "length (json_quote (rs_Classification v)) \<le> 20" "length (json_quote (rs_ReadbackState v)) \<le> 20"
      "length (json_quote (rs_ErrorCode v)) \<le> 20" "length (json_quote (rs_Operation v)) \<le> 9"
    using result_text [OF ok] by (simp_all add: json_quote_length)
  have x: "length (case rs_NFTExitClass v of None \<Rightarrow> ''null'' | Some x \<Rightarrow> json_quote x) \<le> 20"
    using result_text(4) [OF ok] by (auto simp: json_quote_length split: option.split)
  have a: "length (json_quote (rs_TargetIPv4 v)) \<le> 17"
    using ok by (simp add: result_ok_def json_quote_length addr_safe addr_text_length)
  show ?thesis
    unfolding marshalResult_def marshalResultTimes_def MaxResultBytes_def
    using w x a nullable_uint_size [of "rs_ElementHandle v"] nullable_uint_size [of "rs_RemainingTTLSeconds v"]
      uint64_digits [of "rs_JournalSequence v"]
    by (simp add: u t)
qed

definition result_wire_of :: "exec_result \<Rightarrow> result_wire" where
  "result_wire_of v = \<lparr>rw_SchemaVersion = ResultSchemaVersion, rw_ResultID = rs_ResultID v,
     rw_CapabilityID = rs_CapabilityID v, rw_CapabilityDigest = rs_CapabilityDigest v,
     rw_Operation = rs_Operation v, rw_ActionID = rs_ActionID v, rw_ArtifactDigest = rs_ArtifactDigest v,
     rw_TargetIPv4 = rs_TargetIPv4 v, rw_Classification = rs_Classification v,
     rw_NFTExitClass = rs_NFTExitClass v, rw_ReadbackState = rs_ReadbackState v,
     rw_ElementHandle = rs_ElementHandle v, rw_RemainingTTLSeconds = rs_RemainingTTLSeconds v,
     rw_OwnedSchemaDigest = rs_OwnedSchemaDigest v, rw_StartedAt = formatCanonicalTime (rs_StartedAt v),
     rw_CompletedAt = formatCanonicalTime (rs_CompletedAt v), rw_JournalSequence = rs_JournalSequence v,
     rw_ErrorCode = rs_ErrorCode v\<rparr>"

lemma map_option_unat: "map_option word_of_nat (map_option unat (v :: uint64 option)) = v"
  by (cases v) simp_all

lemma decode_result:
  "decode_struct result_fields (JObj (result_members v)) zero_result_wire = Some (result_wire_of v)"
  unfolding decode_struct_def result_members_def result_wire_of_def
  by (simp add: find_field_def result_fields_def zero_result_wire_def unat_less_64 [simplified] opt_num_facts map_option_unat)

lemma ParseCanonicalResult_iff:
  "ParseCanonicalResult data = Inr c \<longleftrightarrow>
     (\<exists>v. result_ok v \<and> printable_year (rs_StartedAt v) \<and> printable_year (rs_CompletedAt v) \<and>
        data = marshalResult v \<and> c = checked_result_of v)" (is "_ \<longleftrightarrow> ?R")
proof
  assume "ParseCanonicalResult data = Inr c"
  then obtain w s e k where t: "parseCanonicalTime (rw_StartedAt w) = Some s" "parseCanonicalTime (rw_CompletedAt w) = Some e"
    and k: "CheckResult (wire_result w s e) = Inr k"
    and d: "data = marshalResultTimes (cr_value k) (rw_StartedAt w) (rw_CompletedAt w)"
    and c: "c = k\<lparr>cr_canonical := data, cr_digest := digestBytes data\<rparr>"
    unfolding ParseCanonicalResult_def
    by (auto simp: bind_res_Inr_iff Let_def split: option.splits if_splits)
  let ?v = "wire_result w s e"
  have v: "result_ok ?v" "k = checked_result_of ?v" using k by (simp_all add: CheckResult_iff)
  have se: "rs_StartedAt ?v = s" "rs_CompletedAt ?v = e" by (simp_all add: wire_result_def)
  have m: "data = marshalResult ?v"
    unfolding d v(2) marshalResult_def se
    using t [THEN parseCanonicalTime_Some] by (simp add: checked_result_of_def)
  then have "c = checked_result_of ?v" by (simp add: c v(2) checked_result_of_def)
  with v(1) m se t [THEN parseCanonicalTime_Some] show ?R by (intro exI [of _ ?v]) simp
next
  assume ?R
  then obtain v where ok: "result_ok v" and y: "printable_year (rs_StartedAt v)" "printable_year (rs_CompletedAt v)"
    and d: "data = marshalResult v" and c: "c = checked_result_of v" by blast
  have s: "strictDecode MaxResultBytes result_fields zero_result_wire data = Some (result_wire_of v)"
    unfolding d marshalResult_print
    by (rule trans [OF strictDecode_print [OF result_flat [OF ok] result_size [OF ok y, unfolded marshalResult_print]] decode_result])
  have t: "parseCanonicalTime (formatCanonicalTime (rs_StartedAt v)) = Some (rs_StartedAt v)"
      "parseCanonicalTime (formatCanonicalTime (rs_CompletedAt v)) = Some (rs_CompletedAt v)"
    using ok y by (simp_all add: result_ok_def parseCanonicalTime_format)
  have w: "wire_result (result_wire_of v) (rs_StartedAt v) (rs_CompletedAt v) = v"
    by (cases v) (simp add: wire_result_def result_wire_of_def)
  have x: "rw_SchemaVersion (result_wire_of v) = ResultSchemaVersion"
      "rw_StartedAt (result_wire_of v) = formatCanonicalTime (rs_StartedAt v)"
      "rw_CompletedAt (result_wire_of v) = formatCanonicalTime (rs_CompletedAt v)"
    by (simp_all add: result_wire_of_def)
  have k: "CheckResult v = Inr (checked_result_of v)" using ok by (simp add: CheckResult_iff)
  show "ParseCanonicalResult data = Inr c"
    unfolding ParseCanonicalResult_def s
    by (simp add: x t w k d c Let_def checked_result_of_def marshalResult_def)
qed

lemma parse_marshalResult:
  "result_ok v \<Longrightarrow> printable_year (rs_StartedAt v) \<Longrightarrow> printable_year (rs_CompletedAt v) \<Longrightarrow>
     ParseCanonicalResult (marshalResult v) = Inr (checked_result_of v)"
  unfolding ParseCanonicalResult_iff by (rule exI [of _ v]) simp

lemma marshalResult_inj:
  assumes "result_ok v" "printable_year (rs_StartedAt v)" "printable_year (rs_CompletedAt v)"
    and "result_ok w" "printable_year (rs_StartedAt w)" "printable_year (rs_CompletedAt w)"
    and "marshalResult v = marshalResult w"
  shows "v = w"
proof -
  note v = parse_marshalResult [OF assms(1-3)] and w = parse_marshalResult [OF assms(4-6)]
  have "checked_result_of v = checked_result_of w" using v [unfolded assms(7)] unfolding w by (simp only: sum.inject)
  then have "cr_value (checked_result_of v) = cr_value (checked_result_of w)" by (rule arg_cong)
  then show ?thesis by (simp add: checked_result_of_def)
qed

text \<open>
  C40: Strict parsing of execution-result-v1 accepts exactly the canonical encodings of the results that
  \<open>CheckResult\<close> accepts and whose two instants have a four-digit year; it returns the checked result.
  The year condition is not a check of \<open>CheckResult\<close>: a result outside those years is accepted and
  encoded there, and its encoding is refused here.
\<close>

theorem result_parse_accepts_exactly:
  "ParseCanonicalResult data = Inr c \<longleftrightarrow>
     CheckResult (cr_value c) = Inr c \<and> data = cr_canonical c \<and>
     0 \<le> Year (rs_StartedAt (cr_value c)) 0 \<and> Year (rs_StartedAt (cr_value c)) 0 \<le> 9999 \<and>
     0 \<le> Year (rs_CompletedAt (cr_value c)) 0 \<and> Year (rs_CompletedAt (cr_value c)) 0 \<le> 9999" (is "_ \<longleftrightarrow> ?R")
proof
  assume "ParseCanonicalResult data = Inr c"
  then show "?R" unfolding ParseCanonicalResult_iff CheckResult_iff printable_year_def
    by (auto simp: checked_result_of_def)
next
  assume r: ?R
  then have "c = checked_result_of (cr_value c)" "result_ok (cr_value c)" by (simp_all add: CheckResult_iff)
  moreover from this(1) have "cr_canonical c = marshalResult (cr_value c)" by (metis checked_result.select_convs(2) checked_result_of_def)
  ultimately show "ParseCanonicalResult data = Inr c"
    unfolding ParseCanonicalResult_iff printable_year_def using r by (intro exI [of _ "cr_value c"]) simp
qed

end
