(* ===== verification/Capability_Signing.thy ===== *)
theory Capability_Signing
  imports Capability_Result
begin

text \<open>
  \<open>signing.go\<close>, \<open>replay.go\<close> and the signing half of \<open>result.go\<close>: signatures over
  domain-separated digests, the verified values, the release of executable bytes, and the binding of a
  result to the request it answers. Ed25519 is not part of the repository: it is the parameter \<open>ed\<close>,
  and \<open>ed25519_laws\<close> states the documented behaviour that a signature made with a private key is 64 bytes
  long and verifies under the public half of that key.
\<close>

section \<open>Ed25519\<close>

record ed25519 =
  ed_NewKeyFromSeed :: "bytes \<Rightarrow> bytes"
  ed_Sign :: "bytes \<Rightarrow> bytes \<Rightarrow> bytes"
  ed_Verify :: "bytes \<Rightarrow> bytes \<Rightarrow> bytes \<Rightarrow> bool"

definition ed25519_laws :: "ed25519 \<Rightarrow> bool" where
  "ed25519_laws ed \<longleftrightarrow>
     (\<forall>seed message. length seed = 32 \<longrightarrow>
        length (ed_NewKeyFromSeed ed seed) = 64 \<and> take 32 (ed_NewKeyFromSeed ed seed) = seed \<and>
        length (ed_Sign ed (ed_NewKeyFromSeed ed seed) message) = 64 \<and>
        ed_Verify ed (drop 32 (ed_NewKeyFromSeed ed seed)) message
          (ed_Sign ed (ed_NewKeyFromSeed ed seed) message))"

section \<open>Capabilities (signing.go)\<close>

definition CapabilitySigningDomain :: string where
  "CapabilitySigningDomain = ''sentinelflow execution-capability-v1''"

definition ResultSigningDomain :: string where
  "ResultSigningDomain = ''sentinelflow execution-result-v1''"

definition signingInput :: "string \<Rightarrow> bytes \<Rightarrow> bytes" where
  "signingInput domain canonical = domain @ [CHR 0x0A] @ sha256 canonical"

definition validPrivateKey :: "ed25519 \<Rightarrow> bytes \<Rightarrow> bool" where
  "validPrivateKey ed key \<longleftrightarrow>
     (if length key \<noteq> 64 then False else drop 32 (ed_NewKeyFromSeed ed (take 32 key)) = drop 32 key)"

record capability_issuer =
  ci_keyID :: string
  ci_key :: bytes

definition NewCapabilityIssuer :: "ed25519 \<Rightarrow> string \<Rightarrow> bytes \<Rightarrow> cap_error + capability_issuer" where
  "NewCapabilityIssuer ed keyID key =
     (if \<not> re_matches keyIDPattern keyID \<or> \<not> validPrivateKey ed key then Inl CapErrorKey
      else Inr \<lparr>ci_keyID = keyID, ci_key = key\<rparr>)"

record signed_capability =
  sc_keyID :: string
  sc_canonical :: bytes
  sc_signature :: bytes
  sc_artifact :: bytes

definition CapabilitySign :: "ed25519 \<Rightarrow> capability_issuer \<Rightarrow> checked_capability \<Rightarrow> cap_error + signed_capability" where
  "CapabilitySign ed i checked =
     (if \<not> re_matches keyIDPattern (ci_keyID i) \<or> length (ci_key i) \<noteq> 64 \<or> ck_canonical checked = [] \<or>
         ck_artifact checked = [] \<or> \<not> digestEqual (ck_digest checked) (digestBytes (ck_canonical checked))
      then Inl CapErrorUnchecked
      else Inr \<lparr>sc_keyID = ci_keyID i, sc_canonical = ck_canonical checked,
                sc_signature = ed_Sign ed (ci_key i) (signingInput CapabilitySigningDomain (ck_canonical checked)),
                sc_artifact = ck_artifact checked\<rparr>)"

record capability_verifier =
  cv_keyID :: string
  cv_executorID :: string
  cv_key :: bytes

definition NewCapabilityVerifier :: "string \<Rightarrow> string \<Rightarrow> bytes \<Rightarrow> cap_error + capability_verifier" where
  "NewCapabilityVerifier keyID executorID key =
     (if \<not> re_matches keyIDPattern keyID \<or> \<not> re_matches actorPattern executorID \<or> length key \<noteq> 32
      then Inl CapErrorKey
      else Inr \<lparr>cv_keyID = keyID, cv_executorID = executorID, cv_key = key\<rparr>)"

record verified_capability =
  vc_value :: cap_value
  vc_canonical :: bytes
  vc_digest :: string
  vc_artifact :: bytes
  vc_keyID :: string
  vc_executorID :: string
  vc_addTTL :: uint32
  vc_inspection :: inspect_artifact

definition CapabilityVerify :: "ed25519 \<Rightarrow> capability_verifier \<Rightarrow> signed_capability \<Rightarrow> cap_error + verified_capability" where
  "CapabilityVerify ed v req =
     (if length (cv_key v) \<noteq> 32 \<or> cv_keyID v \<noteq> sc_keyID req then Inl CapErrorKeyRole
      else if sc_canonical req = [] \<or> MaxCapabilityBytes < length (sc_canonical req) \<or>
              sc_artifact req = [] \<or> MaxArtifactBytes < length (sc_artifact req) \<or>
              length (sc_signature req) \<noteq> 64 \<or>
              \<not> ed_Verify ed (cv_key v) (signingInput CapabilitySigningDomain (sc_canonical req)) (sc_signature req)
      then Inl CapErrorSignature
      else bind_res (ParseCanonicalCapability (sc_canonical req) (sc_artifact req)) (\<lambda>checked.
        Inr \<lparr>vc_value = ck_value checked, vc_canonical = ck_canonical checked, vc_digest = ck_digest checked,
             vc_artifact = ck_artifact checked, vc_keyID = cv_keyID v, vc_executorID = cv_executorID v,
             vc_addTTL = ck_addTTL checked, vc_inspection = ck_inspection checked\<rparr>))"

definition checkFresh :: "verified_capability \<Rightarrow> gotime \<Rightarrow> cap_error + unit" where
  "checkFresh v now =
     (if vc_canonical v = [] \<or> vc_digest v = [] \<or> vc_executorID v = [] then Inl CapErrorUnchecked
      else if now < val_IssuedAt (vc_value v) \<or> now < val_NotBefore (vc_value v) then Inl CapErrorNotYetValid
      else if \<not> now < val_ExpiresAt (vc_value v) then Inl CapErrorExpired
      else Inr ())"

text \<open>The three executable types; each releases only its own kind of request.\<close>

datatype executable_add = ExecutableAdd (ea_verified: verified_capability)
datatype executable_revoke = ExecutableRevoke (er_verified: verified_capability)
datatype executable_inspect = ExecutableInspect (ei_verified: verified_capability)

definition CanonicalCommand :: "executable_add \<Rightarrow> bytes" where
  "CanonicalCommand e = vc_artifact (ea_verified e)"

definition TTLSeconds :: "executable_add \<Rightarrow> uint32" where
  "TTLSeconds e = vc_addTTL (ea_verified e)"

definition CanonicalDelete :: "executable_revoke \<Rightarrow> bytes" where
  "CanonicalDelete e = vc_artifact (er_verified e)"

definition Request :: "executable_inspect \<Rightarrow> inspect_artifact" where
  "Request e = vc_inspection (ei_verified e)"

definition AddAt :: "verified_capability \<Rightarrow> gotime \<Rightarrow> cap_error + executable_add" where
  "AddAt v now =
     (if val_Operation (vc_value v) \<noteq> OperationAdd then Inl CapErrorOperation
      else bind_res (checkFresh v now) (\<lambda>_. Inr (ExecutableAdd v)))"

definition RevokeAt :: "verified_capability \<Rightarrow> gotime \<Rightarrow> cap_error + executable_revoke" where
  "RevokeAt v now =
     (if val_Operation (vc_value v) \<noteq> OperationRevoke then Inl CapErrorOperation
      else bind_res (checkFresh v now) (\<lambda>_. Inr (ExecutableRevoke v)))"

definition InspectAt :: "verified_capability \<Rightarrow> gotime \<Rightarrow> cap_error + executable_inspect" where
  "InspectAt v now =
     (if val_Operation (vc_value v) \<noteq> OperationInspect then Inl CapErrorOperation
      else bind_res (checkFresh v now) (\<lambda>_. Inr (ExecutableInspect v)))"

definition ExpectedAddTTLSeconds :: "verified_capability \<Rightarrow> uint32 option" where
  "ExpectedAddTTLSeconds v =
     (if val_Operation (vc_value v) \<noteq> OperationAdd \<or> vc_addTTL v = 0 then None else Some (vc_addTTL v))"

section \<open>Results (result.go)\<close>

record result_signer =
  sg_keyID :: string
  sg_executorID :: string
  sg_key :: bytes

definition NewResultSigner :: "ed25519 \<Rightarrow> string \<Rightarrow> string \<Rightarrow> bytes \<Rightarrow> cap_error + result_signer" where
  "NewResultSigner ed keyID executorID key =
     (if \<not> re_matches keyIDPattern keyID \<or> \<not> re_matches actorPattern executorID \<or> \<not> validPrivateKey ed key
      then Inl CapErrorKey
      else Inr \<lparr>sg_keyID = keyID, sg_executorID = executorID, sg_key = key\<rparr>)"

record signed_result =
  sr_keyID :: string
  sr_executorID :: string
  sr_canonical :: bytes
  sr_signature :: bytes

record verified_result =
  vr_value :: exec_result
  vr_canonical :: bytes
  vr_digest :: string
  vr_keyID :: string
  vr_executorID :: string

record bound_result =
  br_result :: verified_result
  br_capability :: verified_capability

definition bindResult :: "exec_result \<Rightarrow> verified_capability \<Rightarrow> string \<Rightarrow> cap_error + unit" where
  "bindResult r c executorID =
     (if executorID = [] \<or> executorID \<noteq> vc_executorID c \<or> vc_canonical c = [] \<or>
         rs_CapabilityID r \<noteq> val_CapabilityID (vc_value c) \<or> rs_Operation r \<noteq> val_Operation (vc_value c) \<or>
         rs_ActionID r \<noteq> val_ActionID (vc_value c) \<or> rs_TargetIPv4 r \<noteq> val_TargetIPv4 (vc_value c) \<or>
         \<not> digestEqual (rs_CapabilityDigest r) (vc_digest c) \<or>
         \<not> digestEqual (rs_ArtifactDigest r) (val_ArtifactDigest (vc_value c)) \<or>
         \<not> digestEqual (rs_OwnedSchemaDigest r) (val_OwnedSchemaDigest (vc_value c))
      then Inl CapErrorResultBinding
      else if rs_StartedAt r < val_NotBefore (vc_value c) then Inl CapErrorResultBinding
      else if rs_Operation r = OperationAdd \<and>
              (case rs_RemainingTTLSeconds r of
                 None \<Rightarrow> False
               | Some n \<Rightarrow> ucast (vc_addTTL c) < n \<or> vc_addTTL c = 0) then Inl CapErrorResultBinding
      else Inr ())"

definition SignFor :: "ed25519 \<Rightarrow> result_signer \<Rightarrow> verified_capability \<Rightarrow> checked_result \<Rightarrow> cap_error + signed_result" where
  "SignFor ed s c checked =
     (if length (sg_key s) \<noteq> 64 \<or> cr_canonical checked = [] \<or>
         \<not> digestEqual (cr_digest checked) (digestBytes (cr_canonical checked)) then Inl CapErrorUnchecked
      else bind_res (bindResult (cr_value checked) c (sg_executorID s)) (\<lambda>_.
        Inr \<lparr>sr_keyID = sg_keyID s, sr_executorID = sg_executorID s, sr_canonical = cr_canonical checked,
             sr_signature = ed_Sign ed (sg_key s) (signingInput ResultSigningDomain (cr_canonical checked))\<rparr>))"

record result_verifier =
  rv_keyID :: string
  rv_executorID :: string
  rv_key :: bytes

definition NewResultVerifier :: "string \<Rightarrow> string \<Rightarrow> bytes \<Rightarrow> cap_error + result_verifier" where
  "NewResultVerifier keyID executorID key =
     (if \<not> re_matches keyIDPattern keyID \<or> \<not> re_matches actorPattern executorID \<or> length key \<noteq> 32
      then Inl CapErrorKey
      else Inr \<lparr>rv_keyID = keyID, rv_executorID = executorID, rv_key = key\<rparr>)"

definition ResultVerify :: "ed25519 \<Rightarrow> result_verifier \<Rightarrow> signed_result \<Rightarrow> cap_error + verified_result" where
  "ResultVerify ed v req =
     (if length (rv_key v) \<noteq> 32 \<or> rv_keyID v \<noteq> sr_keyID req \<or> rv_executorID v \<noteq> sr_executorID req
      then Inl CapErrorKeyRole
      else if sr_canonical req = [] \<or> MaxResultBytes < length (sr_canonical req) \<or>
              length (sr_signature req) \<noteq> 64 \<or>
              \<not> ed_Verify ed (rv_key v) (signingInput ResultSigningDomain (sr_canonical req)) (sr_signature req)
      then Inl CapErrorSignature
      else bind_res (ParseCanonicalResult (sr_canonical req)) (\<lambda>checked.
        Inr \<lparr>vr_value = cr_value checked, vr_canonical = cr_canonical checked, vr_digest = cr_digest checked,
             vr_keyID = rv_keyID v, vr_executorID = rv_executorID v\<rparr>))"

definition BindTo :: "verified_result \<Rightarrow> verified_capability \<Rightarrow> cap_error + bound_result" where
  "BindTo r c =
     bind_res (bindResult (vr_value r) c (vr_executorID r)) (\<lambda>_.
       Inr \<lparr>br_result = r, br_capability = c\<rparr>)"

section \<open>Replay identities (replay.go)\<close>

record replay_identity =
  ri_CapabilityID :: string
  ri_CapabilityDigest :: string
  ri_Operation :: string
  ri_ArtifactDigest :: string
  ri_ActionID :: string

definition ReplayIdentity :: "verified_capability \<Rightarrow> cap_error + replay_identity" where
  "ReplayIdentity v =
     (if vc_canonical v = [] \<or> \<not> re_matches digestPattern (vc_digest v) then Inl CapErrorUnchecked
      else Inr \<lparr>ri_CapabilityID = val_CapabilityID (vc_value v), ri_CapabilityDigest = vc_digest v,
                ri_Operation = val_Operation (vc_value v), ri_ArtifactDigest = val_ArtifactDigest (vc_value v),
                ri_ActionID = val_ActionID (vc_value v)\<rparr>)"

definition Same :: "replay_identity \<Rightarrow> replay_identity \<Rightarrow> bool" where
  "Same r s \<longleftrightarrow> ri_CapabilityID r = ri_CapabilityID s \<and> ri_Operation r = ri_Operation s \<and>
     ri_ActionID r = ri_ActionID s \<and> ri_CapabilityDigest r = ri_CapabilityDigest s \<and>
     ri_ArtifactDigest r = ri_ArtifactDigest s"

definition valid_identity :: "replay_identity \<Rightarrow> bool" where
  "valid_identity r \<longleftrightarrow> re_matches uuidPattern (ri_CapabilityID r) \<and> re_matches uuidPattern (ri_ActionID r) \<and>
     re_matches digestPattern (ri_CapabilityDigest r) \<and> re_matches digestPattern (ri_ArtifactDigest r) \<and>
     (ri_Operation r = OperationAdd \<or> ri_Operation r = OperationRevoke \<or> ri_Operation r = OperationInspect)"

definition ClaimedUnseen :: string where "ClaimedUnseen = ''claimed_unseen''"
definition ClaimExactRetry :: string where "ClaimExactRetry = ''exact_retry''"
definition ClaimConflict :: string where "ClaimConflict = ''conflict''"

record claim_result =
  cl_State :: string
  cl_Existing :: replay_identity

definition ValidateClaim :: "replay_identity \<Rightarrow> claim_result \<Rightarrow> cap_error + unit" where
  "ValidateClaim incoming r =
     (if \<not> valid_identity incoming then Inl CapErrorUnchecked
      else if cl_State r = ClaimedUnseen then
        if \<not> Same incoming (cl_Existing r) then Inl CapErrorReplayConflict else Inr ()
      else if cl_State r = ClaimExactRetry then
        if \<not> Same incoming (cl_Existing r) then Inl CapErrorReplayConflict else Inr ()
      else Inl CapErrorReplayConflict)"

section \<open>Verified values\<close>

lemma CapabilityVerify_Inr:
  assumes "CapabilityVerify ed v s = Inr c"
  shows "length (cv_key v) = 32 \<and> cv_keyID v = sc_keyID s \<and>
    ed_Verify ed (cv_key v) (signingInput CapabilitySigningDomain (sc_canonical s)) (sc_signature s) \<and>
    length (sc_signature s) = 64 \<and> cap_ok (vc_value c) \<and> vc_canonical c = sc_canonical s \<and>
    sc_canonical s = marshalCapability (vc_value c) \<and> vc_digest c = digestBytes (sc_canonical s) \<and>
    vc_artifact c = sc_artifact s \<and> val_ArtifactDigest (vc_value c) = digestBytes (sc_artifact s) \<and>
    artifact_ok (vc_value c) (sc_artifact s) (vc_addTTL c) (vc_inspection c) \<and>
    vc_keyID c = cv_keyID v \<and> vc_executorID c = cv_executorID v"
proof -
  obtain k where k: "ParseCanonicalCapability (sc_canonical s) (sc_artifact s) = Inr k"
    and c: "c = \<lparr>vc_value = ck_value k, vc_canonical = ck_canonical k, vc_digest = ck_digest k,
             vc_artifact = ck_artifact k, vc_keyID = cv_keyID v, vc_executorID = cv_executorID v,
             vc_addTTL = ck_addTTL k, vc_inspection = ck_inspection k\<rparr>"
    and g: "length (cv_key v) = 32 \<and> cv_keyID v = sc_keyID s \<and> length (sc_signature s) = 64 \<and>
      ed_Verify ed (cv_key v) (signingInput CapabilitySigningDomain (sc_canonical s)) (sc_signature s)"
    using assms by (auto simp: CapabilityVerify_def bind_res_Inr_iff split: if_splits)
  have k': "constructed k" "sc_canonical s = ck_canonical k" "sc_artifact s = ck_artifact k"
    using k by (simp_all add: ParseCanonicalCapability_iff)
  show ?thesis using g constructed_canonical [OF k'(1)] k'(2,3) by (simp add: c)
qed

lemma ResultVerify_Inr:
  assumes "ResultVerify ed v s = Inr r"
  shows "length (rv_key v) = 32 \<and> rv_keyID v = sr_keyID s \<and> rv_executorID v = sr_executorID s \<and>
    ed_Verify ed (rv_key v) (signingInput ResultSigningDomain (sr_canonical s)) (sr_signature s) \<and>
    length (sr_signature s) = 64 \<and> result_ok (vr_value r) \<and> printable_year (rs_StartedAt (vr_value r)) \<and>
    printable_year (rs_CompletedAt (vr_value r)) \<and> vr_canonical r = sr_canonical s \<and>
    sr_canonical s = marshalResult (vr_value r) \<and> vr_digest r = digestBytes (sr_canonical s) \<and>
    vr_keyID r = rv_keyID v \<and> vr_executorID r = rv_executorID v"
proof -
  obtain k where k: "ParseCanonicalResult (sr_canonical s) = Inr k"
    and r: "r = \<lparr>vr_value = cr_value k, vr_canonical = cr_canonical k, vr_digest = cr_digest k,
             vr_keyID = rv_keyID v, vr_executorID = rv_executorID v\<rparr>"
    and g: "length (rv_key v) = 32 \<and> rv_keyID v = sr_keyID s \<and> rv_executorID v = sr_executorID s \<and>
      length (sr_signature s) = 64 \<and>
      ed_Verify ed (rv_key v) (signingInput ResultSigningDomain (sr_canonical s)) (sr_signature s)"
    using assms by (auto simp: ResultVerify_def bind_res_Inr_iff split: if_splits)
  obtain x where x: "result_ok x" "printable_year (rs_StartedAt x)" "printable_year (rs_CompletedAt x)"
      "sr_canonical s = marshalResult x" "k = checked_result_of x"
    using k unfolding ParseCanonicalResult_iff by blast
  show ?thesis using g x by (simp add: r checked_result_of_def)
qed

lemma signingInput_inj:
  "signingInput CapabilitySigningDomain a \<noteq> signingInput ResultSigningDomain b"
  "signingInput domain a = signingInput domain b \<longleftrightarrow> sha256 a = sha256 b"
  by (simp_all add: signingInput_def CapabilitySigningDomain_def ResultSigningDomain_def)

lemma marshal_nonempty_capability: "marshalCapability v \<noteq> []"
  by (simp add: marshalCapability_def marshalCapabilityTimes_def)

lemma marshalResult_nonempty: "marshalResult v \<noteq> []"
  by (simp add: marshalResult_def marshalResultTimes_def)

lemma checkFresh_iff:
  "checkFresh c now = Inr () \<longleftrightarrow> vc_canonical c \<noteq> [] \<and> vc_digest c \<noteq> [] \<and> vc_executorID c \<noteq> [] \<and>
     val_IssuedAt (vc_value c) \<le> now \<and> val_NotBefore (vc_value c) \<le> now \<and> now < val_ExpiresAt (vc_value c)"
  by (auto simp: checkFresh_def)

lemma AddAt_iff: "AddAt c now = Inr e \<longleftrightarrow> val_Operation (vc_value c) = OperationAdd \<and> checkFresh c now = Inr () \<and> e = ExecutableAdd c"
  by (auto simp: AddAt_def bind_res_Inr_iff)

lemma RevokeAt_iff:
  "RevokeAt c now = Inr e \<longleftrightarrow> val_Operation (vc_value c) = OperationRevoke \<and> checkFresh c now = Inr () \<and> e = ExecutableRevoke c"
  by (auto simp: RevokeAt_def bind_res_Inr_iff)

lemma InspectAt_iff:
  "InspectAt c now = Inr e \<longleftrightarrow> val_Operation (vc_value c) = OperationInspect \<and> checkFresh c now = Inr () \<and> e = ExecutableInspect c"
  by (auto simp: InspectAt_def bind_res_Inr_iff)

section \<open>Replay claims\<close>

lemma Same_iff: "Same r q \<longleftrightarrow> r = q"
  by (cases r; cases q) (auto simp: Same_def)

lemma ValidateClaim_iff:
  "ValidateClaim incoming r = Inr () \<longleftrightarrow> valid_identity incoming \<and> cl_Existing r = incoming \<and>
     (cl_State r = ClaimedUnseen \<or> cl_State r = ClaimExactRetry)"
  by (auto simp: ValidateClaim_def Same_iff)

lemma identity_of_verified:
  assumes "CapabilityVerify ed v s = Inr c"
  shows "\<exists>r. ReplayIdentity c = Inr r \<and> valid_identity r"
  using CapabilityVerify_Inr [OF assms] marshal_nonempty_capability [of "vc_value c"]
  by (auto simp: ReplayIdentity_def valid_identity_def cap_ok_def)

text \<open>Equal identities are the same request, or the two canonical texts are a hash collision.\<close>

lemma identity_binds:
  assumes "CapabilityVerify ed v s = Inr c" "CapabilityVerify ed' v' s' = Inr c'"
    and "ReplayIdentity c = Inr r" "ReplayIdentity c' = Inr r"
  shows "sc_canonical s = sc_canonical s' \<or> (sc_canonical s \<noteq> sc_canonical s' \<and> sha256 (sc_canonical s) = sha256 (sc_canonical s'))"
proof -
  have "vc_digest c = vc_digest c'" using assms(3,4) by (auto simp: ReplayIdentity_def split: if_splits)
  then show ?thesis using CapabilityVerify_Inr [OF assms(1)] CapabilityVerify_Inr [OF assms(2)] by (auto simp: digestBytes_inj)
qed

section \<open>A sample exchange\<close>

definition sample_value :: cap_value where
  "sample_value = \<lparr>val_SchemaVersion = CapabilitySchemaVersion,
     val_CapabilityID = ''018f0000-0000-7000-8000-00000000000a'', val_Operation = OperationAdd,
     val_JobID = ''018f0000-0000-7000-8000-00000000000b'', val_ActionID = ''018f0000-0000-7000-8000-00000000000c'',
     val_PolicyID = ''018f0000-0000-7000-8000-00000000000d'', val_PolicyVersion = 1,
     val_TargetIPv4 = ''198.51.100.20'',
     val_ArtifactDigest = digestBytes (add_command ''198.51.100.20'' ''30m''), val_OriginalAddDigest = [],
     val_EvidenceSnapshotDigest = ''sha256:'' @ replicate 64 CHR ''1'',
     val_ValidationSnapshotDigest = ''sha256:'' @ replicate 64 CHR ''2'',
     val_AuthorizationDigest = ''sha256:'' @ replicate 64 CHR ''3'', val_ActorID = ''dispatcher.v1'',
     val_ReasonDigest = ''sha256:'' @ replicate 64 CHR ''4'',
     val_OwnedSchemaDigest = ''sha256:d5582a75817d349b12f292d212483bb0c2a5db66afde7d73c6d11050a5eb5997'',
     val_IssuedAt = 63900000000000000000, val_NotBefore = 63900000000000000000,
     val_ExpiresAt = 63900000030000000000, val_Nonce = b64_encode (replicate 16 CHR ''n'')\<rparr>"

definition sample_artifact :: bytes where
  "sample_artifact = add_command ''198.51.100.20'' ''30m''"

definition sample_checked :: checked_capability where
  "sample_checked = built sample_value sample_artifact 1800 zero_inspection"

lemma repeated_digest: "is_hexlow c \<Longrightarrow> re_matches digestPattern (''sha256:'' @ replicate 64 c)"
  by (auto simp: digestPattern_iff list_all_iff)

lemma sample_value_ok: "cap_ok sample_value"
proof -
  have u: "re_matches uuidPattern ''018f0000-0000-7000-8000-00000000000a''"
      "re_matches uuidPattern ''018f0000-0000-7000-8000-00000000000b''"
      "re_matches uuidPattern ''018f0000-0000-7000-8000-00000000000c''"
      "re_matches uuidPattern ''018f0000-0000-7000-8000-00000000000d''"
      "re_matches actorPattern ''dispatcher.v1''" "canonical_ipv4 ''198.51.100.20''"
      "re_matches digestPattern ''sha256:d5582a75817d349b12f292d212483bb0c2a5db66afde7d73c6d11050a5eb5997''" by code_simp+
  have n: "nonce_ok (b64_encode (replicate 16 CHR ''n''))" unfolding nonce_ok_iff by (intro exI conjI) simp_all
  have t: "times_ok 63900000000000000000 63900000000000000000 63900000030000000000"
    unfolding times_ok_def by code_simp
  have h: "is_hexlow CHR ''1''" "is_hexlow CHR ''2''" "is_hexlow CHR ''3''" "is_hexlow CHR ''4''"
    by code_simp+
  show ?thesis
    unfolding cap_ok_def sample_value_def cap_value.select_convs
    using u n t h [THEN repeated_digest] by (simp only: digestBytes_matches insert_iff) simp
qed

lemma sample_artifact_ok: "artifact_ok sample_value sample_artifact 1800 zero_inspection"
proof -
  have "checkAddArtifact sample_artifact ''198.51.100.20'' = Inr 1800"
    unfolding sample_artifact_def by code_simp
  then show ?thesis by (simp add: artifact_ok_def sample_value_def)
qed

lemma sample_constructed: "constructed sample_checked"
proof -
  have "val_ArtifactDigest sample_value = digestBytes sample_artifact" by (simp add: sample_value_def sample_artifact_def)
  with sample_value_ok sample_artifact_ok show ?thesis
    unfolding constructed_iff sample_checked_def by blast
qed

text \<open>A stand-in for the signature scheme, to show that its laws can hold.\<close>

definition sample_ed :: ed25519 where
  "sample_ed = \<lparr>ed_NewKeyFromSeed = (\<lambda>seed. seed @ seed), ed_Sign = (\<lambda>key m. drop 32 key @ sha256 m),
     ed_Verify = (\<lambda>pub m sig. sig = pub @ sha256 m)\<rparr>"

lemma sample_ed_laws: "ed25519_laws sample_ed"
  by (simp add: ed25519_laws_def sample_ed_def length_sha256)

definition sample_key :: bytes where
  "sample_key = replicate 64 CHR ''k''"

section \<open>Correctness of the signed boundary\<close>

lemma constructed_sizes:
  assumes "constructed k"
  shows "ck_canonical k \<noteq> []" "length (ck_canonical k) \<le> MaxCapabilityBytes" "ck_artifact k \<noteq> []"
    "length (ck_artifact k) \<le> MaxArtifactBytes"
proof -
  note k = constructed_canonical [OF assms]
  show "ck_canonical k \<noteq> []" "length (ck_canonical k) \<le> MaxCapabilityBytes"
    using k cap_size marshal_nonempty_capability by auto
  have a: "x \<noteq> [] \<and> length x \<le> MaxArtifactBytes" if "checkAddArtifact x t = Inr n" for x t n
    using that by (auto simp: checkAddArtifact_def split: if_splits)
  have r: "x \<noteq> [] \<and> length x \<le> MaxArtifactBytes" if "checkRevokeArtifact x t = Inr u" for x t u
    using that by (auto simp: checkRevokeArtifact_def split: if_splits)
  have m: "marshalInspection x \<noteq> []" for x by (simp add: marshalInspection_def)
  from k have "artifact_ok (ck_value k) (ck_artifact k) (ck_addTTL k) (ck_inspection k)" by simp
  then have "ck_artifact k \<noteq> [] \<and> length (ck_artifact k) \<le> MaxArtifactBytes"
    unfolding artifact_ok_def
    by (cases "val_Operation (ck_value k) = OperationAdd"; cases "val_Operation (ck_value k) = OperationRevoke")
      (auto dest: a r simp: m inspection_size)
  then show "ck_artifact k \<noteq> []" "length (ck_artifact k) \<le> MaxArtifactBytes" by simp_all
qed

lemma private_key:
  assumes "ed25519_laws ed" and "validPrivateKey ed key"
  shows "length key = 64" "length (ed_Sign ed key m) = 64" "ed_Verify ed (drop 32 key) m (ed_Sign ed key m)"
proof -
  have len: "length key = 64" and d: "drop 32 (ed_NewKeyFromSeed ed (take 32 key)) = drop 32 key"
    using assms(2) by (auto simp: validPrivateKey_def split: if_splits)
  have s: "length (take 32 key) = 32" using len by simp
  note l = assms(1) [unfolded ed25519_laws_def, rule_format, OF s]
  have "ed_NewKeyFromSeed ed (take 32 key) = key"
    by (metis append_take_drop_id d l)
  with l len show "length key = 64" "length (ed_Sign ed key m) = 64" "ed_Verify ed (drop 32 key) m (ed_Sign ed key m)"
    by auto
qed

definition verified_of :: "capability_verifier \<Rightarrow> checked_capability \<Rightarrow> verified_capability" where
  "verified_of v k = \<lparr>vc_value = ck_value k, vc_canonical = ck_canonical k, vc_digest = ck_digest k,
     vc_artifact = ck_artifact k, vc_keyID = cv_keyID v, vc_executorID = cv_executorID v,
     vc_addTTL = ck_addTTL k, vc_inspection = ck_inspection k\<rparr>"

lemma sign_verify:
  assumes laws: "ed25519_laws ed" and i: "NewCapabilityIssuer ed keyID key = Inr i"
    and v: "NewCapabilityVerifier keyID executorID (drop 32 key) = Inr v" and k: "constructed k"
  shows "\<exists>s. CapabilitySign ed i k = Inr s \<and> CapabilityVerify ed v s = Inr (verified_of v k)"
proof -
  have key: "validPrivateKey ed key" and i': "i = \<lparr>ci_keyID = keyID, ci_key = key\<rparr>" and kid: "re_matches keyIDPattern keyID"
    using i by (auto simp: NewCapabilityIssuer_def split: if_splits)
  have v': "v = \<lparr>cv_keyID = keyID, cv_executorID = executorID, cv_key = drop 32 key\<rparr>"
    using v by (auto simp: NewCapabilityVerifier_def split: if_splits)
  note pk = private_key [OF laws key]
  note z = constructed_sizes [OF k]
  let ?s = "\<lparr>sc_keyID = keyID, sc_canonical = ck_canonical k,
    sc_signature = ed_Sign ed key (signingInput CapabilitySigningDomain (ck_canonical k)), sc_artifact = ck_artifact k\<rparr>"
  have "CapabilitySign ed i k = Inr ?s"
    using constructed_canonical [OF k] z pk(1) kid by (simp add: CapabilitySign_def i')
  moreover have "CapabilityVerify ed v ?s = Inr (verified_of v k)"
    using z pk k by (simp add: CapabilityVerify_def v' verified_of_def not_less
        ParseCanonicalCapability_iff [THEN iffD2, of k "ck_canonical k" "ck_artifact k"])
  ultimately show ?thesis by blast
qed

lemma sign_result_verify:
  assumes laws: "ed25519_laws ed" and g: "NewResultSigner ed keyID executorID key = Inr g"
    and v: "NewResultVerifier keyID executorID (drop 32 key) = Inr v"
    and r: "result_ok x" "printable_year (rs_StartedAt x)" "printable_year (rs_CompletedAt x)"
    and s: "SignFor ed g c (checked_result_of x) = Inr s"
  shows "\<exists>y. ResultVerify ed v s = Inr y \<and> vr_value y = x \<and> BindTo y c = Inr \<lparr>br_result = y, br_capability = c\<rparr>"
proof -
  have key: "validPrivateKey ed key" and g': "g = \<lparr>sg_keyID = keyID, sg_executorID = executorID, sg_key = key\<rparr>"
    using g by (auto simp: NewResultSigner_def split: if_splits)
  have v': "v = \<lparr>rv_keyID = keyID, rv_executorID = executorID, rv_key = drop 32 key\<rparr>"
    using v by (auto simp: NewResultVerifier_def split: if_splits)
  note pk = private_key [OF laws key]
  have b: "bindResult x c executorID = Inr ()"
    and s': "s = \<lparr>sr_keyID = keyID, sr_executorID = executorID, sr_canonical = marshalResult x,
      sr_signature = ed_Sign ed key (signingInput ResultSigningDomain (marshalResult x))\<rparr>"
    using s by (auto simp: SignFor_def checked_result_of_def g' bind_res_Inr_iff split: if_splits)
  let ?y = "\<lparr>vr_value = x, vr_canonical = marshalResult x, vr_digest = digestBytes (marshalResult x),
    vr_keyID = keyID, vr_executorID = executorID\<rparr>"
  have p: "ParseCanonicalResult (marshalResult x) = Inr \<lparr>cr_value = x, cr_canonical = marshalResult x,
      cr_digest = digestBytes (marshalResult x)\<rparr>"
    using parse_marshalResult [OF r] by (simp only: checked_result_of_def)
  have "ResultVerify ed v s = Inr ?y"
    using pk result_size [OF r] marshalResult_nonempty [of x]
    by (simp add: ResultVerify_def v' s' p not_less)
  moreover have "BindTo ?y c = Inr \<lparr>br_result = ?y, br_capability = c\<rparr>" using b by (simp add: BindTo_def)
  ultimately show ?thesis by auto
qed

lemma released_add:
  assumes "CapabilityVerify ed v s = Inr c" and e: "AddAt c now = Inr a"
  shows "digestBytes (CanonicalCommand a) = val_ArtifactDigest (vc_value c) \<and>
    (\<exists>x token. val_TargetIPv4 (vc_value c) = addr_string x \<and> CanonicalTTL (TTLSeconds a) = Inr token \<and>
    CanonicalCommand a = add_command (addr_string x) token \<and> CanonicalCommand a = sc_artifact s \<and>
    60 \<le> unat (TTLSeconds a) \<and> unat (TTLSeconds a) \<le> 86400)"
proof -
  note c = CapabilityVerify_Inr [OF assms(1)]
  have "checkAddArtifact (vc_artifact c) (val_TargetIPv4 (vc_value c)) = Inr (vc_addTTL c)"
    using c e by (simp add: AddAt_iff artifact_ok_def)
  then obtain x t where x: "val_TargetIPv4 (vc_value c) = addr_string x" "CanonicalTTL (vc_addTTL c) = Inr t"
      "vc_artifact c = add_command (addr_string x) t" by (auto simp: checkAddArtifact_iff)
  have "TTLSeconds a = vc_addTTL c" "CanonicalCommand a = vc_artifact c"
    using e by (simp_all add: AddAt_iff TTLSeconds_def CanonicalCommand_def)
  moreover have "60 \<le> unat (vc_addTTL c)" "unat (vc_addTTL c) \<le> 86400"
    using CanonicalTTL_Inr [OF x(2)] by (simp_all add: ttl_in_range_def)
  ultimately show ?thesis using x c by auto
qed

lemma released_revoke:
  assumes "CapabilityVerify ed v s = Inr c" and "RevokeAt c now = Inr r"
  shows "digestBytes (CanonicalDelete r) = val_ArtifactDigest (vc_value c) \<and>
    CanonicalDelete r = delete_command (val_TargetIPv4 (vc_value c)) \<and> CanonicalDelete r = sc_artifact s"
  using CapabilityVerify_Inr [OF assms(1)] assms(2)
  by (auto simp: RevokeAt_iff artifact_ok_def checkRevokeArtifact_iff CanonicalDelete_def)

lemma released_inspect:
  assumes "CapabilityVerify ed v s = Inr c" and "InspectAt c now = Inr i"
  shows "digestBytes (marshalInspection (Request i)) = val_ArtifactDigest (vc_value c) \<and>
    marshalInspection (Request i) = sc_artifact s \<and> ia_ActionID (Request i) = val_ActionID (vc_value c) \<and>
    ia_TargetIPv4 (Request i) = val_TargetIPv4 (vc_value c) \<and>
    ia_OriginalAddDigest (Request i) = val_OriginalAddDigest (vc_value c) \<and>
    ia_OwnedSchemaDigest (Request i) = val_OwnedSchemaDigest (vc_value c)"
  using CapabilityVerify_Inr [OF assms(1)] assms(2) by (auto simp: InspectAt_iff artifact_ok_def Request_def)

lemma signed_by_executor: "SignFor ed g c t = Inr u \<Longrightarrow> sr_executorID u = vc_executorID c"
  by (auto simp: SignFor_def bindResult_def bind_res_Inr_iff split: if_splits)

lemma released_fresh:
  assumes "CapabilityVerify ed v s = Inr c" and "checkFresh c now = Inr ()"
  shows "val_NotBefore (vc_value c) \<le> now \<and> now < val_ExpiresAt (vc_value c) \<and>
    now < val_IssuedAt (vc_value c) + 60 * Second"
  using CapabilityVerify_Inr [OF assms(1)] assms(2)
  by (auto simp: checkFresh_iff cap_ok_def times_ok_def MaxValidity_def)

text \<open>
  C3: Nothing but the signed bytes is ever released, and only for the executor the verifier was made for.
  Suppose the verifier of one executor accepts a request. Its signature verifies, under the pinned key, over the
  domain-separated digest of bytes that are exactly the canonical encoding of the verified capability; the
  capability carries the verifier's executor, and no other executor can sign a result for it. Whatever
  \<open>AddAt\<close>, \<open>RevokeAt\<close> or \<open>InspectAt\<close> then releases is of the operation named in those signed bytes and hashes to
  the artifact digest in those signed bytes: for an add, the canonical add command for the signed target with
  the canonical token of 60 to 86400 seconds; for a revoke, the canonical delete command for that target; for an
  inspection, the typed request with the signed action, target and digests. A request has authority of one
  kind only, and only within the signed validity interval, which ends 60 seconds after issue at the latest.
\<close>

theorem released_bytes_are_authorised:
  assumes "NewCapabilityVerifier keyID executorID key = Inr v" and "CapabilityVerify ed v s = Inr c"
  shows "sc_canonical s = marshalCapability (vc_value c) \<and> sc_keyID s = keyID \<and>
    ed_Verify ed key (signingInput CapabilitySigningDomain (sc_canonical s)) (sc_signature s) \<and>
    vc_executorID c = executorID \<and> (\<forall>g t u. SignFor ed g c t = Inr u \<longrightarrow> sr_executorID u = executorID) \<and>
    (\<forall>a. AddAt c now = Inr a \<longrightarrow> val_Operation (vc_value c) = OperationAdd \<and>
      digestBytes (CanonicalCommand a) = val_ArtifactDigest (vc_value c) \<and>
      (\<exists>x token. val_TargetIPv4 (vc_value c) = addr_string x \<and> CanonicalTTL (TTLSeconds a) = Inr token \<and>
         CanonicalCommand a = add_command (addr_string x) token \<and> CanonicalCommand a = sc_artifact s \<and>
         60 \<le> unat (TTLSeconds a) \<and> unat (TTLSeconds a) \<le> 86400)) \<and>
    (\<forall>r. RevokeAt c now = Inr r \<longrightarrow> val_Operation (vc_value c) = OperationRevoke \<and>
      digestBytes (CanonicalDelete r) = val_ArtifactDigest (vc_value c) \<and>
      CanonicalDelete r = delete_command (val_TargetIPv4 (vc_value c)) \<and> CanonicalDelete r = sc_artifact s) \<and>
    (\<forall>i. InspectAt c now = Inr i \<longrightarrow> val_Operation (vc_value c) = OperationInspect \<and>
      digestBytes (marshalInspection (Request i)) = val_ArtifactDigest (vc_value c) \<and>
      marshalInspection (Request i) = sc_artifact s \<and> ia_ActionID (Request i) = val_ActionID (vc_value c) \<and>
      ia_TargetIPv4 (Request i) = val_TargetIPv4 (vc_value c) \<and>
      ia_OriginalAddDigest (Request i) = val_OriginalAddDigest (vc_value c) \<and>
      ia_OwnedSchemaDigest (Request i) = val_OwnedSchemaDigest (vc_value c)) \<and>
    ((\<exists>a. AddAt c now = Inr a) \<or> (\<exists>r. RevokeAt c now = Inr r) \<or> (\<exists>i. InspectAt c now = Inr i) \<longrightarrow>
      val_NotBefore (vc_value c) \<le> now \<and> now < val_ExpiresAt (vc_value c) \<and>
      now < val_IssuedAt (vc_value c) + 60 * Second) \<and>
    \<not> ((\<exists>a. AddAt c now = Inr a) \<and> (\<exists>r. RevokeAt c later = Inr r)) \<and>
    \<not> ((\<exists>a. AddAt c now = Inr a) \<and> (\<exists>i. InspectAt c later = Inr i)) \<and>
    \<not> ((\<exists>r. RevokeAt c now = Inr r) \<and> (\<exists>i. InspectAt c later = Inr i))"
proof (intro conjI)
  have v: "cv_keyID v = keyID" "cv_executorID v = executorID" "cv_key v = key"
    using assms(1) by (auto simp: NewCapabilityVerifier_def split: if_splits)
  note c = CapabilityVerify_Inr [OF assms(2)]
  show "sc_canonical s = marshalCapability (vc_value c)" "sc_keyID s = keyID" "vc_executorID c = executorID"
    "ed_Verify ed key (signingInput CapabilitySigningDomain (sc_canonical s)) (sc_signature s)"
    using c unfolding v by blast+
  show "\<forall>g t u. SignFor ed g c t = Inr u \<longrightarrow> sr_executorID u = executorID"
    using c v by (auto dest: signed_by_executor)
qed (use released_add [OF assms(2)] released_revoke [OF assms(2)] released_inspect [OF assms(2)]
    released_fresh [OF assms(2)] in \<open>auto simp: AddAt_iff RevokeAt_iff InspectAt_iff\<close>)

definition sample_verifier :: capability_verifier where
  "sample_verifier = \<lparr>cv_keyID = ''dispatch-1'', cv_executorID = ''executor-1'', cv_key = replicate 32 CHR ''k''\<rparr>"

definition sample_issuer :: capability_issuer where
  "sample_issuer = \<lparr>ci_keyID = ''dispatch-1'', ci_key = sample_key\<rparr>"

lemma sample_parties:
  "NewCapabilityIssuer sample_ed ''dispatch-1'' sample_key = Inr sample_issuer"
  "NewCapabilityVerifier ''dispatch-1'' ''executor-1'' (drop 32 sample_key) = Inr sample_verifier"
proof -
  have "re_matches keyIDPattern ''dispatch-1''" "re_matches actorPattern ''executor-1''" by code_simp+
  moreover have "drop 32 sample_key = replicate 32 CHR ''k''" by (simp add: sample_key_def)
  moreover have "validPrivateKey sample_ed sample_key" by (simp add: validPrivateKey_def sample_key_def sample_ed_def)
  ultimately show "NewCapabilityIssuer sample_ed ''dispatch-1'' sample_key = Inr sample_issuer"
    "NewCapabilityVerifier ''dispatch-1'' ''executor-1'' (drop 32 sample_key) = Inr sample_verifier"
    by (simp_all add: NewCapabilityIssuer_def NewCapabilityVerifier_def sample_issuer_def sample_verifier_def)
qed

definition sample_verified :: verified_capability where
  "sample_verified = verified_of sample_verifier sample_checked"

lemma sample_verify: "\<exists>s. CapabilityVerify sample_ed sample_verifier s = Inr sample_verified"
  using sign_verify [OF sample_ed_laws sample_parties sample_constructed] by (auto simp: sample_verified_def)

lemma sample_AddAt: "AddAt sample_verified 63900000010000000000 = Inr (ExecutableAdd sample_verified)"
proof -
  have "vc_value sample_verified = sample_value" "vc_canonical sample_verified = marshalCapability sample_value"
      "vc_digest sample_verified = digestBytes (marshalCapability sample_value)" "vc_executorID sample_verified = ''executor-1''"
    by (simp_all add: sample_verified_def verified_of_def sample_verifier_def sample_checked_def built_def)
  then show ?thesis
    by (simp add: AddAt_iff checkFresh_iff marshal_nonempty_capability) (simp add: sample_value_def)
qed

theorem released_bytes_are_authorised_witness:
  "\<exists>s. CapabilityVerify sample_ed sample_verifier s = Inr sample_verified \<and>
     AddAt sample_verified 63900000010000000000 = Inr (ExecutableAdd sample_verified) \<and>
     sc_canonical s = marshalCapability (vc_value sample_verified) \<and> vc_executorID sample_verified = ''executor-1'' \<and>
     digestBytes (CanonicalCommand (ExecutableAdd sample_verified)) = val_ArtifactDigest (vc_value sample_verified) \<and>
     (\<exists>x token. CanonicalCommand (ExecutableAdd sample_verified) = add_command (addr_string x) token)"
proof -
  obtain s where s: "CapabilityVerify sample_ed sample_verifier s = Inr sample_verified" using sample_verify by blast
  from released_bytes_are_authorised [OF sample_parties(2) s, of 63900000010000000000] sample_AddAt s
  show ?thesis by blast
qed

text \<open>
  C39: An honest exchange always succeeds. With a signature scheme that verifies its own signatures, every
  checked capability can be signed by the dispatcher's issuer and is then accepted by the executor's
  verifier with the same value, artifact and duration; and every result the executor signs for it (with
  instants in years 0 to 9999) is accepted by the dispatcher's result verifier with the same value and binds to
  that very capability.
\<close>

theorem signed_exchange_accepted:
  assumes "ed25519_laws ed" and "NewCapabilityIssuer ed keyID key = Inr i"
    and "NewCapabilityVerifier keyID executorID (drop 32 key) = Inr v"
    and "CheckAdd a = Inr k \<or> CheckRevoke b = Inr k \<or> CheckInspect d = Inr k"
  shows "\<exists>s c. CapabilitySign ed i k = Inr s \<and> CapabilityVerify ed v s = Inr c \<and> vc_value c = ck_value k \<and>
    vc_artifact c = ck_artifact k \<and> vc_addTTL c = ck_addTTL k \<and>
    (\<forall>g rv x t. NewResultSigner ed resultKeyID executorID resultKey = Inr g \<and>
       NewResultVerifier resultKeyID executorID (drop 32 resultKey) = Inr rv \<and>
       CheckResult x = Inr t \<and> printable_year (rs_StartedAt x) \<and> printable_year (rs_CompletedAt x) \<and>
       SignFor ed g c t = Inr u \<longrightarrow>
         (\<exists>y. ResultVerify ed rv u = Inr y \<and> vr_value y = x \<and> BindTo y c = Inr \<lparr>br_result = y, br_capability = c\<rparr>))"
proof -
  have "constructed k" using assms(4) by (auto simp: constructed_def)
  from sign_verify [OF assms(1-3) this] obtain s where
    s: "CapabilitySign ed i k = Inr s" "CapabilityVerify ed v s = Inr (verified_of v k)" by blast
  have "vc_value (verified_of v k) = ck_value k" "vc_artifact (verified_of v k) = ck_artifact k"
      "vc_addTTL (verified_of v k) = ck_addTTL k" by (simp_all add: verified_of_def)
  moreover have "\<exists>y. ResultVerify ed rv u = Inr y \<and> vr_value y = x \<and>
      BindTo y (verified_of v k) = Inr \<lparr>br_result = y, br_capability = verified_of v k\<rparr>"
    if "NewResultSigner ed resultKeyID executorID resultKey = Inr g"
      "NewResultVerifier resultKeyID executorID (drop 32 resultKey) = Inr rv" "CheckResult x = Inr t"
      "printable_year (rs_StartedAt x)" "printable_year (rs_CompletedAt x)" "SignFor ed g (verified_of v k) t = Inr u"
    for g rv x t
    using sign_result_verify [OF assms(1) that(1,2)] that(3-6) unfolding CheckResult_iff by blast
  ultimately show ?thesis using s by blast
qed

definition sample_input :: cap_add where
  "sample_input = cap_common.extend (common_of sample_value) \<lparr>add_CanonicalCommand = sample_artifact\<rparr>"

lemma sample_CheckAdd: "CheckAdd sample_input = Inr sample_checked"
proof -
  have e: "add_CanonicalCommand sample_input = sample_artifact" by (simp add: sample_input_def cap_common.extend_def)
  have f: "val_Operation sample_value = OperationAdd" "val_OriginalAddDigest sample_value = []"
      "val_ArtifactDigest sample_value = digestBytes sample_artifact" "val_SchemaVersion sample_value = CapabilitySchemaVersion"
    by (simp_all add: sample_value_def sample_artifact_def)
  have "sample_value = value_of sample_input OperationAdd [] (digestBytes sample_artifact)"
    using value_of_common [OF f(4), of "\<lparr>add_CanonicalCommand = sample_artifact\<rparr>"] f by (simp add: sample_input_def)
  then show ?thesis
    unfolding CheckAdd_iff e sample_checked_def using sample_value_ok sample_artifact_ok by blast
qed

definition sample_result :: exec_result where
  "sample_result = \<lparr>rs_ResultID = ''018f0000-0000-7000-8000-00000000000e'',
     rs_CapabilityID = val_CapabilityID sample_value, rs_CapabilityDigest = vc_digest sample_verified,
     rs_Operation = OperationAdd, rs_ActionID = val_ActionID sample_value,
     rs_ArtifactDigest = val_ArtifactDigest sample_value, rs_TargetIPv4 = val_TargetIPv4 sample_value,
     rs_Classification = ClassificationApplied, rs_NFTExitClass = Some NFTExitSuccess,
     rs_ReadbackState = ReadbackActive, rs_ElementHandle = None, rs_RemainingTTLSeconds = Some 1799,
     rs_OwnedSchemaDigest = val_OwnedSchemaDigest sample_value, rs_StartedAt = 63900000010000000000,
     rs_CompletedAt = 63900000010500000000, rs_JournalSequence = 1, rs_ErrorCode = ResultErrorNone\<rparr>"

definition sample_signer :: result_signer where
  "sample_signer = \<lparr>sg_keyID = ''result-1'', sg_executorID = ''executor-1'', sg_key = sample_key\<rparr>"

definition sample_result_verifier :: result_verifier where
  "sample_result_verifier = \<lparr>rv_keyID = ''result-1'', rv_executorID = ''executor-1'', rv_key = drop 32 sample_key\<rparr>"

lemma sample_result_parties:
  "NewResultSigner sample_ed ''result-1'' ''executor-1'' sample_key = Inr sample_signer"
  "NewResultVerifier ''result-1'' ''executor-1'' (drop 32 sample_key) = Inr sample_result_verifier"
proof -
  have "re_matches keyIDPattern ''result-1''" "re_matches actorPattern ''executor-1''" by code_simp+
  moreover have "validPrivateKey sample_ed sample_key" "length (drop 32 sample_key) = 32"
    by (simp_all add: validPrivateKey_def sample_key_def sample_ed_def)
  ultimately show "NewResultSigner sample_ed ''result-1'' ''executor-1'' sample_key = Inr sample_signer"
    "NewResultVerifier ''result-1'' ''executor-1'' (drop 32 sample_key) = Inr sample_result_verifier"
    by (simp_all add: NewResultSigner_def NewResultVerifier_def sample_signer_def sample_result_verifier_def)
qed

lemma sample_verified_fields:
  "vc_value sample_verified = sample_value" "vc_canonical sample_verified = marshalCapability sample_value"
  "vc_digest sample_verified = digestBytes (marshalCapability sample_value)" "vc_executorID sample_verified = ''executor-1''"
  "vc_addTTL sample_verified = 1800" "vc_artifact sample_verified = sample_artifact"
  by (simp_all add: sample_verified_def verified_of_def sample_verifier_def sample_checked_def built_def)

lemma sample_result_ok: "result_ok sample_result"
proof -
  have u: "re_matches uuidPattern ''018f0000-0000-7000-8000-00000000000e''" by code_simp
  have v: "validClassification OperationAdd ClassificationApplied" "validExit (Some NFTExitSuccess)"
      "validReadback ReadbackActive" "validResultError ResultErrorNone"
    by (simp_all add: validClassification_def validExit_def validReadback_def validResultError_def)
  have m: "millisecondAligned 63900000010000000000" "millisecondAligned 63900000010500000000" by code_simp+
  have o: "checkOutcome sample_result = Inr ()"
    by (simp add: checkOutcome_def sample_result_def positive_ttl_def Let_def)
      (simp add: result_words)
  show ?thesis
    using u v m o sample_value_ok
    by (simp add: result_ok_def cap_ok_def sample_verified_fields sample_result_def)
qed

lemma sample_years: "printable_year (rs_StartedAt sample_result)" "printable_year (rs_CompletedAt sample_result)"
proof -
  have "printable_year 63900000010000000000" "printable_year 63900000010500000000"
    unfolding printable_year_def by code_simp+
  then show "printable_year (rs_StartedAt sample_result)" "printable_year (rs_CompletedAt sample_result)"
    by (simp_all add: sample_result_def)
qed

lemma sample_bind: "bindResult sample_result sample_verified ''executor-1'' = Inr ()"
proof -
  have d: "re_matches digestPattern (val_OwnedSchemaDigest sample_value)" "re_matches digestPattern (val_ArtifactDigest sample_value)"
    using sample_value_ok by (simp_all add: cap_ok_def)
  have t: "val_NotBefore sample_value = 63900000000000000000" "val_Operation sample_value = OperationAdd"
    by (simp_all add: sample_value_def)
  show ?thesis
    by (simp add: bindResult_def sample_verified_fields digestEqual_iff d marshal_nonempty_capability sample_result_def t)
qed

lemma sample_SignFor: "\<exists>u. SignFor sample_ed sample_signer sample_verified (checked_result_of sample_result) = Inr u"
  by (simp add: SignFor_def checked_result_of_def marshalResult_nonempty sample_signer_def sample_key_def sample_bind)

theorem signed_exchange_accepted_witness:
  "\<exists>s c u y. CapabilitySign sample_ed sample_issuer sample_checked = Inr s \<and>
     CapabilityVerify sample_ed sample_verifier s = Inr c \<and> vc_value c = ck_value sample_checked \<and>
     SignFor sample_ed sample_signer c (checked_result_of sample_result) = Inr u \<and>
     ResultVerify sample_ed sample_result_verifier u = Inr y \<and> vr_value y = sample_result \<and>
     BindTo y c = Inr \<lparr>br_result = y, br_capability = c\<rparr>"
proof -
  obtain u where u: "SignFor sample_ed sample_signer sample_verified (checked_result_of sample_result) = Inr u"
    using sample_SignFor by blast
  obtain s c where s: "CapabilitySign sample_ed sample_issuer sample_checked = Inr s"
      "CapabilityVerify sample_ed sample_verifier s = Inr c" "vc_value c = ck_value sample_checked"
    and r: "\<forall>g rv x t. NewResultSigner sample_ed ''result-1'' ''executor-1'' sample_key = Inr g \<and>
       NewResultVerifier ''result-1'' ''executor-1'' (drop 32 sample_key) = Inr rv \<and>
       CheckResult x = Inr t \<and> printable_year (rs_StartedAt x) \<and> printable_year (rs_CompletedAt x) \<and>
       SignFor sample_ed g c t = Inr u \<longrightarrow>
         (\<exists>y. ResultVerify sample_ed rv u = Inr y \<and> vr_value y = x \<and> BindTo y c = Inr \<lparr>br_result = y, br_capability = c\<rparr>)"
    using signed_exchange_accepted [OF sample_ed_laws sample_parties disjI1 [OF sample_CheckAdd],
      of "''result-1''" sample_key u] by blast
  obtain s' where s': "CapabilitySign sample_ed sample_issuer sample_checked = Inr s'"
      "CapabilityVerify sample_ed sample_verifier s' = Inr sample_verified"
    using sign_verify [OF sample_ed_laws sample_parties sample_constructed] by (auto simp: sample_verified_def)
  then have c: "c = sample_verified" using s by simp
  have "CheckResult sample_result = Inr (checked_result_of sample_result)" by (simp add: CheckResult_iff sample_result_ok)
  with r [rule_format, of sample_signer sample_result_verifier sample_result] sample_result_parties sample_years u
  obtain y where "ResultVerify sample_ed sample_result_verifier u = Inr y" "vr_value y = sample_result"
      "BindTo y c = Inr \<lparr>br_result = y, br_capability = c\<rparr>" unfolding c by blast
  with s u c show ?thesis by blast
qed

end
