(* ===== verification/Journal_Frame.thy ===== *)
theory Journal_Frame
  imports Capability_Signing
begin

text \<open>
  \<open>internal/enforcement/journal/frame.go\<close>: the binary frame around one journal record, and the
  big-endian integers of \<open>encoding/binary\<close>. A frame is 24 header bytes, the payload, and the SHA-256 of
  both. \<open>decode_encode_frame\<close> and \<open>decodeFrame_exact\<close> show the two directions inverse.
\<close>

section \<open>Big-endian integers\<close>

fun be_put :: "nat \<Rightarrow> nat \<Rightarrow> bytes" where
  "be_put 0 v = []"
| "be_put (Suc k) v = be_put k (v div 256) @ [char_of (v mod 256)]"

definition be_get :: "bytes \<Rightarrow> nat" where
  "be_get bs = foldl (\<lambda>a c. 256 * a + ord c) 0 bs"

lemma length_be_put [simp]: "length (be_put k v) = k"
  by (induction k arbitrary: v) simp_all

lemma be_get_snoc [simp]: "be_get [] = 0" "be_get (bs @ [c]) = 256 * be_get bs + ord c"
  by (simp_all add: be_get_def)

lemma be_get_put: "be_get (be_put k v) = v mod 256 ^ k"
proof (induction k arbitrary: v)
  case (Suc k)
  then show ?case by (simp add: mod_mult2_eq)
qed simp

lemma be_put_get: "be_put (length bs) (be_get bs) = bs"
proof (induction bs rule: rev_induct)
  case (snoc c bs)
  have "ord c < 256" by simp
  then have "(256 * be_get bs + ord c) div 256 = be_get bs" "(256 * be_get bs + ord c) mod 256 = ord c" by simp_all
  with snoc show ?case by simp
qed simp

lemma be_get_bound: "be_get bs < 256 ^ length bs"
proof (induction bs rule: rev_induct)
  case (snoc c bs)
  have c: "ord c < 256" by simp
  have "be_get bs + 1 \<le> 256 ^ length bs" using snoc by simp
  then have "256 * be_get bs + ord c < 256 * 256 ^ length bs" using c by linarith
  then show ?case by simp
qed simp

section \<open>Errors and constants (errors.go, types.go, frame.go)\<close>

datatype journal_error =
    JErrorPath | JErrorUnsafeDirectory | JErrorUnsafeFile | JErrorLocked | JErrorTooLarge
  | JErrorCorrupt | JErrorVersion | JErrorSequence | JErrorVerification | JErrorTime | JErrorConflict
  | JErrorMissingStart | JErrorDuplicateTerminal | JErrorOperation | JErrorFreshness | JErrorPermitUsed
  | JErrorSync | JErrorIO | JErrorUnhealthy

definition MaxJournalBytes :: nat where "MaxJournalBytes = 64 * 1024 * 1024"
definition MaxPayloadBytes :: nat where "MaxPayloadBytes = 32 * 1024"
definition frameHeaderBytes :: nat where "frameHeaderBytes = 24"
definition checksumBytes :: nat where "checksumBytes = 32"
definition MaxFrameBytes :: nat where "MaxFrameBytes = frameHeaderBytes + MaxPayloadBytes + checksumBytes"
definition MaxDeadline :: duration where "MaxDeadline = 2 * Second"

definition frameVersion :: char where "frameVersion = CHR 0x01"
definition recordStarted :: char where "recordStarted = CHR 0x01"
definition recordTerminal :: char where "recordTerminal = CHR 0x02"
definition frameMagic :: bytes where "frameMagic = ''SFJNLv1'' @ [CHR 0x0A]"

record decoded_frame =
  df_recordType :: char
  df_sequence :: uint64
  df_payload :: bytes

section \<open>Frames (frame.go)\<close>

definition frame_header :: "char \<Rightarrow> uint64 \<Rightarrow> bytes \<Rightarrow> bytes" where
  "frame_header recordType sequence payload =
     frameMagic @ [frameVersion, recordType, CHR 0x00, CHR 0x00] @ be_put 8 (unat sequence) @
     be_put 4 (unat (of_nat (length payload) :: uint32))"

definition encodeFrame :: "char \<Rightarrow> uint64 \<Rightarrow> bytes \<Rightarrow> journal_error + bytes" where
  "encodeFrame recordType sequence payload =
     (if (recordType \<noteq> recordStarted \<and> recordType \<noteq> recordTerminal) \<or> sequence = 0 \<or>
         2 ^ 53 - 1 < sequence \<or> payload = [] \<or> MaxPayloadBytes < length payload then Inl JErrorCorrupt
      else let body = frame_header recordType sequence payload @ payload in Inr (body @ sha256 body))"

definition decodeFrame :: "bytes \<Rightarrow> journal_error + decoded_frame" where
  "decodeFrame frame =
     (if length frame < frameHeaderBytes + checksumBytes \<or> MaxFrameBytes < length frame \<or>
         take 8 frame \<noteq> frameMagic then Inl JErrorCorrupt
      else if frame ! 8 \<noteq> frameVersion then Inl JErrorVersion
      else if frame ! 9 \<noteq> recordStarted \<and> frame ! 9 \<noteq> recordTerminal then Inl JErrorVersion
      else if frame ! 10 \<noteq> CHR 0x00 \<or> frame ! 11 \<noteq> CHR 0x00 then Inl JErrorCorrupt
      else let sequence = (of_nat (be_get (take 8 (drop 12 frame))) :: uint64);
               len = (of_nat (be_get (take 4 (drop 20 frame))) :: uint32) in
        if sequence = 0 \<or> 2 ^ 53 - 1 < sequence \<or> len = 0 \<or> MaxPayloadBytes < unat len \<or>
           unat len + frameHeaderBytes + checksumBytes \<noteq> length frame then Inl JErrorCorrupt
        else let payloadEnd = frameHeaderBytes + unat len in
          if sha256 (take payloadEnd frame) \<noteq> drop payloadEnd frame then Inl JErrorCorrupt
          else Inr \<lparr>df_recordType = frame ! 9, df_sequence = sequence,
                    df_payload = take (unat len) (drop frameHeaderBytes frame)\<rparr>)"

section \<open>Round trips\<close>

lemma length_frame_header: "length (frame_header t s p) = 24"
  by (simp add: frame_header_def frameMagic_def)

lemma header_fields:
  "take 8 (frame_header t s p @ r) = frameMagic" "(frame_header t s p @ r) ! 8 = frameVersion"
  "(frame_header t s p @ r) ! 9 = t" "(frame_header t s p @ r) ! 10 = CHR 0x00" "(frame_header t s p @ r) ! 11 = CHR 0x00"
  "take 8 (drop 12 (frame_header t s p @ r)) = be_put 8 (unat s)"
  "take 4 (drop 20 (frame_header t s p @ r)) = be_put 4 (unat (of_nat (length p) :: uint32))"
  by (simp_all add: frame_header_def frameMagic_def nth_append)

lemma word_be_put: "of_nat (be_get (be_put 8 (unat (s :: uint64)))) = s" "of_nat (be_get (be_put 4 (unat (l :: uint32)))) = l"
  using unat_less_64 [of s] unat_less_32 [of l] by (simp_all add: be_get_put)

lemma payload_length_word: "length p \<le> MaxPayloadBytes \<Longrightarrow> unat (of_nat (length p) :: uint32) = length p"
  by (simp add: unat_of_nat MaxPayloadBytes_def)

lemma encodeFrame_Inr:
  assumes "encodeFrame t s p = Inr frame"
  shows "frame = frame_header t s p @ p @ sha256 (frame_header t s p @ p) \<and> length frame = 56 + length p \<and>
    0 < length p \<and> length p \<le> MaxPayloadBytes \<and> (t = recordStarted \<or> t = recordTerminal) \<and> s \<noteq> 0 \<and> s \<le> 2 ^ 53 - 1"
proof -
  have "frame = frame_header t s p @ p @ sha256 (frame_header t s p @ p)"
    using assms by (auto simp: encodeFrame_def Let_def split: if_splits)
  moreover have "0 < length p \<and> length p \<le> MaxPayloadBytes \<and> (t = recordStarted \<or> t = recordTerminal) \<and> s \<noteq> 0 \<and> s \<le> 2 ^ 53 - 1"
    using assms by (auto simp: encodeFrame_def Let_def not_less split: if_splits)
  ultimately show ?thesis by (simp add: length_frame_header length_sha256)
qed

lemma decode_encode_frame:
  assumes "encodeFrame t s p = Inr frame"
  shows "decodeFrame frame = Inr \<lparr>df_recordType = t, df_sequence = s, df_payload = p\<rparr>"
proof -
  note e = encodeFrame_Inr [OF assms]
  define h where "h = frame_header t s p"
  have f: "frame = h @ p @ sha256 (h @ p)" and len: "length frame = 56 + length p"
    using e unfolding h_def by blast+
  have lh: "length h = 24" by (simp add: h_def length_frame_header)
  note hf = header_fields [of t s p "p @ sha256 (h @ p)", folded h_def, folded f]
  have b: "\<not> length frame < 24 + 32" "\<not> 24 + MaxPayloadBytes + 32 < length frame" using e len by simp_all
  have w: "unat (of_nat (length p) :: uint32) = length p" by (rule payload_length_word) (use e in blast)
  have x: "take (24 + length p) frame = h @ p" "drop (24 + length p) frame = sha256 (h @ p)"
      "take (length p) (drop 24 frame) = p" using lh by (simp_all add: f)
  have nz: "(of_nat (length p) :: uint32) \<noteq> 0"
  proof
    assume "(of_nat (length p) :: uint32) = 0"
    then have "unat (of_nat (length p) :: uint32) = 0" by simp
    with w e show False by simp
  qed
  have s: "s \<noteq> 0" "\<not> 2 ^ 53 - 1 < s" "t = recordStarted \<or> t = recordTerminal" "\<not> MaxPayloadBytes < length p"
    using e by (simp_all add: not_less)
  show ?thesis
    unfolding decodeFrame_def frameHeaderBytes_def checksumBytes_def MaxFrameBytes_def hf word_be_put Let_def
    unfolding w x using b s nz len by simp
qed

lemma frame_split:
  assumes "24 \<le> length frame" "take 8 frame = frameMagic" "frame ! 8 = frameVersion" "frame ! 10 = CHR 0x00" "frame ! 11 = CHR 0x00"
  shows "take 24 frame = frameMagic @ [frameVersion, frame ! 9, CHR 0x00, CHR 0x00] @ take 8 (drop 12 frame) @ take 4 (drop 20 frame)"
proof -
  have d: "take (m + n) frame = take m frame @ take n (drop m frame)" for m n by (rule take_add)
  have "take 4 (drop 8 frame) = [frame ! 8, frame ! 9, frame ! 10, frame ! 11]"
    using assms(1) by (simp add: list_eq_iff_nth_eq less_Suc_eq numeral_eq_Suc)
  with d [of 8 4] d [of 12 8] d [of 20 4] assms show ?thesis by simp
qed

lemma decodeFrame_exact:
  assumes "decodeFrame frame = Inr d"
  shows "encodeFrame (df_recordType d) (df_sequence d) (df_payload d) = Inr frame"
proof -
  define l where "l = (of_nat (be_get (take 4 (drop 20 frame))) :: uint32)"
  define s where "s = (of_nat (be_get (take 8 (drop 12 frame))) :: uint64)"
  have g: "56 \<le> length frame" "take 8 frame = frameMagic" "frame ! 8 = frameVersion"
      "frame ! 9 = recordStarted \<or> frame ! 9 = recordTerminal" "frame ! 10 = CHR 0x00" "frame ! 11 = CHR 0x00"
      "s \<noteq> 0" "s \<le> 2 ^ 53 - 1" "l \<noteq> 0" "unat l \<le> MaxPayloadBytes" "unat l + 56 = length frame"
      "sha256 (take (24 + unat l) frame) = drop (24 + unat l) frame"
      "d = \<lparr>df_recordType = frame ! 9, df_sequence = s, df_payload = take (unat l) (drop 24 frame)\<rparr>"
    using assms
    unfolding decodeFrame_def Let_def frameHeaderBytes_def checksumBytes_def l_def [symmetric] s_def [symmetric]
    by (auto simp: not_less split: if_splits)
  define p where "p = take (unat l) (drop 24 frame)"
  have lp: "length p = unat l" using g by (simp add: p_def)
  have "be_get (take 4 (drop 20 frame)) < 256 ^ 4" "be_get (take 8 (drop 12 frame)) < 256 ^ 8"
    using be_get_bound [of "take 4 (drop 20 frame)"] be_get_bound [of "take 8 (drop 12 frame)"] g(1) by simp_all
  then have u: "unat l = be_get (take 4 (drop 20 frame))" "unat s = be_get (take 8 (drop 12 frame))"
    by (simp_all add: l_def s_def unat_of_nat)
  have bp: "be_put 4 (unat l) = take 4 (drop 20 frame)" "be_put 8 (unat s) = take 8 (drop 12 frame)"
    using be_put_get [of "take 4 (drop 20 frame)"] be_put_get [of "take 8 (drop 12 frame)"] g(1) u by simp_all
  have h: "frame_header (frame ! 9) s p = take 24 frame"
    using frame_split [of frame] g(1-6) by (simp add: frame_header_def lp bp)
  have tk: "take (24 + unat l) frame = take 24 frame @ p" by (simp add: p_def take_add)
  have "p \<noteq> []" using g(9) lp by (metis length_0_conv unat_eq_0)
  then have "encodeFrame (frame ! 9) s p = Inr (take 24 frame @ p @ drop (24 + unat l) frame)"
    using g lp tk unfolding encodeFrame_def by (auto simp: Let_def h)
  moreover have "take 24 frame @ p @ drop (24 + unat l) frame = frame"
    by (metis tk append_assoc append_take_drop_id)
  ultimately show ?thesis by (simp add: g(13) p_def)
qed

end
