(* ===== verification/Journal.thy ===== *)
theory Journal
  imports Journal_Frame
begin

text \<open>
  \<open>internal/enforcement/journal\<close>: the executor's append-only replay journal (\<open>types.go\<close>,
  \<open>payload.go\<close>, \<open>journal.go\<close>, \<open>validation.go\<close>). A record is canonical JSON with its own checksum
  and the digest of the previous record; \<open>scan\<close> rebuilds the index from the file; \<open>Begin\<close> makes a request
  durable before it hands out a permit; \<open>Complete\<close> appends the signed result. The operating system is an
  argument: \<open>append_io\<close> says what the checks, the write and the two synchronisations of one append return.
  The index is an association list in order of insertion, so lookups are those of the Go map.
\<close>

section \<open>Records (payload.go)\<close>

definition SchemaRecordV1 :: string where "SchemaRecordV1 = ''executor-journal-record-v1''"
definition phaseStarted :: string where "phaseStarted = ''started''"
definition phaseTerminal :: string where "phaseTerminal = ''terminal''"

record record_payload =
  pl_ArtifactB64URL :: string
  pl_ArtifactDigest :: string
  pl_CapabilityDigest :: string
  pl_CapabilityID :: string
  pl_CapabilityJCSB64URL :: string
  pl_CapabilitySignatureB64URL :: string
  pl_Deadline :: string
  pl_JournalSequence :: uint64
  pl_Operation :: string
  pl_OwnedSchemaDigest :: string
  pl_Phase :: string
  pl_PreviousRecordDigest :: "string option"
  pl_ReceivedAt :: string
  pl_RecordChecksum :: string
  pl_SchemaVersion :: string
  pl_TargetIPv4 :: string
  pl_TerminalResultDigest :: "string option"
  pl_TerminalResultJCSB64URL :: "string option"
  pl_TerminalResultSignatureB64URL :: "string option"

definition zero_payload :: record_payload where
  "zero_payload = \<lparr>pl_ArtifactB64URL = [], pl_ArtifactDigest = [], pl_CapabilityDigest = [],
     pl_CapabilityID = [], pl_CapabilityJCSB64URL = [], pl_CapabilitySignatureB64URL = [],
     pl_Deadline = [], pl_JournalSequence = 0, pl_Operation = [],
     pl_OwnedSchemaDigest = [], pl_Phase = [], pl_PreviousRecordDigest = None,
     pl_ReceivedAt = [], pl_RecordChecksum = [], pl_SchemaVersion = [],
     pl_TargetIPv4 = [], pl_TerminalResultDigest = None, pl_TerminalResultJCSB64URL = None,
     pl_TerminalResultSignatureB64URL = None\<rparr>"

definition payload_fields :: "(string \<times> record_payload setter) list" where
  "payload_fields =
     [(''artifact_b64url'', set_string (\<lambda>x. pl_ArtifactB64URL_update (\<lambda>_. x))),
      (''artifact_digest'', set_string (\<lambda>x. pl_ArtifactDigest_update (\<lambda>_. x))),
      (''capability_digest'', set_string (\<lambda>x. pl_CapabilityDigest_update (\<lambda>_. x))),
      (''capability_id'', set_string (\<lambda>x. pl_CapabilityID_update (\<lambda>_. x))),
      (''capability_jcs_b64url'', set_string (\<lambda>x. pl_CapabilityJCSB64URL_update (\<lambda>_. x))),
      (''capability_signature_b64url'', set_string (\<lambda>x. pl_CapabilitySignatureB64URL_update (\<lambda>_. x))),
      (''deadline'', set_string (\<lambda>x. pl_Deadline_update (\<lambda>_. x))),
      (''journal_sequence'', set_uint 64 (\<lambda>x. pl_JournalSequence_update (\<lambda>_. of_nat x))),
      (''operation'', set_string (\<lambda>x. pl_Operation_update (\<lambda>_. x))),
      (''owned_schema_digest'', set_string (\<lambda>x. pl_OwnedSchemaDigest_update (\<lambda>_. x))),
      (''phase'', set_string (\<lambda>x. pl_Phase_update (\<lambda>_. x))),
      (''previous_record_digest'', set_string_ptr (\<lambda>x. pl_PreviousRecordDigest_update (\<lambda>_. x))),
      (''received_at'', set_string (\<lambda>x. pl_ReceivedAt_update (\<lambda>_. x))),
      (''record_checksum'', set_string (\<lambda>x. pl_RecordChecksum_update (\<lambda>_. x))),
      (''schema_version'', set_string (\<lambda>x. pl_SchemaVersion_update (\<lambda>_. x))),
      (''target_ipv4'', set_string (\<lambda>x. pl_TargetIPv4_update (\<lambda>_. x))),
      (''terminal_result_digest'', set_string_ptr (\<lambda>x. pl_TerminalResultDigest_update (\<lambda>_. x))),
      (''terminal_result_jcs_b64url'', set_string_ptr (\<lambda>x. pl_TerminalResultJCSB64URL_update (\<lambda>_. x))),
      (''terminal_result_signature_b64url'', set_string_ptr (\<lambda>x. pl_TerminalResultSignatureB64URL_update (\<lambda>_. x)))]"

text \<open>\<open>json.Marshal\<close> of the record, and of the record without its checksum.\<close>

definition payload_members :: "record_payload \<Rightarrow> (bytes \<times> json) list" where
  "payload_members p =
     [(''artifact_b64url'', JStr (pl_ArtifactB64URL p)),
      (''artifact_digest'', JStr (pl_ArtifactDigest p)),
      (''capability_digest'', JStr (pl_CapabilityDigest p)),
      (''capability_id'', JStr (pl_CapabilityID p)),
      (''capability_jcs_b64url'', JStr (pl_CapabilityJCSB64URL p)),
      (''capability_signature_b64url'', JStr (pl_CapabilitySignatureB64URL p)),
      (''deadline'', JStr (pl_Deadline p)),
      (''journal_sequence'', JNum (nat_str (unat (pl_JournalSequence p)))),
      (''operation'', JStr (pl_Operation p)),
      (''owned_schema_digest'', JStr (pl_OwnedSchemaDigest p)),
      (''phase'', JStr (pl_Phase p)),
      (''previous_record_digest'', opt_str (pl_PreviousRecordDigest p)),
      (''received_at'', JStr (pl_ReceivedAt p)),
      (''record_checksum'', JStr (pl_RecordChecksum p)),
      (''schema_version'', JStr (pl_SchemaVersion p)),
      (''target_ipv4'', JStr (pl_TargetIPv4 p)),
      (''terminal_result_digest'', opt_str (pl_TerminalResultDigest p)),
      (''terminal_result_jcs_b64url'', opt_str (pl_TerminalResultJCSB64URL p)),
      (''terminal_result_signature_b64url'', opt_str (pl_TerminalResultSignatureB64URL p))]"

definition checksum_members :: "record_payload \<Rightarrow> (bytes \<times> json) list" where
  "checksum_members p =
     [(''artifact_b64url'', JStr (pl_ArtifactB64URL p)),
      (''artifact_digest'', JStr (pl_ArtifactDigest p)),
      (''capability_digest'', JStr (pl_CapabilityDigest p)),
      (''capability_id'', JStr (pl_CapabilityID p)),
      (''capability_jcs_b64url'', JStr (pl_CapabilityJCSB64URL p)),
      (''capability_signature_b64url'', JStr (pl_CapabilitySignatureB64URL p)),
      (''deadline'', JStr (pl_Deadline p)),
      (''journal_sequence'', JNum (nat_str (unat (pl_JournalSequence p)))),
      (''operation'', JStr (pl_Operation p)),
      (''owned_schema_digest'', JStr (pl_OwnedSchemaDigest p)),
      (''phase'', JStr (pl_Phase p)),
      (''previous_record_digest'', opt_str (pl_PreviousRecordDigest p)),
      (''received_at'', JStr (pl_ReceivedAt p)),
      (''schema_version'', JStr (pl_SchemaVersion p)),
      (''target_ipv4'', JStr (pl_TargetIPv4 p)),
      (''terminal_result_digest'', opt_str (pl_TerminalResultDigest p)),
      (''terminal_result_jcs_b64url'', opt_str (pl_TerminalResultJCSB64URL p)),
      (''terminal_result_signature_b64url'', opt_str (pl_TerminalResultSignatureB64URL p))]"

definition payload_json :: "record_payload \<Rightarrow> bytes" where
  "payload_json p = json_print (JObj (payload_members p))"

definition checksum_json :: "record_payload \<Rightarrow> bytes" where
  "checksum_json p = json_print (JObj (checksum_members p))"

record terminal_record =
  tr_sequence :: uint64
  tr_signed :: signed_result
  tr_verified :: verified_result

record started_record =
  st_sequence :: uint64
  st_signed :: signed_capability
  st_verified :: verified_capability
  st_received :: gotime
  st_deadline :: gotime
  st_terminal :: "terminal_record option"

definition digestPayload :: "bytes \<Rightarrow> string" where
  "digestPayload v = ''sha256:'' @ hex_encode (sha256 v)"

definition validDigest :: "string \<Rightarrow> bool" where
  "validDigest v \<longleftrightarrow>
     (if length v \<noteq> 7 + 64 \<or> take 7 v \<noteq> ''sha256:'' then False
      else case hex_decode (drop 7 v) of None \<Rightarrow> False | Some d \<Rightarrow> length d = 32)"

definition encodeBytes :: "bytes \<Rightarrow> string" where
  "encodeBytes v = b64_encode v"

definition decodeBytes :: "string \<Rightarrow> nat \<Rightarrow> bytes option" where
  "decodeBytes v maximum =
     (if v = [] then None
      else case b64_decode True v of
        None \<Rightarrow> None
      | Some d \<Rightarrow> if d = [] \<or> maximum < length d \<or> encodeBytes d \<noteq> v then None else Some d)"

definition formatTime :: "gotime \<Rightarrow> string" where
  "formatTime t = format_millis t"

definition parseTime :: "string \<Rightarrow> gotime option" where
  "parseTime v =
     (case parse_millis v of
        None \<Rightarrow> None
      | Some t \<Rightarrow> if formatTime t = v then Some t else None)"

definition optionalDigest :: "string \<Rightarrow> string option" where
  "optionalDigest v = (if v = [] then None else Some v)"

definition newStartedPayload ::
  "signed_capability \<Rightarrow> verified_capability \<Rightarrow> gotime \<Rightarrow> gotime \<Rightarrow> uint64 \<Rightarrow> string \<Rightarrow> record_payload" where
  "newStartedPayload s c received deadline sequence previous =
     \<lparr>pl_ArtifactB64URL = encodeBytes (sc_artifact s), pl_ArtifactDigest = val_ArtifactDigest (vc_value c),
      pl_CapabilityDigest = vc_digest c, pl_CapabilityID = val_CapabilityID (vc_value c),
      pl_CapabilityJCSB64URL = encodeBytes (sc_canonical s),
      pl_CapabilitySignatureB64URL = encodeBytes (sc_signature s), pl_Deadline = formatTime deadline,
      pl_JournalSequence = sequence, pl_Operation = val_Operation (vc_value c),
      pl_OwnedSchemaDigest = val_OwnedSchemaDigest (vc_value c), pl_Phase = phaseStarted,
      pl_PreviousRecordDigest = optionalDigest previous, pl_ReceivedAt = formatTime received,
      pl_RecordChecksum = [], pl_SchemaVersion = SchemaRecordV1, pl_TargetIPv4 = val_TargetIPv4 (vc_value c),
      pl_TerminalResultDigest = None, pl_TerminalResultJCSB64URL = None,
      pl_TerminalResultSignatureB64URL = None\<rparr>"

definition newTerminalPayload ::
  "started_record \<Rightarrow> signed_result \<Rightarrow> verified_result \<Rightarrow> uint64 \<Rightarrow> string \<Rightarrow> record_payload" where
  "newTerminalPayload start s r sequence previous =
     (let c = st_verified start in
      \<lparr>pl_ArtifactB64URL = encodeBytes (sc_artifact (st_signed start)),
       pl_ArtifactDigest = val_ArtifactDigest (vc_value c), pl_CapabilityDigest = vc_digest c,
       pl_CapabilityID = val_CapabilityID (vc_value c),
       pl_CapabilityJCSB64URL = encodeBytes (sc_canonical (st_signed start)),
       pl_CapabilitySignatureB64URL = encodeBytes (sc_signature (st_signed start)),
       pl_Deadline = formatTime (st_deadline start), pl_JournalSequence = sequence,
       pl_Operation = val_Operation (vc_value c), pl_OwnedSchemaDigest = val_OwnedSchemaDigest (vc_value c),
       pl_Phase = phaseTerminal, pl_PreviousRecordDigest = optionalDigest previous,
       pl_ReceivedAt = formatTime (st_received start), pl_RecordChecksum = [],
       pl_SchemaVersion = SchemaRecordV1, pl_TargetIPv4 = val_TargetIPv4 (vc_value c),
       pl_TerminalResultDigest = Some (vr_digest r),
       pl_TerminalResultJCSB64URL = Some (encodeBytes (sr_canonical s)),
       pl_TerminalResultSignatureB64URL = Some (encodeBytes (sr_signature s))\<rparr>)"

definition marshalRecordPayload :: "record_payload \<Rightarrow> journal_error + (bytes \<times> string)" where
  "marshalRecordPayload p =
     (if pl_RecordChecksum p \<noteq> [] then Inl JErrorCorrupt
      else let encoded = payload_json (p\<lparr>pl_RecordChecksum := digestPayload (checksum_json p)\<rparr>) in
        if encoded = [] \<or> MaxPayloadBytes < length encoded then Inl JErrorCorrupt
        else Inr (encoded, digestPayload encoded))"

definition validRecordShape :: "record_payload \<Rightarrow> char \<Rightarrow> uint64 \<Rightarrow> bool" where
  "validRecordShape p recordType sequence \<longleftrightarrow>
     (if pl_SchemaVersion p \<noteq> SchemaRecordV1 \<or> pl_JournalSequence p \<noteq> sequence \<or> sequence = 0 \<or>
         pl_CapabilityID p = [] \<or> pl_TargetIPv4 p = [] \<or> \<not> validDigest (pl_CapabilityDigest p) \<or>
         \<not> validDigest (pl_ArtifactDigest p) \<or> \<not> validDigest (pl_OwnedSchemaDigest p) \<or>
         \<not> validDigest (pl_RecordChecksum p) \<or>
         (case pl_PreviousRecordDigest p of None \<Rightarrow> False | Some d \<Rightarrow> \<not> validDigest d) then False
      else if pl_Operation p \<noteq> OperationAdd \<and> pl_Operation p \<noteq> OperationRevoke \<and> pl_Operation p \<noteq> OperationInspect
      then False
      else if decodeBytes (pl_CapabilityJCSB64URL p) MaxCapabilityBytes = None then False
      else if (case decodeBytes (pl_CapabilitySignatureB64URL p) 64 of None \<Rightarrow> True | Some d \<Rightarrow> length d \<noteq> 64) then False
      else if decodeBytes (pl_ArtifactB64URL p) MaxArtifactBytes = None then False
      else case (parseTime (pl_ReceivedAt p), parseTime (pl_Deadline p)) of
        (Some received, Some deadline) \<Rightarrow>
          if \<not> received < deadline \<or> MaxDeadline < Sub deadline received then False
          else if pl_Phase p = phaseStarted then
            recordType = recordStarted \<and> pl_TerminalResultDigest p = None \<and>
            pl_TerminalResultJCSB64URL p = None \<and> pl_TerminalResultSignatureB64URL p = None
          else if pl_Phase p = phaseTerminal then
            (case (pl_TerminalResultDigest p, pl_TerminalResultJCSB64URL p, pl_TerminalResultSignatureB64URL p) of
               (Some digest, Some jcs, Some signature) \<Rightarrow>
                 if recordType \<noteq> recordTerminal \<or> pl_PreviousRecordDigest p = None \<or> \<not> validDigest digest then False
                 else if decodeBytes jcs MaxResultBytes = None then False
                 else (case decodeBytes signature 64 of None \<Rightarrow> False | Some d \<Rightarrow> length d = 64)
             | _ \<Rightarrow> False)
          else False
      | _ \<Rightarrow> False)"

definition strictPayload :: "bytes \<Rightarrow> record_payload option" where
  "strictPayload data =
     (if data = [] \<or> MaxPayloadBytes < length data then None
      else case parse_doc data of
        None \<Rightarrow> None
      | Some j \<Rightarrow>
          (case decode_struct payload_fields j zero_payload of
             None \<Rightarrow> None
           | Some p \<Rightarrow> if payload_json p \<noteq> data then None else Some p))"

definition parseRecordPayload :: "bytes \<Rightarrow> char \<Rightarrow> uint64 \<Rightarrow> string \<Rightarrow> journal_error + (record_payload \<times> string)" where
  "parseRecordPayload data recordType sequence previous =
     (case strictPayload data of
        None \<Rightarrow> Inl JErrorCorrupt
      | Some p \<Rightarrow>
          if \<not> validRecordShape p recordType sequence then Inl JErrorCorrupt
          else if pl_RecordChecksum p \<noteq> digestPayload (checksum_json p) then Inl JErrorCorrupt
          else if sequence = 1 then
            if previous \<noteq> [] \<or> pl_PreviousRecordDigest p \<noteq> None then Inl JErrorCorrupt
            else Inr (p, digestPayload data)
          else if previous = [] \<or> pl_PreviousRecordDigest p \<noteq> Some previous then Inl JErrorCorrupt
          else Inr (p, digestPayload data))"

definition parseStartedPayload ::
  "ed25519 \<Rightarrow> capability_verifier \<Rightarrow> record_payload \<Rightarrow> uint64 \<Rightarrow> journal_error + started_record" where
  "parseStartedPayload ed cv p sequence =
     (case (decodeBytes (pl_CapabilityJCSB64URL p) MaxCapabilityBytes,
            decodeBytes (pl_CapabilitySignatureB64URL p) 64, decodeBytes (pl_ArtifactB64URL p) MaxArtifactBytes) of
        (Some canonical, Some signature, Some artifact) \<Rightarrow>
          if cv_keyID cv = [] then Inl JErrorCorrupt
          else let s = \<lparr>sc_keyID = cv_keyID cv, sc_canonical = canonical, sc_signature = signature, sc_artifact = artifact\<rparr> in
            (case CapabilityVerify ed cv s of
               Inl _ \<Rightarrow> Inl JErrorVerification
             | Inr c \<Rightarrow>
                 if pl_CapabilityID p \<noteq> val_CapabilityID (vc_value c) \<or> pl_CapabilityDigest p \<noteq> vc_digest c \<or>
                    pl_ArtifactDigest p \<noteq> val_ArtifactDigest (vc_value c) \<or>
                    pl_OwnedSchemaDigest p \<noteq> val_OwnedSchemaDigest (vc_value c) \<or>
                    pl_Operation p \<noteq> val_Operation (vc_value c) \<or> pl_TargetIPv4 p \<noteq> val_TargetIPv4 (vc_value c)
                 then Inl JErrorVerification
                 else (case (parseTime (pl_ReceivedAt p), parseTime (pl_Deadline p)) of
                     (Some received, Some deadline) \<Rightarrow>
                       if \<not> received < deadline \<or> MaxDeadline < Sub deadline received \<or>
                          val_ExpiresAt (vc_value c) < deadline then Inl JErrorTime
                       else Inr \<lparr>st_sequence = sequence, st_signed = s, st_verified = c, st_received = received,
                                 st_deadline = deadline, st_terminal = None\<rparr>
                   | _ \<Rightarrow> Inl JErrorTime))
      | _ \<Rightarrow> Inl JErrorCorrupt)"

text \<open>Both pointers are set here: \<open>validRecordShape\<close> has accepted the record as a terminal one.\<close>

definition parseTerminalPayload ::
  "ed25519 \<Rightarrow> result_verifier \<Rightarrow> record_payload \<Rightarrow> uint64 \<Rightarrow> started_record \<Rightarrow> journal_error + terminal_record" where
  "parseTerminalPayload ed rv p sequence start =
     (let c = st_verified start; s = st_signed start in
      if decodeBytes (pl_CapabilityJCSB64URL p) MaxCapabilityBytes \<noteq> Some (sc_canonical s) \<or>
         decodeBytes (pl_CapabilitySignatureB64URL p) 64 \<noteq> Some (sc_signature s) \<or>
         decodeBytes (pl_ArtifactB64URL p) MaxArtifactBytes \<noteq> Some (sc_artifact s) \<or>
         pl_CapabilityID p \<noteq> val_CapabilityID (vc_value c) \<or> pl_CapabilityDigest p \<noteq> vc_digest c \<or>
         pl_ArtifactDigest p \<noteq> val_ArtifactDigest (vc_value c) \<or>
         pl_OwnedSchemaDigest p \<noteq> val_OwnedSchemaDigest (vc_value c) \<or>
         pl_Operation p \<noteq> val_Operation (vc_value c) \<or> pl_TargetIPv4 p \<noteq> val_TargetIPv4 (vc_value c) \<or>
         pl_ReceivedAt p \<noteq> formatTime (st_received start) \<or> pl_Deadline p \<noteq> formatTime (st_deadline start)
      then Inl JErrorVerification
      else case (decodeBytes (the (pl_TerminalResultJCSB64URL p)) MaxResultBytes,
                 decodeBytes (the (pl_TerminalResultSignatureB64URL p)) 64) of
        (Some canonical, Some signature) \<Rightarrow>
          if rv_keyID rv = [] \<or> rv_executorID rv = [] then Inl JErrorCorrupt
          else let t = \<lparr>sr_keyID = rv_keyID rv, sr_executorID = rv_executorID rv, sr_canonical = canonical,
                        sr_signature = signature\<rparr> in
            (case ResultVerify ed rv t of
               Inl _ \<Rightarrow> Inl JErrorVerification
             | Inr r \<Rightarrow>
                 (case BindTo r c of
                    Inl _ \<Rightarrow> Inl JErrorVerification
                  | Inr _ \<Rightarrow>
                      if rs_JournalSequence (vr_value r) \<noteq> st_sequence start \<or>
                         pl_TerminalResultDigest p \<noteq> Some (vr_digest r) then Inl JErrorVerification
                      else Inr \<lparr>tr_sequence = sequence, tr_signed = t, tr_verified = r\<rparr>))
      | _ \<Rightarrow> Inl JErrorCorrupt)"

section \<open>The index and the scan (journal.go, validation.go)\<close>

text \<open>The loop variables: the index, the expected sequence number and the previous record's digest.\<close>

type_synonym entries = "(string \<times> started_record) list"
type_synonym scan_state = "entries \<times> uint64 \<times> string"

definition set_terminal :: "string \<Rightarrow> terminal_record \<Rightarrow> entries \<Rightarrow> entries" where
  "set_terminal k t es = map (\<lambda>(i, e). if i = k then (i, e\<lparr>st_terminal := Some t\<rparr>) else (i, e)) es"

definition indexFrame ::
  "ed25519 \<Rightarrow> capability_verifier \<Rightarrow> result_verifier \<Rightarrow> decoded_frame \<Rightarrow> record_payload \<Rightarrow> entries \<Rightarrow> journal_error + entries" where
  "indexFrame ed cv rv frame p es =
     (if df_recordType frame = recordStarted then
        bind_res (parseStartedPayload ed cv p (df_sequence frame)) (\<lambda>started.
          let k = val_CapabilityID (vc_value (st_verified started)) in
          if map_of es k \<noteq> None then Inl JErrorConflict else Inr (es @ [(k, started)]))
      else if df_recordType frame = recordTerminal then
        (case map_of es (pl_CapabilityID p) of
           None \<Rightarrow> Inl JErrorMissingStart
         | Some start \<Rightarrow>
             if st_terminal start \<noteq> None then Inl JErrorDuplicateTerminal
             else bind_res (parseTerminalPayload ed rv p (df_sequence frame) start) (\<lambda>t.
               Inr (set_terminal (pl_CapabilityID p) t es)))
      else Inl JErrorVersion)"

text \<open>One iteration: the bytes after the frame and the new loop variables.\<close>

definition scan_frame ::
  "ed25519 \<Rightarrow> capability_verifier \<Rightarrow> result_verifier \<Rightarrow> bytes \<Rightarrow> scan_state \<Rightarrow> journal_error + (bytes \<times> scan_state)" where
  "scan_frame ed cv rv rest st =
     (case st of (es, expectedSequence, previous) \<Rightarrow>
      if length rest < frameHeaderBytes + checksumBytes then Inl JErrorCorrupt
      else let payloadLength = (of_nat (be_get (take 4 (drop 20 (take frameHeaderBytes rest)))) :: uint32) in
        if payloadLength = 0 \<or> MaxPayloadBytes < unat payloadLength then Inl JErrorCorrupt
        else let len = frameHeaderBytes + unat payloadLength + checksumBytes in
          if length rest < len \<or> MaxFrameBytes < len then Inl JErrorCorrupt
          else bind_res (decodeFrame (take len rest)) (\<lambda>decoded.
            if df_sequence decoded \<noteq> expectedSequence then Inl JErrorSequence
            else bind_res (parseRecordPayload (df_payload decoded) (df_recordType decoded) (df_sequence decoded) previous)
              (\<lambda>(p, recordDigest). bind_res (indexFrame ed cv rv decoded p es) (\<lambda>es'.
                 Inr (drop len rest, es', expectedSequence + 1, recordDigest)))))"

text \<open>The loop, with fuel: \<open>None\<close> is a loop that has not ended.\<close>

fun scan_loop ::
  "ed25519 \<Rightarrow> capability_verifier \<Rightarrow> result_verifier \<Rightarrow> nat \<Rightarrow> bytes \<Rightarrow> scan_state \<Rightarrow> (journal_error + scan_state) option" where
  "scan_loop ed cv rv 0 rest st = None"
| "scan_loop ed cv rv (Suc n) rest st =
     (if rest = [] then Some (Inr st)
      else case scan_frame ed cv rv rest st of
        Inl e \<Rightarrow> Some (Inl e)
      | Inr (rest', st') \<Rightarrow> scan_loop ed cv rv n rest' st')"

definition scan :: "ed25519 \<Rightarrow> capability_verifier \<Rightarrow> result_verifier \<Rightarrow> bytes \<Rightarrow> (journal_error + scan_state) option" where
  "scan ed cv rv data = scan_loop ed cv rv (Suc (length data div 57)) data ([], 1, [])"

record validation_entry =
  ve_CapabilityID :: string
  ve_CapabilityDigest :: string
  ve_ArtifactDigest :: string
  ve_StartedSequence :: uint64
  ve_Terminal :: bool
  ve_TerminalSequence :: uint64
  ve_ResultDigest :: string

definition validation_entry_of :: "started_record \<Rightarrow> validation_entry" where
  "validation_entry_of e =
     \<lparr>ve_CapabilityID = val_CapabilityID (vc_value (st_verified e)), ve_CapabilityDigest = vc_digest (st_verified e),
      ve_ArtifactDigest = val_ArtifactDigest (vc_value (st_verified e)), ve_StartedSequence = st_sequence e,
      ve_Terminal = (st_terminal e \<noteq> None),
      ve_TerminalSequence = (case st_terminal e of None \<Rightarrow> 0 | Some t \<Rightarrow> tr_sequence t),
      ve_ResultDigest = (case st_terminal e of None \<Rightarrow> [] | Some t \<Rightarrow> vr_digest (tr_verified t))\<rparr>"

definition ValidateBytes ::
  "ed25519 \<Rightarrow> capability_verifier \<Rightarrow> result_verifier \<Rightarrow> bytes \<Rightarrow> (journal_error + validation_entry list \<times> uint64) option" where
  "ValidateBytes ed cv rv contents =
     (if cv_keyID cv = [] \<or> rv_keyID rv = [] \<or> rv_executorID rv = [] then Some (Inl JErrorVerification)
      else if MaxJournalBytes < length contents then Some (Inl JErrorTooLarge)
      else map_option (\<lambda>r. bind_res r (\<lambda>(es, next, _).
        Inr (sort_key (\<lambda>e. unat (ve_StartedSequence e)) (map (validation_entry_of \<circ> snd) es), next - 1)))
        (scan ed cv rv contents))"

section \<open>The journal (journal.go, types.go)\<close>

record journal =
  j_file :: bytes
  j_entries :: entries
  j_nextSequence :: uint64
  j_lastRecordDigest :: string
  j_size :: int
  j_closed :: bool
  j_poisoned :: bool

text \<open>
  What the operating system answers during \<open>Open\<close>: whether the path is absolute and clean, the offline fence,
  the directory and the file with their ownership checks, the lock, whether the file was just created and the
  synchronisations of a new file. The scan reads the file without read errors; it always ends (\<open>scan_terminates\<close>).
\<close>

datatype fence_answer = FenceAcquired | FenceLocked | FenceInvalid | FenceUnsafe

record open_io =
  oi_pathOK :: bool
  oi_fence :: fence_answer
  oi_baseOK :: bool
  oi_directoryOK :: bool
  oi_fileOK :: bool
  oi_locked :: bool
  oi_statOK :: bool
  oi_created :: bool
  oi_syncFile :: bool
  oi_syncDirectory :: bool

definition Open ::
  "ed25519 \<Rightarrow> capability_verifier \<Rightarrow> result_verifier \<Rightarrow> open_io \<Rightarrow> bytes \<Rightarrow> (journal_error + journal) option" where
  "Open ed cv rv oi data =
     (if cv_keyID cv = [] \<or> rv_keyID rv = [] \<or> rv_executorID rv = [] then Some (Inl JErrorVerification)
      else if \<not> oi_pathOK oi then Some (Inl JErrorPath)
      else case oi_fence oi of
        FenceLocked \<Rightarrow> Some (Inl JErrorLocked)
      | FenceInvalid \<Rightarrow> Some (Inl JErrorPath)
      | FenceUnsafe \<Rightarrow> Some (Inl JErrorUnsafeDirectory)
      | FenceAcquired \<Rightarrow>
          if \<not> oi_baseOK oi then Some (Inl JErrorPath)
          else if \<not> oi_directoryOK oi then Some (Inl JErrorUnsafeDirectory)
          else if \<not> oi_fileOK oi then Some (Inl JErrorUnsafeFile)
          else if \<not> oi_locked oi then Some (Inl JErrorLocked)
          else if \<not> oi_statOK oi then Some (Inl JErrorUnsafeFile)
          else if MaxJournalBytes < length data then Some (Inl JErrorTooLarge)
          else if oi_created oi \<and> \<not> oi_syncFile oi then Some (Inl JErrorSync)
          else if oi_created oi \<and> \<not> oi_syncDirectory oi then Some (Inl JErrorSync)
          else map_option (\<lambda>r. bind_res r (\<lambda>(es, next, last_digest).
            Inr \<lparr>j_file = data, j_entries = es, j_nextSequence = next, j_lastRecordDigest = last_digest,
                 j_size = int (length data), j_closed = False, j_poisoned = False\<rparr>)) (scan ed cv rv data))"

datatype lookup_state = StateUnseen | StateNewStarted | StateStartedOnly | StateTerminal

record started_snapshot =
  ss_Sequence :: uint64
  ss_CapabilityID :: string
  ss_CapabilityDigest :: string
  ss_ArtifactDigest :: string
  ss_Operation :: string
  ss_ActionID :: string
  ss_TargetIPv4 :: string
  ss_ReceivedAt :: gotime
  ss_DeadlineAt :: gotime

record terminal_snapshot =
  ts_sequence :: uint64
  ts_startedSequence :: uint64
  ts_resultDigest :: string
  ts_signed :: signed_result

record permit =
  pm_verified :: verified_capability
  pm_deadline :: gotime
  pm_used :: bool

datatype recovery = Recovery (rc_verified: verified_capability)

record outcome =
  oc_state :: lookup_state
  oc_started :: "started_snapshot option"
  oc_terminal :: "terminal_snapshot option"
  oc_permit :: "permit option"
  oc_recovery :: "recovery option"

definition snapshotStarted :: "started_record \<Rightarrow> started_snapshot" where
  "snapshotStarted e = (let v = vc_value (st_verified e) in
     \<lparr>ss_Sequence = st_sequence e, ss_CapabilityID = val_CapabilityID v, ss_CapabilityDigest = vc_digest (st_verified e),
      ss_ArtifactDigest = val_ArtifactDigest v, ss_Operation = val_Operation v, ss_ActionID = val_ActionID v,
      ss_TargetIPv4 = val_TargetIPv4 v, ss_ReceivedAt = st_received e, ss_DeadlineAt = st_deadline e\<rparr>)"

definition snapshotTerminal :: "uint64 \<Rightarrow> terminal_record \<Rightarrow> terminal_snapshot" where
  "snapshotTerminal startSequence t =
     \<lparr>ts_sequence = tr_sequence t, ts_startedSequence = startSequence, ts_resultDigest = vr_digest (tr_verified t),
      ts_signed = tr_signed t\<rparr>"

definition existingOutcome :: "started_record \<Rightarrow> outcome" where
  "existingOutcome e =
     (case st_terminal e of
        Some t \<Rightarrow> \<lparr>oc_state = StateTerminal, oc_started = Some (snapshotStarted e),
                   oc_terminal = Some (snapshotTerminal (st_sequence e) t), oc_permit = None, oc_recovery = None\<rparr>
      | None \<Rightarrow> \<lparr>oc_state = StateStartedOnly, oc_started = Some (snapshotStarted e), oc_terminal = None,
                 oc_permit = None, oc_recovery = Some (Recovery (st_verified e))\<rparr>)"

definition sameCapability :: "started_record \<Rightarrow> signed_capability \<Rightarrow> verified_capability \<Rightarrow> bool" where
  "sameCapability e s c \<longleftrightarrow>
     vc_digest (st_verified e) = vc_digest c \<and> vc_keyID (st_verified e) = vc_keyID c \<and>
     vc_executorID (st_verified e) = vc_executorID c \<and> sc_keyID (st_signed e) = sc_keyID s \<and>
     sc_canonical (st_signed e) = sc_canonical s \<and> sc_signature (st_signed e) = sc_signature s \<and>
     sc_artifact (st_signed e) = sc_artifact s"

definition sameResult :: "terminal_record \<Rightarrow> signed_result \<Rightarrow> verified_result \<Rightarrow> bool" where
  "sameResult t s r \<longleftrightarrow>
     vr_digest (tr_verified t) = vr_digest r \<and> sr_keyID (tr_signed t) = sr_keyID s \<and>
     sr_executorID (tr_signed t) = sr_executorID s \<and> sr_canonical (tr_signed t) = sr_canonical s \<and>
     sr_signature (tr_signed t) = sr_signature s"

definition readyLocked :: "journal \<Rightarrow> bool" where
  "readyLocked j \<longleftrightarrow> \<not> j_closed j \<and> \<not> j_poisoned j"

definition canonicalTime :: "gotime \<Rightarrow> bool" where
  "canonicalTime t \<longleftrightarrow> t \<noteq> 0 \<and> 1 \<le> Year t 0 \<and> Year t 0 \<le> 9999 \<and> t mod Second mod Millisecond = 0"

text \<open>
  What the operating system answers during one append: whether the file (of the expected size) and the directory
  pass their checks, how many bytes the write takes at most, whether it reports an error, and the synchronisations.
\<close>

record append_io =
  io_fileOK :: bool
  io_directoryOK :: bool
  io_written :: nat
  io_writeOK :: bool
  io_syncFile :: bool
  io_syncDirectory :: bool

definition appendLocked :: "append_io \<Rightarrow> bytes \<Rightarrow> journal \<Rightarrow> journal \<times> journal_error option" where
  "appendLocked io frame j =
     (if \<not> io_fileOK io then (j\<lparr>j_poisoned := True\<rparr>, Some JErrorUnsafeFile)
      else if \<not> io_directoryOK io then (j\<lparr>j_poisoned := True\<rparr>, Some JErrorUnsafeDirectory)
      else if int MaxJournalBytes - j_size j < int (length frame) then (j, Some JErrorTooLarge)
      else let j = j\<lparr>j_file := j_file j @ take (io_written io) frame\<rparr> in
        if \<not> io_writeOK io \<or> io_written io < length frame then (j\<lparr>j_poisoned := True\<rparr>, Some JErrorIO)
        else if \<not> io_syncFile io then (j\<lparr>j_poisoned := True\<rparr>, Some JErrorSync)
        else if \<not> io_syncDirectory io then (j\<lparr>j_poisoned := True\<rparr>, Some JErrorSync)
        else (j\<lparr>j_size := j_size j + int (length frame)\<rparr>, None))"

definition journal_checkFresh :: "verified_capability \<Rightarrow> gotime \<Rightarrow> journal_error option" where
  "journal_checkFresh c now =
     (if val_Operation (vc_value c) = OperationAdd then
        (case AddAt c now of Inl _ \<Rightarrow> Some JErrorFreshness | Inr _ \<Rightarrow> None)
      else if val_Operation (vc_value c) = OperationRevoke then
        (case RevokeAt c now of Inl _ \<Rightarrow> Some JErrorFreshness | Inr _ \<Rightarrow> None)
      else if val_Operation (vc_value c) = OperationInspect then
        (case InspectAt c now of Inl _ \<Rightarrow> Some JErrorFreshness | Inr _ \<Rightarrow> None)
      else Some JErrorOperation)"

definition Lookup :: "ed25519 \<Rightarrow> capability_verifier \<Rightarrow> signed_capability \<Rightarrow> journal \<Rightarrow> journal_error + outcome" where
  "Lookup ed cv s j =
     (case CapabilityVerify ed cv s of
        Inl _ \<Rightarrow> Inl JErrorVerification
      | Inr c \<Rightarrow>
          if \<not> readyLocked j then Inl JErrorUnhealthy
          else case map_of (j_entries j) (val_CapabilityID (vc_value c)) of
            None \<Rightarrow> Inr \<lparr>oc_state = StateUnseen, oc_started = None, oc_terminal = None, oc_permit = None, oc_recovery = None\<rparr>
          | Some e \<Rightarrow> if \<not> sameCapability e s c then Inl JErrorConflict else Inr (existingOutcome e))"

definition Begin ::
  "ed25519 \<Rightarrow> capability_verifier \<Rightarrow> append_io \<Rightarrow> signed_capability \<Rightarrow> gotime \<Rightarrow> gotime \<Rightarrow> journal \<Rightarrow>
     journal \<times> (journal_error + outcome)" where
  "Begin ed cv io s receivedAt deadlineAt j =
     (case CapabilityVerify ed cv s of
        Inl _ \<Rightarrow> (j, Inl JErrorVerification)
      | Inr c \<Rightarrow>
          if \<not> readyLocked j then (j, Inl JErrorUnhealthy)
          else let k = val_CapabilityID (vc_value c) in
            case map_of (j_entries j) k of
              Some e \<Rightarrow> if \<not> sameCapability e s c then (j, Inl JErrorConflict) else (j, Inr (existingOutcome e))
            | None \<Rightarrow>
                if \<not> canonicalTime receivedAt \<or> \<not> canonicalTime deadlineAt \<or> \<not> receivedAt < deadlineAt \<or>
                   MaxDeadline < Sub deadlineAt receivedAt \<or> val_ExpiresAt (vc_value c) < deadlineAt
                then (j, Inl JErrorTime)
                else (case journal_checkFresh c receivedAt of
                    Some e \<Rightarrow> (j, Inl e)
                  | None \<Rightarrow>
                      let sequence = j_nextSequence j in
                      (case marshalRecordPayload
                          (newStartedPayload s c receivedAt deadlineAt sequence (j_lastRecordDigest j)) of
                         Inl e \<Rightarrow> (j, Inl e)
                       | Inr (payload, recordDigest) \<Rightarrow>
                           (case encodeFrame recordStarted sequence payload of
                              Inl e \<Rightarrow> (j, Inl e)
                            | Inr frame \<Rightarrow>
                                (case appendLocked io frame j of
                                   (j, Some e) \<Rightarrow> (j, Inl e)
                                 | (j, None) \<Rightarrow>
                                     let start = \<lparr>st_sequence = sequence, st_signed = s, st_verified = c,
                                           st_received = receivedAt, st_deadline = deadlineAt, st_terminal = None\<rparr>
                                     in (j\<lparr>j_entries := j_entries j @ [(k, start)],
                                           j_nextSequence := j_nextSequence j + 1,
                                           j_lastRecordDigest := recordDigest\<rparr>,
                                         Inr \<lparr>oc_state = StateNewStarted, oc_started = Some (snapshotStarted start),
                                              oc_terminal = None,
                                              oc_permit = Some \<lparr>pm_verified = c, pm_deadline = deadlineAt, pm_used = False\<rparr>,
                                              oc_recovery = None\<rparr>))))))"

definition Complete ::
  "ed25519 \<Rightarrow> result_verifier \<Rightarrow> append_io \<Rightarrow> signed_result \<Rightarrow> journal \<Rightarrow>
     journal \<times> (journal_error + terminal_snapshot \<times> bool)" where
  "Complete ed rv io s j =
     (case ResultVerify ed rv s of
        Inl _ \<Rightarrow> (j, Inl JErrorVerification)
      | Inr r \<Rightarrow>
          if \<not> readyLocked j then (j, Inl JErrorUnhealthy)
          else let k = rs_CapabilityID (vr_value r) in
            case map_of (j_entries j) k of
              None \<Rightarrow> (j, Inl JErrorMissingStart)
            | Some start \<Rightarrow>
                if (case BindTo r (st_verified start) of Inl _ \<Rightarrow> True | Inr _ \<Rightarrow> False) \<or>
                   rs_JournalSequence (vr_value r) \<noteq> st_sequence start then (j, Inl JErrorVerification)
                else case st_terminal start of
                  Some t \<Rightarrow>
                    if \<not> sameResult t s r then (j, Inl JErrorDuplicateTerminal)
                    else (j, Inr (snapshotTerminal (st_sequence start) t, False))
                | None \<Rightarrow>
                    let sequence = j_nextSequence j in
                    (case marshalRecordPayload (newTerminalPayload start s r sequence (j_lastRecordDigest j)) of
                       Inl e \<Rightarrow> (j, Inl e)
                     | Inr (payload, recordDigest) \<Rightarrow>
                         (case encodeFrame recordTerminal sequence payload of
                            Inl e \<Rightarrow> (j, Inl e)
                          | Inr frame \<Rightarrow>
                              (case appendLocked io frame j of
                                 (j, Some e) \<Rightarrow> (j, Inl e)
                               | (j, None) \<Rightarrow>
                                   let t = \<lparr>tr_sequence = sequence, tr_signed = s, tr_verified = r\<rparr>
                                   in (j\<lparr>j_entries := set_terminal k t (j_entries j),
                                         j_nextSequence := j_nextSequence j + 1,
                                         j_lastRecordDigest := recordDigest\<rparr>,
                                       Inr (snapshotTerminal (st_sequence start) t, True))))))"

definition Close :: "journal \<Rightarrow> journal" where
  "Close j = j\<lparr>j_closed := True\<rparr>"

section \<open>Permits and recovery (types.go)\<close>

definition checkAndUse :: "permit \<Rightarrow> gotime \<Rightarrow> permit \<times> journal_error option" where
  "checkAndUse p now =
     (if \<not> now < pm_deadline p then (p, Some JErrorFreshness)
      else if pm_used p then (p, Some JErrorPermitUsed)
      else (p\<lparr>pm_used := True\<rparr>, None))"

definition TakeAddAt :: "permit \<Rightarrow> gotime \<Rightarrow> permit \<times> (journal_error + executable_add)" where
  "TakeAddAt p now =
     (if val_Operation (vc_value (pm_verified p)) \<noteq> OperationAdd then (p, Inl JErrorOperation)
      else case checkAndUse p now of
        (p, Some e) \<Rightarrow> (p, Inl e)
      | (p, None) \<Rightarrow> (case AddAt (pm_verified p) now of Inl _ \<Rightarrow> (p, Inl JErrorFreshness) | Inr x \<Rightarrow> (p, Inr x)))"

definition TakeRevokeAt :: "permit \<Rightarrow> gotime \<Rightarrow> permit \<times> (journal_error + executable_revoke)" where
  "TakeRevokeAt p now =
     (if val_Operation (vc_value (pm_verified p)) \<noteq> OperationRevoke then (p, Inl JErrorOperation)
      else case checkAndUse p now of
        (p, Some e) \<Rightarrow> (p, Inl e)
      | (p, None) \<Rightarrow> (case RevokeAt (pm_verified p) now of Inl _ \<Rightarrow> (p, Inl JErrorFreshness) | Inr x \<Rightarrow> (p, Inr x)))"

definition TakeInspectAt :: "permit \<Rightarrow> gotime \<Rightarrow> permit \<times> (journal_error + executable_inspect)" where
  "TakeInspectAt p now =
     (if val_Operation (vc_value (pm_verified p)) \<noteq> OperationInspect then (p, Inl JErrorOperation)
      else case checkAndUse p now of
        (p, Some e) \<Rightarrow> (p, Inl e)
      | (p, None) \<Rightarrow> (case InspectAt (pm_verified p) now of Inl _ \<Rightarrow> (p, Inl JErrorFreshness) | Inr x \<Rightarrow> (p, Inr x)))"

definition PermitSignResult :: "ed25519 \<Rightarrow> permit \<Rightarrow> result_signer \<Rightarrow> checked_result \<Rightarrow> cap_error + signed_result" where
  "PermitSignResult ed p signer checked = SignFor ed signer (pm_verified p) checked"

text \<open>The error of \<open>Recovery.SignResult\<close> is one of the journal's or one of the signer's.\<close>

definition RecoverySignResult ::
  "ed25519 \<Rightarrow> recovery \<Rightarrow> result_signer \<Rightarrow> checked_result \<Rightarrow> (journal_error + cap_error) + signed_result" where
  "RecoverySignResult ed r signer checked =
     (let v = cr_value checked; operation = val_Operation (vc_value (rc_verified r));
          sign = (case SignFor ed signer (rc_verified r) checked of Inl e \<Rightarrow> Inl (Inr e) | Inr s \<Rightarrow> Inr s) in
      if operation = OperationAdd then
        if rs_Classification v \<noteq> ClassificationRecoveredActive \<and> rs_Classification v \<noteq> ClassificationFailed \<and>
           rs_Classification v \<noteq> ClassificationIndeterminate then Inl (Inl JErrorOperation)
        else if (case rs_NFTExitClass v of None \<Rightarrow> False | Some x \<Rightarrow> x \<noteq> NFTExitNotInvoked) then Inl (Inl JErrorOperation)
        else sign
      else if operation = OperationRevoke then
        if rs_Classification v \<noteq> ClassificationRevoked \<and> rs_Classification v \<noteq> ClassificationFailed \<and>
           rs_Classification v \<noteq> ClassificationIndeterminate then Inl (Inl JErrorOperation)
        else if (case rs_NFTExitClass v of None \<Rightarrow> False | Some x \<Rightarrow> x \<noteq> NFTExitNotInvoked) then Inl (Inl JErrorOperation)
        else sign
      else if operation = OperationInspect then sign
      else Inl (Inl JErrorOperation))"

end
