(* ===== verification/Journal_Recovery.thy ===== *)
theory Journal_Recovery
  imports Journal
begin

text \<open>
  Properties of the replay journal: the startup scan ends and is deterministic in its fuel, appended
  frames are read back as what was appended, so that reopening a journal rebuilds exactly its index, and
  at most one permit is ever issued for a capability, across restarts, torn writes and failed
  synchronisations.
\<close>

section \<open>The scan ends\<close>

lemma header_take: "take 4 (drop 20 (take 24 rest)) = take 4 (drop 20 rest)"
  by (simp add: take_drop min_def)

lemma scan_frame_progress:
  assumes "scan_frame ed cv rv rest st = Inr (rest', st')"
  shows "length rest' + 57 \<le> length rest"
proof -
  obtain l :: uint32 where l: "l \<noteq> 0" "24 + unat l + 32 \<le> length rest" "rest' = drop (24 + unat l + 32) rest"
    using assms unfolding scan_frame_def frameHeaderBytes_def checksumBytes_def
    by (auto simp: Let_def bind_res_Inr_iff not_less split: prod.splits if_splits)
  from l(1) have "1 \<le> unat l" by (simp add: Suc_le_eq unat_gt_0)
  with l(2,3) show ?thesis by simp
qed

lemma scan_loop_ends: "length rest div 57 < n \<Longrightarrow> \<exists>r. scan_loop ed cv rv n rest st = Some r"
proof (induction ed cv rv n rest st rule: scan_loop.induct)
  case (2 ed cv rv n rest st)
  show ?case
  proof (cases "rest = []")
    case False
    show ?thesis
    proof (cases "scan_frame ed cv rv rest st")
      case (Inr x)
      obtain rest' st' where x: "x = (rest', st')" by (cases x)
      have "length rest' + 57 \<le> length rest" using scan_frame_progress Inr x by blast
      then have "(length rest' + 57) div 57 \<le> length rest div 57" by (rule div_le_mono)
      then have "length rest' div 57 < n" using "2.prems" by simp
      with "2.IH" [OF False Inr, of rest' st'] False Inr x show ?thesis by simp
    qed (use False in simp)
  qed simp
qed simp

lemma scan_loop_more: "scan_loop ed cv rv n rest st = Some r \<Longrightarrow> scan_loop ed cv rv (n + k) rest st = Some r"
proof (induction ed cv rv n rest st rule: scan_loop.induct)
  case (2 ed cv rv n rest st)
  show ?case
  proof (cases "rest = []")
    case False
    show ?thesis
    proof (cases "scan_frame ed cv rv rest st")
      case (Inr x)
      obtain rest' st' where x: "x = (rest', st')" by (cases x)
      with Inr False "2.prems" "2.IH" show ?thesis by auto
    qed (use False "2.prems" in simp)
  qed (use "2.prems" in simp)
qed simp

lemma scan_loop_unique:
  "scan_loop ed cv rv n rest st = Some r \<Longrightarrow> scan_loop ed cv rv m rest st = Some r' \<Longrightarrow> r = r'"
  using scan_loop_more [of ed cv rv n rest st r m] scan_loop_more [of ed cv rv m rest st r' n] by (simp add: add.commute)

section \<open>Appending to the scanned bytes\<close>

lemma scan_frame_append:
  assumes "scan_frame ed cv rv rest st = Inr (rest', st')"
  shows "scan_frame ed cv rv (rest @ x) st = Inr (rest' @ x, st')"
proof -
  obtain es sq pv where st: "st = (es, sq, pv)" by (cases st)
  define l where "l = (of_nat (be_get (take 4 (drop 20 rest))) :: uint32)"
  have len: "56 \<le> length rest" "l \<noteq> 0" "unat l \<le> MaxPayloadBytes" "24 + unat l + 32 \<le> length rest"
    using assms unfolding scan_frame_def st prod.case frameHeaderBytes_def checksumBytes_def header_take Let_def l_def [symmetric]
    by (auto simp: not_less split: if_splits)
  have h: "take 4 (drop 20 (rest @ x)) = take 4 (drop 20 rest)" using len(1) by simp
  have t: "take (24 + unat l + 32) (rest @ x) = take (24 + unat l + 32) rest"
      "drop (24 + unat l + 32) (rest @ x) = drop (24 + unat l + 32) rest @ x" using len(4) by simp_all
  show ?thesis
    using assms len
    unfolding scan_frame_def st prod.case frameHeaderBytes_def checksumBytes_def header_take Let_def h l_def [symmetric] t
    by (auto simp: bind_res_Inr_iff not_less split: if_splits)
qed

lemma scan_loop_append:
  "scan_loop ed cv rv n rest st = Some (Inr st') \<Longrightarrow> scan_loop ed cv rv m x st' = Some r \<Longrightarrow>
     scan_loop ed cv rv (n + m) (rest @ x) st = Some r"
proof (induction ed cv rv n rest st rule: scan_loop.induct)
  case (2 ed cv rv n rest st)
  show ?case
  proof (cases "rest = []")
    case True
    with "2.prems" show ?thesis using scan_loop_more [of ed cv rv m x st' r "Suc n"] by (simp add: add.commute)
  next
    case False
    with "2.prems"(1) obtain rest' st1 where f: "scan_frame ed cv rv rest st = Inr (rest', st1)"
      and l: "scan_loop ed cv rv n rest' st1 = Some (Inr st')"
      by (auto split: sum.splits)
    have "scan_loop ed cv rv (n + m) (rest' @ x) st1 = Some r" using "2.IH" [OF False f refl l] "2.prems"(2) by simp
    with False scan_frame_append [OF f, of x] show ?thesis by simp
  qed
qed simp

lemma scan_ends: "\<exists>r. scan ed cv rv data = Some r"
  unfolding scan_def by (rule scan_loop_ends) simp

lemma scan_iff: "scan ed cv rv data = Some r \<longleftrightarrow> (\<exists>n. scan_loop ed cv rv n data ([], 1, []) = Some r)"
proof
  assume "\<exists>n. scan_loop ed cv rv n data ([], 1, []) = Some r"
  then obtain n where n: "scan_loop ed cv rv n data ([], 1, []) = Some r" by blast
  obtain r' where r': "scan ed cv rv data = Some r'" using scan_ends by blast
  with n show "scan ed cv rv data = Some r" using scan_loop_unique unfolding scan_def by metis
next
  assume "scan ed cv rv data = Some r"
  then show "\<exists>n. scan_loop ed cv rv n data ([], 1, []) = Some r" unfolding scan_def by (rule exI)
qed

lemma scan_append:
  assumes "scan ed cv rv data = Some (Inr st)" and "scan_loop ed cv rv m x st = Some r"
  shows "scan ed cv rv (data @ x) = Some r"
  using assms scan_loop_append unfolding scan_iff by blast

lemma scan_Nil: "scan ed cv rv [] = Some (Inr ([], 1, []))"
  by (simp add: scan_def)

text \<open>
  C23: Startup recovery always ends. The scan of any byte string, of any length and content, returns a result
  after at most one iteration for every 57 bytes and one more, because every accepted iteration consumes a
  frame of at least 57 bytes; more iterations allowed change nothing.
\<close>

theorem scan_terminates:
  "\<exists>r. scan ed cv rv data = Some r \<and>
     (\<forall>n > length data div 57. scan_loop ed cv rv n data ([], 1, []) = Some r)"
proof -
  obtain r where r: "scan ed cv rv data = Some r" using scan_ends by blast
  have "scan_loop ed cv rv n data ([], 1, []) = Some r" if "length data div 57 < n" for n
    using scan_loop_ends [OF that] scan_loop_unique r by (metis scan_def)
  with r show ?thesis by blast
qed

theorem scan_terminates_witness:
  "\<exists>r. scan sample_ed sample_verifier sample_result_verifier (replicate 100 CHR ''x'') = Some r \<and>
     scan_loop sample_ed sample_verifier sample_result_verifier 2 (replicate 100 CHR ''x'') ([], 1, []) = Some r"
proof -
  obtain r where "scan sample_ed sample_verifier sample_result_verifier (replicate 100 CHR ''x'') = Some r"
    and "\<forall>n > length (replicate 100 CHR ''x'') div 57.
      scan_loop sample_ed sample_verifier sample_result_verifier n (replicate 100 CHR ''x'') ([], 1, []) = Some r"
    using scan_terminates [of sample_ed sample_verifier sample_result_verifier "replicate 100 CHR ''x''"] by blast
  then show ?thesis by (intro exI [of _ r]) simp
qed

section \<open>Reading a record back\<close>

lemma decodeBytes_encode: "0 < length d \<Longrightarrow> length d \<le> maximum \<Longrightarrow> decodeBytes (encodeBytes d) maximum = Some d"
  by (simp add: decodeBytes_def encodeBytes_def b64_decode_encode b64_encode_Nil_iff)

lemma validDigest_pattern: "re_matches digestPattern s \<Longrightarrow> validDigest s"
proof -
  assume "re_matches digestPattern s"
  then obtain h where h: "s = ''sha256:'' @ h" "length h = 64" "list_all is_hexlow h" by (auto simp: digestPattern_iff)
  obtain bs where bs: "hex_decode h = Some bs" "hex_encode bs = h" using hex_decode_low [OF h(3)] h(2) by auto
  then have "length bs = 32" using h(2) length_hex_encode [of bs] by simp
  with bs h show ?thesis by (simp add: validDigest_def)
qed

lemma digestPayload_eq: "digestPayload v = digestBytes v"
  by (simp add: digestPayload_def digestBytes_def)

lemma canonicalTime_iff: "canonicalTime t \<longleftrightarrow> t \<noteq> 0 \<and> four_digit_time t \<and> t mod Millisecond = 0"
  using Year_range [of t] Year_four_digit [of t] millisecondAligned_iff [of t]
  by (auto simp: canonicalTime_def millisecondAligned_def)

lemma parseTime_format: "canonicalTime t \<Longrightarrow> parseTime (formatTime t) = Some t"
  by (simp add: parseTime_def formatTime_def canonicalTime_iff parse_format_millis)

lemma decode_payload: "decode_struct payload_fields (JObj (payload_members p)) zero_payload = Some p"
  unfolding decode_struct_def payload_members_def
  by (cases p) (simp add: find_field_def payload_fields_def zero_payload_def unat_less_64 [simplified])

lemma strictPayload_json:
  assumes "flat_doc (payload_members p)" "length (payload_json p) \<le> MaxPayloadBytes"
  shows "strictPayload (payload_json p) = Some p"
proof -
  have "payload_json p \<noteq> []" by (simp add: payload_json_def)
  with assms show ?thesis
    unfolding strictPayload_def payload_json_def by (simp add: flat_doc_parse decode_payload del: json_print.simps)
qed

lemma payload_flat:
  assumes "list_all html_safe (pl_CapabilityID p)" "list_all html_safe (pl_TargetIPv4 p)" "list_all html_safe (pl_Operation p)"
    "list_all html_safe (pl_ArtifactB64URL p)" "list_all html_safe (pl_CapabilityJCSB64URL p)"
    "list_all html_safe (pl_CapabilitySignatureB64URL p)" "list_all html_safe (pl_ArtifactDigest p)"
    "list_all html_safe (pl_CapabilityDigest p)" "list_all html_safe (pl_OwnedSchemaDigest p)"
    "list_all html_safe (pl_Deadline p)" "list_all html_safe (pl_ReceivedAt p)" "list_all html_safe (pl_Phase p)"
    "list_all html_safe (pl_RecordChecksum p)" "list_all html_safe (pl_SchemaVersion p)"
    "\<And>s. pl_PreviousRecordDigest p = Some s \<Longrightarrow> list_all html_safe s"
    "\<And>s. pl_TerminalResultDigest p = Some s \<Longrightarrow> list_all html_safe s"
    "\<And>s. pl_TerminalResultJCSB64URL p = Some s \<Longrightarrow> list_all html_safe s"
    "\<And>s. pl_TerminalResultSignatureB64URL p = Some s \<Longrightarrow> list_all html_safe s"
  shows "flat_doc (payload_members p)"
proof -
  have k: "list_all (\<lambda>m. list_all html_safe (fst m)) (payload_members p)"
    by (simp add: payload_members_def html_safe_def byte_in_def byte_val_def)
  have d: "distinct (map fst (payload_members p))" by (simp add: payload_members_def)
  have o: "flat_value (opt_str v) \<longleftrightarrow> (\<forall>s. v = Some s \<longrightarrow> list_all html_safe s)" for v by (cases v) auto
  have "list_all (\<lambda>m. flat_value (snd m)) (payload_members p)"
    using assms by (auto simp: payload_members_def o)
  with k d show ?thesis by (simp add: flat_doc_def)
qed

lemma record_constants_safe:
  "list_all html_safe phaseStarted" "list_all html_safe phaseTerminal" "list_all html_safe SchemaRecordV1"
  by (simp_all add: phaseStarted_def phaseTerminal_def SchemaRecordV1_def html_safe_def byte_in_def byte_val_def)

lemma encodeBytes_safe: "list_all html_safe (encodeBytes v)"
  by (simp add: encodeBytes_def b64_safe)

lemma formatTime_safe: "list_all html_safe (formatTime t)"
  by (simp add: formatTime_def format_millis_safe)

section \<open>Index entries\<close>

text \<open>What an index entry guarantees about the request that started it.\<close>

definition stored_time :: "gotime \<Rightarrow> bool" where
  "stored_time t \<longleftrightarrow> parseTime (formatTime t) = Some t"

definition entry_ok :: "ed25519 \<Rightarrow> capability_verifier \<Rightarrow> string \<Rightarrow> started_record \<Rightarrow> bool" where
  "entry_ok ed cv k e \<longleftrightarrow>
     CapabilityVerify ed cv (st_signed e) = Inr (st_verified e) \<and> k = val_CapabilityID (vc_value (st_verified e)) \<and>
     stored_time (st_received e) \<and> stored_time (st_deadline e) \<and> st_received e < st_deadline e \<and>
     \<not> MaxDeadline < Sub (st_deadline e) (st_received e) \<and> st_deadline e \<le> val_ExpiresAt (vc_value (st_verified e))"

lemma stored_canonical: "canonicalTime t \<Longrightarrow> stored_time t"
  by (simp add: stored_time_def parseTime_format)

lemma stored_parsed: "parseTime v = Some t \<Longrightarrow> stored_time t \<and> v = formatTime t"
  by (auto simp: stored_time_def parseTime_def split: option.splits if_splits)

lemma CapabilityVerify_sizes:
  assumes "CapabilityVerify ed v s = Inr c"
  shows "sc_canonical s \<noteq> [] \<and> length (sc_canonical s) \<le> MaxCapabilityBytes \<and> sc_artifact s \<noteq> [] \<and>
    length (sc_artifact s) \<le> MaxArtifactBytes \<and> length (sc_signature s) = 64"
  using assms by (auto simp: CapabilityVerify_def not_less split: if_splits)

lemma ResultVerify_sizes:
  assumes "ResultVerify ed v s = Inr r"
  shows "sr_canonical s \<noteq> [] \<and> length (sr_canonical s) \<le> MaxResultBytes \<and> length (sr_signature s) = 64"
  using assms by (auto simp: ResultVerify_def not_less split: if_splits)

lemma capability_texts:
  assumes "CapabilityVerify ed v s = Inr c"
  shows "list_all html_safe (val_CapabilityID (vc_value c))" "val_CapabilityID (vc_value c) \<noteq> []"
    "list_all html_safe (val_TargetIPv4 (vc_value c))" "val_TargetIPv4 (vc_value c) \<noteq> []"
    "list_all html_safe (val_Operation (vc_value c))"
    "val_Operation (vc_value c) \<in> {OperationAdd, OperationRevoke, OperationInspect}"
    "re_matches digestPattern (val_ArtifactDigest (vc_value c))" "re_matches digestPattern (vc_digest c)"
    "re_matches digestPattern (val_OwnedSchemaDigest (vc_value c))"
proof -
  note c = CapabilityVerify_Inr [OF assms]
  then have ok: "cap_ok (vc_value c)" and d: "vc_digest c = digestBytes (sc_canonical s)" by simp_all
  show "re_matches digestPattern (vc_digest c)" by (simp add: d)
  show "list_all html_safe (val_CapabilityID (vc_value c))" "val_CapabilityID (vc_value c) \<noteq> []"
    "list_all html_safe (val_TargetIPv4 (vc_value c))"
    "val_Operation (vc_value c) \<in> {OperationAdd, OperationRevoke, OperationInspect}"
    "re_matches digestPattern (val_ArtifactDigest (vc_value c))"
    "re_matches digestPattern (val_OwnedSchemaDigest (vc_value c))"
    using ok uuidPattern_nonempty by (auto simp: cap_ok_def uuid_safe addr_safe)
  then show "list_all html_safe (val_Operation (vc_value c))" using operation_text by simp
  show "val_TargetIPv4 (vc_value c) \<noteq> []"
  proof -
    have "canonical_ipv4 (val_TargetIPv4 (vc_value c))" using ok by (simp add: cap_ok_def)
    then obtain a where "val_TargetIPv4 (vc_value c) = addr_string a" by (auto simp: canonical_ipv4_iff)
    then show ?thesis using addr_string_nonempty by metis
  qed
qed

text \<open>The chain of record digests: absent before the first record only.\<close>

definition chain_ok :: "uint64 \<Rightarrow> string \<Rightarrow> bool" where
  "chain_ok sequence previous \<longleftrightarrow> (sequence = 1 \<longleftrightarrow> previous = []) \<and> (previous \<noteq> [] \<longrightarrow> re_matches digestPattern previous)"

lemma optionalDigest_valid: "chain_ok sequence previous \<Longrightarrow> optionalDigest previous = Some d \<Longrightarrow> validDigest d \<and> list_all html_safe d"
  by (auto simp: optionalDigest_def chain_ok_def validDigest_pattern digest_safe split: if_splits)

lemma marshalRecordPayload_Inr:
  "marshalRecordPayload p = Inr (payload, d) \<longleftrightarrow> pl_RecordChecksum p = [] \<and>
     payload = payload_json (p\<lparr>pl_RecordChecksum := digestPayload (checksum_json p)\<rparr>) \<and>
     payload \<noteq> [] \<and> length payload \<le> MaxPayloadBytes \<and> d = digestPayload payload"
  by (auto simp: marshalRecordPayload_def Let_def)

lemma parse_marshalled:
  assumes m: "marshalRecordPayload p = Inr (payload, d)"
    and p': "p' = p\<lparr>pl_RecordChecksum := digestPayload (checksum_json p)\<rparr>"
    and ok: "flat_doc (payload_members p')" "validRecordShape p' t sequence"
    and ch: "chain_ok sequence previous" "pl_PreviousRecordDigest p = optionalDigest previous"
  shows "parseRecordPayload payload t sequence previous = Inr (p', d)"
proof -
  have pl: "payload = payload_json p'" "length payload \<le> MaxPayloadBytes" "d = digestPayload payload"
    using m unfolding marshalRecordPayload_Inr p' by blast+
  have "strictPayload payload = Some p'" using strictPayload_json [OF ok(1)] pl by simp
  moreover have "pl_RecordChecksum p' = digestPayload (checksum_json p')"
    by (simp add: p' checksum_json_def checksum_members_def)
  moreover have "pl_PreviousRecordDigest p' = optionalDigest previous" by (simp add: p' ch(2))
  ultimately show ?thesis
    using ok(2) ch(1) pl(3) by (auto simp: parseRecordPayload_def chain_ok_def optionalDigest_def)
qed

section \<open>Appended records are indexed as they were written\<close>

text \<open>Fields of the started request that both kinds of record repeat.\<close>

lemma entry_decodes:
  assumes "entry_ok ed cv k e"
  shows "decodeBytes (encodeBytes (sc_canonical (st_signed e))) MaxCapabilityBytes = Some (sc_canonical (st_signed e))"
    "decodeBytes (encodeBytes (sc_signature (st_signed e))) 64 = Some (sc_signature (st_signed e))"
    "decodeBytes (encodeBytes (sc_artifact (st_signed e))) MaxArtifactBytes = Some (sc_artifact (st_signed e))"
    "length (sc_signature (st_signed e)) = 64"
    "parseTime (formatTime (st_received e)) = Some (st_received e)"
    "parseTime (formatTime (st_deadline e)) = Some (st_deadline e)"
    "sc_keyID (st_signed e) = cv_keyID cv"
proof -
  have v: "CapabilityVerify ed cv (st_signed e) = Inr (st_verified e)" using assms by (simp add: entry_ok_def)
  show "length (sc_signature (st_signed e)) = 64" "sc_keyID (st_signed e) = cv_keyID cv"
    using CapabilityVerify_Inr [OF v] by simp_all
  then show "decodeBytes (encodeBytes (sc_canonical (st_signed e))) MaxCapabilityBytes = Some (sc_canonical (st_signed e))"
    "decodeBytes (encodeBytes (sc_signature (st_signed e))) 64 = Some (sc_signature (st_signed e))"
    "decodeBytes (encodeBytes (sc_artifact (st_signed e))) MaxArtifactBytes = Some (sc_artifact (st_signed e))"
    using CapabilityVerify_sizes [OF v] by (auto intro!: decodeBytes_encode)
  show "parseTime (formatTime (st_received e)) = Some (st_received e)"
    "parseTime (formatTime (st_deadline e)) = Some (st_deadline e)"
    using assms by (simp_all add: entry_ok_def stored_time_def)
qed

lemma started_record_read:
  assumes e: "entry_ok ed cv k e" "st_terminal e = None" "cv_keyID cv \<noteq> []"
    and m: "marshalRecordPayload (newStartedPayload (st_signed e) (st_verified e) (st_received e) (st_deadline e)
              (st_sequence e) previous) = Inr (payload, d)"
    and ch: "chain_ok (st_sequence e) previous" "st_sequence e \<noteq> 0"
  shows "\<exists>p. parseRecordPayload payload recordStarted (st_sequence e) previous = Inr (p, d) \<and>
    parseStartedPayload ed cv p (st_sequence e) = Inr e"
proof -
  let ?q = "newStartedPayload (st_signed e) (st_verified e) (st_received e) (st_deadline e) (st_sequence e) previous"
  define p where "p = ?q\<lparr>pl_RecordChecksum := digestPayload (checksum_json ?q)\<rparr>"
  have v: "CapabilityVerify ed cv (st_signed e) = Inr (st_verified e)" using e by (simp add: entry_ok_def)
  note texts = capability_texts [OF v] and dec = entry_decodes [OF e(1)] and od = optionalDigest_valid [OF ch(1)]
  have flat: "flat_doc (payload_members p)"
    unfolding p_def using texts od
    by (intro payload_flat) (auto simp: newStartedPayload_def encodeBytes_safe formatTime_safe record_constants_safe
        digest_safe digestPayload_eq)
  have shape: "validRecordShape p recordStarted (st_sequence e)"
    unfolding p_def using texts dec od e(1) ch(2)
    by (auto simp: validRecordShape_def newStartedPayload_def entry_ok_def validDigest_pattern digestPayload_eq
        split: option.split)
  have "parseRecordPayload payload recordStarted (st_sequence e) previous = Inr (p, d)"
    by (rule parse_marshalled [OF m p_def flat shape ch(1)]) (simp add: newStartedPayload_def)
  moreover have s: "\<lparr>sc_keyID = cv_keyID cv, sc_canonical = sc_canonical (st_signed e),
      sc_signature = sc_signature (st_signed e), sc_artifact = sc_artifact (st_signed e)\<rparr> = st_signed e"
    using dec(7) by simp
  have e': "\<lparr>st_sequence = st_sequence e, st_signed = st_signed e, st_verified = st_verified e,
      st_received = st_received e, st_deadline = st_deadline e, st_terminal = None\<rparr> = e"
    using e(2) by (cases e) simp
  have "parseStartedPayload ed cv p (st_sequence e) = Inr e"
    using dec(1-6) e(1,3) v
    by (simp add: parseStartedPayload_def p_def newStartedPayload_def entry_ok_def Let_def s e' not_less)
  ultimately show ?thesis by blast
qed

lemma terminal_record_read:
  assumes e: "entry_ok ed cv k e" "rv_keyID rv \<noteq> []" "rv_executorID rv \<noteq> []"
    and r: "ResultVerify ed rv s = Inr r" "BindTo r (st_verified e) = Inr b" "rs_JournalSequence (vr_value r) = st_sequence e"
    and m: "marshalRecordPayload (newTerminalPayload e s r sequence previous) = Inr (payload, d)"
    and ch: "chain_ok sequence previous" "sequence \<noteq> 0" "previous \<noteq> []"
  shows "\<exists>p. parseRecordPayload payload recordTerminal sequence previous = Inr (p, d) \<and> pl_CapabilityID p = k \<and>
    parseTerminalPayload ed rv p sequence e = Inr \<lparr>tr_sequence = sequence, tr_signed = s, tr_verified = r\<rparr>"
proof -
  let ?q = "newTerminalPayload e s r sequence previous"
  define p where "p = ?q\<lparr>pl_RecordChecksum := digestPayload (checksum_json ?q)\<rparr>"
  have v: "CapabilityVerify ed cv (st_signed e) = Inr (st_verified e)" using e by (simp add: entry_ok_def)
  note texts = capability_texts [OF v] and dec = entry_decodes [OF e(1)] and od = optionalDigest_valid [OF ch(1)]
  have rd: "re_matches digestPattern (vr_digest r)" "sr_keyID s = rv_keyID rv" "sr_executorID s = rv_executorID rv"
    "length (sr_signature s) = 64"
    using ResultVerify_Inr [OF r(1)] by simp_all
  have rdec: "decodeBytes (encodeBytes (sr_canonical s)) MaxResultBytes = Some (sr_canonical s)"
      "decodeBytes (encodeBytes (sr_signature s)) 64 = Some (sr_signature s)"
    using ResultVerify_sizes [OF r(1)] by (auto intro!: decodeBytes_encode)
  have ph: "phaseTerminal \<noteq> phaseStarted" by (simp add: phaseTerminal_def phaseStarted_def)
  have flat: "flat_doc (payload_members p)"
    unfolding p_def using texts od rd
    by (intro payload_flat) (auto simp: newTerminalPayload_def Let_def encodeBytes_safe formatTime_safe
        record_constants_safe digest_safe digestPayload_eq)
  have shape: "validRecordShape p recordTerminal sequence"
    unfolding p_def using texts dec od e(1) ch(2,3) rd rdec ph
    by (auto simp: validRecordShape_def newTerminalPayload_def Let_def entry_ok_def validDigest_pattern digestPayload_eq
        optionalDigest_def split: option.split)
  have "parseRecordPayload payload recordTerminal sequence previous = Inr (p, d)"
    by (rule parse_marshalled [OF m p_def flat shape ch(1)]) (simp add: newTerminalPayload_def Let_def)
  moreover have t: "\<lparr>sr_keyID = rv_keyID rv, sr_executorID = rv_executorID rv, sr_canonical = sr_canonical s,
      sr_signature = sr_signature s\<rparr> = s" using rd by simp
  have "parseTerminalPayload ed rv p sequence e = Inr \<lparr>tr_sequence = sequence, tr_signed = s, tr_verified = r\<rparr>"
    using dec e r rdec t by (simp add: parseTerminalPayload_def p_def newTerminalPayload_def Let_def)
  moreover have "pl_CapabilityID p = k" using e(1) by (simp add: p_def newTerminalPayload_def Let_def entry_ok_def)
  ultimately show ?thesis by blast
qed

lemma scan_frame_encoded:
  assumes f: "encodeFrame t sequence payload = Inr frame"
    and p: "parseRecordPayload payload t sequence previous = Inr (p, d)"
    and i: "indexFrame ed cv rv \<lparr>df_recordType = t, df_sequence = sequence, df_payload = payload\<rparr> p es = Inr es'"
  shows "scan_frame ed cv rv frame (es, sequence, previous) = Inr ([], es', sequence + 1, d)"
proof -
  note e = encodeFrame_Inr [OF f]
  have w: "(of_nat (be_get (take 4 (drop 20 frame))) :: uint32) = of_nat (length payload)"
    using e header_fields(7) [of t sequence payload] word_be_put(2) by metis
  have u: "unat (of_nat (length payload) :: uint32) = length payload" using e by (intro payload_length_word) simp
  have z: "(of_nat (length payload) :: uint32) \<noteq> 0" using u e by (metis less_numeral_extra(3) unat_0)
  have "length frame = 56 + length payload" using e by blast
  then have len: "24 + length payload + 32 = length frame" by simp
  have "length payload \<le> MaxPayloadBytes" using e by blast
  then have fit: "\<not> MaxFrameBytes < length frame" "\<not> length frame < 56" "\<not> MaxPayloadBytes < length payload"
    by (simp_all add: len [symmetric] MaxFrameBytes_def frameHeaderBytes_def checksumBytes_def)
  show ?thesis
    unfolding scan_frame_def prod.case frameHeaderBytes_def checksumBytes_def header_take Let_def w u len
    using z fit p i by (simp add: decode_encode_frame [OF f])
qed

lemma scan_snoc:
  assumes "scan ed cv rv data = Some (Inr (es, sequence, previous))"
    and f: "encodeFrame t sequence payload = Inr frame"
    and "parseRecordPayload payload t sequence previous = Inr (p, d)"
    and "indexFrame ed cv rv \<lparr>df_recordType = t, df_sequence = sequence, df_payload = payload\<rparr> p es = Inr es'"
  shows "scan ed cv rv (data @ frame) = Some (Inr (es', sequence + 1, d))"
proof (rule scan_append [OF assms(1)])
  have "frame \<noteq> []" using encodeFrame_Inr [OF f] by auto
  then show "scan_loop ed cv rv (Suc (Suc 0)) frame (es, sequence, previous) = Some (Inr (es', sequence + 1, d))"
    using scan_frame_encoded [OF assms(2-4)] by simp
qed

section \<open>The index invariant\<close>

definition index_ok :: "ed25519 \<Rightarrow> capability_verifier \<Rightarrow> scan_state \<Rightarrow> bool" where
  "index_ok ed cv st = (case st of (es, sequence, previous) \<Rightarrow>
     (\<forall>(k, e) \<in> set es. entry_ok ed cv k e) \<and> distinct (map fst es) \<and> chain_ok sequence previous \<and>
     (es \<noteq> [] \<longrightarrow> previous \<noteq> []))"

lemma set_terminal_keys: "map fst (set_terminal k t es) = map fst es"
  by (induction es) (auto simp: set_terminal_def)

lemma entry_ok_terminal: "entry_ok ed cv k (e\<lparr>st_terminal := t\<rparr>) = entry_ok ed cv k e"
  by (simp add: entry_ok_def)

lemma set_terminal_entries:
  "\<forall>(k, e) \<in> set es. entry_ok ed cv k e \<Longrightarrow> \<forall>(k, e) \<in> set (set_terminal i t es). entry_ok ed cv k e"
  by (induction es) (auto simp: set_terminal_def entry_ok_terminal split: if_splits)

lemma parseStartedPayload_ok:
  assumes "parseStartedPayload ed cv p sequence = Inr e"
  shows "entry_ok ed cv (val_CapabilityID (vc_value (st_verified e))) e"
  using assms unfolding parseStartedPayload_def
  by (auto simp: Let_def entry_ok_def not_less stored_parsed split: option.splits if_splits sum.splits)

lemma indexFrame_ok:
  assumes "indexFrame ed cv rv frame p es = Inr es'" "\<forall>(k, e) \<in> set es. entry_ok ed cv k e" "distinct (map fst es)"
  shows "(\<forall>(k, e) \<in> set es'. entry_ok ed cv k e) \<and> distinct (map fst es') \<and> set (map fst es) \<subseteq> set (map fst es')"
proof (cases "df_recordType frame = recordStarted")
  case True
  then obtain e where e: "parseStartedPayload ed cv p (df_sequence frame) = Inr e"
    and n: "map_of es (val_CapabilityID (vc_value (st_verified e))) = None"
    and es': "es' = es @ [(val_CapabilityID (vc_value (st_verified e)), e)]"
    using assms(1) by (auto simp: indexFrame_def bind_res_Inr_iff Let_def if_Inl_eq_Inr)
  show ?thesis using parseStartedPayload_ok [OF e] n assms(2,3) by (auto simp: es' map_of_eq_None_iff)
next
  case False
  then obtain t where "es' = set_terminal (pl_CapabilityID p) t es"
    using assms(1) by (auto simp: indexFrame_def bind_res_Inr_iff if_Inl_eq_Inr split: if_splits option.splits)
  then show ?thesis using set_terminal_entries [OF assms(2)] assms(3) by (simp add: set_terminal_keys)
qed

lemma chain_next: "sequence \<noteq> 0 \<Longrightarrow> chain_ok (sequence + 1) (digestPayload data)"
  by (simp add: chain_ok_def digestPayload_eq)

lemma scan_frame_index_ok:
  assumes "scan_frame ed cv rv rest st = Inr (rest', st')" "index_ok ed cv st"
  shows "index_ok ed cv st' \<and> set (map fst (fst st)) \<subseteq> set (map fst (fst st'))"
proof -
  obtain es sq pv where st: "st = (es, sq, pv)" by (cases st)
  obtain f dec p d es' where f: "decodeFrame f = Inr dec" "df_sequence dec = sq"
    and p: "parseRecordPayload (df_payload dec) (df_recordType dec) (df_sequence dec) pv = Inr (p, d)"
    and i: "indexFrame ed cv rv dec p es = Inr es'" and st': "st' = (es', sq + 1, d)"
    using assms(1) unfolding scan_frame_def st prod.case
    by (auto simp: Let_def bind_res_Inr_iff if_Inl_eq_Inr split: prod.splits)
  have "sq \<noteq> 0" using encodeFrame_Inr [OF decodeFrame_exact [OF f(1)]] f(2) by simp
  moreover have "d = digestPayload (df_payload dec)"
    using p by (auto simp: parseRecordPayload_def split: option.splits if_splits)
  ultimately have "chain_ok (sq + 1) d" "d \<noteq> []" using chain_next by (auto simp: digestPayload_def)
  with indexFrame_ok [OF i] assms(2) show ?thesis by (simp add: index_ok_def st st')
qed

lemma scan_loop_index_ok:
  "scan_loop ed cv rv n rest st = Some (Inr st') \<Longrightarrow> index_ok ed cv st \<Longrightarrow>
     index_ok ed cv st' \<and> set (map fst (fst st)) \<subseteq> set (map fst (fst st'))"
proof (induction ed cv rv n rest st rule: scan_loop.induct)
  case (2 ed cv rv n rest st)
  show ?case
  proof (cases "rest = []")
    case False
    with "2.prems"(1) obtain rest' st1 where f: "scan_frame ed cv rv rest st = Inr (rest', st1)"
      and l: "scan_loop ed cv rv n rest' st1 = Some (Inr st')"
      by (auto split: sum.splits)
    note s = scan_frame_index_ok [OF f "2.prems"(2)]
    with "2.IH" [OF False f refl l] show ?thesis by blast
  qed (use "2.prems" in simp)
qed simp

lemma index_ok_init: "index_ok ed cv ([], 1, [])"
  by (simp add: index_ok_def chain_ok_def)

lemma scan_index_ok: "scan ed cv rv data = Some (Inr st) \<Longrightarrow> index_ok ed cv st"
  unfolding scan_def using scan_loop_index_ok index_ok_init by blast

text \<open>Bytes after a scanned prefix can only add keys to the index.\<close>

lemma scan_prefix_keys:
  assumes "scan ed cv rv data = Some (Inr st)" "scan ed cv rv (data @ x) = Some (Inr st')"
  shows "set (map fst (fst st)) \<subseteq> set (map fst (fst st'))"
proof -
  obtain r where r: "scan_loop ed cv rv (Suc (length x div 57)) x st = Some r"
    using scan_loop_ends [of x "Suc (length x div 57)"] by blast
  then have "r = Inr st'" using scan_append [OF assms(1) r] assms(2) by simp
  with r scan_loop_index_ok scan_index_ok [OF assms(1)] show ?thesis by blast
qed

end
