(* ===== verification/Journal_Once.thy ===== *)
theory Journal_Once
  imports Journal_Recovery
begin

text \<open>
  The journal as the executor uses it. \<open>journal_inv\<close> says that the index in memory is the scan of the
  bytes the journal counts as written; every operation keeps it. The step relation \<open>replay_step\<close> interleaves
  \<open>Begin\<close>, \<open>Complete\<close>, \<open>Close\<close> and the three \<open>Take\<close> operations with process restarts, any answer of the
  operating system during an append, and any damage a crash can do to bytes that were not synchronised.
  \<open>Open\<close> reads an existing file without synchronising it, so a process may work on bytes that an earlier
  one wrote and that a crash of the machine can still take away; \<open>ry_durable\<close> keeps track of them.
\<close>

section \<open>The invariant of an open journal\<close>

definition verifiers_ok :: "capability_verifier \<Rightarrow> result_verifier \<Rightarrow> bool" where
  "verifiers_ok cv rv \<longleftrightarrow> cv_keyID cv \<noteq> [] \<and> rv_keyID rv \<noteq> [] \<and> rv_executorID rv \<noteq> []"

text \<open>The bytes this process counts as written: those it found at \<open>Open\<close> and those it appended and synchronised.\<close>

definition synced :: "journal \<Rightarrow> bytes" where
  "synced j = take (nat (j_size j)) (j_file j)"

definition journal_inv :: "ed25519 \<Rightarrow> capability_verifier \<Rightarrow> result_verifier \<Rightarrow> journal \<Rightarrow> bool" where
  "journal_inv ed cv rv j \<longleftrightarrow> verifiers_ok cv rv \<and>
     0 \<le> j_size j \<and> j_size j \<le> int (length (j_file j)) \<and> j_size j \<le> int MaxJournalBytes \<and>
     (\<not> j_poisoned j \<longrightarrow> j_size j = int (length (j_file j))) \<and>
     scan ed cv rv (synced j) = Some (Inr (j_entries j, j_nextSequence j, j_lastRecordDigest j))"

definition keys :: "journal \<Rightarrow> string set" where
  "keys j = set (map fst (j_entries j))"

lemma keys_None: "map_of (j_entries j) k = None \<longleftrightarrow> k \<notin> keys j"
  by (simp add: keys_def map_of_eq_None_iff)

lemma keys_Some: "k \<in> keys j \<longleftrightarrow> (\<exists>e. map_of (j_entries j) k = Some e)"
  using keys_None [of j k] by auto

lemma journal_inv_index: "journal_inv ed cv rv j \<Longrightarrow> index_ok ed cv (j_entries j, j_nextSequence j, j_lastRecordDigest j)"
  by (auto simp: journal_inv_def intro: scan_index_ok)

lemma journal_inv_entry: "journal_inv ed cv rv j \<Longrightarrow> map_of (j_entries j) k = Some e \<Longrightarrow> entry_ok ed cv k e"
  using journal_inv_index by (fastforce simp: index_ok_def dest: map_of_SomeD)

definition opens :: "open_io \<Rightarrow> bool" where
  "opens oi \<longleftrightarrow> oi_pathOK oi \<and> oi_fence oi = FenceAcquired \<and> oi_baseOK oi \<and> oi_directoryOK oi \<and> oi_fileOK oi \<and>
     oi_locked oi \<and> oi_statOK oi \<and> (oi_created oi \<longrightarrow> oi_syncFile oi \<and> oi_syncDirectory oi)"

lemma Open_iff:
  "Open ed cv rv oi data = Some (Inr j) \<longleftrightarrow> verifiers_ok cv rv \<and> opens oi \<and> length data \<le> MaxJournalBytes \<and>
     (\<exists>es next last_digest. scan ed cv rv data = Some (Inr (es, next, last_digest)) \<and>
       j = \<lparr>j_file = data, j_entries = es, j_nextSequence = next, j_lastRecordDigest = last_digest,
            j_size = int (length data), j_closed = False, j_poisoned = False\<rparr>)"
  by (cases "oi_fence oi") (auto simp: Open_def verifiers_ok_def opens_def bind_res_Inr_iff)

lemma Open_inv: "Open ed cv rv oi data = Some (Inr j) \<Longrightarrow> journal_inv ed cv rv j"
  by (auto simp: Open_iff journal_inv_def synced_def)

lemma reopen:
  assumes "journal_inv ed cv rv j" "readyLocked j" "opens oi"
  shows "Open ed cv rv oi (j_file j) = Some (Inr j)"
proof -
  have f: "\<not> j_closed j" "\<not> j_poisoned j" "j_size j = int (length (j_file j))"
    using assms by (auto simp: readyLocked_def journal_inv_def)
  then have "synced j = j_file j" by (simp add: synced_def)
  with assms(1,3) f show ?thesis
    unfolding Open_iff journal_inv_def by (cases j) auto
qed

section \<open>Appending\<close>

lemma append_done:
  assumes "appendLocked io frame j = (j', None)"
  shows "j' = j\<lparr>j_file := j_file j @ frame, j_size := j_size j + int (length frame)\<rparr> \<and>
    j_size j + int (length frame) \<le> int MaxJournalBytes"
  using assms by (auto simp: appendLocked_def Let_def split: if_splits)

lemma append_failed:
  assumes "appendLocked io frame j = (j', Some e)" "journal_inv ed cv rv j" "readyLocked j"
  shows "journal_inv ed cv rv j' \<and> j_entries j' = j_entries j \<and> synced j' = synced j"
proof -
  have "j' = j\<lparr>j_file := j_file j @ [], j_poisoned := False\<rparr> \<or> j' = j\<lparr>j_file := j_file j @ [], j_poisoned := True\<rparr> \<or>
      j' = j\<lparr>j_file := j_file j @ take (io_written io) frame, j_poisoned := True\<rparr>"
    using assms(1,3) by (auto simp: appendLocked_def Let_def readyLocked_def split: if_splits)
  then obtain t b where j': "j' = j\<lparr>j_file := j_file j @ t, j_poisoned := b\<rparr>" and b: "\<not> b \<longrightarrow> t = []"
    by blast
  have "synced j' = synced j" using assms(2) by (simp add: j' synced_def journal_inv_def nat_le_iff)
  moreover have "journal_inv ed cv rv j'"
    using assms(2,3) b calculation by (auto simp: j' journal_inv_def readyLocked_def)
  ultimately show ?thesis by (simp add: j')
qed

lemma append_index:
  assumes "appendLocked io frame j = (j1, None)" "journal_inv ed cv rv j" "readyLocked j"
    and "scan ed cv rv (j_file j @ frame) = Some (Inr (es, next, d))"
    and "j' = j1\<lparr>j_entries := es, j_nextSequence := next, j_lastRecordDigest := d\<rparr>"
  shows "journal_inv ed cv rv j'"
proof -
  note a = append_done [OF assms(1)]
  have "j_size j = int (length (j_file j))" using assms(2,3) by (simp add: journal_inv_def readyLocked_def)
  with a assms(2-5) show ?thesis by (simp add: journal_inv_def synced_def)
qed

section \<open>Begin and Complete\<close>

definition permit_of :: "journal_error + outcome \<Rightarrow> permit option" where
  "permit_of r = (case r of Inl _ \<Rightarrow> None | Inr out \<Rightarrow> oc_permit out)"

lemma existingOutcome_permit: "oc_permit (existingOutcome e) = None"
  by (simp add: existingOutcome_def split: option.split)

lemma Begin_new:
  assumes "Begin ed cv io s receivedAt deadlineAt j = (j', r)" "permit_of r = Some p"
  shows "\<exists>c payload d frame j1 e. CapabilityVerify ed cv s = Inr c \<and> readyLocked j \<and>
    val_CapabilityID (vc_value c) \<notin> keys j \<and> entry_ok ed cv (val_CapabilityID (vc_value c)) e \<and>
    journal_checkFresh c receivedAt = None \<and>
    e = \<lparr>st_sequence = j_nextSequence j, st_signed = s, st_verified = c, st_received = receivedAt,
         st_deadline = deadlineAt, st_terminal = None\<rparr> \<and>
    marshalRecordPayload (newStartedPayload s c receivedAt deadlineAt (j_nextSequence j) (j_lastRecordDigest j)) = Inr (payload, d) \<and>
    encodeFrame recordStarted (j_nextSequence j) payload = Inr frame \<and> appendLocked io frame j = (j1, None) \<and>
    j' = j1\<lparr>j_entries := j_entries j @ [(val_CapabilityID (vc_value c), e)],
            j_nextSequence := j_nextSequence j + 1, j_lastRecordDigest := d\<rparr> \<and>
    p = \<lparr>pm_verified = c, pm_deadline = deadlineAt, pm_used = False\<rparr>"
  using assms append_done
  by (force simp: Begin_def permit_of_def existingOutcome_permit Let_def keys_None entry_ok_def stored_canonical
      split: sum.splits if_splits option.splits prod.splits)

lemma Begin_other:
  assumes "Begin ed cv io s receivedAt deadlineAt j = (j', r)" "permit_of r = None"
  shows "j' = j \<or> (readyLocked j \<and> (\<exists>frame e. appendLocked io frame j = (j', Some e)))"
  using assms
  by (auto simp: Begin_def permit_of_def Let_def split: sum.splits if_splits option.splits prod.splits)

lemma Begin_started:
  assumes j: "journal_inv ed cv rv j" and b: "Begin ed cv io s receivedAt deadlineAt j = (j', r)" and p: "permit_of r = Some p"
  shows "journal_inv ed cv rv j' \<and> val_CapabilityID (vc_value (pm_verified p)) \<notin> keys j \<and> \<not> pm_used p \<and>
    keys j' = insert (val_CapabilityID (vc_value (pm_verified p))) (keys j)"
proof -
  obtain c payload d frame j1 e where c: "CapabilityVerify ed cv s = Inr c" "readyLocked j"
      "val_CapabilityID (vc_value c) \<notin> keys j" "entry_ok ed cv (val_CapabilityID (vc_value c)) e"
    and e: "e = \<lparr>st_sequence = j_nextSequence j, st_signed = s, st_verified = c, st_received = receivedAt,
         st_deadline = deadlineAt, st_terminal = None\<rparr>"
    and m: "marshalRecordPayload (newStartedPayload s c receivedAt deadlineAt (j_nextSequence j) (j_lastRecordDigest j)) = Inr (payload, d)"
    and f: "encodeFrame recordStarted (j_nextSequence j) payload = Inr frame" "appendLocked io frame j = (j1, None)"
    and j': "j' = j1\<lparr>j_entries := j_entries j @ [(val_CapabilityID (vc_value c), e)],
            j_nextSequence := j_nextSequence j + 1, j_lastRecordDigest := d\<rparr>"
    and p': "p = \<lparr>pm_verified = c, pm_deadline = deadlineAt, pm_used = False\<rparr>"
    using Begin_new [OF b p] by (elim exE conjE)
  have i: "chain_ok (st_sequence e) (j_lastRecordDigest j)" using journal_inv_index [OF j] by (simp add: index_ok_def e)
  have q: "st_sequence e \<noteq> 0" "cv_keyID cv \<noteq> []" "st_terminal e = None"
    using encodeFrame_Inr [OF f(1)] j by (simp_all add: e journal_inv_def verifiers_ok_def)
  have m': "marshalRecordPayload (newStartedPayload (st_signed e) (st_verified e) (st_received e) (st_deadline e)
      (st_sequence e) (j_lastRecordDigest j)) = Inr (payload, d)" using m by (simp add: e)
  obtain x where x: "parseRecordPayload payload recordStarted (st_sequence e) (j_lastRecordDigest j) = Inr (x, d)"
      "parseStartedPayload ed cv x (st_sequence e) = Inr e"
    using started_record_read [OF c(4) q(3,2) m' i q(1)] by blast
  have sq: "st_sequence e = j_nextSequence j" "st_verified e = c" by (simp_all add: e)
  have "map_of (j_entries j) (val_CapabilityID (vc_value c)) = None" using c(3) keys_None by blast
  then have ix: "indexFrame ed cv rv \<lparr>df_recordType = recordStarted, df_sequence = j_nextSequence j, df_payload = payload\<rparr> x (j_entries j) =
      Inr (j_entries j @ [(val_CapabilityID (vc_value c), e)])"
    using x(2) by (simp add: indexFrame_def sq)
  have "synced j = j_file j" using j c(2) by (simp add: journal_inv_def readyLocked_def synced_def)
  then have "scan ed cv rv (j_file j) = Some (Inr (j_entries j, j_nextSequence j, j_lastRecordDigest j))"
    using j by (simp add: journal_inv_def)
  from scan_snoc [OF this f(1) x(1) [unfolded sq] ix] have "journal_inv ed cv rv j'"
    by (rule append_index [OF f(2) j c(2) _ j'])
  then show ?thesis using c(3) by (simp add: p' j' keys_def)
qed

lemma Begin_nothing:
  assumes "journal_inv ed cv rv j" "Begin ed cv io s receivedAt deadlineAt j = (j', r)" "permit_of r = None"
  shows "journal_inv ed cv rv j' \<and> keys j' = keys j"
  using Begin_other [OF assms(2,3)] append_failed [of io _ j j' _ ed cv rv] assms(1) by (auto simp: keys_def)

lemma Complete_cases:
  assumes "Complete ed rv io s j = (j', r)"
  obtains (same) "j' = j"
  | (failed) frame e where "readyLocked j" "appendLocked io frame j = (j', Some e)"
  | (appended) v k e b payload d frame j1 where "ResultVerify ed rv s = Inr v" "readyLocked j"
      "map_of (j_entries j) k = Some e" "BindTo v (st_verified e) = Inr b" "st_terminal e = None"
      "rs_JournalSequence (vr_value v) = st_sequence e"
      "marshalRecordPayload (newTerminalPayload e s v (j_nextSequence j) (j_lastRecordDigest j)) = Inr (payload, d)"
      "encodeFrame recordTerminal (j_nextSequence j) payload = Inr frame" "appendLocked io frame j = (j1, None)"
      "j' = j1\<lparr>j_entries := set_terminal k \<lparr>tr_sequence = j_nextSequence j, tr_signed = s, tr_verified = v\<rparr> (j_entries j),
              j_nextSequence := j_nextSequence j + 1, j_lastRecordDigest := d\<rparr>"
proof -
  have "j' = j \<or> (readyLocked j \<and> (\<exists>frame e. appendLocked io frame j = (j', Some e))) \<or>
    (\<exists>v k e b payload d frame j1. ResultVerify ed rv s = Inr v \<and> readyLocked j \<and> k = rs_CapabilityID (vr_value v) \<and>
      map_of (j_entries j) k = Some e \<and> BindTo v (st_verified e) = Inr b \<and> st_terminal e = None \<and>
      rs_JournalSequence (vr_value v) = st_sequence e \<and>
      marshalRecordPayload (newTerminalPayload e s v (j_nextSequence j) (j_lastRecordDigest j)) = Inr (payload, d) \<and>
      encodeFrame recordTerminal (j_nextSequence j) payload = Inr frame \<and> appendLocked io frame j = (j1, None) \<and>
      j' = j1\<lparr>j_entries := set_terminal k \<lparr>tr_sequence = j_nextSequence j, tr_signed = s, tr_verified = v\<rparr> (j_entries j),
              j_nextSequence := j_nextSequence j + 1, j_lastRecordDigest := d\<rparr>)"
    using assms append_done
    by (force simp: Complete_def Let_def split: sum.splits if_splits option.splits prod.splits)
  then show thesis
    by (elim disjE exE conjE) (rule that(1), assumption, rule that(2), assumption+, rule that(3), assumption+)
qed

lemma Complete_inv:
  assumes j: "journal_inv ed cv rv j" and b: "Complete ed rv io s j = (j', r)"
  shows "journal_inv ed cv rv j' \<and> keys j' = keys j"
  using b
proof (cases rule: Complete_cases)
  case failed
  then show ?thesis using append_failed [OF _ j] by (simp add: keys_def)
next
  case (appended v k e b payload d frame j1)
  note v = appended(1-6) and m = appended(7) and f = appended(8,9) and j' = appended(10)
  have e: "entry_ok ed cv k e" using journal_inv_entry [OF j v(3)] .
  have "j_entries j \<noteq> []" using v(3) by auto
  then have ch: "chain_ok (j_nextSequence j) (j_lastRecordDigest j)" "j_lastRecordDigest j \<noteq> []"
    using journal_inv_index [OF j] by (simp_all add: index_ok_def)
  have q: "j_nextSequence j \<noteq> 0" "rv_keyID rv \<noteq> []" "rv_executorID rv \<noteq> []"
    using encodeFrame_Inr [OF f(1)] j by (simp_all add: journal_inv_def verifiers_ok_def)
  obtain x where x: "parseRecordPayload payload recordTerminal (j_nextSequence j) (j_lastRecordDigest j) = Inr (x, d)"
      "pl_CapabilityID x = k"
      "parseTerminalPayload ed rv x (j_nextSequence j) e = Inr \<lparr>tr_sequence = j_nextSequence j, tr_signed = s, tr_verified = v\<rparr>"
    using terminal_record_read [OF e q(2,3) v(1,4,6) m ch(1) q(1) ch(2)] by blast
  have "recordTerminal \<noteq> recordStarted" by (simp add: recordTerminal_def recordStarted_def)
  then have ix: "indexFrame ed cv rv \<lparr>df_recordType = recordTerminal, df_sequence = j_nextSequence j, df_payload = payload\<rparr> x (j_entries j) =
      Inr (set_terminal k \<lparr>tr_sequence = j_nextSequence j, tr_signed = s, tr_verified = v\<rparr> (j_entries j))"
    using x(2,3) v(3,5) by (simp add: indexFrame_def)
  have "synced j = j_file j" using j v(2) by (simp add: journal_inv_def readyLocked_def synced_def)
  then have "scan ed cv rv (j_file j) = Some (Inr (j_entries j, j_nextSequence j, j_lastRecordDigest j))"
    using j by (simp add: journal_inv_def)
  from scan_snoc [OF this f(1) x(1) ix] have "journal_inv ed cv rv j'"
    by (rule append_index [OF f(2) j v(2) _ j'])
  moreover have "map fst (j_entries j') = map fst (j_entries j)" by (simp add: j' set_terminal_keys)
  ultimately show ?thesis by (simp only: keys_def simp_thms)
qed (use j in simp)

section \<open>The executor's use of the journal\<close>

text \<open>
  One process at a time: its open journal, the permits it holds, and the capabilities whose executable bytes
  have been released so far, over all processes. \<open>ry_durable\<close> counts the bytes of the file that are known to
  survive a crash of the machine: none at first, whatever the file holds, and all that is written each time
  an append has passed both synchronisations and the journal advances its size. A restart loses the permits. It
  finds the durable bytes of the file followed by anything at all.
\<close>

record replay_system =
  ry_journal :: journal
  ry_durable :: nat
  ry_permits :: "permit list"
  ry_released :: "string list"

definition permit_id :: "permit \<Rightarrow> string" where
  "permit_id p = val_CapabilityID (vc_value (pm_verified p))"

definition new_permits :: "journal_error + outcome \<Rightarrow> permit list" where
  "new_permits r = (case permit_of r of None \<Rightarrow> [] | Some p \<Rightarrow> [p])"

definition taken :: "permit \<Rightarrow> journal_error + 'a \<Rightarrow> string list" where
  "taken p r = (case r of Inl _ \<Rightarrow> [] | Inr _ \<Rightarrow> [permit_id p])"

definition barrier :: "journal \<Rightarrow> journal \<Rightarrow> nat \<Rightarrow> nat" where
  "barrier j j' n = (if j_size j' = j_size j then n else nat (j_size j'))"

inductive replay_step :: "ed25519 \<Rightarrow> capability_verifier \<Rightarrow> result_verifier \<Rightarrow> replay_system \<Rightarrow> replay_system \<Rightarrow> bool"
  for ed cv rv where
  begin_request: "Begin ed cv io s receivedAt deadlineAt (ry_journal y) = (j, r) \<Longrightarrow>
     replay_step ed cv rv y (y\<lparr>ry_journal := j, ry_durable := barrier (ry_journal y) j (ry_durable y),
       ry_permits := ry_permits y @ new_permits r\<rparr>)"
| complete_request: "Complete ed rv io t (ry_journal y) = (j, q) \<Longrightarrow>
     replay_step ed cv rv y (y\<lparr>ry_journal := j, ry_durable := barrier (ry_journal y) j (ry_durable y)\<rparr>)"
| close_journal: "replay_step ed cv rv y (y\<lparr>ry_journal := Close (ry_journal y)\<rparr>)"
| take_add: "i < length (ry_permits y) \<Longrightarrow> TakeAddAt (ry_permits y ! i) now = (p, a) \<Longrightarrow>
     replay_step ed cv rv y (y\<lparr>ry_permits := (ry_permits y)[i := p], ry_released := ry_released y @ taken p a\<rparr>)"
| take_revoke: "i < length (ry_permits y) \<Longrightarrow> TakeRevokeAt (ry_permits y ! i) now = (p, b) \<Longrightarrow>
     replay_step ed cv rv y (y\<lparr>ry_permits := (ry_permits y)[i := p], ry_released := ry_released y @ taken p b\<rparr>)"
| take_inspect: "i < length (ry_permits y) \<Longrightarrow> TakeInspectAt (ry_permits y ! i) now = (p, c) \<Longrightarrow>
     replay_step ed cv rv y (y\<lparr>ry_permits := (ry_permits y)[i := p], ry_released := ry_released y @ taken p c\<rparr>)"
| restart: "Open ed cv rv oi (take (ry_durable y) (j_file (ry_journal y)) @ tail) = Some (Inr j) \<Longrightarrow>
     replay_step ed cv rv y (y\<lparr>ry_journal := j, ry_permits := []\<rparr>)"

inductive_cases replay_stepE: "replay_step ed cv rv y z"

inductive replay_reach :: "ed25519 \<Rightarrow> capability_verifier \<Rightarrow> result_verifier \<Rightarrow> replay_system \<Rightarrow> bool" for ed cv rv where
  opened: "Open ed cv rv oi data = Some (Inr j) \<Longrightarrow>
     replay_reach ed cv rv \<lparr>ry_journal = j, ry_durable = 0, ry_permits = [], ry_released = []\<rparr>"
| stepped: "replay_reach ed cv rv y \<Longrightarrow> replay_step ed cv rv y z \<Longrightarrow> replay_reach ed cv rv z"

text \<open>The first \<open>n\<close> bytes of the file are complete records, and hold the started record of every id in \<open>K\<close>.\<close>

definition survives :: "ed25519 \<Rightarrow> capability_verifier \<Rightarrow> result_verifier \<Rightarrow> nat \<Rightarrow> journal \<Rightarrow> string set \<Rightarrow> bool" where
  "survives ed cv rv n j K \<longleftrightarrow> n \<le> nat (j_size j) \<and>
     (\<exists>st. scan ed cv rv (take n (j_file j)) = Some (Inr st) \<and> K \<subseteq> set (map fst (fst st)))"

lemma survives_mono: "survives ed cv rv n j K \<Longrightarrow> L \<subseteq> K \<Longrightarrow> survives ed cv rv n j L"
  by (auto simp: survives_def)

lemma survives_keys:
  assumes "journal_inv ed cv rv j" "survives ed cv rv n j K"
  shows "K \<subseteq> keys j"
proof -
  obtain st where st: "scan ed cv rv (take n (j_file j)) = Some (Inr st)" "K \<subseteq> set (map fst (fst st))" "n \<le> nat (j_size j)"
    using assms(2) by (auto simp: survives_def)
  have "synced j = take n (j_file j) @ drop n (synced j)"
    using st(3) by (metis append_take_drop_id min.absorb1 synced_def take_take)
  then have "scan ed cv rv (take n (j_file j) @ drop n (synced j)) = Some (Inr (j_entries j, j_nextSequence j, j_lastRecordDigest j))"
    using assms(1) by (simp add: journal_inv_def)
  from scan_prefix_keys [OF st(1) this] st(2) show ?thesis by (auto simp: keys_def)
qed

lemma survives_all: "journal_inv ed cv rv j \<Longrightarrow> survives ed cv rv (nat (j_size j)) j (keys j)"
  by (auto simp: survives_def journal_inv_def synced_def keys_def)

text \<open>An operation leaves the written bytes in place, and adds to the index only what it has synchronised.\<close>

definition advances :: "journal \<Rightarrow> journal \<Rightarrow> bool" where
  "advances j j' \<longleftrightarrow> (\<exists>t. j_file j' = j_file j @ t) \<and> j_size j \<le> j_size j' \<and> (j_size j' = j_size j \<longrightarrow> j_entries j' = j_entries j)"

lemma advances_refl: "advances j j"
  by (simp add: advances_def)

lemma advances_trans: "advances j k \<Longrightarrow> advances k l \<Longrightarrow> advances j l"
  by (auto simp: advances_def)

lemma append_advances:
  assumes "appendLocked io frame j = (j', e)"
  shows "\<exists>t. j_file j' = j_file j @ t \<and> j_size j' = j_size j + (if e = None then int (length frame) else 0) \<and>
    j_entries j' = j_entries j"
  using assms by (auto simp: appendLocked_def Let_def split: if_splits)

lemma frame_nonempty: "encodeFrame t sequence payload = Inr frame \<Longrightarrow> frame \<noteq> []"
  by (drule encodeFrame_Inr) auto

lemma Begin_advances: "Begin ed cv io s receivedAt deadlineAt j = (j', r) \<Longrightarrow> advances j j'"
proof (cases "permit_of r")
  case None
  assume "Begin ed cv io s receivedAt deadlineAt j = (j', r)"
  from Begin_other [OF this None] show ?thesis
    using append_advances by (fastforce simp: advances_def)
next
  case (Some p)
  assume "Begin ed cv io s receivedAt deadlineAt j = (j', r)"
  from Begin_new [OF this Some] show ?thesis
    using append_done frame_nonempty by (fastforce simp: advances_def)
qed

lemma Complete_advances: "Complete ed rv io t j = (j', r) \<Longrightarrow> advances j j'"
proof (erule Complete_cases)
  fix frame e
  assume "appendLocked io frame j = (j', Some e)"
  then show ?thesis using append_advances by (fastforce simp: advances_def)
next
  fix v k e b payload d frame j1
  assume "encodeFrame recordTerminal (j_nextSequence j) payload = Inr frame" "appendLocked io frame j = (j1, None)"
    "j' = j1\<lparr>j_entries := set_terminal k \<lparr>tr_sequence = j_nextSequence j, tr_signed = t, tr_verified = v\<rparr> (j_entries j),
            j_nextSequence := j_nextSequence j + 1, j_lastRecordDigest := d\<rparr>"
  then show ?thesis using append_done [of io frame j j1] frame_nonempty by (fastforce simp: advances_def)
qed (simp add: advances_refl)

lemma barrier_survives:
  assumes "journal_inv ed cv rv j" "journal_inv ed cv rv j'" "advances j j'" "survives ed cv rv n j K" "K \<subseteq> keys j'"
  shows "survives ed cv rv (barrier j j' n) j' K"
proof (cases "j_size j' = j_size j")
  case True
  obtain t where t: "j_file j' = j_file j @ t" using assms(3) by (auto simp: advances_def)
  have "n \<le> length (j_file j)" using assms(1,4) by (auto simp: survives_def journal_inv_def)
  then have "take n (j_file j') = take n (j_file j)" by (simp add: t)
  with True assms(4) show ?thesis by (simp add: survives_def barrier_def)
next
  case False
  then show ?thesis using survives_mono [OF survives_all [OF assms(2)] assms(5)] by (simp add: barrier_def)
qed

lemma restart_survives:
  assumes "journal_inv ed cv rv j" "survives ed cv rv n j K" "Open ed cv rv oi (take n (j_file j) @ tail) = Some (Inr j')"
  shows "survives ed cv rv n j' K"
proof -
  have "n \<le> length (j_file j)" using assms(1,2) by (auto simp: survives_def journal_inv_def)
  then show ?thesis using assms(2,3) by (auto simp: survives_def Open_iff)
qed

definition replay_inv :: "ed25519 \<Rightarrow> capability_verifier \<Rightarrow> result_verifier \<Rightarrow> replay_system \<Rightarrow> bool" where
  "replay_inv ed cv rv y \<longleftrightarrow> journal_inv ed cv rv (ry_journal y) \<and>
     survives ed cv rv (ry_durable y) (ry_journal y) (set (map permit_id (ry_permits y)) \<union> set (ry_released y)) \<and>
     distinct (map permit_id (ry_permits y)) \<and> distinct (ry_released y) \<and>
     (\<forall>p \<in> set (ry_permits y). \<not> pm_used p \<longrightarrow> permit_id p \<notin> set (ry_released y))"

lemma replay_inv_keys:
  "replay_inv ed cv rv y \<Longrightarrow> set (map permit_id (ry_permits y)) \<union> set (ry_released y) \<subseteq> keys (ry_journal y)"
  unfolding replay_inv_def by (blast dest: survives_keys)

lemma checkAndUse_cases:
  "checkAndUse p now = (p', e) \<Longrightarrow> (p' = p \<and> e \<noteq> None) \<or> (\<not> pm_used p \<and> p' = p\<lparr>pm_used := True\<rparr> \<and> e = None \<and> now < pm_deadline p)"
  by (auto simp: checkAndUse_def split: if_splits)

lemma Take_cases:
  "TakeAddAt p now = (p', a) \<Longrightarrow> (p' = p \<and> taken p' a = []) \<or> (\<not> pm_used p \<and> p' = p\<lparr>pm_used := True\<rparr>)"
  "TakeRevokeAt p now = (p', b) \<Longrightarrow> (p' = p \<and> taken p' b = []) \<or> (\<not> pm_used p \<and> p' = p\<lparr>pm_used := True\<rparr>)"
  "TakeInspectAt p now = (p', c) \<Longrightarrow> (p' = p \<and> taken p' c = []) \<or> (\<not> pm_used p \<and> p' = p\<lparr>pm_used := True\<rparr>)"
  by (auto simp: TakeAddAt_def TakeRevokeAt_def TakeInspectAt_def taken_def
      split: if_splits prod.splits option.splits sum.splits dest!: checkAndUse_cases)

lemma taken_cases: "taken p r = [] \<or> taken p r = [permit_id p]"
  by (simp add: taken_def split: sum.split)

lemma take_inv:
  assumes y: "replay_inv ed cv rv y" and i: "i < length (ry_permits y)"
    and p: "(p = ry_permits y ! i \<and> taken p r = []) \<or> (\<not> pm_used (ry_permits y ! i) \<and> p = (ry_permits y ! i)\<lparr>pm_used := True\<rparr>)"
  shows "replay_inv ed cv rv (y\<lparr>ry_permits := (ry_permits y)[i := p], ry_released := ry_released y @ taken p r\<rparr>)"
  using p
proof
  assume "p = ry_permits y ! i \<and> taken p r = []"
  then have p': "p = ry_permits y ! i" and t: "taken (ry_permits y ! i) r = []" by auto
  show ?thesis unfolding p' t using y by simp
next
  let ?ps = "ry_permits y"
  assume u: "\<not> pm_used (?ps ! i) \<and> p = (?ps ! i)\<lparr>pm_used := True\<rparr>"
  have id: "permit_id p = permit_id (?ps ! i)" using u by (simp add: permit_id_def)
  have m: "map permit_id (?ps[i := p]) = map permit_id ?ps"
    using i id by (metis list_update_id map_update nth_map)
  have nr: "permit_id p \<notin> set (ry_released y)" "permit_id p \<in> set (map permit_id ?ps)"
    using y i u id by (auto simp: replay_inv_def)
  have "permit_id q \<notin> set (ry_released y @ taken p r)" if q: "q \<in> set (?ps[i := p])" "\<not> pm_used q" for q
  proof -
    obtain n where n: "n < length ?ps" "q = ?ps[i := p] ! n" using q(1) by (auto simp: in_set_conv_nth)
    have ne: "n \<noteq> i" using q(2) n u i by auto
    then have "q = ?ps ! n" using n(2) by simp
    moreover have "permit_id (?ps ! n) \<noteq> permit_id p"
      using y n(1) i ne id by (auto simp: replay_inv_def distinct_conv_nth)
    ultimately show ?thesis using y n(1) q(2) taken_cases [of p r] by (auto simp: replay_inv_def)
  qed
  moreover have "set (map permit_id ?ps) \<union> set (ry_released y @ taken p r) = set (map permit_id ?ps) \<union> set (ry_released y)"
    using nr(2) taken_cases [of p r] by auto
  moreover have "distinct (ry_released y @ taken p r)" using y nr(1) taken_cases [of p r] by (auto simp: replay_inv_def)
  ultimately show ?thesis using y m unfolding replay_inv_def by (simp del: map_update set_append set_map)
qed

lemma replay_step_inv: "replay_step ed cv rv y z \<Longrightarrow> replay_inv ed cv rv y \<Longrightarrow> replay_inv ed cv rv z"
proof (induction rule: replay_step.induct)
  case (begin_request io s receivedAt deadlineAt y j r)
  have y: "journal_inv ed cv rv (ry_journal y)" using begin_request(2) by (simp add: replay_inv_def)
  note ad = Begin_advances [OF begin_request(1)] and ks = replay_inv_keys [OF begin_request(2)]
  have sv: "survives ed cv rv (ry_durable y) (ry_journal y) (set (map permit_id (ry_permits y)) \<union> set (ry_released y))"
    using begin_request(2) by (simp add: replay_inv_def)
  show ?case
  proof (cases "permit_of r")
    case None
    note n = Begin_nothing [OF y begin_request(1) None]
    have "survives ed cv rv (barrier (ry_journal y) j (ry_durable y)) j (set (map permit_id (ry_permits y)) \<union> set (ry_released y))"
      using n ks by (intro barrier_survives [OF y _ ad sv]) auto
    with None n begin_request(2) show ?thesis by (simp add: replay_inv_def new_permits_def)
  next
    case (Some p)
    note n = Begin_started [OF y begin_request(1) Some]
    have "j_size j \<noteq> j_size (ry_journal y)"
    proof
      assume "j_size j = j_size (ry_journal y)"
      with ad have "keys j = keys (ry_journal y)" by (simp add: advances_def keys_def)
      with n show False by blast
    qed
    then have "survives ed cv rv (barrier (ry_journal y) j (ry_durable y)) j (keys j)"
      using survives_all [of ed cv rv j] n by (auto simp: barrier_def simp del: insert_iff)
    then have "survives ed cv rv (barrier (ry_journal y) j (ry_durable y)) j
        (insert (permit_id p) (set (map permit_id (ry_permits y)) \<union> set (ry_released y)))"
      by (rule survives_mono) (use n ks in \<open>auto simp: permit_id_def\<close>)
    with Some n ks begin_request(2) show ?thesis
      by (auto simp: replay_inv_def new_permits_def permit_id_def)
  qed
next
  case (complete_request io t y j q)
  have y: "journal_inv ed cv rv (ry_journal y)" using complete_request(2) by (simp add: replay_inv_def)
  note n = Complete_inv [OF y complete_request(1)] and ks = replay_inv_keys [OF complete_request(2)]
  have "survives ed cv rv (barrier (ry_journal y) j (ry_durable y)) j (set (map permit_id (ry_permits y)) \<union> set (ry_released y))"
    by (rule barrier_survives [OF y _ Complete_advances [OF complete_request(1)]])
      (use n ks complete_request(2) in \<open>auto simp: replay_inv_def\<close>)
  then show ?case using n complete_request(2) by (simp add: replay_inv_def)
next
  case (close_journal y)
  then show ?case by (simp add: replay_inv_def journal_inv_def Close_def survives_def synced_def)
next
  case (restart oi y tail j)
  have y: "journal_inv ed cv rv (ry_journal y)"
    "survives ed cv rv (ry_durable y) (ry_journal y) (set (map permit_id (ry_permits y)) \<union> set (ry_released y))"
    using restart(2) by (simp_all add: replay_inv_def)
  have "survives ed cv rv (ry_durable y) j (set (ry_released y))"
    using survives_mono [OF restart_survives [OF y restart(1)]] by blast
  then show ?case using Open_inv [OF restart(1)] restart(2) by (simp add: replay_inv_def)
next
  case (take_add i y now p a)
  show ?case by (rule take_inv [OF take_add(3,1) Take_cases(1) [OF take_add(2)]])
next
  case (take_revoke i y now p b)
  show ?case by (rule take_inv [OF take_revoke(3,1) Take_cases(2) [OF take_revoke(2)]])
next
  case (take_inspect i y now p c)
  show ?case by (rule take_inv [OF take_inspect(3,1) Take_cases(3) [OF take_inspect(2)]])
qed

lemma replay_reach_inv: "replay_reach ed cv rv y \<Longrightarrow> replay_inv ed cv rv y"
proof (induction rule: replay_reach.induct)
  case (opened oi data j)
  then show ?case by (simp add: replay_inv_def Open_inv survives_def scan_Nil)
qed (rule replay_step_inv)

section \<open>Records fit their frame\<close>

lemma payload_size:
  assumes f: "flat_doc (payload_members p)"
    and l: "length (pl_ArtifactB64URL p) \<le> 5462" "length (pl_CapabilityJCSB64URL p) \<le> 10923"
      "length (pl_CapabilitySignatureB64URL p) \<le> 86" "length (pl_ArtifactDigest p) \<le> 71"
      "length (pl_CapabilityDigest p) \<le> 71" "length (pl_OwnedSchemaDigest p) \<le> 71" "length (pl_RecordChecksum p) \<le> 71"
      "length (pl_CapabilityID p) \<le> 36" "length (pl_TargetIPv4 p) \<le> 15" "length (pl_Operation p) \<le> 7"
      "length (pl_Deadline p) \<le> 24" "length (pl_ReceivedAt p) \<le> 24" "length (pl_Phase p) \<le> 8" "length (pl_SchemaVersion p) \<le> 26"
    and o: "\<And>x. pl_PreviousRecordDigest p = Some x \<Longrightarrow> length x \<le> 71"
      "\<And>x. pl_TerminalResultDigest p = Some x \<Longrightarrow> length x \<le> 71"
      "\<And>x. pl_TerminalResultJCSB64URL p = Some x \<Longrightarrow> length x \<le> 10923"
      "\<And>x. pl_TerminalResultSignatureB64URL p = Some x \<Longrightarrow> length x \<le> 86"
  shows "length (payload_json p) \<le> MaxPayloadBytes"
proof -
  have q: "length (json_print (opt_str v)) \<le> n + 2 \<and> 4 \<le> n + 2"
    if "flat_value (opt_str v)" "\<And>x. v = Some x \<Longrightarrow> length x \<le> n" "2 \<le> n" for v n
    using that by (cases v) (auto simp: json_quote_length)
  have ov: "flat_value (opt_str (pl_PreviousRecordDigest p))" "flat_value (opt_str (pl_TerminalResultDigest p))"
      "flat_value (opt_str (pl_TerminalResultJCSB64URL p))" "flat_value (opt_str (pl_TerminalResultSignatureB64URL p))"
    using f by (simp_all add: flat_doc_def payload_members_def)
  note oq = q [OF ov(1) o(1)] q [OF ov(2) o(2)] q [OF ov(3) o(3)] q [OF ov(4) o(4)]
  have "length (payload_json p) \<le> 2 + sum_list (map member_size (payload_members p))"
    unfolding payload_json_def by (rule json_print_size [OF f])
  also have "\<dots> \<le> MaxPayloadBytes"
    using f l oq uint64_digits [of "pl_JournalSequence p"]
    by (simp add: flat_doc_def payload_members_def member_size_def json_quote_length MaxPayloadBytes_def)
  finally show ?thesis .
qed

lemma encodeBytes_length: "length v \<le> n \<Longrightarrow> length (encodeBytes v) \<le> (4 * n + 2) div 3"
  by (simp add: encodeBytes_def b64_encode_length div_le_mono)

text \<open>The parts that both kinds of record take from the capability and the request.\<close>

lemma record_sizes:
  assumes "CapabilityVerify ed cv s = Inr c"
  shows "length (encodeBytes (sc_artifact s)) \<le> 5462" "length (encodeBytes (sc_canonical s)) \<le> 10923"
    "length (encodeBytes (sc_signature s)) \<le> 86" "length (val_CapabilityID (vc_value c)) = 36"
    "length (val_TargetIPv4 (vc_value c)) \<le> 15" "length (val_Operation (vc_value c)) \<le> 7"
proof -
  show "length (encodeBytes (sc_artifact s)) \<le> 5462" "length (encodeBytes (sc_canonical s)) \<le> 10923"
      "length (encodeBytes (sc_signature s)) \<le> 86"
    using encodeBytes_length [of "sc_artifact s" 4096] encodeBytes_length [of "sc_canonical s" 8192]
      encodeBytes_length [of "sc_signature s" 64] CapabilityVerify_sizes [OF assms]
    by (simp_all add: MaxCapabilityBytes_def MaxArtifactBytes_def)
  have "cap_ok (vc_value c)" using CapabilityVerify_Inr [OF assms] by simp
  then show "length (val_CapabilityID (vc_value c)) = 36" "length (val_TargetIPv4 (vc_value c)) \<le> 15"
      "length (val_Operation (vc_value c)) \<le> 7"
    using operation_text [OF capability_texts(6) [OF assms]] by (simp_all add: cap_ok_def uuidPattern_length addr_text_length)
qed

lemma time_size: "canonicalTime t \<Longrightarrow> length (formatTime t) = 24"
  by (simp add: formatTime_def canonicalTime_iff length_format_millis four_digit_printable)

lemma started_fits:
  assumes e: "CapabilityVerify ed cv s = Inr c" "canonicalTime received" "canonicalTime deadline" "chain_ok sequence previous"
  shows "\<exists>payload d. marshalRecordPayload (newStartedPayload s c received deadline sequence previous) = Inr (payload, d) \<and>
    payload \<noteq> [] \<and> length payload \<le> MaxPayloadBytes"
proof -
  let ?q = "newStartedPayload s c received deadline sequence previous"
  let ?p = "?q\<lparr>pl_RecordChecksum := digestPayload (checksum_json ?q)\<rparr>"
  note texts = capability_texts [OF e(1)] and od = optionalDigest_valid [OF e(4)]
  have flat: "flat_doc (payload_members ?p)"
    using texts od
    by (intro payload_flat) (auto simp: newStartedPayload_def encodeBytes_safe formatTime_safe record_constants_safe
        digest_safe digestPayload_eq)
  have p: "length x \<le> 71" if "optionalDigest previous = Some x" for x
    using that e(4) by (auto simp: optionalDigest_def chain_ok_def digest_length split: if_splits)
  have "length (payload_json ?p) \<le> MaxPayloadBytes"
    using texts p record_sizes [OF e(1)] time_size [OF e(2)] time_size [OF e(3)]
    by (intro payload_size [OF flat]) (simp_all add: newStartedPayload_def digest_length digestPayload_eq
        phaseStarted_def SchemaRecordV1_def)
  then show ?thesis
    by (intro exI conjI) (auto simp: marshalRecordPayload_Inr newStartedPayload_def payload_json_def)
qed

text \<open>With an operating system that answers well, a fresh capability gets its permit.\<close>

definition durable :: "append_io \<Rightarrow> bool" where
  "durable io \<longleftrightarrow> io_fileOK io \<and> io_directoryOK io \<and> MaxFrameBytes \<le> io_written io \<and> io_writeOK io \<and>
     io_syncFile io \<and> io_syncDirectory io"

lemma durable_append:
  assumes "durable io" "encodeFrame t sequence payload = Inr frame" "j_size j + int MaxFrameBytes \<le> int MaxJournalBytes"
  shows "\<exists>j1. appendLocked io frame j = (j1, None)"
proof -
  have "length frame \<le> MaxFrameBytes"
    using encodeFrame_Inr [OF assms(2)] by (auto simp: MaxFrameBytes_def frameHeaderBytes_def checksumBytes_def simp del: length_append)
  with assms(1,3) show ?thesis by (simp add: appendLocked_def durable_def)
qed

lemma Begin_succeeds:
  assumes j: "journal_inv ed cv rv j" "readyLocked j" "j_nextSequence j \<noteq> 0" "j_nextSequence j \<le> 2 ^ 53 - 1"
    and c: "CapabilityVerify ed cv s = Inr c" "val_CapabilityID (vc_value c) \<notin> keys j"
    and t: "canonicalTime receivedAt" "canonicalTime deadlineAt" "receivedAt < deadlineAt"
      "\<not> MaxDeadline < Sub deadlineAt receivedAt" "deadlineAt \<le> val_ExpiresAt (vc_value c)" "journal_checkFresh c receivedAt = None"
    and io: "durable io" and room: "j_size j + int MaxFrameBytes \<le> int MaxJournalBytes"
  shows "\<exists>j' out. Begin ed cv io s receivedAt deadlineAt j = (j', Inr out) \<and>
    oc_state out = StateNewStarted \<and> oc_permit out = Some \<lparr>pm_verified = c, pm_deadline = deadlineAt, pm_used = False\<rparr> \<and>
    oc_started out = Some (snapshotStarted \<lparr>st_sequence = j_nextSequence j, st_signed = s, st_verified = c,
      st_received = receivedAt, st_deadline = deadlineAt, st_terminal = None\<rparr>)"
proof -
  have ch: "chain_ok (j_nextSequence j) (j_lastRecordDigest j)" using journal_inv_index [OF j(1)] by (simp add: index_ok_def)
  obtain payload d where m: "marshalRecordPayload (newStartedPayload s c receivedAt deadlineAt (j_nextSequence j)
      (j_lastRecordDigest j)) = Inr (payload, d)" and len: "payload \<noteq> []" "length payload \<le> MaxPayloadBytes"
    using started_fits [OF c(1) t(1,2) ch] by blast
  obtain frame where f: "encodeFrame recordStarted (j_nextSequence j) payload = Inr frame"
    using j(3,4) len by (auto simp: encodeFrame_def Let_def not_less)
  obtain j1 where a: "appendLocked io frame j = (j1, None)" using durable_append [OF io f room] by blast
  have k: "map_of (j_entries j) (val_CapabilityID (vc_value c)) = None" using c(2) keys_None by blast
  show ?thesis
    using t by (simp add: Begin_def c(1) j(2) k m f a Let_def not_less [symmetric] del: not_less)
qed

section \<open>Correctness\<close>


text \<open>
  C13: The index in memory is exactly what a restart would rebuild. Whatever sequence of requests, results and restarts
  led to it, an open journal whose appends have all succeeded equals the journal that \<open>Open\<close> returns on the
  bytes of its file whenever the operating system lets it be opened: entries, terminal results, next sequence number, last record digest and size.
\<close>

theorem reopen_rebuilds_journal:
  "replay_reach ed cv rv y \<Longrightarrow> readyLocked (ry_journal y) \<Longrightarrow> opens oi \<Longrightarrow>
     Open ed cv rv oi (j_file (ry_journal y)) = Some (Inr (ry_journal y))"
  using replay_reach_inv reopen by (auto simp: replay_inv_def)

section \<open>A sample run\<close>

definition empty_journal :: journal where
  "empty_journal = \<lparr>j_file = [], j_entries = [], j_nextSequence = 1, j_lastRecordDigest = [], j_size = 0,
     j_closed = False, j_poisoned = False\<rparr>"

definition good_open :: open_io where
  "good_open = \<lparr>oi_pathOK = True, oi_fence = FenceAcquired, oi_baseOK = True, oi_directoryOK = True, oi_fileOK = True,
     oi_locked = True, oi_statOK = True, oi_created = True, oi_syncFile = True, oi_syncDirectory = True\<rparr>"

lemma opens_good: "opens good_open"
  by (simp add: opens_def good_open_def)

lemma sample_open: "Open sample_ed sample_verifier sample_result_verifier good_open [] = Some (Inr empty_journal)"
  by (simp add: Open_iff opens_good scan_Nil verifiers_ok_def empty_journal_def sample_verifier_def sample_result_verifier_def)

definition sample_io :: append_io where
  "sample_io = \<lparr>io_fileOK = True, io_directoryOK = True, io_written = MaxFrameBytes, io_writeOK = True,
     io_syncFile = True, io_syncDirectory = True\<rparr>"

lemma sample_durable: "durable sample_io"
  by (simp add: durable_def sample_io_def)

lemma sample_times:
  "canonicalTime 63900000010000000000" "canonicalTime 63900000012000000000"
  "\<not> MaxDeadline < Sub 63900000012000000000 63900000010000000000"
  by code_simp+

lemma sample_fresh:
  "63900000000000000000 \<le> now \<Longrightarrow> now < 63900000030000000000 \<Longrightarrow> AddAt sample_verified now = Inr (ExecutableAdd sample_verified)"
  by (simp add: AddAt_iff checkFresh_iff sample_verified_fields marshal_nonempty_capability sample_value_def digestBytes_def)

lemma sample_begin:
  "\<exists>s j' out. CapabilityVerify sample_ed sample_verifier s = Inr sample_verified \<and>
     Begin sample_ed sample_verifier sample_io s 63900000010000000000 63900000012000000000 empty_journal = (j', Inr out) \<and>
     oc_permit out = Some \<lparr>pm_verified = sample_verified, pm_deadline = 63900000012000000000, pm_used = False\<rparr>"
proof -
  obtain s where s: "CapabilityVerify sample_ed sample_verifier s = Inr sample_verified" using sample_verify by blast
  have op: "val_Operation sample_value = OperationAdd" "val_ExpiresAt sample_value = 63900000030000000000"
    by (simp_all add: sample_value_def)
  have f: "journal_checkFresh sample_verified 63900000010000000000 = None"
    by (simp add: journal_checkFresh_def sample_verified_fields op sample_fresh)
  show ?thesis
    using Begin_succeeds [OF Open_inv [OF sample_open] _ _ _ s _ sample_times(1,2) _ sample_times(3) _ f sample_durable] s
    by (auto simp: empty_journal_def readyLocked_def keys_def sample_verified_fields op MaxFrameBytes_def
        frameHeaderBytes_def checksumBytes_def MaxPayloadBytes_def MaxJournalBytes_def)
qed

lemma sample_run:
  "\<exists>y. replay_reach sample_ed sample_verifier sample_result_verifier y \<and> readyLocked (ry_journal y) \<and>
     ry_released y = [val_CapabilityID sample_value]"
proof -
  let ?reach = "replay_reach sample_ed sample_verifier sample_result_verifier"
  let ?p = "\<lparr>pm_verified = sample_verified, pm_deadline = 63900000012000000000, pm_used = False\<rparr>"
  let ?y = "\<lparr>ry_journal = empty_journal, ry_durable = 0, ry_permits = [], ry_released = []\<rparr>"
  obtain s j' out where b: "Begin sample_ed sample_verifier sample_io s 63900000010000000000 63900000012000000000
      empty_journal = (j', Inr out)" and p: "oc_permit out = Some ?p" using sample_begin by blast
  have pm: "permit_of (Inr out) = Some ?p" using p by (simp add: permit_of_def)
  then have nw: "new_permits (Inr out) = [?p]" by (simp add: new_permits_def)
  have r: "readyLocked j'" using Begin_new [OF b pm] append_done by (fastforce simp: readyLocked_def)
  have y: "?reach ?y" by (rule replay_reach.opened [OF sample_open])
  have z: "?reach (?y\<lparr>ry_journal := j', ry_durable := barrier empty_journal j' 0, ry_permits := [?p]\<rparr>)"
    using replay_reach.stepped [OF y replay_step.begin_request, of sample_io s _ _ j' "Inr out"] b nw by simp
  have t: "TakeAddAt ?p 63900000011000000000 = (?p\<lparr>pm_used := True\<rparr>, Inr (ExecutableAdd sample_verified))"
    by (simp add: TakeAddAt_def checkAndUse_def sample_fresh sample_verified_fields)
       (simp add: sample_value_def)
  let ?w = "?y\<lparr>ry_journal := j', ry_durable := barrier empty_journal j' 0, ry_permits := [?p\<lparr>pm_used := True\<rparr>], ry_released := [val_CapabilityID sample_value]\<rparr>"
  have "?reach ?w"
    using replay_reach.stepped [OF z replay_step.take_add, of 0 63900000011000000000 "?p\<lparr>pm_used := True\<rparr>"] t
    by (simp add: taken_def permit_id_def sample_verified_fields)
  with r show ?thesis by (intro exI [of _ ?w]) simp
qed


theorem reopen_rebuilds_journal_witness:
  "\<exists>y. replay_reach sample_ed sample_verifier sample_result_verifier y \<and> readyLocked (ry_journal y) \<and>
     ry_released y \<noteq> [] \<and>
     Open sample_ed sample_verifier sample_result_verifier good_open (j_file (ry_journal y)) = Some (Inr (ry_journal y))"
proof -
  obtain y where y: "replay_reach sample_ed sample_verifier sample_result_verifier y" "readyLocked (ry_journal y)"
      "ry_released y = [val_CapabilityID sample_value]" using sample_run by blast
  with reopen_rebuilds_journal [OF y(1,2) opens_good] show ?thesis by (intro exI [of _ y]) simp
qed

end
