(* ===== verification/Ipc.thy ===== *)
theory Ipc
  imports Journal_Frame
begin

text \<open>
  \<open>internal/enforcement/ipc\<close>: the private wire contract between dispatcher and executor
  (\<open>frame.go\<close>, \<open>envelope.go\<close>). A frame is a four-byte length and a payload; a connection carries one
  frame in each direction and then ends. Payloads are canonical JSON envelopes with base64url fields.
  A reader is the bytes that will arrive and whether they end cleanly; a writer answers every write with a
  count and an error flag.
\<close>

section \<open>Errors and bounds\<close>

datatype ipc_error =
    ErrFrameZeroLength | ErrFrameOversized | ErrFrameTruncated | ErrFrameTrailingData | ErrFrameTermination
  | ErrFrameWrite | ErrEnvelopeInvalid | ErrEnvelopeNonCanonical

definition MaxFramePayloadBytes :: nat where "MaxFramePayloadBytes = 16 * 1024"
definition maxEncodedFieldLength :: nat where "maxEncodedFieldLength = 21846"

definition RequestEnvelopeSchemaVersion :: string where
  "RequestEnvelopeSchemaVersion = ''executor-request-envelope-v1''"
definition RecoveryRequestSchemaVersion :: string where
  "RecoveryRequestSchemaVersion = ''executor-recovery-request-envelope-v1''"
definition ResponseEnvelopeSchemaVersion :: string where
  "ResponseEnvelopeSchemaVersion = ''executor-response-envelope-v1''"

section \<open>Frames (frame.go)\<close>

definition validateFramePayload :: "bytes \<Rightarrow> ipc_error + unit" where
  "validateFramePayload payload =
     (if payload = [] then Inl ErrFrameZeroLength
      else if MaxFramePayloadBytes < length payload then Inl ErrFrameOversized else Inr ())"

definition EncodeFrame :: "bytes \<Rightarrow> ipc_error + bytes" where
  "EncodeFrame payload =
     bind_res (validateFramePayload payload) (\<lambda>_.
       Inr (be_put 4 (unat (of_nat (length payload) :: uint32)) @ payload))"

text \<open>The answer of one \<open>Write\<close>: how many bytes it took and whether it failed, for each call in turn.\<close>

type_synonym writer = "nat \<Rightarrow> bytes \<Rightarrow> int \<times> bool"

function write_loop :: "writer \<Rightarrow> nat \<Rightarrow> bytes \<Rightarrow> bytes \<times> (ipc_error + unit)" where
  "write_loop writer k frame =
     (if frame = [] then ([], Inr ())
      else case writer k frame of (written, failed) \<Rightarrow>
        if written < 0 \<or> int (length frame) < written then ([], Inl ErrFrameWrite)
        else let out = take (nat written) frame in
          if failed \<or> written = 0 then (out, Inl ErrFrameWrite)
          else case write_loop writer (Suc k) (drop (nat written) frame) of (others, r) \<Rightarrow> (out @ others, r))"
  by pat_completeness auto
termination
  by (relation "measure (\<lambda>(_, _, frame). length frame)") auto

declare write_loop.simps [simp del]

definition WriteFrame :: "writer \<Rightarrow> bytes \<Rightarrow> bytes \<times> (ipc_error + unit)" where
  "WriteFrame writer payload =
     (case EncodeFrame payload of Inl e \<Rightarrow> ([], Inl e) | Inr frame \<Rightarrow> write_loop writer 0 frame)"

record reader =
  rd_data :: bytes
  rd_clean :: bool

definition ReadSingleFrame :: "reader \<Rightarrow> ipc_error + bytes" where
  "ReadSingleFrame r =
     (if length (rd_data r) < 4 then Inl ErrFrameTruncated
      else let size = (of_nat (be_get (take 4 (rd_data r))) :: uint32); rest = drop 4 (rd_data r) in
        if size = 0 then Inl ErrFrameZeroLength
        else if MaxFramePayloadBytes < unat size then Inl ErrFrameOversized
        else if length rest < unat size then Inl ErrFrameTruncated
        else if unat size < length rest then Inl ErrFrameTrailingData
        else if \<not> rd_clean r then Inl ErrFrameTermination
        else Inr (take (unat size) rest))"

section \<open>Envelopes (envelope.go)\<close>

record request_envelope =
  rq_capabilityJCS :: bytes
  rq_capabilitySignature :: bytes
  rq_artifact :: bytes
  rq_recoveryOnly :: bool

record response_envelope =
  rp_resultJCS :: bytes
  rp_resultSignature :: bytes

record request_wire =
  qw_ArtifactB64URL :: string
  qw_CapabilityJCSB64URL :: string
  qw_CapabilitySignatureB64URL :: string
  qw_SchemaVersion :: string

record response_wire =
  pw_ResultJCSB64URL :: string
  pw_ResultSignatureB64URL :: string
  pw_SchemaVersion :: string

definition zero_request_wire :: request_wire where
  "zero_request_wire = \<lparr>qw_ArtifactB64URL = [], qw_CapabilityJCSB64URL = [], qw_CapabilitySignatureB64URL = [],
     qw_SchemaVersion = []\<rparr>"

definition zero_response_wire :: response_wire where
  "zero_response_wire = \<lparr>pw_ResultJCSB64URL = [], pw_ResultSignatureB64URL = [], pw_SchemaVersion = []\<rparr>"

definition request_fields :: "(string \<times> request_wire setter) list" where
  "request_fields =
     [(''artifact_b64url'', set_string (\<lambda>x. qw_ArtifactB64URL_update (\<lambda>_. x))),
      (''capability_jcs_b64url'', set_string (\<lambda>x. qw_CapabilityJCSB64URL_update (\<lambda>_. x))),
      (''capability_signature_b64url'', set_string (\<lambda>x. qw_CapabilitySignatureB64URL_update (\<lambda>_. x))),
      (''schema_version'', set_string (\<lambda>x. qw_SchemaVersion_update (\<lambda>_. x)))]"

definition response_fields :: "(string \<times> response_wire setter) list" where
  "response_fields =
     [(''result_jcs_b64url'', set_string (\<lambda>x. pw_ResultJCSB64URL_update (\<lambda>_. x))),
      (''result_signature_b64url'', set_string (\<lambda>x. pw_ResultSignatureB64URL_update (\<lambda>_. x))),
      (''schema_version'', set_string (\<lambda>x. pw_SchemaVersion_update (\<lambda>_. x)))]"

definition request_members :: "request_wire \<Rightarrow> (bytes \<times> json) list" where
  "request_members w =
     [(''artifact_b64url'', JStr (qw_ArtifactB64URL w)),
      (''capability_jcs_b64url'', JStr (qw_CapabilityJCSB64URL w)),
      (''capability_signature_b64url'', JStr (qw_CapabilitySignatureB64URL w)),
      (''schema_version'', JStr (qw_SchemaVersion w))]"

definition response_members :: "response_wire \<Rightarrow> (bytes \<times> json) list" where
  "response_members w =
     [(''result_jcs_b64url'', JStr (pw_ResultJCSB64URL w)),
      (''result_signature_b64url'', JStr (pw_ResultSignatureB64URL w)),
      (''schema_version'', JStr (pw_SchemaVersion w))]"

text \<open>\<open>json.Unmarshal\<close> into a struct: members of other names are skipped.\<close>

fun unmarshal_members :: "(string \<times> 'r setter) list \<Rightarrow> (bytes \<times> json) list \<Rightarrow> 'r \<Rightarrow> 'r option" where
  "unmarshal_members specs [] r = Some r"
| "unmarshal_members specs ((k, v) # ms) r =
     (case find_field specs k of
        None \<Rightarrow> unmarshal_members specs ms r
      | Some f \<Rightarrow> (case f v r of None \<Rightarrow> None | Some r' \<Rightarrow> unmarshal_members specs ms r'))"

definition unmarshal :: "(string \<times> 'r setter) list \<Rightarrow> bytes \<Rightarrow> 'r \<Rightarrow> 'r option" where
  "unmarshal specs data r =
     (case parse_doc data of
        Some (JObj ms) \<Rightarrow> unmarshal_members specs ms r
      | Some JNull \<Rightarrow> Some r
      | _ \<Rightarrow> None)"

definition validJSONObject :: "bytes \<Rightarrow> bool" where
  "validJSONObject v \<longleftrightarrow>
     (if length v < 2 \<or> hd v \<noteq> CHR ''{'' \<or> last v \<noteq> CHR ''}'' \<or> parse_doc v = None then False
      else case parse_doc v of Some (JObj _) \<Rightarrow> True | _ \<Rightarrow> False)"

definition decodeRawURLField :: "string \<Rightarrow> ipc_error + bytes" where
  "decodeRawURLField v =
     (if v = [] \<or> maxEncodedFieldLength < length v then Inl ErrEnvelopeInvalid
      else case b64_decode True v of None \<Rightarrow> Inl ErrEnvelopeInvalid | Some d \<Rightarrow> Inr d)"

definition marshalBoundedEnvelope :: "(bytes \<times> json) list \<Rightarrow> ipc_error + bytes" where
  "marshalBoundedEnvelope members =
     (let payload = json_print (JObj members) in bind_res (validateFramePayload payload) (\<lambda>_. Inr payload))"

definition newRequestEnvelope :: "bytes \<Rightarrow> bytes \<Rightarrow> bytes \<Rightarrow> bool \<Rightarrow> ipc_error + request_envelope" where
  "newRequestEnvelope capabilityJCS signature artifact recoveryOnly =
     (if \<not> validJSONObject capabilityJCS \<or> length signature \<noteq> 64 \<or> artifact = [] then Inl ErrEnvelopeInvalid
      else Inr \<lparr>rq_capabilityJCS = capabilityJCS, rq_capabilitySignature = signature, rq_artifact = artifact,
                rq_recoveryOnly = recoveryOnly\<rparr>)"

definition NewRequestEnvelope :: "bytes \<Rightarrow> bytes \<Rightarrow> bytes \<Rightarrow> ipc_error + request_envelope" where
  "NewRequestEnvelope capabilityJCS signature artifact = newRequestEnvelope capabilityJCS signature artifact False"

definition NewRecoveryRequestEnvelope :: "bytes \<Rightarrow> bytes \<Rightarrow> bytes \<Rightarrow> ipc_error + request_envelope" where
  "NewRecoveryRequestEnvelope capabilityJCS signature artifact = newRequestEnvelope capabilityJCS signature artifact True"

definition NewResponseEnvelope :: "bytes \<Rightarrow> bytes \<Rightarrow> ipc_error + response_envelope" where
  "NewResponseEnvelope resultJCS signature =
     (if \<not> validJSONObject resultJCS \<or> length signature \<noteq> 64 then Inl ErrEnvelopeInvalid
      else Inr \<lparr>rp_resultJCS = resultJCS, rp_resultSignature = signature\<rparr>)"

definition EncodeRequestEnvelope :: "request_envelope \<Rightarrow> ipc_error + bytes" where
  "EncodeRequestEnvelope e =
     (if \<not> validJSONObject (rq_capabilityJCS e) \<or> length (rq_capabilitySignature e) \<noteq> 64 \<or> rq_artifact e = []
      then Inl ErrEnvelopeInvalid
      else marshalBoundedEnvelope (request_members
        \<lparr>qw_ArtifactB64URL = b64_encode (rq_artifact e), qw_CapabilityJCSB64URL = b64_encode (rq_capabilityJCS e),
         qw_CapabilitySignatureB64URL = b64_encode (rq_capabilitySignature e),
         qw_SchemaVersion = (if rq_recoveryOnly e then RecoveryRequestSchemaVersion else RequestEnvelopeSchemaVersion)\<rparr>))"

definition EncodeResponseEnvelope :: "response_envelope \<Rightarrow> ipc_error + bytes" where
  "EncodeResponseEnvelope e =
     (if \<not> validJSONObject (rp_resultJCS e) \<or> length (rp_resultSignature e) \<noteq> 64 then Inl ErrEnvelopeInvalid
      else marshalBoundedEnvelope (response_members
        \<lparr>pw_ResultJCSB64URL = b64_encode (rp_resultJCS e), pw_ResultSignatureB64URL = b64_encode (rp_resultSignature e),
         pw_SchemaVersion = ResponseEnvelopeSchemaVersion\<rparr>))"

definition DecodeRequestEnvelope :: "bytes \<Rightarrow> ipc_error + request_envelope" where
  "DecodeRequestEnvelope payload =
     (if payload = [] \<or> MaxFramePayloadBytes < length payload \<or> parse_doc payload = None then Inl ErrEnvelopeInvalid
      else case unmarshal request_fields payload zero_request_wire of
        None \<Rightarrow> Inl ErrEnvelopeInvalid
      | Some w \<Rightarrow>
          if qw_SchemaVersion w \<noteq> RequestEnvelopeSchemaVersion \<and> qw_SchemaVersion w \<noteq> RecoveryRequestSchemaVersion
          then Inl ErrEnvelopeInvalid
          else if json_print (JObj (request_members w)) \<noteq> payload then Inl ErrEnvelopeNonCanonical
          else bind_res (decodeRawURLField (qw_CapabilityJCSB64URL w)) (\<lambda>capability.
            if \<not> validJSONObject capability then Inl ErrEnvelopeInvalid
            else bind_res (decodeRawURLField (qw_CapabilitySignatureB64URL w)) (\<lambda>signature.
              if length (qw_CapabilitySignatureB64URL w) \<noteq> 86 \<or> length signature \<noteq> 64 then Inl ErrEnvelopeInvalid
              else bind_res (decodeRawURLField (qw_ArtifactB64URL w)) (\<lambda>artifact.
                if artifact = [] then Inl ErrEnvelopeInvalid
                else newRequestEnvelope capability signature artifact
                  (qw_SchemaVersion w = RecoveryRequestSchemaVersion)))))"

definition DecodeResponseEnvelope :: "bytes \<Rightarrow> ipc_error + response_envelope" where
  "DecodeResponseEnvelope payload =
     (if payload = [] \<or> MaxFramePayloadBytes < length payload \<or> parse_doc payload = None then Inl ErrEnvelopeInvalid
      else case unmarshal response_fields payload zero_response_wire of
        None \<Rightarrow> Inl ErrEnvelopeInvalid
      | Some w \<Rightarrow>
          if pw_SchemaVersion w \<noteq> ResponseEnvelopeSchemaVersion then Inl ErrEnvelopeInvalid
          else if json_print (JObj (response_members w)) \<noteq> payload then Inl ErrEnvelopeNonCanonical
          else bind_res (decodeRawURLField (pw_ResultJCSB64URL w)) (\<lambda>result.
            if \<not> validJSONObject result then Inl ErrEnvelopeInvalid
            else bind_res (decodeRawURLField (pw_ResultSignatureB64URL w)) (\<lambda>signature.
              if length (pw_ResultSignatureB64URL w) \<noteq> 86 \<or> length signature \<noteq> 64 then Inl ErrEnvelopeInvalid
              else NewResponseEnvelope result signature)))"

section \<open>Frames round-trip\<close>

lemma EncodeFrame_iff:
  "EncodeFrame p = Inr f \<longleftrightarrow> p \<noteq> [] \<and> length p \<le> MaxFramePayloadBytes \<and>
     f = be_put 4 (unat (of_nat (length p) :: uint32)) @ p"
  by (auto simp: EncodeFrame_def validateFramePayload_def bind_res_Inr_iff not_less)

lemma frame_size_word: "length p \<le> MaxFramePayloadBytes \<Longrightarrow> unat (of_nat (length p) :: uint32) = length p"
  by (simp add: unat_of_nat MaxFramePayloadBytes_def)

lemma ReadSingleFrame_iff: "ReadSingleFrame r = Inr p \<longleftrightarrow> rd_clean r \<and> EncodeFrame p = Inr (rd_data r)"
proof
  assume r: "ReadSingleFrame r = Inr p"
  define size where "size = (of_nat (be_get (take 4 (rd_data r))) :: uint32)"
  have g: "4 \<le> length (rd_data r)" "size \<noteq> 0" "unat size \<le> MaxFramePayloadBytes" "length (drop 4 (rd_data r)) = unat size"
      "rd_clean r" "p = drop 4 (rd_data r)"
    using r unfolding ReadSingleFrame_def Let_def size_def [symmetric] by (auto simp: not_less split: if_splits)
  have "be_get (take 4 (rd_data r)) < 256 ^ 4" using be_get_bound [of "take 4 (rd_data r)"] g(1) by simp
  then have u: "unat size = be_get (take 4 (rd_data r))" by (simp add: size_def unat_of_nat)
  have "be_put 4 (unat size) = take 4 (rd_data r)" using be_put_get [of "take 4 (rd_data r)"] g(1) u by simp
  moreover have "length p = unat size" "p \<noteq> []" using g(2,4,6) by (auto simp: unat_eq_0)
  moreover have "(of_nat (length p) :: uint32) = size" using calculation(2) by simp
  ultimately show "rd_clean r \<and> EncodeFrame p = Inr (rd_data r)"
    using g by (simp add: EncodeFrame_iff)
next
  assume a: "rd_clean r \<and> EncodeFrame p = Inr (rd_data r)"
  then have p: "p \<noteq> []" "length p \<le> MaxFramePayloadBytes"
    and d: "rd_data r = be_put 4 (unat (of_nat (length p) :: uint32)) @ p" by (auto simp: EncodeFrame_iff)
  have z: "(of_nat (length p) :: uint32) \<noteq> 0" using frame_size_word [OF p(2)] p(1) by (metis length_0_conv unat_0)
  have t: "take 4 (rd_data r) = be_put 4 (unat (of_nat (length p) :: uint32))" "drop 4 (rd_data r) = p"
      "length (rd_data r) = 4 + length p" by (simp_all add: d)
  show "ReadSingleFrame r = Inr p"
    unfolding ReadSingleFrame_def Let_def t word_be_put using a p z by (simp add: frame_size_word)
qed

text \<open>No frame is a proper prefix of another.\<close>

lemma encoded_frame_prefix:
  assumes "EncodeFrame p = Inr f"
  shows "EncodeFrame q \<noteq> Inr (f @ b # tail)"
proof
  assume q: "EncodeFrame q = Inr (f @ b # tail)"
  have r: "ReadSingleFrame \<lparr>rd_data = f @ b # tail, rd_clean = True\<rparr> = Inr q" using q by (simp add: ReadSingleFrame_iff)
  have f: "length p \<le> MaxFramePayloadBytes" "f = be_put 4 (unat (of_nat (length p) :: uint32)) @ p" using assms by (auto simp: EncodeFrame_iff)
  have t: "take 4 (f @ b # tail) = be_put 4 (unat (of_nat (length p) :: uint32))" "length (drop 4 (f @ b # tail)) > length p"
    by (simp_all add: f(2))
  from r show False
    unfolding ReadSingleFrame_def Let_def reader.simps t(1) word_be_put using t(2) f(1) by (auto simp: frame_size_word split: if_splits)
qed

text \<open>A frame write that succeeds has written the whole frame, in order.\<close>

lemma write_loop_all: "write_loop writer k frame = (out, Inr ()) \<Longrightarrow> out = frame"
proof (induction writer k frame arbitrary: out rule: write_loop.induct)
  case (1 writer k frame)
  show ?case
  proof (cases "frame = []")
    case False
    obtain n failed where w: "writer k frame = (n, failed)" by (cases "writer k frame")
    have ok: "\<not> n < 0" "\<not> int (length frame) < n" "\<not> failed" "n \<noteq> 0"
      using "1.prems" False by (auto simp: write_loop.simps [of writer k frame] w split: if_splits)
    obtain others r where o: "write_loop writer (Suc k) (drop (nat n) frame) = (others, r)" by fastforce
    have e: "r = Inr ()" "out = take (nat n) frame @ others"
      using "1.prems" False ok by (simp_all add: write_loop.simps [of writer k frame] w o)
    have "others = drop (nat n) frame" using "1.IH" [OF False w [symmetric]] ok o e by auto
    with e show ?thesis by simp
  qed (use "1.prems" in \<open>simp add: write_loop.simps\<close>)
qed

section \<open>Envelopes round-trip\<close>

lemma unmarshal_print: "flat_doc ms \<Longrightarrow> unmarshal specs (json_print (JObj ms)) r = unmarshal_members specs ms r"
  unfolding unmarshal_def by (simp add: flat_doc_parse del: json_print.simps)

lemma decodeRawURLField_encode:
  "d \<noteq> [] \<Longrightarrow> length (b64_encode d) \<le> maxEncodedFieldLength \<Longrightarrow> decodeRawURLField (b64_encode d) = Inr d"
  by (simp add: decodeRawURLField_def b64_decode_encode b64_encode_Nil_iff)

lemma valid_object_nonempty: "validJSONObject v \<Longrightarrow> v \<noteq> []"
  by (auto simp: validJSONObject_def split: if_splits)

lemma valid_object_print: "wf_json (JObj ms) \<Longrightarrow> validJSONObject (json_print (JObj ms))"
  using parse_doc_print [of "JObj ms"] by (simp add: validJSONObject_def)

lemma schema_versions_safe:
  "list_all html_safe RequestEnvelopeSchemaVersion" "list_all html_safe RecoveryRequestSchemaVersion"
  "list_all html_safe ResponseEnvelopeSchemaVersion" "RequestEnvelopeSchemaVersion \<noteq> RecoveryRequestSchemaVersion"
  by (simp_all add: RequestEnvelopeSchemaVersion_def RecoveryRequestSchemaVersion_def ResponseEnvelopeSchemaVersion_def
      html_safe_def byte_in_def byte_val_def)

lemma marshalBoundedEnvelope_iff:
  "marshalBoundedEnvelope ms = Inr payload \<longleftrightarrow> payload = json_print (JObj ms) \<and> length payload \<le> MaxFramePayloadBytes"
  by (auto simp: marshalBoundedEnvelope_def validateFramePayload_def bind_res_Inr_iff Let_def not_less)

lemma string_size: "list_all html_safe s \<Longrightarrow> length s \<le> length (json_quote s)"
  by (simp add: json_quote_length)

lemma member_fits: "(k, v) \<in> set ms \<Longrightarrow> length (json_print v) \<le> length (json_print (JObj ms))"
proof -
  have c: "x \<in> set xs \<Longrightarrow> length x \<le> length (commas xs)" for x :: string and xs
    by (induction xs rule: commas.induct) auto
  assume "(k, v) \<in> set ms"
  then have "length (json_quote k @ CHR '':'' # json_print v) \<le> length (commas (map (\<lambda>m. json_quote (fst m) @ CHR '':'' # json_print (snd m)) ms))"
    by (intro c) (force simp: image_iff)
  then show ?thesis by simp
qed

lemma request_roundtrip:
  assumes "EncodeRequestEnvelope e = Inr payload"
  shows "DecodeRequestEnvelope payload = Inr e"
proof -
  let ?w = "\<lparr>qw_ArtifactB64URL = b64_encode (rq_artifact e), qw_CapabilityJCSB64URL = b64_encode (rq_capabilityJCS e),
         qw_CapabilitySignatureB64URL = b64_encode (rq_capabilitySignature e),
         qw_SchemaVersion = (if rq_recoveryOnly e then RecoveryRequestSchemaVersion else RequestEnvelopeSchemaVersion)\<rparr>"
  have v: "validJSONObject (rq_capabilityJCS e)" "length (rq_capabilitySignature e) = 64" "rq_artifact e \<noteq> []"
    and m: "marshalBoundedEnvelope (request_members ?w) = Inr payload"
    using assms by (auto simp: EncodeRequestEnvelope_def split: if_splits)
  have p: "payload = json_print (JObj (request_members ?w))" "length payload \<le> MaxFramePayloadBytes"
    using m unfolding marshalBoundedEnvelope_iff by blast+
  have f: "flat_doc (request_members ?w)"
    by (simp add: flat_doc_def request_members_def b64_safe schema_versions_safe html_safe_def byte_in_def byte_val_def)
  have u: "unmarshal request_fields payload zero_request_wire = Some ?w"
    unfolding p(1) unmarshal_print [OF f]
    by (simp add: request_members_def request_fields_def zero_request_wire_def find_field_def set_string_def)
  have s: "length (b64_encode x) \<le> maxEncodedFieldLength" if "(k, JStr (b64_encode x)) \<in> set (request_members ?w)" for k x
    using member_fits [OF that] string_size [OF b64_safe, of x] p
    by (simp add: MaxFramePayloadBytes_def maxEncodedFieldLength_def del: json_print.simps) (simp add: b64_safe)
  have d: "decodeRawURLField (b64_encode (rq_artifact e)) = Inr (rq_artifact e)"
      "decodeRawURLField (b64_encode (rq_capabilityJCS e)) = Inr (rq_capabilityJCS e)"
      "decodeRawURLField (b64_encode (rq_capabilitySignature e)) = Inr (rq_capabilitySignature e)"
    using v valid_object_nonempty
    by (auto intro!: decodeRawURLField_encode s simp: request_members_def)
  have "parse_doc payload \<noteq> None" "payload \<noteq> []" using flat_doc_parse [OF f] by (simp_all add: p(1))
  then show ?thesis
    using p v d u schema_versions_safe(4)
    by (simp add: DecodeRequestEnvelope_def newRequestEnvelope_def b64_encode_length not_less [symmetric] del: not_less)
qed

lemma response_roundtrip:
  assumes "EncodeResponseEnvelope e = Inr payload"
  shows "DecodeResponseEnvelope payload = Inr e"
proof -
  let ?w = "\<lparr>pw_ResultJCSB64URL = b64_encode (rp_resultJCS e), pw_ResultSignatureB64URL = b64_encode (rp_resultSignature e),
         pw_SchemaVersion = ResponseEnvelopeSchemaVersion\<rparr>"
  have v: "validJSONObject (rp_resultJCS e)" "length (rp_resultSignature e) = 64"
    and m: "marshalBoundedEnvelope (response_members ?w) = Inr payload"
    using assms by (auto simp: EncodeResponseEnvelope_def split: if_splits)
  have p: "payload = json_print (JObj (response_members ?w))" "length payload \<le> MaxFramePayloadBytes"
    using m unfolding marshalBoundedEnvelope_iff by blast+
  have f: "flat_doc (response_members ?w)"
    by (simp add: flat_doc_def response_members_def b64_safe schema_versions_safe html_safe_def byte_in_def byte_val_def)
  have u: "unmarshal response_fields payload zero_response_wire = Some ?w"
    unfolding p(1) unmarshal_print [OF f]
    by (simp add: response_members_def response_fields_def zero_response_wire_def find_field_def set_string_def)
  have s: "length (b64_encode x) \<le> maxEncodedFieldLength" if "(k, JStr (b64_encode x)) \<in> set (response_members ?w)" for k x
    using member_fits [OF that] string_size [OF b64_safe, of x] p
    by (simp add: MaxFramePayloadBytes_def maxEncodedFieldLength_def del: json_print.simps) (simp add: b64_safe)
  have d: "decodeRawURLField (b64_encode (rp_resultJCS e)) = Inr (rp_resultJCS e)"
      "decodeRawURLField (b64_encode (rp_resultSignature e)) = Inr (rp_resultSignature e)"
    using v valid_object_nonempty
    by (auto intro!: decodeRawURLField_encode s simp: response_members_def)
  have "parse_doc payload \<noteq> None" "payload \<noteq> []" using flat_doc_parse [OF f] by (simp_all add: p(1))
  then show ?thesis
    using p v d u
    by (simp add: DecodeResponseEnvelope_def NewResponseEnvelope_def b64_encode_length not_less [symmetric] del: not_less)
qed

section \<open>Correctness\<close>

text \<open>
  C21: What one side sends is what the other side receives. Whatever the pieces in which the connection takes the
  bytes, when \<open>WriteFrame\<close> reports success the reader of exactly these bytes, cleanly ended, returns the payload; a
  request or response envelope that was encoded into the payload is decoded to the same envelope; a reader that ends
  uncleanly, that gets a byte more, or that gets only a proper prefix returns an error.
\<close>

theorem envelope_exchange:
  assumes "WriteFrame writer payload = (out, Inr ())"
  shows "ReadSingleFrame \<lparr>rd_data = out, rd_clean = True\<rparr> = Inr payload \<and>
    (\<forall>q. EncodeRequestEnvelope q = Inr payload \<longrightarrow> DecodeRequestEnvelope payload = Inr q) \<and>
    (\<forall>p. EncodeResponseEnvelope p = Inr payload \<longrightarrow> DecodeResponseEnvelope payload = Inr p) \<and>
    (\<forall>received. ReadSingleFrame \<lparr>rd_data = out, rd_clean = False\<rparr> \<noteq> Inr received) \<and>
    (\<forall>b tail clean received. ReadSingleFrame \<lparr>rd_data = out @ b # tail, rd_clean = clean\<rparr> \<noteq> Inr received) \<and>
    (\<forall>n clean received. n < length out \<longrightarrow> ReadSingleFrame \<lparr>rd_data = take n out, rd_clean = clean\<rparr> \<noteq> Inr received)"
proof -
  obtain frame where f: "EncodeFrame payload = Inr frame" "write_loop writer 0 frame = (out, Inr ())"
    using assms by (auto simp: WriteFrame_def split: sum.splits)
  then have out: "EncodeFrame payload = Inr out" using write_loop_all by blast
  have "\<not> EncodeFrame received = Inr (out @ b # tail)" for received b tail
    using encoded_frame_prefix [OF out] by blast
  moreover have "\<not> EncodeFrame received = Inr (take n out)" if "n < length out" for received n
  proof
    assume e: "EncodeFrame received = Inr (take n out)"
    have "out = take n out @ out ! n # drop (Suc n) out" using that by (simp add: id_take_nth_drop)
    then show False using encoded_frame_prefix [OF e] out by metis
  qed
  ultimately show ?thesis using out request_roundtrip response_roundtrip by (simp add: ReadSingleFrame_iff)
qed

definition sample_request :: request_envelope where
  "sample_request = \<lparr>rq_capabilityJCS = ''{}'', rq_capabilitySignature = replicate 64 CHR ''s'', rq_artifact = ''a'', rq_recoveryOnly = False\<rparr>"

definition sample_request_bytes :: bytes where
  "sample_request_bytes = json_print (JObj (request_members \<lparr>qw_ArtifactB64URL = b64_encode ''a'', qw_CapabilityJCSB64URL = b64_encode ''{}'',
     qw_CapabilitySignatureB64URL = b64_encode (replicate 64 CHR ''s''), qw_SchemaVersion = RequestEnvelopeSchemaVersion\<rparr>))"

text \<open>A connection that takes at most 100 bytes at a time.\<close>

definition slow_writer :: writer where
  "slow_writer k bs = (int (min 100 (length bs)), False)"

lemma sample_written:
  "EncodeRequestEnvelope sample_request = Inr sample_request_bytes"
  "map_prod length id (WriteFrame slow_writer sample_request_bytes) = (4 + length sample_request_bytes, Inr ())"
  by code_simp+

theorem envelope_exchange_witness:
  "\<exists>out. WriteFrame slow_writer sample_request_bytes = (out, Inr ()) \<and>
     ReadSingleFrame \<lparr>rd_data = out, rd_clean = True\<rparr> = Inr sample_request_bytes \<and>
     DecodeRequestEnvelope sample_request_bytes = Inr sample_request"
proof -
  obtain out where w: "WriteFrame slow_writer sample_request_bytes = (out, Inr ())"
    using sample_written(2) by (cases "WriteFrame slow_writer sample_request_bytes") auto
  from envelope_exchange [OF w] sample_written(1) w show ?thesis by blast
qed

section \<open>Line breaks\<close>

text \<open>
  The decoder of base64 skips line breaks, also when it is strict, and the envelope is compared with the encoding of
  its fields, not of the decoded bytes: a line break inside a field is accepted, although the result is encoded
  without it. The signature field is exempt, its text has a fixed length.
\<close>

definition line_break_payload :: bytes where
  "line_break_payload = json_print (JObj (request_members
     \<lparr>qw_ArtifactB64URL = [CHR ''Y'', CHR 0x0A, CHR ''Q''], qw_CapabilityJCSB64URL = ''e30'',
      qw_CapabilitySignatureB64URL = replicate 86 CHR ''A'', qw_SchemaVersion = RequestEnvelopeSchemaVersion\<rparr>))"

lemma line_break_accepted:
  "DecodeRequestEnvelope line_break_payload =
     Inr \<lparr>rq_capabilityJCS = ''{}'', rq_capabilitySignature = replicate 64 CHR 0x00, rq_artifact = ''a'', rq_recoveryOnly = False\<rparr> \<and>
   EncodeRequestEnvelope \<lparr>rq_capabilityJCS = ''{}'', rq_capabilitySignature = replicate 64 CHR 0x00, rq_artifact = ''a'',
     rq_recoveryOnly = False\<rparr> \<noteq> Inr line_break_payload"
  by code_simp

end
