(* ===== verification/Executor.thy ===== *)
theory Executor
  imports Journal_Once Ipc Canonical_Lines Nft_Candidate
begin

text \<open>
  \<open>internal/enforcement/executor\<close>: the isolated executor service (\<open>service.go\<close>, \<open>result.go\<close>,
  \<open>runner.go\<close>). A request runs in a state monad with errors over the world: the open journal, the calls
  made to the nftables runner so far, and a counter of the questions asked of the environment. The environment
  answers every question by its number: the clock, whether the context has ended, what the file system does during
  an append, random bytes, and what the runner reports. At any question the process can also be killed, and then
  nothing more of the request happens. Every sequence of answers is possible, so theorems over all environments
  cover every runner, clock, scheduler and crash. The gate that serialises requests makes each of them one step. The executor's main opens the journal with the verifiers of the service (\<open>cmd/executor/runtime.go\<close>).
\<close>

section \<open>Errors, the environment and the world (errors.go, runner.go)\<close>

datatype exec_error =
    XErrorConfiguration | XErrorRequest | XErrorCapability | XErrorArtifact | XErrorSchema | XErrorReplay
  | XErrorFreshness | XErrorTargetState | XErrorJournal | XErrorRunner | XErrorDeadline | XErrorResult
  | XErrorResultSigning | XErrorResultDurability

definition MaxOperationDuration :: duration where "MaxOperationDuration = MaxDeadline"

definition PinnedLiveSchemaDigest :: string where
  "PinnedLiveSchemaDigest = ''sha256:d5582a75817d349b12f292d212483bb0c2a5db66afde7d73c6d11050a5eb5997''"

record mutation =
  mu_operation :: string
  mu_stdin :: bytes

record inspection =
  in_actionID :: string
  in_targetIPv4 :: string
  in_originalAddDigest :: string
  in_ownedSchemaDigest :: string

record observation =
  ob_State :: string
  ob_TargetIPv4 :: string
  ob_OwnedSchemaDigest :: string
  ob_RemainingTTLSeconds :: uint64

datatype runner_call = RunMutate mutation | RunInspect inspection

text \<open>A mutation is answered by an exit class and whether it failed, an inspection by an observation or a failure.\<close>

record exec_env =
  ev_killed :: "nat \<Rightarrow> bool"
  ev_clock :: "nat \<Rightarrow> gotime"
  ev_wall :: "nat \<Rightarrow> gotime"
  ev_ctxErr :: "nat \<Rightarrow> bool"
  ev_io :: "nat \<Rightarrow> append_io"
  ev_random :: "nat \<Rightarrow> bytes option"
  ev_mutate :: "nat \<Rightarrow> string \<times> bool"
  ev_inspect :: "nat \<Rightarrow> observation option"

record exec_world =
  ew_tick :: nat
  ew_journal :: journal
  ew_calls :: "runner_call list"

record executor_service =
  sv_verifier :: capability_verifier
  sv_signer :: result_signer
  sv_resultVerifier :: result_verifier
  sv_dispatchKeyID :: string

text \<open>A program returns a value, an error, or nothing when the process is killed.\<close>

type_synonym 'a run = "exec_world \<Rightarrow> (exec_error + 'a) option \<times> exec_world"

definition pure_run :: "'a \<Rightarrow> 'a run" where
  "pure_run x w = (Some (Inr x), w)"

definition reject_run :: "exec_error \<Rightarrow> 'a run" where
  "reject_run e w = (Some (Inl e), w)"

definition bind_run :: "'a run \<Rightarrow> ('a \<Rightarrow> 'b run) \<Rightarrow> 'b run" where
  "bind_run m f w =
     (case m w of
        (None, w') \<Rightarrow> (None, w')
      | (Some (Inl e), w') \<Rightarrow> (Some (Inl e), w')
      | (Some (Inr x), w') \<Rightarrow> f x w')"

definition lift_run :: "exec_error + 'a \<Rightarrow> 'a run" where
  "lift_run r w = (Some r, w)"

text \<open>The number of the next question, unless the process dies here.\<close>

definition question :: "exec_env \<Rightarrow> nat run" where
  "question env w =
     (if ev_killed env (ew_tick w) then (None, w)
      else (Some (Inr (ew_tick w)), w\<lparr>ew_tick := Suc (ew_tick w)\<rparr>))"

definition ask :: "exec_env \<Rightarrow> (nat \<Rightarrow> 'a) \<Rightarrow> 'a run" where
  "ask env f = bind_run (question env) (\<lambda>n. pure_run (f n))"

definition log_call :: "runner_call \<Rightarrow> unit run" where
  "log_call c w = (Some (Inr ()), w\<lparr>ew_calls := ew_calls w @ [c]\<rparr>)"

definition call_runner :: "exec_env \<Rightarrow> runner_call \<Rightarrow> (nat \<Rightarrow> 'a) \<Rightarrow> 'a run" where
  "call_runner env c f = bind_run (question env) (\<lambda>n. bind_run (log_call c) (\<lambda>_. pure_run (f n)))"

text \<open>An operation of the journal, which changes it and may fail.\<close>

definition use_journal :: "(journal \<Rightarrow> journal \<times> (exec_error + 'a)) \<Rightarrow> 'a run" where
  "use_journal f w = (case f (ew_journal w) of (j, r) \<Rightarrow> (Some r, w\<lparr>ew_journal := j\<rparr>))"

section \<open>Time and contexts (service.go)\<close>

definition Truncate :: "gotime \<Rightarrow> duration \<Rightarrow> gotime" where
  "Truncate t d = (if d \<le> 0 then t else t - t mod d)"

definition now :: "exec_env \<Rightarrow> gotime run" where
  "now env = bind_run (ask env (ev_clock env)) (\<lambda>t. pure_run (Truncate t Millisecond))"

text \<open>A context is its deadline, if it has one. \<open>WithTimeout\<close> keeps the parent's when that is earlier.\<close>

type_synonym exec_ctx = "gotime option"

definition WithTimeout :: "exec_env \<Rightarrow> exec_ctx \<Rightarrow> duration \<Rightarrow> exec_ctx run" where
  "WithTimeout env ctx d = bind_run (ask env (ev_wall env)) (\<lambda>t.
     pure_run (case ctx of None \<Rightarrow> Some (t + d) | Some p \<Rightarrow> if p < t + d then Some p else Some (t + d)))"

definition checkFreshValue :: "cap_value \<Rightarrow> gotime \<Rightarrow> exec_error + unit" where
  "checkFreshValue v t =
     (if val_Operation v \<noteq> OperationAdd \<and> val_Operation v \<noteq> OperationRevoke \<and> val_Operation v \<noteq> OperationInspect
      then Inl XErrorCapability
      else if t = 0 \<or> t < val_IssuedAt v \<or> t < val_NotBefore v \<or> \<not> t < val_ExpiresAt v then Inl XErrorFreshness
      else Inr ())"

definition deadline_of :: "exec_ctx \<Rightarrow> gotime \<Rightarrow> gotime \<Rightarrow> gotime" where
  "deadline_of ctx t expiresAt =
     (let deadline = t + MaxOperationDuration;
          deadline = (if expiresAt < deadline then expiresAt else deadline);
          deadline = (case ctx of
              None \<Rightarrow> deadline
            | Some c \<Rightarrow> if c < deadline then Truncate c Millisecond else deadline)
      in Truncate deadline Millisecond)"

definition operationDeadline :: "exec_env \<Rightarrow> exec_ctx \<Rightarrow> gotime \<Rightarrow> gotime \<Rightarrow> gotime run" where
  "operationDeadline env ctx t expiresAt = bind_run (ask env (ev_ctxErr env)) (\<lambda>ended.
     if ended then reject_run XErrorDeadline
     else let deadline = deadline_of ctx t expiresAt in
       if \<not> t < deadline \<or> MaxOperationDuration < Sub deadline t then reject_run XErrorDeadline
       else pure_run deadline)"

text \<open>\<open>acquire\<close>: the context can end before, during and just after the wait for the gate.\<close>

definition acquire :: "exec_env \<Rightarrow> unit run" where
  "acquire env = bind_run (ask env (ev_ctxErr env)) (\<lambda>before.
     if before then reject_run XErrorDeadline
     else bind_run (ask env (ev_ctxErr env)) (\<lambda>waiting.
       if waiting then reject_run XErrorDeadline
       else bind_run (ask env (ev_ctxErr env)) (\<lambda>after.
         if after then reject_run XErrorDeadline else pure_run ())))"

definition exactDigest :: "bytes \<Rightarrow> string \<Rightarrow> bool" where
  "exactDigest data expected \<longleftrightarrow> expected = ''sha256:'' @ hex_encode (sha256 data)"

definition newUUIDv4 :: "bytes \<Rightarrow> string" where
  "newUUIDv4 b =
     (let b = b[6 := mask_byte 0x0F 0x40 (b ! 6)]; b = b[8 := mask_byte 0x3F 0x80 (b ! 8)]
      in hex_encode (take 4 b) @ ''-'' @ hex_encode (take 2 (drop 4 b)) @ ''-'' @ hex_encode (take 2 (drop 6 b)) @ ''-'' @
         hex_encode (take 2 (drop 8 b)) @ ''-'' @ hex_encode (take 6 (drop 10 b)))"

definition classifyJournal :: "journal_error \<Rightarrow> exec_error" where
  "classifyJournal e = (if e = JErrorConflict then XErrorReplay else XErrorJournal)"

section \<open>Observations (runner.go, result.go)\<close>

definition inspectionFor :: "cap_value \<Rightarrow> inspection" where
  "inspectionFor v = \<lparr>in_actionID = val_ActionID v, in_targetIPv4 = val_TargetIPv4 v,
     in_originalAddDigest = val_OriginalAddDigest v, in_ownedSchemaDigest = val_OwnedSchemaDigest v\<rparr>"

definition mismatchObservation :: "inspection \<Rightarrow> observation" where
  "mismatchObservation i = \<lparr>ob_State = ReadbackMismatch, ob_TargetIPv4 = in_targetIPv4 i,
     ob_OwnedSchemaDigest = in_ownedSchemaDigest i, ob_RemainingTTLSeconds = 0\<rparr>"

definition unavailableObservation :: "inspection \<Rightarrow> observation" where
  "unavailableObservation i = \<lparr>ob_State = ReadbackUnavailable, ob_TargetIPv4 = in_targetIPv4 i,
     ob_OwnedSchemaDigest = in_ownedSchemaDigest i, ob_RemainingTTLSeconds = 0\<rparr>"

text \<open>\<open>zero_observation\<close> is the preflight of an operation that has none.\<close>

definition zero_observation :: observation where
  "zero_observation = \<lparr>ob_State = [], ob_TargetIPv4 = [], ob_OwnedSchemaDigest = [], ob_RemainingTTLSeconds = 0\<rparr>"

definition validateObservation :: "observation \<Rightarrow> inspection \<Rightarrow> uint64 \<Rightarrow> observation \<times> bool" where
  "validateObservation obs i maximumTTL =
     (if ob_TargetIPv4 obs \<noteq> in_targetIPv4 i \<or> ob_OwnedSchemaDigest obs \<noteq> in_ownedSchemaDigest i
      then (mismatchObservation i, False)
      else if ob_State obs = ReadbackActive then
        if ob_RemainingTTLSeconds obs = 0 \<or> ucast nft_MaxTTLSeconds < ob_RemainingTTLSeconds obs \<or>
           (maximumTTL \<noteq> 0 \<and> maximumTTL < ob_RemainingTTLSeconds obs) then (mismatchObservation i, False)
        else (obs, True)
      else if ob_State obs = ReadbackAbsent \<or> ob_State obs = ReadbackMismatch \<or> ob_State obs = ReadbackUnavailable then
        if ob_RemainingTTLSeconds obs \<noteq> 0 then (mismatchObservation i, False) else (obs, True)
      else (mismatchObservation i, False))"

text \<open>\<open>inspect\<close> returns an observation in every case, and an error beside it.\<close>

definition inspect :: "exec_env \<Rightarrow> inspection \<Rightarrow> uint64 \<Rightarrow> (observation \<times> exec_error option) run" where
  "inspect env request maximumTTL = bind_run (call_runner env (RunInspect request) (ev_inspect env)) (\<lambda>answer.
     case answer of
       None \<Rightarrow> bind_run (ask env (ev_ctxErr env)) (\<lambda>ended.
         pure_run (unavailableObservation request, Some (if ended then XErrorDeadline else XErrorRunner)))
     | Some obs \<Rightarrow> (case validateObservation obs request maximumTTL of
         (checked, valid) \<Rightarrow> pure_run (checked, if valid then None else Some XErrorTargetState)))"

definition classifyMutation :: "bool \<Rightarrow> string \<times> bool \<Rightarrow> string" where
  "classifyMutation ended answer =
     (case answer of (exit, failed) \<Rightarrow>
      if ended then NFTExitTimeout
      else if exit = NFTExitSuccess then (if \<not> failed then NFTExitSuccess else NFTExitNonzero)
      else if exit = NFTExitNonzero \<or> exit = NFTExitTimeout \<or> exit = NFTExitSignaled then exit
      else NFTExitNonzero)"

definition mutate :: "exec_env \<Rightarrow> mutation \<Rightarrow> string run" where
  "mutate env m = bind_run (call_runner env (RunMutate m) (ev_mutate env)) (\<lambda>answer.
     bind_run (ask env (ev_ctxErr env)) (\<lambda>ended. pure_run (classifyMutation ended answer)))"

section \<open>Results (result.go)\<close>

definition baseResult :: "cap_value \<Rightarrow> exec_result" where
  "baseResult v = \<lparr>rs_ResultID = [], rs_CapabilityID = [], rs_CapabilityDigest = [], rs_Operation = val_Operation v,
     rs_ActionID = [], rs_ArtifactDigest = [], rs_TargetIPv4 = [], rs_Classification = ClassificationIndeterminate,
     rs_NFTExitClass = None, rs_ReadbackState = ReadbackUnavailable, rs_ElementHandle = None,
     rs_RemainingTTLSeconds = None, rs_OwnedSchemaDigest = [], rs_StartedAt = 0, rs_CompletedAt = 0,
     rs_JournalSequence = 0, rs_ErrorCode = ResultErrorIndeterminate\<rparr>"

definition applyObservation :: "exec_result \<Rightarrow> observation \<Rightarrow> exec_result" where
  "applyObservation r obs =
     (if ob_State obs \<noteq> ReadbackActive
      then r\<lparr>rs_ReadbackState := ob_State obs, rs_ElementHandle := None, rs_RemainingTTLSeconds := None\<rparr>
      else r\<lparr>rs_ReadbackState := ob_State obs, rs_ElementHandle := None,
             rs_RemainingTTLSeconds := Some (ob_RemainingTTLSeconds obs)\<rparr>)"

definition classified :: "exec_result \<Rightarrow> string \<Rightarrow> string \<Rightarrow> exec_result" where
  "classified r c code = r\<lparr>rs_Classification := c, rs_ErrorCode := code\<rparr>"

definition addResult :: "cap_value \<Rightarrow> string \<Rightarrow> observation \<Rightarrow> exec_error option \<Rightarrow> exec_result" where
  "addResult v exit obs inspectErr =
     (let r = applyObservation ((baseResult v)\<lparr>rs_NFTExitClass := Some exit\<rparr>) obs in
      if exit = NFTExitSuccess \<and> inspectErr = None \<and> ob_State obs = ReadbackActive
      then classified r ClassificationApplied ResultErrorNone
      else if ob_State obs = ReadbackMismatch then classified r ClassificationIndeterminate ResultErrorReadbackMismatch
      else if inspectErr \<noteq> None \<or> ob_State obs = ReadbackUnavailable
      then classified r ClassificationIndeterminate ResultErrorReadbackFailed
      else if ob_State obs = ReadbackActive \<and> exit \<noteq> NFTExitSuccess
      then classified r ClassificationIndeterminate
        (if exit = NFTExitTimeout then ResultErrorDeadlineExceeded else ResultErrorNFTFailed)
      else if exit = NFTExitTimeout then classified r ClassificationFailed ResultErrorDeadlineExceeded
      else if exit \<noteq> NFTExitSuccess then classified r ClassificationFailed ResultErrorNFTFailed
      else classified r ClassificationFailed ResultErrorReadbackFailed)"

definition revokeResult :: "cap_value \<Rightarrow> string \<Rightarrow> observation \<Rightarrow> exec_error option \<Rightarrow> exec_result" where
  "revokeResult v exit obs inspectErr =
     (let r = applyObservation ((baseResult v)\<lparr>rs_NFTExitClass := Some exit\<rparr>) obs in
      if exit = NFTExitSuccess \<and> inspectErr = None \<and> ob_State obs = ReadbackAbsent
      then classified r ClassificationRevoked ResultErrorNone
      else if ob_State obs = ReadbackMismatch then classified r ClassificationIndeterminate ResultErrorReadbackMismatch
      else if inspectErr \<noteq> None \<or> ob_State obs = ReadbackUnavailable
      then classified r ClassificationIndeterminate ResultErrorReadbackFailed
      else if ob_State obs = ReadbackAbsent \<and> exit \<noteq> NFTExitSuccess
      then classified r ClassificationIndeterminate
        (if exit = NFTExitTimeout then ResultErrorDeadlineExceeded else ResultErrorNFTFailed)
      else if exit = NFTExitTimeout then classified r ClassificationFailed ResultErrorDeadlineExceeded
      else if exit \<noteq> NFTExitSuccess then classified r ClassificationFailed ResultErrorNFTFailed
      else classified r ClassificationFailed ResultErrorReadbackFailed)"

definition revokedResult :: "cap_value \<Rightarrow> string \<Rightarrow> exec_result" where
  "revokedResult v exit = classified ((baseResult v)\<lparr>rs_NFTExitClass := Some exit, rs_ReadbackState := ReadbackAbsent\<rparr>)
     ClassificationRevoked ResultErrorNone"

text \<open>The context is asked only after a failed inspection.\<close>

definition inspectResult :: "exec_env \<Rightarrow> cap_value \<Rightarrow> observation \<Rightarrow> exec_error option \<Rightarrow> exec_result run" where
  "inspectResult env v obs inspectErr =
     bind_run (if inspectErr = None then pure_run NFTExitSuccess
       else bind_run (ask env (ev_ctxErr env)) (\<lambda>ended. pure_run (if ended then NFTExitTimeout else NFTExitNonzero)))
     (\<lambda>exit. let r = applyObservation ((baseResult v)\<lparr>rs_NFTExitClass := Some exit\<rparr>) obs in
       pure_run
         (if inspectErr \<noteq> None then classified r ClassificationIndeterminate ResultErrorReadbackFailed
          else if ob_State obs = ReadbackActive then classified r ClassificationInspectActive ResultErrorNone
          else if ob_State obs = ReadbackAbsent then classified r ClassificationInspectAbsent ResultErrorNone
          else if ob_State obs = ReadbackMismatch then classified r ClassificationInspectMismatch ResultErrorNone
          else classified r ClassificationIndeterminate ResultErrorReadbackFailed))"

definition recoveredAddResult :: "cap_value \<Rightarrow> observation \<Rightarrow> exec_error option \<Rightarrow> exec_result" where
  "recoveredAddResult v obs inspectErr =
     (let r = applyObservation ((baseResult v)\<lparr>rs_NFTExitClass := Some NFTExitNotInvoked\<rparr>) obs in
      if inspectErr = None \<and> ob_State obs = ReadbackActive
      then classified r ClassificationRecoveredActive ResultErrorNone
      else if ob_State obs = ReadbackMismatch then r\<lparr>rs_ErrorCode := ResultErrorReadbackMismatch\<rparr>
      else if inspectErr \<noteq> None \<or> ob_State obs = ReadbackUnavailable then r\<lparr>rs_ErrorCode := ResultErrorReadbackFailed\<rparr>
      else r\<lparr>rs_ErrorCode := ResultErrorIndeterminate\<rparr>)"

definition recoveredRevokeResult :: "cap_value \<Rightarrow> observation \<Rightarrow> exec_error option \<Rightarrow> exec_result" where
  "recoveredRevokeResult v obs inspectErr =
     (let r = applyObservation ((baseResult v)\<lparr>rs_NFTExitClass := Some NFTExitNotInvoked\<rparr>) obs in
      if inspectErr = None \<and> ob_State obs = ReadbackAbsent then classified r ClassificationRevoked ResultErrorNone
      else if ob_State obs = ReadbackMismatch then r\<lparr>rs_ErrorCode := ResultErrorReadbackMismatch\<rparr>
      else if inspectErr \<noteq> None \<or> ob_State obs = ReadbackUnavailable then r\<lparr>rs_ErrorCode := ResultErrorReadbackFailed\<rparr>
      else r)"

definition terminalFailure :: "cap_value \<Rightarrow> string \<Rightarrow> observation \<Rightarrow> string \<Rightarrow> exec_result" where
  "terminalFailure v exit obs code = (baseResult v)\<lparr>rs_Classification := ClassificationFailed, rs_NFTExitClass := Some exit,
     rs_ErrorCode := code, rs_ReadbackState := ob_State obs\<rparr>"

section \<open>Finishing a request (result.go)\<close>

text \<open>The authority to sign a result: a permit of a new request or the recovery of an old one.\<close>

datatype result_authority = PermitAuthority permit | RecoveryAuthority recovery

definition authority_capability :: "result_authority \<Rightarrow> verified_capability" where
  "authority_capability a = (case a of PermitAuthority p \<Rightarrow> pm_verified p | RecoveryAuthority r \<Rightarrow> rc_verified r)"

definition SignResult :: "ed25519 \<Rightarrow> result_authority \<Rightarrow> result_signer \<Rightarrow> checked_result \<Rightarrow> signed_result option" where
  "SignResult ed a signer checked =
     (case a of
        PermitAuthority p \<Rightarrow> (case PermitSignResult ed p signer checked of Inl _ \<Rightarrow> None | Inr s \<Rightarrow> Some s)
      | RecoveryAuthority r \<Rightarrow> (case RecoverySignResult ed r signer checked of Inl _ \<Rightarrow> None | Inr s \<Rightarrow> Some s))"

definition journal_complete ::
  "ed25519 \<Rightarrow> executor_service \<Rightarrow> exec_env \<Rightarrow> signed_result \<Rightarrow> (terminal_snapshot \<times> bool) run" where
  "journal_complete ed sv env s = bind_run (question env) (\<lambda>n. use_journal (\<lambda>j.
     apsnd (map_sum (\<lambda>_. XErrorResultDurability) id) (Complete ed (sv_resultVerifier sv) (ev_io env n) s j)))"

definition bound_value :: "exec_result \<Rightarrow> string \<Rightarrow> started_snapshot \<Rightarrow> cap_value \<Rightarrow> exec_result" where
  "bound_value r identifier started v =
     r\<lparr>rs_ResultID := identifier, rs_CapabilityID := val_CapabilityID v,
       rs_CapabilityDigest := ss_CapabilityDigest started, rs_Operation := val_Operation v,
       rs_ActionID := val_ActionID v, rs_ArtifactDigest := val_ArtifactDigest v,
       rs_TargetIPv4 := val_TargetIPv4 v, rs_OwnedSchemaDigest := val_OwnedSchemaDigest v,
       rs_JournalSequence := ss_Sequence started\<rparr>"

definition finishPrepared ::
  "ed25519 \<Rightarrow> executor_service \<Rightarrow> exec_env \<Rightarrow> started_snapshot \<Rightarrow> result_authority \<Rightarrow> exec_result \<Rightarrow> signed_result run" where
  "finishPrepared ed sv env started authority r =
     bind_run (ask env (ev_random env)) (\<lambda>random.
       case random of
         None \<Rightarrow> reject_run XErrorResult
       | Some b \<Rightarrow>
           (case CheckResult (bound_value r (newUUIDv4 b) started (vc_value (authority_capability authority))) of
              Inl _ \<Rightarrow> reject_run XErrorResult
            | Inr checked \<Rightarrow>
                (case SignResult ed authority (sv_signer sv) checked of
                   None \<Rightarrow> reject_run XErrorResultSigning
                 | Some s \<Rightarrow> bind_run (journal_complete ed sv env s) (\<lambda>(terminal, appended).
                     pure_run (if \<not> appended then ts_signed terminal else s)))))"

definition finish ::
  "ed25519 \<Rightarrow> executor_service \<Rightarrow> exec_env \<Rightarrow> started_snapshot \<Rightarrow> result_authority \<Rightarrow> exec_result \<Rightarrow> signed_result run" where
  "finish ed sv env started authority r =
     bind_run (now env) (\<lambda>completed. bind_run (ask env (ev_ctxErr env)) (\<lambda>ended.
       let r = r\<lparr>rs_StartedAt := ss_ReceivedAt started, rs_CompletedAt := completed\<rparr>;
           r = (if ended \<or> ss_DeadlineAt started < completed
                then classified r ClassificationIndeterminate ResultErrorDeadlineExceeded else r)
       in finishPrepared ed sv env started authority r))"

section \<open>Executing a permit and recovering (result.go)\<close>

text \<open>The permit is a pointer: later uses see the one that \<open>Take\<close> returns.\<close>

definition execute ::
  "ed25519 \<Rightarrow> executor_service \<Rightarrow> exec_env \<Rightarrow> started_snapshot \<Rightarrow> permit \<Rightarrow> observation \<Rightarrow> signed_result run" where
  "execute ed sv env started permit preflight =
     (let v = vc_value (pm_verified permit) in
      bind_run (now env) (\<lambda>t.
        if val_Operation v = OperationAdd then
          (case TakeAddAt permit t of
             (p, Inl _) \<Rightarrow> finish ed sv env started (PermitAuthority p)
               (terminalFailure v NFTExitNotInvoked preflight ResultErrorDeadlineExceeded)
           | (p, Inr executable) \<Rightarrow>
               if ob_State preflight = ReadbackActive then
                 finish ed sv env started (PermitAuthority p)
                   (terminalFailure v NFTExitNotInvoked preflight ResultErrorTargetExists)
               else bind_run (mutate env \<lparr>mu_operation = OperationAdd, mu_stdin = CanonicalCommand executable\<rparr>) (\<lambda>exit.
                 bind_run (inspect env (inspectionFor v) (ucast (TTLSeconds executable))) (\<lambda>(obs, inspectErr).
                   finish ed sv env started (PermitAuthority p) (addResult v exit obs inspectErr))))
        else if val_Operation v = OperationRevoke then
          (case TakeRevokeAt permit t of
             (p, Inl _) \<Rightarrow> finish ed sv env started (PermitAuthority p)
               (terminalFailure v NFTExitNotInvoked preflight ResultErrorDeadlineExceeded)
           | (p, Inr executable) \<Rightarrow>
               if ob_State preflight = ReadbackAbsent then
                 finish ed sv env started (PermitAuthority p) (revokedResult v NFTExitNotInvoked)
               else bind_run (mutate env \<lparr>mu_operation = OperationRevoke, mu_stdin = CanonicalDelete executable\<rparr>) (\<lambda>exit.
                 bind_run (inspect env (inspectionFor v) 0) (\<lambda>(obs, inspectErr).
                   finish ed sv env started (PermitAuthority p) (revokeResult v exit obs inspectErr))))
        else if val_Operation v = OperationInspect then
          (case TakeInspectAt permit t of
             (p, Inl _) \<Rightarrow> finish ed sv env started (PermitAuthority p)
               (terminalFailure v NFTExitNotInvoked (unavailableObservation (inspectionFor v)) ResultErrorDeadlineExceeded)
           | (p, Inr _) \<Rightarrow>
               bind_run (inspect env (inspectionFor v) 0) (\<lambda>(obs, inspectErr).
                 bind_run (inspectResult env v obs inspectErr) (\<lambda>r.
                   finish ed sv env started (PermitAuthority p) r)))
        else reject_run XErrorCapability))"

definition recovered_result ::
  "exec_env \<Rightarrow> cap_value \<Rightarrow> observation \<Rightarrow> exec_error option \<Rightarrow> exec_result run" where
  "recovered_result env v obs inspectErr =
     (if val_Operation v = OperationAdd then pure_run (recoveredAddResult v obs inspectErr)
      else if val_Operation v = OperationRevoke then pure_run (recoveredRevokeResult v obs inspectErr)
      else if val_Operation v = OperationInspect then inspectResult env v obs inspectErr
      else reject_run XErrorCapability)"

definition maximum_ttl :: "verified_capability \<Rightarrow> exec_error + uint64" where
  "maximum_ttl c =
     (if val_Operation (vc_value c) = OperationAdd then
        (case ExpectedAddTTLSeconds c of
           None \<Rightarrow> Inl XErrorJournal
         | Some n \<Rightarrow> if n = 0 then Inl XErrorJournal else Inr (ucast n))
      else Inr 0)"

definition recover ::
  "ed25519 \<Rightarrow> executor_service \<Rightarrow> exec_env \<Rightarrow> exec_ctx \<Rightarrow> outcome \<Rightarrow> signed_result run" where
  "recover ed sv env ctx out =
     (case (oc_recovery out, oc_started out) of
        (Some recovery, Some started) \<Rightarrow>
          let v = vc_value (rc_verified recovery) in
          bind_run (now env) (\<lambda>startedAt.
          bind_run (operationDeadline env ctx startedAt (startedAt + MaxOperationDuration)) (\<lambda>deadlineAt.
          bind_run (WithTimeout env ctx (Sub deadlineAt startedAt)) (\<lambda>recoveryCtx.
          bind_run (lift_run (maximum_ttl (rc_verified recovery))) (\<lambda>maximumTTL.
          bind_run (inspect env (inspectionFor v) maximumTTL) (\<lambda>(obs, inspectErr).
          bind_run (recovered_result env v obs inspectErr) (\<lambda>r.
          bind_run (now env) (\<lambda>completedAt.
          bind_run (ask env (ev_ctxErr env)) (\<lambda>ended.
            let r = r\<lparr>rs_StartedAt := startedAt, rs_CompletedAt := completedAt\<rparr>;
                r = (if ended \<or> deadlineAt < completedAt
                     then classified r ClassificationIndeterminate ResultErrorDeadlineExceeded else r)
            in finishPrepared ed sv env started (RecoveryAuthority recovery) r))))))))
      | _ \<Rightarrow> reject_run XErrorJournal)"

section \<open>Requests (service.go)\<close>

definition journal_lookup :: "ed25519 \<Rightarrow> executor_service \<Rightarrow> signed_capability \<Rightarrow> outcome run" where
  "journal_lookup ed sv s = use_journal (\<lambda>j. (j, map_sum classifyJournal id (Lookup ed (sv_verifier sv) s j)))"

definition journal_begin ::
  "ed25519 \<Rightarrow> executor_service \<Rightarrow> exec_env \<Rightarrow> signed_capability \<Rightarrow> gotime \<Rightarrow> gotime \<Rightarrow> outcome run" where
  "journal_begin ed sv env s receivedAt deadlineAt = bind_run (question env) (\<lambda>n. use_journal (\<lambda>j.
     apsnd (map_sum classifyJournal id) (Begin ed (sv_verifier sv) (ev_io env n) s receivedAt deadlineAt j)))"

definition terminal_result :: "outcome \<Rightarrow> signed_result run" where
  "terminal_result out = (case oc_terminal out of None \<Rightarrow> reject_run XErrorJournal | Some t \<Rightarrow> pure_run (ts_signed t))"

definition preflight_inspect :: "exec_env \<Rightarrow> cap_value \<Rightarrow> observation run" where
  "preflight_inspect env v =
     (if val_Operation v = OperationAdd \<or> val_Operation v = OperationRevoke then
        bind_run (inspect env (inspectionFor v) 0) (\<lambda>(obs, err).
          case err of
            Some e \<Rightarrow> reject_run e
          | None \<Rightarrow> if ob_State obs = ReadbackMismatch \<or> ob_State obs = ReadbackUnavailable
                     then reject_run XErrorTargetState else pure_run obs)
      else pure_run zero_observation)"

text \<open>What follows \<open>Journal.Begin\<close>.\<close>

definition begun ::
  "ed25519 \<Rightarrow> executor_service \<Rightarrow> exec_env \<Rightarrow> exec_ctx \<Rightarrow> observation \<Rightarrow> outcome \<Rightarrow> signed_result run" where
  "begun ed sv env ctx preflight out =
     (case oc_state out of
        StateTerminal \<Rightarrow> terminal_result out
      | StateStartedOnly \<Rightarrow> recover ed sv env ctx out
      | StateNewStarted \<Rightarrow>
          (case (oc_permit out, oc_started out) of
             (Some p, Some started) \<Rightarrow> execute ed sv env started p preflight
           | _ \<Rightarrow> reject_run XErrorJournal)
      | StateUnseen \<Rightarrow> reject_run XErrorJournal)"

definition processUnseen ::
  "ed25519 \<Rightarrow> executor_service \<Rightarrow> exec_env \<Rightarrow> exec_ctx \<Rightarrow> signed_capability \<Rightarrow> verified_capability \<Rightarrow> signed_result run" where
  "processUnseen ed sv env ctx s c =
     (let v = vc_value c in
      bind_run (now env) (\<lambda>receivedAt.
      bind_run (lift_run (checkFreshValue v receivedAt)) (\<lambda>_.
      bind_run (operationDeadline env ctx receivedAt (val_ExpiresAt v)) (\<lambda>deadlineAt.
      bind_run (WithTimeout env ctx (Sub deadlineAt receivedAt)) (\<lambda>operationCtx.
      bind_run (preflight_inspect env v) (\<lambda>preflight.
      bind_run (now env) (\<lambda>beginAt.
      bind_run (lift_run (checkFreshValue v beginAt)) (\<lambda>_.
      bind_run (operationDeadline env operationCtx beginAt (val_ExpiresAt v)) (\<lambda>beginDeadline.
      bind_run (journal_begin ed sv env s beginAt beginDeadline) (\<lambda>out.
        begun ed sv env operationCtx preflight out))))))))))"

definition admit :: "ed25519 \<Rightarrow> executor_service \<Rightarrow> signed_capability \<Rightarrow> exec_error + verified_capability" where
  "admit ed sv s =
     (case CapabilityVerify ed (sv_verifier sv) s of
        Inl _ \<Rightarrow> Inl XErrorCapability
      | Inr c \<Rightarrow>
          if \<not> exactDigest (sc_artifact s) (val_ArtifactDigest (vc_value c)) then Inl XErrorArtifact
          else if val_OwnedSchemaDigest (vc_value c) \<noteq> PinnedLiveSchemaDigest then Inl XErrorSchema
          else Inr c)"

definition ProcessRecovery ::
  "ed25519 \<Rightarrow> executor_service \<Rightarrow> exec_env \<Rightarrow> exec_ctx \<Rightarrow> signed_capability \<Rightarrow> signed_result run" where
  "ProcessRecovery ed sv env ctx s =
     bind_run (lift_run (admit ed sv s)) (\<lambda>_.
     bind_run (acquire env) (\<lambda>_.
     bind_run (journal_lookup ed sv s) (\<lambda>out.
       case oc_state out of
         StateTerminal \<Rightarrow> terminal_result out
       | StateStartedOnly \<Rightarrow> recover ed sv env ctx out
       | StateUnseen \<Rightarrow> reject_run XErrorReplay
       | StateNewStarted \<Rightarrow> reject_run XErrorJournal)))"

definition Process ::
  "ed25519 \<Rightarrow> executor_service \<Rightarrow> exec_env \<Rightarrow> exec_ctx \<Rightarrow> signed_capability \<Rightarrow> signed_result run" where
  "Process ed sv env ctx s =
     bind_run (lift_run (admit ed sv s)) (\<lambda>c.
     bind_run (acquire env) (\<lambda>_.
     bind_run (journal_lookup ed sv s) (\<lambda>out.
       case oc_state out of
         StateTerminal \<Rightarrow> terminal_result out
       | StateStartedOnly \<Rightarrow> recover ed sv env ctx out
       | StateUnseen \<Rightarrow> processUnseen ed sv env ctx s c
       | StateNewStarted \<Rightarrow> reject_run XErrorJournal)))"

text \<open>The executor labels every request with its one dispatcher key.\<close>

definition request_capability :: "executor_service \<Rightarrow> request_envelope \<Rightarrow> signed_capability" where
  "request_capability sv e = \<lparr>sc_keyID = sv_dispatchKeyID sv, sc_canonical = rq_capabilityJCS e,
     sc_signature = rq_capabilitySignature e, sc_artifact = rq_artifact e\<rparr>"

definition HandlePayload ::
  "ed25519 \<Rightarrow> executor_service \<Rightarrow> exec_env \<Rightarrow> exec_ctx \<Rightarrow> bytes \<Rightarrow> bytes run" where
  "HandlePayload ed sv env ctx payload =
     (case DecodeRequestEnvelope payload of
        Inl _ \<Rightarrow> reject_run XErrorRequest
      | Inr e \<Rightarrow>
          bind_run (if rq_recoveryOnly e then ProcessRecovery ed sv env ctx (request_capability sv e)
                    else Process ed sv env ctx (request_capability sv e)) (\<lambda>r.
            case NewResponseEnvelope (sr_canonical r) (sr_signature r) of
              Inl _ \<Rightarrow> reject_run XErrorResult
            | Inr response \<Rightarrow>
                (case EncodeResponseEnvelope response of Inl _ \<Rightarrow> reject_run XErrorResult | Inr b \<Rightarrow> pure_run b)))"

definition NewService ::
  "capability_verifier \<Rightarrow> result_signer \<Rightarrow> result_verifier \<Rightarrow> string \<Rightarrow> exec_error + executor_service" where
  "NewService verifier signer resultVerifier dispatchKeyID =
     (if dispatchKeyID = [] \<or> dispatchKeyID \<noteq> cv_keyID verifier \<or> cv_executorID verifier = []
      then Inl XErrorConfiguration
      else Inr \<lparr>sv_verifier = verifier, sv_signer = signer, sv_resultVerifier = resultVerifier,
                sv_dispatchKeyID = dispatchKeyID\<rparr>)"

end
