(* ===== verification/Executor_Effects.thy ===== *)
theory Executor_Effects
  imports Executor
begin

text \<open>
  How programs of the executor change the world. A program is described by a relation between the world before and
  the world after, whatever it returns and wherever the process is killed (\<open>runs\<close>). The locale \<open>effect\<close>
  asks of a relation only what the parts of the executor need that do not start a capability: it is reflexive and
  transitive, and allows questions, inspections and \<open>Complete\<close>. Under these laws every operation up to recovery
  is related. \<open>full_effect\<close> adds mutations and \<open>Begin\<close>, and then every request is.
\<close>

section \<open>Growth of the index\<close>

text \<open>Every entry stays, with its request, and keeps a terminal result once it has one.\<close>

definition extends :: "entries \<Rightarrow> entries \<Rightarrow> bool" where
  "extends es es' \<longleftrightarrow> (\<forall>k e. map_of es k = Some e \<longrightarrow>
     (\<exists>e'. map_of es' k = Some e' \<and> st_signed e' = st_signed e \<and> st_verified e' = st_verified e \<and>
       st_sequence e' = st_sequence e \<and> (\<forall>t. st_terminal e = Some t \<longrightarrow> st_terminal e' = Some t)))"

lemma extends_refl: "extends es es"
  by (simp add: extends_def)

lemma extends_trans: "extends a b \<Longrightarrow> extends b c \<Longrightarrow> extends a c"
  by (fastforce simp: extends_def)

lemma map_of_set_terminal:
  "map_of (set_terminal k t es) i = map_option (\<lambda>e. if i = k then e\<lparr>st_terminal := Some t\<rparr> else e) (map_of es i)"
  by (induction es) (auto simp: set_terminal_def split: if_splits)

lemma extends_set_terminal:
  assumes "map_of es k = Some e" "st_terminal e = None"
  shows "extends es (set_terminal k t es)"
  using assms by (auto simp: extends_def map_of_set_terminal)

lemma extends_snoc: "map_of es k = None \<Longrightarrow> extends es (es @ [(k, e)])"
  by (auto simp: extends_def map_add_def)

lemma indexFrame_extends: "indexFrame ed cv rv frame p es = Inr es' \<Longrightarrow> extends es es'"
  using extends_snoc extends_set_terminal
  by (auto simp: indexFrame_def bind_res_Inr_iff Let_def if_Inl_eq_Inr split: if_splits option.splits)

lemma scan_loop_extends: "scan_loop ed cv rv n rest st = Some (Inr st') \<Longrightarrow> extends (fst st) (fst st')"
proof (induction ed cv rv n rest st rule: scan_loop.induct)
  case (2 ed cv rv n rest st)
  show ?case
  proof (cases "rest = []")
    case False
    with "2.prems" obtain rest' st1 where f: "scan_frame ed cv rv rest st = Inr (rest', st1)"
      and l: "scan_loop ed cv rv n rest' st1 = Some (Inr st')"
      by (auto split: sum.splits)
    obtain dec p where "indexFrame ed cv rv dec p (fst st) = Inr (fst st1)"
      using f unfolding scan_frame_def
      by (auto simp: Let_def bind_res_Inr_iff if_Inl_eq_Inr split: prod.splits)
    with "2.IH" [OF False f refl l] show ?thesis using indexFrame_extends extends_trans by blast
  qed (use "2.prems" in \<open>simp add: extends_refl\<close>)
qed simp

lemma scan_prefix_extends:
  assumes "scan ed cv rv data = Some (Inr st)" "scan ed cv rv (data @ x) = Some (Inr st')"
  shows "extends (fst st) (fst st')"
proof -
  obtain r where r: "scan_loop ed cv rv (Suc (length x div 57)) x st = Some r"
    using scan_loop_ends [of x "Suc (length x div 57)"] by blast
  then have "r = Inr st'" using scan_append [OF assms(1) r] assms(2) by simp
  with r show ?thesis using scan_loop_extends by blast
qed

lemma reopen_extends:
  assumes "journal_inv ed cv rv j" "Open ed cv rv oi (synced j @ tail) = Some (Inr j')"
  shows "extends (j_entries j) (j_entries j')"
proof -
  have s: "scan ed cv rv (synced j) = Some (Inr (j_entries j, j_nextSequence j, j_lastRecordDigest j))"
    using assms(1) by (simp add: journal_inv_def)
  have "scan ed cv rv (synced j @ tail) = Some (Inr (j_entries j', j_nextSequence j', j_lastRecordDigest j'))"
    using assms(2) by (auto simp: Open_iff)
  from scan_prefix_extends [OF s this] show ?thesis by simp
qed

lemma Complete_extends:
  assumes "journal_inv ed cv rv j" "Complete ed rv io s j = (j', r)"
  shows "extends (j_entries j) (j_entries j')"
  using assms(2)
proof (cases rule: Complete_cases)
  case failed
  then show ?thesis using append_failed [OF _ assms(1)] by (simp add: extends_refl)
next
  case (appended v k e b payload d frame j1)
  then show ?thesis using extends_set_terminal by simp
qed (simp add: extends_refl)

lemma Begin_entry:
  assumes "Begin ed cv io s t d j = (j', r)" "permit_of r = Some p"
  shows "\<exists>e. CapabilityVerify ed cv s = Inr (pm_verified p) \<and> val_CapabilityID (vc_value (pm_verified p)) \<notin> keys j \<and>
    st_signed e = s \<and> st_verified e = pm_verified p \<and>
    j_entries j' = j_entries j @ [(val_CapabilityID (vc_value (pm_verified p)), e)]"
  using Begin_new [OF assms] by (elim exE conjE) simp

lemma Begin_extends:
  assumes j: "journal_inv ed cv rv j" and b: "Begin ed cv io s t d j = (j', r)"
  shows "extends (j_entries j) (j_entries j')"
proof (cases "permit_of r")
  case None
  then show ?thesis using Begin_other [OF b None] append_failed [OF _ j] by (auto simp: extends_refl)
next
  case (Some p)
  obtain e where "val_CapabilityID (vc_value (pm_verified p)) \<notin> keys j"
    "j_entries j' = j_entries j @ [(val_CapabilityID (vc_value (pm_verified p)), e)]"
    using Begin_entry [OF b Some] by blast
  then show ?thesis using extends_snoc keys_None [of j] by simp
qed

section \<open>Programs and relations\<close>

definition world_inv :: "ed25519 \<Rightarrow> executor_service \<Rightarrow> exec_world \<Rightarrow> bool" where
  "world_inv ed sv w \<longleftrightarrow> journal_inv ed (sv_verifier sv) (sv_resultVerifier sv) (ew_journal w)"

definition runs ::
  "ed25519 \<Rightarrow> executor_service \<Rightarrow> (exec_world \<Rightarrow> exec_world \<Rightarrow> bool) \<Rightarrow> 'a run \<Rightarrow> bool" where
  "runs ed sv R m \<longleftrightarrow> (\<forall>w r w'. world_inv ed sv w \<and> m w = (r, w') \<longrightarrow> world_inv ed sv w' \<and> R w w')"

lemma runs_bind:
  assumes m: "runs ed sv R m" and f: "\<And>x. runs ed sv S (f x)"
    and le: "\<And>w w'. R w w' \<Longrightarrow> T w w'" and comp: "\<And>w v w'. R w v \<Longrightarrow> S v w' \<Longrightarrow> T w w'"
  shows "runs ed sv T (bind_run m f)"
  unfolding runs_def
proof (intro allI impI)
  fix w r w'
  assume a: "world_inv ed sv w \<and> bind_run m f w = (r, w')"
  obtain q v where q: "m w = (q, v)" by (cases "m w")
  have v: "world_inv ed sv v" "R w v" using m a q by (auto simp: runs_def)
  show "world_inv ed sv w' \<and> T w w'"
  proof (cases "\<exists>x. q = Some (Inr x)")
    case True
    then obtain x where "f x v = (r, w')" using a q by (auto simp: bind_run_def)
    then have "world_inv ed sv w' \<and> S v w'" using f [of x] v(1) by (auto simp: runs_def)
    with v(2) comp show ?thesis by blast
  next
    case False
    then have "w' = v" using a q by (auto simp: bind_run_def split: option.splits sum.splits)
    with v le show ?thesis by blast
  qed
qed

lemma runs_mono: "runs ed sv R m \<Longrightarrow> (\<And>w w'. R w w' \<Longrightarrow> S w w') \<Longrightarrow> runs ed sv S m"
  by (auto simp: runs_def)

lemma bind_run_assoc: "bind_run (bind_run m f) g = bind_run m (\<lambda>x. bind_run (f x) g)"
  by (rule ext) (simp add: bind_run_def split: prod.split option.split sum.split)

lemma runs_journal:
  assumes "\<And>w j r. world_inv ed sv w \<Longrightarrow> f (ew_journal w) = (j, r) \<Longrightarrow>
    journal_inv ed (sv_verifier sv) (sv_resultVerifier sv) j \<and> R w (w\<lparr>ew_journal := j\<rparr>)"
  shows "runs ed sv R (use_journal f)"
  unfolding runs_def
proof (intro allI impI)
  fix w r w'
  assume a: "world_inv ed sv w \<and> use_journal f w = (r, w')"
  obtain j q where j: "f (ew_journal w) = (j, q)" by (cases "f (ew_journal w)")
  with a have "w' = w\<lparr>ew_journal := j\<rparr>" by (simp add: use_journal_def)
  with a assms [OF _ j] show "world_inv ed sv w' \<and> R w w'" by (simp add: world_inv_def)
qed

named_theorems effect_rules

lemma runs_if [effect_rules]: "runs ed sv R m \<Longrightarrow> runs ed sv R n \<Longrightarrow> runs ed sv R (if b then m else n)"
  by simp

lemma runs_let [effect_rules]: "(\<And>x. runs ed sv R (f x)) \<Longrightarrow> runs ed sv R (Let t f)"
  by simp

lemma runs_option [effect_rules]:
  "runs ed sv R m \<Longrightarrow> (\<And>x. runs ed sv R (f x)) \<Longrightarrow> runs ed sv R (case v of None \<Rightarrow> m | Some x \<Rightarrow> f x)"
  by (simp split: option.split)

lemma runs_sum [effect_rules]:
  "(\<And>x. runs ed sv R (f x)) \<Longrightarrow> (\<And>x. runs ed sv R (g x)) \<Longrightarrow> runs ed sv R (case v of Inl x \<Rightarrow> f x | Inr x \<Rightarrow> g x)"
  by (simp split: sum.split)

lemma runs_prod [effect_rules]: "(\<And>x y. runs ed sv R (f x y)) \<Longrightarrow> runs ed sv R (case v of (x, y) \<Rightarrow> f x y)"
  by (simp split: prod.split)

lemma runs_state [effect_rules]:
  "runs ed sv R a \<Longrightarrow> runs ed sv R b \<Longrightarrow> runs ed sv R c \<Longrightarrow> runs ed sv R d \<Longrightarrow>
     runs ed sv R (case st of StateUnseen \<Rightarrow> a | StateNewStarted \<Rightarrow> b | StateStartedOnly \<Rightarrow> c | StateTerminal \<Rightarrow> d)"
  by (simp split: lookup_state.split)

section \<open>Relations closed under everything but a start\<close>

locale effect =
  fixes ed :: ed25519 and sv :: executor_service and R :: "exec_world \<Rightarrow> exec_world \<Rightarrow> bool"
  assumes refl: "R w w"
    and trans: "R w v \<Longrightarrow> R v u \<Longrightarrow> R w u"
    and tick: "R w (w\<lparr>ew_tick := n\<rparr>)"
    and inspected: "R w (w\<lparr>ew_calls := ew_calls w @ [RunInspect i]\<rparr>)"
    and completed: "world_inv ed sv w \<Longrightarrow> Complete ed (sv_resultVerifier sv) io s (ew_journal w) = (j, r) \<Longrightarrow>
      R w (w\<lparr>ew_journal := j\<rparr>)"
begin

lemma runs_bind_same [effect_rules]: "runs ed sv R m \<Longrightarrow> (\<And>x. runs ed sv R (f x)) \<Longrightarrow> runs ed sv R (bind_run m f)"
  by (rule runs_bind [of ed sv R m R f R]) (auto intro: trans)

lemma runs_pure [effect_rules]: "runs ed sv R (pure_run x)"
  by (auto simp: runs_def pure_run_def refl)

lemma runs_reject [effect_rules]: "runs ed sv R (reject_run e)"
  by (auto simp: runs_def reject_run_def refl)

lemma runs_lift [effect_rules]: "runs ed sv R (lift_run r)"
  by (auto simp: runs_def lift_run_def refl)

lemma runs_question [effect_rules]: "runs ed sv R (question env)"
  by (auto simp: runs_def question_def world_inv_def refl tick split: if_splits)

lemma runs_ask [effect_rules]: "runs ed sv R (ask env f)"
  unfolding ask_def by (intro effect_rules)

lemma runs_log [effect_rules]: "runs ed sv R (log_call (RunInspect i))"
  by (auto simp: runs_def log_call_def world_inv_def inspected)

lemma runs_call [effect_rules]: "runs ed sv R (call_runner env (RunInspect i) f)"
  unfolding call_runner_def by (intro effect_rules)

lemma runs_lookup [effect_rules]: "runs ed sv R (journal_lookup ed sv s)"
  unfolding journal_lookup_def by (rule runs_journal) (auto simp: world_inv_def refl)

lemma runs_complete [effect_rules]: "runs ed sv R (journal_complete ed sv env s)"
  unfolding journal_complete_def
proof (intro runs_bind_same runs_question runs_journal)
  fix n w j r
  assume w: "world_inv ed sv w"
    and c: "apsnd (map_sum (\<lambda>_. XErrorResultDurability) id) (Complete ed (sv_resultVerifier sv) (ev_io env n) s (ew_journal w)) = (j, r)"
  obtain q where q: "Complete ed (sv_resultVerifier sv) (ev_io env n) s (ew_journal w) = (j, q)"
    using c by (cases "Complete ed (sv_resultVerifier sv) (ev_io env n) s (ew_journal w)") auto
  show "journal_inv ed (sv_verifier sv) (sv_resultVerifier sv) j \<and> R w (w\<lparr>ew_journal := j\<rparr>)"
    using Complete_inv [OF w [unfolded world_inv_def] q] completed [OF w q] by simp
qed

lemma runs_now [effect_rules]: "runs ed sv R (now env)"
  unfolding now_def by (intro effect_rules)

lemma runs_timeout [effect_rules]: "runs ed sv R (WithTimeout env ctx d)"
  unfolding WithTimeout_def by (intro effect_rules)

lemma runs_deadline [effect_rules]: "runs ed sv R (operationDeadline env ctx t x)"
  unfolding operationDeadline_def by (intro effect_rules)

lemma runs_acquire [effect_rules]: "runs ed sv R (acquire env)"
  unfolding acquire_def by (intro effect_rules)

lemma runs_inspect [effect_rules]: "runs ed sv R (inspect env i n)"
  unfolding inspect_def by (intro effect_rules)

lemma runs_inspectResult [effect_rules]: "runs ed sv R (inspectResult env v obs e)"
  unfolding inspectResult_def by (intro effect_rules)

lemma runs_finishPrepared [effect_rules]: "runs ed sv R (finishPrepared ed sv env started a r)"
  unfolding finishPrepared_def by (intro effect_rules)

lemma runs_finish [effect_rules]: "runs ed sv R (finish ed sv env started a r)"
  unfolding finish_def by (intro effect_rules)

lemma runs_recover [effect_rules]: "runs ed sv R (recover ed sv env ctx out)"
  unfolding recover_def recovered_result_def by (intro effect_rules)

lemma runs_terminal [effect_rules]: "runs ed sv R (terminal_result out)"
  unfolding terminal_result_def by (intro effect_rules)

lemma runs_preflight [effect_rules]: "runs ed sv R (preflight_inspect env v)"
  unfolding preflight_inspect_def by (intro effect_rules)

lemma runs_ProcessRecovery [effect_rules]: "runs ed sv R (ProcessRecovery ed sv env ctx s)"
  unfolding ProcessRecovery_def by (intro effect_rules)

end

section \<open>Relations closed under everything\<close>

locale full_effect = effect +
  assumes mutated: "R w (w\<lparr>ew_calls := ew_calls w @ [RunMutate m]\<rparr>)"
    and started: "world_inv ed sv w \<Longrightarrow> Begin ed (sv_verifier sv) io s t d (ew_journal w) = (j, r) \<Longrightarrow>
      R w (w\<lparr>ew_journal := j\<rparr>)"
begin

lemma runs_mutate [effect_rules]: "runs ed sv R (mutate env m)"
proof -
  have [effect_rules]: "runs ed sv R (log_call (RunMutate m))"
    by (auto simp: runs_def log_call_def world_inv_def mutated)
  show ?thesis unfolding mutate_def call_runner_def by (intro effect_rules)
qed

lemma runs_begin [effect_rules]: "runs ed sv R (journal_begin ed sv env s t d)"
  unfolding journal_begin_def
proof (intro runs_bind_same runs_question runs_journal)
  fix n w j r
  assume w: "world_inv ed sv w"
    and c: "apsnd (map_sum classifyJournal id) (Begin ed (sv_verifier sv) (ev_io env n) s t d (ew_journal w)) = (j, r)"
  obtain q where q: "Begin ed (sv_verifier sv) (ev_io env n) s t d (ew_journal w) = (j, q)"
    using c by (cases "Begin ed (sv_verifier sv) (ev_io env n) s t d (ew_journal w)") auto
  have "journal_inv ed (sv_verifier sv) (sv_resultVerifier sv) j"
    using Begin_started [OF w [unfolded world_inv_def] q] Begin_nothing [OF w [unfolded world_inv_def] q]
    by (cases "permit_of q") auto
  with started [OF w q] show "journal_inv ed (sv_verifier sv) (sv_resultVerifier sv) j \<and> R w (w\<lparr>ew_journal := j\<rparr>)"
    by simp
qed

lemma runs_execute [effect_rules]: "runs ed sv R (execute ed sv env st p preflight)"
  unfolding execute_def by (intro effect_rules)

lemma runs_Process [effect_rules]: "runs ed sv R (Process ed sv env ctx s)"
  unfolding Process_def processUnseen_def begun_def by (intro effect_rules)

lemma runs_HandlePayload [effect_rules]: "runs ed sv R (HandlePayload ed sv env ctx payload)"
  unfolding HandlePayload_def by (intro effect_rules)

end

definition grows :: "exec_world \<Rightarrow> exec_world \<Rightarrow> bool" where
  "grows w w' \<longleftrightarrow> extends (j_entries (ew_journal w)) (j_entries (ew_journal w'))"

interpretation growth: full_effect ed sv grows for ed sv
  by unfold_locales (auto simp: grows_def world_inv_def extends_refl
      intro: extends_trans Complete_extends Begin_extends)

text \<open>No request takes written bytes away, and the index grows only with what has been synchronised.\<close>

definition appends :: "exec_world \<Rightarrow> exec_world \<Rightarrow> bool" where
  "appends w w' \<longleftrightarrow> advances (ew_journal w) (ew_journal w')"

interpretation synchronised: full_effect ed sv appends for ed sv
  by unfold_locales (auto simp: appends_def advances_refl intro: advances_trans Complete_advances Begin_advances)

end
