(* ===== verification/Executor_Safety.thy ===== *)
theory Executor_Safety
  imports Executor_Effects
begin

text \<open>
  What the executor does to the firewall: over any history of requests, kills and restarts it asks the runner for at
  most one mutation for a capability, with exactly the signed bytes, and only after the capability is in the journal.
  \<open>quiet\<close> programs change neither the known capabilities nor the firewall, \<open>mutates\<close> programs ask for at most
  one mutation, \<open>starts\<close> programs for at most one, for a capability that was not known before.
\<close>

section \<open>Known capabilities and mutations\<close>

definition caps :: "entries \<Rightarrow> string \<rightharpoonup> verified_capability" where
  "caps es k = map_option st_verified (map_of es k)"

lemma caps_dom: "dom (caps (j_entries j)) = keys j"
  by (auto simp: caps_def keys_Some dom_def)

lemma caps_set_terminal: "caps (set_terminal k t es) = caps es"
  by (rule ext) (simp add: caps_def map_of_set_terminal option.map_comp comp_def if_distrib [of st_verified] cong: if_cong)

lemma caps_snoc: "k \<notin> dom (caps es) \<Longrightarrow> caps (es @ [(k, e)]) = (caps es)(k \<mapsto> st_verified e)"
  by (rule ext) (auto simp: caps_def map_add_def dom_def split: option.splits)

lemma extends_caps: "extends es es' \<Longrightarrow> caps es \<subseteq>\<^sub>m caps es'"
  by (fastforce simp: extends_def caps_def map_le_def dom_def)

lemma Complete_caps:
  assumes "journal_inv ed cv rv j" "Complete ed rv io s j = (j', r)"
  shows "caps (j_entries j') = caps (j_entries j)"
  using assms(2)
proof (cases rule: Complete_cases)
  case failed
  then show ?thesis using append_failed [OF _ assms(1)] by simp
next
  case (appended v k e b payload d frame j1)
  then show ?thesis by (simp add: caps_set_terminal)
qed simp

fun mutation_of :: "runner_call \<Rightarrow> mutation list" where
  "mutation_of (RunMutate m) = [m]"
| "mutation_of (RunInspect i) = []"

definition mutations :: "exec_world \<Rightarrow> mutation list" where
  "mutations w = concat (map mutation_of (ew_calls w))"

definition known :: "exec_world \<Rightarrow> string \<rightharpoonup> verified_capability" where
  "known w = caps (j_entries (ew_journal w))"

definition quiet :: "exec_world \<Rightarrow> exec_world \<Rightarrow> bool" where
  "quiet w w' \<longleftrightarrow> known w' = known w \<and> mutations w' = mutations w"

interpretation silence: effect ed sv quiet for ed sv
  by unfold_locales (auto simp: quiet_def known_def mutations_def world_inv_def Complete_caps)

definition mutates :: "(mutation \<Rightarrow> bool) \<Rightarrow> exec_world \<Rightarrow> exec_world \<Rightarrow> bool" where
  "mutates P w w' \<longleftrightarrow> known w' = known w \<and>
     (mutations w' = mutations w \<or> (\<exists>mu. P mu \<and> mutations w' = mutations w @ [mu]))"

text \<open>A mutation that carries exactly the signed artifact of a capability, for its operation.\<close>

definition authorised :: "verified_capability \<Rightarrow> mutation \<Rightarrow> bool" where
  "authorised c m \<longleftrightarrow> mu_operation m = val_Operation (vc_value c) \<and> mu_stdin m = vc_artifact c \<and>
     (mu_operation m = OperationAdd \<or> mu_operation m = OperationRevoke)"

definition starts :: "exec_world \<Rightarrow> exec_world \<Rightarrow> bool" where
  "starts w w' \<longleftrightarrow> quiet w w' \<or>
     (\<exists>k c. k \<notin> dom (known w) \<and> known w' = (known w)(k \<mapsto> c) \<and>
       (mutations w' = mutations w \<or> (\<exists>mu. authorised c mu \<and> mutations w' = mutations w @ [mu])))"

section \<open>At most one mutation for a permit\<close>

lemma mutates_quiet: "runs ed sv quiet m \<Longrightarrow> runs ed sv (mutates P) m"
  by (erule runs_mono) (simp add: quiet_def mutates_def)

lemma mutates_after:
  "runs ed sv quiet m \<Longrightarrow> (\<And>x. runs ed sv (mutates P) (f x)) \<Longrightarrow> runs ed sv (mutates P) (bind_run m f)"
  by (rule runs_bind [of ed sv quiet m "mutates P" f "mutates P"]) (auto simp: quiet_def mutates_def)

lemma mutates_then:
  "runs ed sv (mutates P) m \<Longrightarrow> (\<And>x. runs ed sv quiet (f x)) \<Longrightarrow> runs ed sv (mutates P) (bind_run m f)"
  by (rule runs_bind [of ed sv "mutates P" m quiet f "mutates P"]) (auto simp: quiet_def mutates_def)

lemma mutates_log: "P m \<Longrightarrow> runs ed sv (mutates P) (log_call (RunMutate m))"
  by (auto simp: runs_def mutates_def log_call_def world_inv_def mutations_def known_def)

lemma mutates_call: "P m \<Longrightarrow> runs ed sv (mutates P) (mutate env m)"
  unfolding mutate_def call_runner_def
  by (rule mutates_then, rule mutates_after, rule silence.runs_question, rule mutates_then, erule mutates_log) (intro effect_rules)+

lemma TakeAddAt_Inr: "TakeAddAt p t = (p', Inr x) \<Longrightarrow> x = ExecutableAdd (pm_verified p)"
  by (auto simp: TakeAddAt_def AddAt_iff dest!: checkAndUse_cases split: if_splits prod.splits option.splits sum.splits)

lemma TakeRevokeAt_Inr: "TakeRevokeAt p t = (p', Inr x) \<Longrightarrow> x = ExecutableRevoke (pm_verified p)"
  by (auto simp: TakeRevokeAt_def RevokeAt_iff dest!: checkAndUse_cases split: if_splits prod.splits option.splits sum.splits)

lemma mutates_execute: "runs ed sv (mutates (authorised (pm_verified p))) (execute ed sv env started p preflight)"
proof -
  let ?c = "pm_verified p"
  have add: "authorised ?c \<lparr>mu_operation = OperationAdd, mu_stdin = CanonicalCommand (ExecutableAdd ?c)\<rparr>"
    if "val_Operation (vc_value ?c) = OperationAdd"
    using that by (simp add: authorised_def CanonicalCommand_def)
  have revoke: "authorised ?c \<lparr>mu_operation = OperationRevoke, mu_stdin = CanonicalDelete (ExecutableRevoke ?c)\<rparr>"
    if "val_Operation (vc_value ?c) = OperationRevoke"
    using that by (simp add: authorised_def CanonicalDelete_def)
  note ends = mutates_quiet [OF silence.runs_finish] mutates_quiet [OF silence.runs_reject] mutates_quiet [OF silence.runs_bind_same [OF silence.runs_inspect]]
  note calls = mutates_then [OF mutates_call]
  show ?thesis
    unfolding execute_def Let_def
    by (rule mutates_after [OF silence.runs_now])
      (auto split: prod.split sum.split dest!: TakeAddAt_Inr TakeRevokeAt_Inr
        intro!: ends calls add revoke effect_rules)
qed

section \<open>At most one mutation for a request, for a new capability\<close>

lemma starts_quiet: "runs ed sv quiet m \<Longrightarrow> runs ed sv starts m"
  by (erule runs_mono) (simp add: starts_def)

lemma starts_after:
  "runs ed sv quiet m \<Longrightarrow> (\<And>x. runs ed sv starts (f x)) \<Longrightarrow> runs ed sv starts (bind_run m f)"
  by (rule runs_bind [of ed sv quiet m starts f starts]) (auto simp: quiet_def starts_def)

lemma starts_then:
  "runs ed sv starts m \<Longrightarrow> (\<And>x. runs ed sv quiet (f x)) \<Longrightarrow> runs ed sv starts (bind_run m f)"
  by (rule runs_bind [of ed sv starts m quiet f starts]) (auto simp: quiet_def starts_def)

lemma Begin_caps:
  assumes j: "journal_inv ed cv rv j" and b: "Begin ed cv io s t d j = (j', r)" and p: "permit_of r = Some p"
  shows "\<exists>k. k \<notin> dom (caps (j_entries j)) \<and> caps (j_entries j') = (caps (j_entries j))(k \<mapsto> pm_verified p)"
proof -
  obtain e where "val_CapabilityID (vc_value (pm_verified p)) \<notin> keys j" and e: "st_verified e = pm_verified p"
      "j_entries j' = j_entries j @ [(val_CapabilityID (vc_value (pm_verified p)), e)]"
    using Begin_entry [OF b p] by blast
  then have k: "val_CapabilityID (vc_value (pm_verified p)) \<notin> dom (caps (j_entries j))" by (simp add: caps_dom)
  have "caps (j_entries j') = (caps (j_entries j))(val_CapabilityID (vc_value (pm_verified p)) \<mapsto> pm_verified p)"
    using caps_snoc [OF k, of e] e by simp
  with k show ?thesis by blast
qed

lemma Begin_nothing_caps:
  assumes "journal_inv ed cv rv j" "Begin ed cv io s t d j = (j', r)" "permit_of r = None"
  shows "caps (j_entries j') = caps (j_entries j)"
  using Begin_other [OF assms(2,3)] append_failed [OF _ assms(1)] by auto

lemma starts_begin:
  assumes none: "\<And>out. oc_permit out = None \<Longrightarrow> runs ed sv quiet (f out)"
    and some: "\<And>out p. oc_permit out = Some p \<Longrightarrow> runs ed sv (mutates (authorised (pm_verified p))) (f out)"
  shows "runs ed sv starts (bind_run (journal_begin ed sv env s t d) f)"
  unfolding journal_begin_def bind_run_assoc
proof (rule starts_after [OF silence.runs_question])
  fix n
  let ?cv = "sv_verifier sv" and ?rv = "sv_resultVerifier sv"
  show "runs ed sv starts (bind_run (use_journal (\<lambda>j. apsnd (map_sum classifyJournal id) (Begin ed ?cv (ev_io env n) s t d j))) f)"
    unfolding runs_def
  proof (intro allI impI)
    fix w r w'
    assume a: "world_inv ed sv w \<and> bind_run (use_journal (\<lambda>j. apsnd (map_sum classifyJournal id) (Begin ed ?cv (ev_io env n) s t d j))) f w = (r, w')"
    then have j: "journal_inv ed ?cv ?rv (ew_journal w)" by (simp add: world_inv_def)
    obtain j' q where b: "Begin ed ?cv (ev_io env n) s t d (ew_journal w) = (j', q)" by fastforce
    let ?v = "w\<lparr>ew_journal := j'\<rparr>"
    have mu: "mutations ?v = mutations w" by (simp add: mutations_def)
    show "world_inv ed sv w' \<and> starts w w'"
    proof (cases "permit_of q")
      case None
      have v: "world_inv ed sv ?v" "known ?v = known w"
        using Begin_nothing [OF j b None] Begin_nothing_caps [OF j b None] by (simp_all add: world_inv_def known_def)
      show ?thesis
      proof (cases q)
        case (Inl e)
        then have "w' = ?v" using a b by (simp add: bind_run_def use_journal_def)
        with v mu show ?thesis by (simp add: starts_def quiet_def)
      next
        case (Inr out)
        then have "f out ?v = (r, w')" using a b by (simp add: bind_run_def use_journal_def)
        moreover have "oc_permit out = None" using None Inr by (simp add: permit_of_def)
        ultimately have "world_inv ed sv w' \<and> quiet ?v w'" using none [of out] v(1) by (auto simp: runs_def)
        with v(2) mu show ?thesis by (simp add: starts_def quiet_def)
      qed
    next
      case (Some p)
      obtain k where k: "k \<notin> dom (known w)" "known ?v = (known w)(k \<mapsto> pm_verified p)"
        using Begin_caps [OF j b Some] by (auto simp: known_def)
      have v: "world_inv ed sv ?v" using Begin_started [OF j b Some] by (simp add: world_inv_def)
      obtain out where q: "q = Inr out" and o: "oc_permit out = Some p"
        using Some by (auto simp: permit_of_def split: sum.splits)
      have "f out ?v = (r, w')" using a b q by (simp add: bind_run_def use_journal_def)
      then have "world_inv ed sv w' \<and> mutates (authorised (pm_verified p)) ?v w'" using some [OF o] v by (auto simp: runs_def)
      with k mu show ?thesis unfolding starts_def mutates_def by metis
    qed
  qed
qed

lemma quiet_begun: "oc_permit out = None \<Longrightarrow> runs ed sv quiet (begun ed sv env ctx preflight out)"
  unfolding begun_def by (auto split: lookup_state.split intro!: effect_rules)

lemma mutates_begun:
  "oc_permit out = Some p \<Longrightarrow> runs ed sv (mutates (authorised (pm_verified p))) (begun ed sv env ctx preflight out)"
  unfolding begun_def using mutates_execute
  by (auto split: lookup_state.split option.split intro!: mutates_quiet effect_rules)

lemma starts_processUnseen: "runs ed sv starts (processUnseen ed sv env ctx s c)"
  unfolding processUnseen_def Let_def
  by (intro starts_begin starts_after [OF silence.runs_now] starts_after [OF silence.runs_lift] starts_after [OF silence.runs_deadline]
      starts_after [OF silence.runs_timeout] starts_after [OF silence.runs_preflight] quiet_begun mutates_begun)

lemma starts_Process: "runs ed sv starts (Process ed sv env ctx s)"
  unfolding Process_def
  by (intro starts_after [OF silence.runs_lift] starts_after [OF silence.runs_acquire] starts_after [OF silence.runs_lookup])
    (auto split: lookup_state.split intro!: starts_processUnseen starts_quiet effect_rules)

lemma starts_HandlePayload: "runs ed sv starts (HandlePayload ed sv env ctx payload)"
  unfolding HandlePayload_def
  by (auto split: sum.split intro!: starts_then starts_Process starts_quiet [OF silence.runs_ProcessRecovery]
      starts_quiet [OF silence.runs_reject] effect_rules)

section \<open>Histories of the executor\<close>

text \<open>
  Requests with any payload in any environment, also cut short by a kill, and restarts of the process. A restart
  finds the bytes that the journal counts as written (those it found at \<open>Open\<close>, and those it has synchronised since)
  followed by anything at all.
\<close>

inductive exec_step :: "ed25519 \<Rightarrow> executor_service \<Rightarrow> exec_world \<Rightarrow> exec_world \<Rightarrow> bool" for ed sv where
  request: "HandlePayload ed sv env ctx payload w = (r, w') \<Longrightarrow> exec_step ed sv w w'"
| shutdown: "exec_step ed sv w (w\<lparr>ew_journal := Close (ew_journal w)\<rparr>)"
| restart_process: "Open ed (sv_verifier sv) (sv_resultVerifier sv) oi (synced (ew_journal w) @ tail) = Some (Inr j) \<Longrightarrow>
     exec_step ed sv w (w\<lparr>ew_journal := j\<rparr>)"

inductive exec_reach :: "ed25519 \<Rightarrow> executor_service \<Rightarrow> exec_world \<Rightarrow> bool" for ed sv where
  booted: "Open ed (sv_verifier sv) (sv_resultVerifier sv) oi data = Some (Inr j) \<Longrightarrow>
     exec_reach ed sv \<lparr>ew_tick = 0, ew_journal = j, ew_calls = []\<rparr>"
| continued: "exec_reach ed sv w \<Longrightarrow> exec_step ed sv w w' \<Longrightarrow> exec_reach ed sv w'"

definition accounted :: "exec_world \<Rightarrow> string list \<Rightarrow> bool" where
  "accounted w ids \<longleftrightarrow> distinct ids \<and> list_all2 (\<lambda>k m. \<exists>c. known w k = Some c \<and> authorised c m) ids (mutations w)"

lemma accounted_grows:
  assumes "accounted w ids" "known w \<subseteq>\<^sub>m known w'" "mutations w' = mutations w"
  shows "accounted w' ids"
proof -
  have "known w' k = Some c" if "known w k = Some c" for k c using assms(2) that by (auto simp: map_le_def dom_def)
  with assms(1,3) show ?thesis unfolding accounted_def by (auto elim!: list_all2_mono)
qed

lemma accounted_starts: "accounted w ids \<Longrightarrow> starts w w' \<Longrightarrow> \<exists>ids'. accounted w' ids'"
proof -
  assume a: "accounted w ids" and "starts w w'"
  then consider "quiet w w'"
    | k c where "k \<notin> dom (known w)" "known w' = (known w)(k \<mapsto> c)"
        "mutations w' = mutations w \<or> (\<exists>mu. authorised c mu \<and> mutations w' = mutations w @ [mu])"
    by (auto simp: starts_def)
  then show ?thesis
  proof cases
    case 1
    with a show ?thesis using accounted_grows [of w ids w'] by (auto simp: quiet_def)
  next
    case (2 k c)
    have le: "known w \<subseteq>\<^sub>m known w'" using 2(1,2) by (auto simp: map_le_def)
    show ?thesis
    proof (cases "mutations w' = mutations w")
      case True
      with accounted_grows [OF a le] show ?thesis by blast
    next
      case False
      then obtain mu where mu: "authorised c mu" "mutations w' = mutations w @ [mu]" using 2(3) by blast
      have all: "list_all2 (\<lambda>k m. \<exists>c. known w k = Some c \<and> authorised c m) ids (mutations w)" "distinct ids"
        using a by (simp_all add: accounted_def)
      have "i \<in> dom (known w)" if "i \<in> set ids" for i
        using all(1) that by (auto simp: list_all2_conv_all_nth in_set_conv_nth)
      then have "k \<notin> set ids" using 2(1) by blast
      moreover have "list_all2 (\<lambda>k m. \<exists>c. known w' k = Some c \<and> authorised c m) ids (mutations w)"
        using all(1) le by (auto elim!: list_all2_mono simp: map_le_def dom_def)
      ultimately have "accounted w' (ids @ [k])"
        using all(2) mu 2(2) by (simp add: accounted_def list_all2_appendI)
      then show ?thesis by blast
    qed
  qed
qed

lemma exec_step_inv:
  "exec_step ed sv w w' \<Longrightarrow> world_inv ed sv w \<and> (\<exists>ids. accounted w ids) \<Longrightarrow> world_inv ed sv w' \<and> (\<exists>ids. accounted w' ids)"
proof (induction rule: exec_step.induct)
  case (request env ctx payload w r w')
  then have "world_inv ed sv w' \<and> starts w w'" using starts_HandlePayload by (fastforce simp: runs_def)
  with request accounted_starts show ?case by blast
next
  case (shutdown w)
  then show ?case
    by (auto simp: world_inv_def journal_inv_def Close_def synced_def accounted_def known_def mutations_def)
next
  case (restart_process oi w tail j)
  have "known w \<subseteq>\<^sub>m known (w\<lparr>ew_journal := j\<rparr>)"
    using extends_caps [OF reopen_extends [OF _ restart_process(1)]] restart_process(2)
    by (simp add: known_def world_inv_def)
  moreover have "mutations (w\<lparr>ew_journal := j\<rparr>) = mutations w" by (simp add: mutations_def)
  ultimately show ?case
    using restart_process(2) accounted_grows Open_inv [OF restart_process(1)] by (auto simp: world_inv_def)
qed

lemma exec_reach_inv: "exec_reach ed sv w \<Longrightarrow> world_inv ed sv w \<and> (\<exists>ids. accounted w ids)"
proof (induction rule: exec_reach.induct)
  case (booted oi data j)
  then show ?case by (auto simp: world_inv_def Open_inv accounted_def mutations_def intro!: exI [of _ "[]"])
qed (rule exec_step_inv)

section \<open>Crashes of the machine\<close>

text \<open>
  \<open>Open\<close> does not synchronise a file that exists, so a crash of the machine can also take away bytes that a process
  found and went on from. In these histories only the first \<open>n\<close> bytes of the file are sure to be there after a restart:
  none at first, and all that is written whenever a request has advanced the size of the journal, which an append does
  after both synchronisations.
\<close>

inductive crash_reach :: "ed25519 \<Rightarrow> executor_service \<Rightarrow> exec_world \<Rightarrow> nat \<Rightarrow> bool" for ed sv where
  installed: "Open ed (sv_verifier sv) (sv_resultVerifier sv) oi data = Some (Inr j) \<Longrightarrow>
     crash_reach ed sv \<lparr>ew_tick = 0, ew_journal = j, ew_calls = []\<rparr> 0"
| served: "crash_reach ed sv w n \<Longrightarrow> HandlePayload ed sv env ctx payload w = (r, w') \<Longrightarrow>
     crash_reach ed sv w' (barrier (ew_journal w) (ew_journal w') n)"
| stopped: "crash_reach ed sv w n \<Longrightarrow> crash_reach ed sv (w\<lparr>ew_journal := Close (ew_journal w)\<rparr>) n"
| recovered: "crash_reach ed sv w n \<Longrightarrow>
     Open ed (sv_verifier sv) (sv_resultVerifier sv) oi (take n (j_file (ew_journal w)) @ tail) = Some (Inr j) \<Longrightarrow>
     crash_reach ed sv (w\<lparr>ew_journal := j\<rparr>) n"

text \<open>Every mutation has its started record within the bytes that survive.\<close>

definition crash_inv :: "ed25519 \<Rightarrow> executor_service \<Rightarrow> exec_world \<Rightarrow> nat \<Rightarrow> bool" where
  "crash_inv ed sv w n \<longleftrightarrow> world_inv ed sv w \<and> n \<le> nat (j_size (ew_journal w)) \<and>
     (\<exists>ids st. scan ed (sv_verifier sv) (sv_resultVerifier sv) (take n (j_file (ew_journal w))) = Some (Inr st) \<and>
        distinct ids \<and> list_all2 (\<lambda>k m. \<exists>c. caps (fst st) k = Some c \<and> authorised c m) ids (mutations w))"

lemma crash_inv_length: "crash_inv ed sv w n \<Longrightarrow> n \<le> length (j_file (ew_journal w))"
  by (auto simp: crash_inv_def world_inv_def journal_inv_def)

lemma crash_accounted:
  assumes "crash_inv ed sv w n"
  shows "\<exists>ids. accounted w ids"
proof -
  obtain ids st where st: "scan ed (sv_verifier sv) (sv_resultVerifier sv) (take n (j_file (ew_journal w))) = Some (Inr st)"
    and ids: "distinct ids" "list_all2 (\<lambda>k m. \<exists>c. caps (fst st) k = Some c \<and> authorised c m) ids (mutations w)"
    using assms by (auto simp: crash_inv_def)
  have "synced (ew_journal w) = take n (j_file (ew_journal w)) @ drop n (synced (ew_journal w))"
    using assms by (metis append_take_drop_id crash_inv_def min.absorb1 synced_def take_take)
  then have "scan ed (sv_verifier sv) (sv_resultVerifier sv) (take n (j_file (ew_journal w)) @ drop n (synced (ew_journal w))) =
      Some (Inr (j_entries (ew_journal w), j_nextSequence (ew_journal w), j_lastRecordDigest (ew_journal w)))"
    using assms by (simp add: crash_inv_def world_inv_def journal_inv_def)
  from extends_caps [OF scan_prefix_extends [OF st this]] have "caps (fst st) \<subseteq>\<^sub>m known w" by (simp add: known_def)
  then have "list_all2 (\<lambda>k m. \<exists>c. known w k = Some c \<and> authorised c m) ids (mutations w)"
    using ids(2) by (auto elim!: list_all2_mono simp: map_le_def dom_def)
  with ids(1) show ?thesis by (auto simp: accounted_def)
qed

lemma accounted_crash_inv:
  assumes "world_inv ed sv w" "accounted w ids"
  shows "crash_inv ed sv w (nat (j_size (ew_journal w)))"
  using assms by (auto simp: crash_inv_def world_inv_def journal_inv_def synced_def accounted_def known_def)

lemma served_inv:
  assumes w: "crash_inv ed sv w n" and h: "HandlePayload ed sv env ctx payload w = (r, w')"
  shows "crash_inv ed sv w' (barrier (ew_journal w) (ew_journal w') n)"
proof -
  have i: "world_inv ed sv w" using w by (simp add: crash_inv_def)
  have w': "world_inv ed sv w'" "starts w w'" using starts_HandlePayload i h by (fastforce simp: runs_def)+
  have ad: "advances (ew_journal w) (ew_journal w')"
    using synchronised.runs_HandlePayload i h by (fastforce simp: runs_def appends_def)
  show ?thesis
  proof (cases "j_size (ew_journal w') = j_size (ew_journal w)")
    case True
    then have "known w' = known w" using ad by (simp add: advances_def known_def)
    moreover have "(known w)(k \<mapsto> c) \<noteq> known w" if "k \<notin> dom (known w)" for k c
      using that by (metis domIff fun_upd_same option.distinct(1))
    ultimately have "mutations w' = mutations w" using w'(2) unfolding starts_def quiet_def by metis
    moreover have "take n (j_file (ew_journal w')) = take n (j_file (ew_journal w))"
      using ad crash_inv_length [OF w] by (auto simp: advances_def)
    ultimately show ?thesis using w w'(1) True by (simp add: crash_inv_def barrier_def)
  next
    case False
    obtain ids where "accounted w' ids" using crash_accounted [OF w] accounted_starts w'(2) by blast
    with False show ?thesis using accounted_crash_inv [OF w'(1)] by (simp add: barrier_def)
  qed
qed

lemma crash_reach_inv: "crash_reach ed sv w n \<Longrightarrow> crash_inv ed sv w n"
proof (induction rule: crash_reach.induct)
  case (installed oi data j)
  then show ?case by (simp add: crash_inv_def world_inv_def Open_inv mutations_def scan_Nil)
next
  case (stopped w n)
  then show ?case by (auto simp: crash_inv_def world_inv_def journal_inv_def Close_def synced_def mutations_def)
next
  case (recovered w n oi tail j)
  have "take n (j_file j) = take n (j_file (ew_journal w))" "int n \<le> j_size j"
    using recovered(2) crash_inv_length [OF recovered(3)] by (auto simp: Open_iff)
  with recovered(3) Open_inv [OF recovered(2)] show ?case by (auto simp: crash_inv_def world_inv_def mutations_def)
qed (rule served_inv)

text \<open>The histories without such a crash are among them.\<close>

lemma exec_reach_crash: "exec_reach ed sv w \<Longrightarrow> \<exists>n. crash_reach ed sv w n"
proof (induction rule: exec_reach.induct)
  case (booted oi data j)
  then show ?case using crash_reach.installed by blast
next
  case (continued w w')
  then obtain n where n: "crash_reach ed sv w n" by blast
  from continued(2) show ?case
  proof cases
    case (request env ctx payload r)
    then show ?thesis using crash_reach.served [OF n] by blast
  next
    case shutdown
    then show ?thesis using crash_reach.stopped [OF n] by blast
  next
    case (restart_process oi tail j)
    have "n \<le> nat (j_size (ew_journal w))" using crash_reach_inv [OF n] by (simp add: crash_inv_def)
    then have "synced (ew_journal w) @ tail = take n (j_file (ew_journal w)) @ (drop n (synced (ew_journal w)) @ tail)"
      by (metis append.assoc append_take_drop_id min.absorb1 synced_def take_take)
    with restart_process show ?thesis using crash_reach.recovered [OF n] by metis
  qed
qed

end
