(* ===== verification/Executor_Replay.thy ===== *)
theory Executor_Replay
  imports Executor_Safety
begin

text \<open>
  Results are final. A request that returned a result has left that result in the journal, for exactly its signed
  capability; the journal keeps it through every later request, kill and restart; and a request whose result is in
  the journal is answered from there.
\<close>

section \<open>What Complete leaves behind\<close>

lemma append_entries: "appendLocked io frame j = (j', None) \<Longrightarrow> j_entries j' = j_entries j"
  using append_done by fastforce

lemma map_sum_Inr: "map_sum f id r = Inr x \<longleftrightarrow> r = Inr x"
  by (cases r) auto

lemma Complete_Inr:
  assumes "Complete ed rv io s j = (j', Inr (snap, appended))"
  shows "\<exists>v e t. ResultVerify ed rv s = Inr v \<and> map_of (j_entries j') (rs_CapabilityID (vr_value v)) = Some e \<and>
    st_terminal e = Some t \<and> tr_signed t = (if appended then s else ts_signed snap)"
  using assms
  by (auto simp: Complete_def Let_def snapshotTerminal_def map_of_set_terminal append_entries
      split: sum.splits if_splits option.splits prod.splits)

lemma signed_result_id:
  assumes v: "ResultVerify ed rv s = Inr v" and x: "result_ok x" and s: "sr_canonical s = marshalResult x"
  shows "rs_CapabilityID (vr_value v) = rs_CapabilityID x"
proof -
  have ok: "result_ok (vr_value v)" and "sr_canonical s = marshalResult (vr_value v)"
    using ResultVerify_Inr [OF v] by simp_all
  then have "parse_doc (json_print (JObj (result_members x))) = parse_doc (json_print (JObj (result_members (vr_value v))))"
    using s by (simp only: marshalResult_print)
  then have "result_members x = result_members (vr_value v)"
    using flat_doc_parse [OF result_flat [OF x]] flat_doc_parse [OF result_flat [OF ok]] by simp
  then show ?thesis by (simp add: result_members_def)
qed

lemma SignFor_Inr:
  assumes "SignFor ed g c (checked_result_of x) = Inr s"
  shows "sr_canonical s = marshalResult x"
  using assms by (auto simp: SignFor_def checked_result_of_def bind_res_Inr_iff split: if_splits)

lemma SignResult_Some:
  assumes "SignResult ed a g (checked_result_of x) = Some s"
  shows "sr_canonical s = marshalResult x"
  using assms
  by (auto simp: SignResult_def PermitSignResult_def RecoverySignResult_def Let_def dest!: SignFor_Inr
      split: result_authority.splits sum.splits if_splits)

section \<open>Programs that store what they return\<close>

definition entry_for :: "ed25519 \<Rightarrow> executor_service \<Rightarrow> signed_capability \<Rightarrow> exec_world \<Rightarrow> started_record \<Rightarrow> bool" where
  "entry_for ed sv s w e \<longleftrightarrow> st_signed e = s \<and> CapabilityVerify ed (sv_verifier sv) s = Inr (st_verified e) \<and>
     map_of (j_entries (ew_journal w)) (val_CapabilityID (vc_value (st_verified e))) = Some e"

definition stored :: "ed25519 \<Rightarrow> executor_service \<Rightarrow> signed_capability \<Rightarrow> signed_result \<Rightarrow> exec_world \<Rightarrow> bool" where
  "stored ed sv s r w \<longleftrightarrow> (\<exists>e t. entry_for ed sv s w e \<and> st_terminal e = Some t \<and> tr_signed t = r)"

definition final :: "ed25519 \<Rightarrow> executor_service \<Rightarrow> signed_capability \<Rightarrow> signed_result run \<Rightarrow> bool" where
  "final ed sv s m \<longleftrightarrow> (\<forall>w e r w'. world_inv ed sv w \<and> entry_for ed sv s w e \<and> m w = (Some (Inr r), w') \<longrightarrow> stored ed sv s r w')"

lemma entry_grows: "entry_for ed sv s w e \<Longrightarrow> grows w w' \<Longrightarrow> \<exists>e'. entry_for ed sv s w' e' \<and>
    (\<forall>t. st_terminal e = Some t \<longrightarrow> st_terminal e' = Some t)"
  by (fastforce simp: entry_for_def grows_def extends_def)

lemma stored_grows: "stored ed sv s r w \<Longrightarrow> grows w w' \<Longrightarrow> stored ed sv s r w'"
  using entry_grows unfolding stored_def by metis

lemma bind_run_Inr:
  "bind_run m f w = (Some (Inr r), w') \<longleftrightarrow> (\<exists>x v. m w = (Some (Inr x), v) \<and> f x v = (Some (Inr r), w'))"
  by (auto simp: bind_run_def split: prod.splits option.splits sum.splits)

lemma final_bind:
  assumes m: "runs ed sv grows m" and f: "\<And>x. final ed sv s (f x)"
  shows "final ed sv s (bind_run m f)"
  unfolding final_def
proof (intro allI impI)
  fix w e r w'
  assume a: "world_inv ed sv w \<and> entry_for ed sv s w e \<and> bind_run m f w = (Some (Inr r), w')"
  then obtain x v where v: "m w = (Some (Inr x), v)" "f x v = (Some (Inr r), w')" by (auto simp: bind_run_Inr)
  have "world_inv ed sv v" "grows w v" using m v(1) a by (auto simp: runs_def)
  moreover obtain e' where "entry_for ed sv s v e'" using entry_grows a calculation(2) by blast
  ultimately show "stored ed sv s r w'" using f [of x] v(2) by (auto simp: final_def)
qed

named_theorems final_rules

lemma final_reject [final_rules]: "final ed sv s (reject_run e)"
  by (simp add: final_def reject_run_def)

lemma final_if [final_rules]: "final ed sv s m \<Longrightarrow> final ed sv s n \<Longrightarrow> final ed sv s (if b then m else n)"
  by simp

lemma final_let [final_rules]: "(\<And>x. final ed sv s (f x)) \<Longrightarrow> final ed sv s (Let t f)"
  by simp

lemma final_prod [final_rules]: "(\<And>x y. final ed sv s (f x y)) \<Longrightarrow> final ed sv s (case v of (x, y) \<Rightarrow> f x y)"
  by (simp split: prod.split)

lemma final_complete:
  assumes c: "CapabilityVerify ed (sv_verifier sv) s = Inr c" and x: "result_ok x" "sr_canonical q = marshalResult x"
    and k: "rs_CapabilityID x = val_CapabilityID (vc_value c)"
  shows "final ed sv s (bind_run (journal_complete ed sv env q) (\<lambda>(snap, appended). pure_run (if \<not> appended then ts_signed snap else q)))"
  unfolding final_def
proof (intro allI impI)
  fix w e r w'
  assume a: "world_inv ed sv w \<and> entry_for ed sv s w e \<and> bind_run (journal_complete ed sv env q)
    (\<lambda>(snap, appended). pure_run (if \<not> appended then ts_signed snap else q)) w = (Some (Inr r), w')"
  then obtain snap appended where j: "journal_complete ed sv env q w = (Some (Inr (snap, appended)), w')"
    and r: "r = (if appended then q else ts_signed snap)"
    by (auto simp: bind_run_Inr pure_run_def)
  have "grows w w'" using growth.runs_complete [of ed sv env q] a j by (auto simp: runs_def)
  then obtain e' where e': "entry_for ed sv s w' e'" using entry_grows a by blast
  obtain n where "Complete ed (sv_resultVerifier sv) (ev_io env n) q (ew_journal w) = (ew_journal w', Inr (snap, appended))"
    using j by (auto simp: journal_complete_def bind_run_Inr question_def use_journal_def map_sum_Inr apsnd_def map_prod_def
        split: prod.splits if_splits)
  from Complete_Inr [OF this] obtain v f t where "ResultVerify ed (sv_resultVerifier sv) q = Inr v"
    "map_of (j_entries (ew_journal w')) (rs_CapabilityID (vr_value v)) = Some f" "st_terminal f = Some t" "tr_signed t = r"
    unfolding r by blast
  moreover have "rs_CapabilityID (vr_value v) = val_CapabilityID (vc_value (st_verified e'))"
    using signed_result_id [OF calculation(1) x] k c e' by (simp add: entry_for_def)
  ultimately show "stored ed sv s r w'" using e' by (auto simp: stored_def entry_for_def)
qed

lemma final_finishPrepared:
  assumes "CapabilityVerify ed (sv_verifier sv) s = Inr (authority_capability a)"
  shows "final ed sv s (finishPrepared ed sv env started a x)"
  unfolding finishPrepared_def
proof (rule final_bind [OF growth.runs_ask])
  fix random
  let ?x = "\<lambda>b. bound_value x (newUUIDv4 b) started (vc_value (authority_capability a))"
  have "final ed sv s (case CheckResult (?x b) of Inl _ \<Rightarrow> reject_run XErrorResult
      | Inr checked \<Rightarrow> (case SignResult ed a (sv_signer sv) checked of None \<Rightarrow> reject_run XErrorResultSigning
        | Some q \<Rightarrow> bind_run (journal_complete ed sv env q) (\<lambda>(snap, appended).
            pure_run (if \<not> appended then ts_signed snap else q))))" for b
    using final_complete [OF assms, of "?x b"]
    by (auto simp: CheckResult_iff bound_value_def intro!: final_reject dest: SignResult_Some split: sum.split option.split)
  then show "final ed sv s (case random of None \<Rightarrow> reject_run XErrorResult
      | Some b \<Rightarrow> (case CheckResult (?x b) of Inl _ \<Rightarrow> reject_run XErrorResult
        | Inr checked \<Rightarrow> (case SignResult ed a (sv_signer sv) checked of None \<Rightarrow> reject_run XErrorResultSigning
          | Some q \<Rightarrow> bind_run (journal_complete ed sv env q) (\<lambda>(snap, appended).
              pure_run (if \<not> appended then ts_signed snap else q)))))"
    by (simp add: final_reject split: option.split)
qed

lemma final_finish:
  assumes "CapabilityVerify ed (sv_verifier sv) s = Inr (authority_capability a)"
  shows "final ed sv s (finish ed sv env started a x)"
  unfolding finish_def Let_def
  by (intro final_bind growth.runs_now growth.runs_ask final_finishPrepared assms)

lemma final_recover:
  assumes "\<And>q. oc_recovery out = Some q \<Longrightarrow> CapabilityVerify ed (sv_verifier sv) s = Inr (rc_verified q)"
  shows "final ed sv s (recover ed sv env ctx out)"
proof -
  have "CapabilityVerify ed (sv_verifier sv) s = Inr (authority_capability (RecoveryAuthority q))" if "oc_recovery out = Some q" for q
    using assms [OF that] by (simp add: authority_capability_def)
  then show ?thesis
    unfolding recover_def recovered_result_def
    by (auto intro!: final_rules final_bind final_finishPrepared effect_rules split: option.split)
qed

lemma Take_verified:
  "TakeAddAt p t = (p', a) \<Longrightarrow> pm_verified p' = pm_verified p"
  "TakeRevokeAt p t = (p', b) \<Longrightarrow> pm_verified p' = pm_verified p"
  "TakeInspectAt p t = (p', c) \<Longrightarrow> pm_verified p' = pm_verified p"
  using Take_cases by fastforce+

lemma final_execute:
  assumes "CapabilityVerify ed (sv_verifier sv) s = Inr (pm_verified p)"
  shows "final ed sv s (execute ed sv env started p preflight)"
proof -
  have fin: "final ed sv s (finish ed sv env started (PermitAuthority p') x)" if "pm_verified p' = pm_verified p" for p' x
    using assms that by (intro final_finish) (simp add: authority_capability_def)
  show ?thesis
    unfolding execute_def Let_def
    by (rule final_bind [OF growth.runs_now])
      (auto intro!: final_rules final_bind fin effect_rules dest: Take_verified split: prod.split sum.split)
qed

section \<open>Every returned result is stored\<close>

text \<open>An outcome that speaks of the request's own entry.\<close>

definition outcome_for :: "ed25519 \<Rightarrow> executor_service \<Rightarrow> signed_capability \<Rightarrow> exec_world \<Rightarrow> outcome \<Rightarrow> bool" where
  "outcome_for ed sv s w out \<longleftrightarrow> (\<exists>e. entry_for ed sv s w e \<and>
     (\<forall>p. oc_permit out = Some p \<longrightarrow> pm_verified p = st_verified e) \<and>
     (\<forall>q. oc_recovery out = Some q \<longrightarrow> rc_verified q = st_verified e) \<and>
     (\<forall>t. oc_terminal out = Some t \<longrightarrow> (\<exists>u. st_terminal e = Some u \<and> tr_signed u = ts_signed t)))"

lemma same_entry:
  assumes "journal_inv ed (sv_verifier sv) rv (ew_journal w)" "CapabilityVerify ed (sv_verifier sv) s = Inr c"
    "map_of (j_entries (ew_journal w)) (val_CapabilityID (vc_value c)) = Some e" "sameCapability e s c"
  shows "outcome_for ed sv s w (existingOutcome e)"
proof -
  have e: "entry_ok ed (sv_verifier sv) (val_CapabilityID (vc_value c)) e" using journal_inv_entry [OF assms(1,3)] .
  have s: "st_signed e = s" using assms(4) by (cases "st_signed e"; cases s) (simp add: sameCapability_def)
  then have "st_verified e = c" using e assms(2) by (simp add: entry_ok_def)
  with s assms(2,3) show ?thesis
    unfolding outcome_for_def
    by (intro exI [of _ e]) (auto simp: entry_for_def existingOutcome_def snapshotTerminal_def split: option.splits)
qed

lemma lookup_outcome:
  assumes "world_inv ed sv w" "Lookup ed (sv_verifier sv) s (ew_journal w) = Inr out" "oc_state out \<noteq> StateUnseen"
  shows "outcome_for ed sv s w out"
  using assms same_entry [of ed sv "sv_resultVerifier sv" w s]
  by (auto simp: Lookup_def world_inv_def split: sum.splits if_splits option.splits)

lemma begin_outcome:
  assumes w: "world_inv ed sv w" and b: "Begin ed (sv_verifier sv) io s t d (ew_journal w) = (j, Inr out)"
  shows "outcome_for ed sv s (w\<lparr>ew_journal := j\<rparr>) out"
proof (cases "oc_permit out")
  case (Some p)
  have p: "permit_of (Inr out) = Some p" using Some by (simp add: permit_of_def)
  obtain e where e: "CapabilityVerify ed (sv_verifier sv) s = Inr (pm_verified p)"
      "val_CapabilityID (vc_value (pm_verified p)) \<notin> keys (ew_journal w)" "st_signed e = s" "st_verified e = pm_verified p"
      "j_entries j = j_entries (ew_journal w) @ [(val_CapabilityID (vc_value (pm_verified p)), e)]"
    using Begin_entry [OF b p] by blast
  have out: "oc_recovery out = None" "oc_terminal out = None"
    using b Some by (auto simp: Begin_def Let_def existingOutcome_permit split: sum.splits if_splits option.splits prod.splits)
  have "map_of (j_entries (ew_journal w)) (val_CapabilityID (vc_value (pm_verified p))) = None" using e(2) keys_None by blast
  then have "entry_for ed sv s (w\<lparr>ew_journal := j\<rparr>) e" using e by (simp add: entry_for_def map_add_def)
  with Some out e(4) show ?thesis unfolding outcome_for_def by (intro exI [of _ e]) simp
next
  case None
  then have "j = ew_journal w \<and> (\<exists>c e. CapabilityVerify ed (sv_verifier sv) s = Inr c \<and> sameCapability e s c \<and>
      map_of (j_entries (ew_journal w)) (val_CapabilityID (vc_value c)) = Some e \<and> out = existingOutcome e)"
    using b by (auto simp: Begin_def Let_def split: sum.splits if_splits option.splits prod.splits)
  then show ?thesis using same_entry [of ed sv "sv_resultVerifier sv" w s] w by (auto simp: world_inv_def)
qed

lemma begun_stored:
  assumes w: "world_inv ed sv w" and o: "outcome_for ed sv s w out"
    and m: "begun ed sv env ctx preflight out w = (Some (Inr r), w')"
  shows "stored ed sv s r w'"
proof -
  obtain e where e: "entry_for ed sv s w e" "\<And>p. oc_permit out = Some p \<Longrightarrow> pm_verified p = st_verified e"
      "\<And>q. oc_recovery out = Some q \<Longrightarrow> rc_verified q = st_verified e"
      "\<And>t. oc_terminal out = Some t \<Longrightarrow> \<exists>u. st_terminal e = Some u \<and> tr_signed u = ts_signed t"
    using o unfolding outcome_for_def by blast
  have v: "CapabilityVerify ed (sv_verifier sv) s = Inr (st_verified e)" using e(1) by (simp add: entry_for_def)
  have rec: "final ed sv s (recover ed sv env ctx out)" using final_recover e(3) v by metis
  have exe: "final ed sv s (execute ed sv env started p preflight)" if "oc_permit out = Some p" for p started
    using final_execute e(2) [OF that] v by metis
  have ter: "stored ed sv s r w'" if "terminal_result out w = (Some (Inr r), w')"
    using that e(1,4) by (auto simp: terminal_result_def reject_run_def pure_run_def stored_def split: option.splits)
  show ?thesis
    using m ter rec exe w e(1)
    by (auto simp: begun_def final_def reject_run_def split: lookup_state.splits option.splits)
qed

definition stores :: "ed25519 \<Rightarrow> executor_service \<Rightarrow> signed_capability \<Rightarrow> signed_result run \<Rightarrow> bool" where
  "stores ed sv s m \<longleftrightarrow> (\<forall>w r w'. world_inv ed sv w \<and> m w = (Some (Inr r), w') \<longrightarrow> stored ed sv s r w')"

lemma stores_bind: "runs ed sv grows m \<Longrightarrow> (\<And>x. stores ed sv s (f x)) \<Longrightarrow> stores ed sv s (bind_run m f)"
  by (fastforce simp: stores_def bind_run_Inr runs_def)

lemma stores_processUnseen: "stores ed sv s (processUnseen ed sv env ctx s c)"
proof -
  have last_step: "stores ed sv s (bind_run (journal_begin ed sv env s t d) (\<lambda>out. begun ed sv env ctx' preflight out))" for t d ctx' preflight
    unfolding stores_def
  proof (intro allI impI)
    fix w r w'
    assume a: "world_inv ed sv w \<and> bind_run (journal_begin ed sv env s t d) (\<lambda>out. begun ed sv env ctx' preflight out) w = (Some (Inr r), w')"
    then obtain out v where j: "journal_begin ed sv env s t d w = (Some (Inr out), v)"
      and m: "begun ed sv env ctx' preflight out v = (Some (Inr r), w')" by (auto simp: bind_run_Inr)
    have v: "world_inv ed sv v" using growth.runs_begin [of ed sv env s t d] a j by (auto simp: runs_def)
    obtain n where "Begin ed (sv_verifier sv) (ev_io env n) s t d (ew_journal w) = (ew_journal v, Inr out)"
        "v = w\<lparr>ew_tick := Suc n, ew_journal := ew_journal v\<rparr>"
      using j by (auto simp: journal_begin_def bind_run_Inr question_def use_journal_def map_sum_Inr apsnd_def map_prod_def
          split: prod.splits if_splits)
    then have "outcome_for ed sv s v out"
      using begin_outcome [of ed sv "w\<lparr>ew_tick := Suc n\<rparr>" "ev_io env n" s t d "ew_journal v" out] a
      by (simp add: world_inv_def)
    then show "stored ed sv s r w'" by (rule begun_stored [OF v _ m])
  qed
  show ?thesis
    unfolding processUnseen_def Let_def
    by (intro last_step stores_bind [OF growth.runs_now] stores_bind [OF growth.runs_lift]
        stores_bind [OF growth.runs_deadline] stores_bind [OF growth.runs_timeout] stores_bind [OF growth.runs_preflight])
qed

text \<open>\<open>Process\<close> and \<open>ProcessRecovery\<close> differ in what they do with an unseen capability.\<close>

definition looked_up ::
  "ed25519 \<Rightarrow> executor_service \<Rightarrow> exec_env \<Rightarrow> exec_ctx \<Rightarrow> signed_capability \<Rightarrow> (verified_capability \<Rightarrow> signed_result run) \<Rightarrow>
     signed_result run" where
  "looked_up ed sv env ctx s unseen =
     bind_run (lift_run (admit ed sv s)) (\<lambda>c.
     bind_run (acquire env) (\<lambda>_.
     bind_run (journal_lookup ed sv s) (\<lambda>out.
       if oc_state out = StateUnseen then unseen c else begun ed sv env ctx zero_observation (out\<lparr>oc_permit := None\<rparr>))))"

lemma switch_begun:
  "(case oc_state out of StateTerminal \<Rightarrow> terminal_result out | StateStartedOnly \<Rightarrow> recover ed sv env ctx out
     | StateUnseen \<Rightarrow> u | StateNewStarted \<Rightarrow> reject_run XErrorJournal) =
   (if oc_state out = StateUnseen then u else begun ed sv env ctx zero_observation (out\<lparr>oc_permit := None\<rparr>))"
  by (simp add: begun_def terminal_result_def recover_def split: lookup_state.split)

lemma Process_looked_up:
  "Process ed sv env ctx s = looked_up ed sv env ctx s (\<lambda>c. processUnseen ed sv env ctx s c)"
  "ProcessRecovery ed sv env ctx s = looked_up ed sv env ctx s (\<lambda>_. reject_run XErrorReplay)"
  by (simp_all add: Process_def ProcessRecovery_def looked_up_def switch_begun)

lemma stores_looked_up:
  assumes "\<And>c. stores ed sv s (unseen c)"
  shows "stores ed sv s (looked_up ed sv env ctx s unseen)"
proof -
  let ?f = "\<lambda>c out. if oc_state out = StateUnseen then unseen c
    else begun ed sv env ctx zero_observation (out\<lparr>oc_permit := None\<rparr>)"
  have last_step: "stores ed sv s (bind_run (journal_lookup ed sv s) (?f c))" for c
    unfolding stores_def
  proof (intro allI impI)
    fix w r w'
    assume a: "world_inv ed sv w \<and> bind_run (journal_lookup ed sv s) (?f c) w = (Some (Inr r), w')"
    then obtain out where l: "Lookup ed (sv_verifier sv) s (ew_journal w) = Inr out" and m: "?f c out w = (Some (Inr r), w')"
      by (auto simp: bind_run_Inr journal_lookup_def use_journal_def map_sum_Inr)
    show "stored ed sv s r w'"
    proof (cases "oc_state out = StateUnseen")
      case True
      with m a assms show ?thesis by (fastforce simp: stores_def)
    next
      case False
      have "outcome_for ed sv s w (out\<lparr>oc_permit := None\<rparr>)"
        using lookup_outcome [OF _ l False] a by (auto simp: outcome_for_def)
      then show ?thesis using begun_stored a m False by auto
    qed
  qed
  show ?thesis
    unfolding looked_up_def by (intro last_step stores_bind [OF growth.runs_lift] stores_bind [OF growth.runs_acquire])
qed

lemma stores_requests:
  "stores ed sv s (Process ed sv env ctx s)" "stores ed sv s (ProcessRecovery ed sv env ctx s)"
  unfolding Process_looked_up
  by (auto intro!: stores_looked_up stores_processUnseen simp: stores_def [of _ _ _ "reject_run _"] reject_run_def)

section \<open>A stored result is the answer\<close>

text \<open>An environment in which the process and the context live on.\<close>

definition alive :: "exec_env \<Rightarrow> bool" where
  "alive env \<longleftrightarrow> (\<forall>n. \<not> ev_killed env n \<and> \<not> ev_ctxErr env n)"

lemma alive_ask: "alive env \<Longrightarrow> ask env f w = (Some (Inr (f (ew_tick w))), w\<lparr>ew_tick := Suc (ew_tick w)\<rparr>)"
  by (simp add: alive_def ask_def question_def bind_run_def pure_run_def)

lemma alive_acquire:
  assumes a: "alive env"
  shows "acquire env w = (Some (Inr ()), w\<lparr>ew_tick := ew_tick w + 3\<rparr>)"
proof -
  have "\<not> ev_ctxErr env n" for n using a by (simp add: alive_def)
  with a show ?thesis by (simp add: acquire_def bind_run_def alive_ask pure_run_def)
qed

lemma stored_answer:
  assumes st: "stored ed sv s r w" and w: "readyLocked (ew_journal w)" and env: "alive env" and c: "admit ed sv s = Inr c"
  shows "\<exists>n. looked_up ed sv env ctx s unseen w = (Some (Inr r), w\<lparr>ew_tick := n\<rparr>)"
proof -
  obtain e t where e: "st_signed e = s" "CapabilityVerify ed (sv_verifier sv) s = Inr (st_verified e)"
      "map_of (j_entries (ew_journal w)) (val_CapabilityID (vc_value (st_verified e))) = Some e"
      "st_terminal e = Some t" "tr_signed t = r" using st by (auto simp: stored_def entry_for_def)
  obtain n where n: "acquire env w = (Some (Inr ()), w\<lparr>ew_tick := n\<rparr>)" using alive_acquire [OF env] by blast
  have "Lookup ed (sv_verifier sv) s (ew_journal w) = Inr (existingOutcome e)"
    using e w by (simp add: Lookup_def sameCapability_def)
  then have "journal_lookup ed sv s (w\<lparr>ew_tick := n\<rparr>) = (Some (Inr (existingOutcome e)), w\<lparr>ew_tick := n\<rparr>)"
    by (simp add: journal_lookup_def use_journal_def)
  then have "looked_up ed sv env ctx s unseen w = (Some (Inr r), w\<lparr>ew_tick := n\<rparr>)"
    using c n e(4,5)
    by (simp add: looked_up_def bind_run_def lift_run_def existingOutcome_def begun_def terminal_result_def snapshotTerminal_def pure_run_def)
  then show ?thesis by blast
qed

lemma exec_step_grows: "exec_step ed sv w w' \<Longrightarrow> world_inv ed sv w \<Longrightarrow> grows w w'"
proof (induction rule: exec_step.induct)
  case (request env ctx payload w r w')
  then show ?case using growth.runs_HandlePayload by (fastforce simp: runs_def)
next
  case (shutdown w)
  then show ?case by (simp add: grows_def Close_def extends_refl)
next
  case (restart_process oi w tail j)
  then show ?case using reopen_extends by (simp add: grows_def world_inv_def)
qed

lemma exec_steps_keep:
  "(exec_step ed sv)\<^sup>*\<^sup>* w w' \<Longrightarrow> exec_reach ed sv w \<Longrightarrow> stored ed sv s r w \<Longrightarrow> exec_reach ed sv w' \<and> stored ed sv s r w'"
proof (induction rule: rtranclp_induct)
  case (step v u)
  then have v: "exec_reach ed sv v" "stored ed sv s r v" by blast+
  have "grows v u" using exec_step_grows [OF step(2)] exec_reach_inv [OF v(1)] by blast
  with v step(2) show ?case using exec_reach.continued stored_grows by blast
qed blast

definition respond :: "signed_result \<Rightarrow> bytes run" where
  "respond r = (case NewResponseEnvelope (sr_canonical r) (sr_signature r) of
     Inl _ \<Rightarrow> reject_run XErrorResult
   | Inr response \<Rightarrow> (case EncodeResponseEnvelope response of Inl _ \<Rightarrow> reject_run XErrorResult | Inr b \<Rightarrow> pure_run b))"

lemma HandlePayload_decoded:
  assumes "DecodeRequestEnvelope payload = Inr e"
  shows "HandlePayload ed sv env ctx payload = bind_run (if rq_recoveryOnly e then ProcessRecovery ed sv env ctx (request_capability sv e)
    else Process ed sv env ctx (request_capability sv e)) respond"
  by (simp add: HandlePayload_def assms respond_def [abs_def])

lemma respond_pure: "respond r w = (Some (Inr b), w') \<Longrightarrow> w' = w \<and> (\<forall>v. respond r v = (Some (Inr b), v))"
  by (auto simp: respond_def reject_run_def pure_run_def split: sum.splits)

end
