(* ===== verification/Executor_Run.thy ===== *)
theory Executor_Run
  imports Executor_Replay
begin

text \<open>
  The executor makes progress. When the operating system, the clock and the runner answer well, a fresh add request is
  carried out: one mutation with the signed bytes, and a signed result that says so. The run also gives the sample
  history on which the other theorems about the executor are evaluated.
\<close>

section \<open>Terminal records fit and are written\<close>

lemma terminal_fits:
  assumes e: "CapabilityVerify ed cv (st_signed e) = Inr (st_verified e)" "canonicalTime (st_received e)" "canonicalTime (st_deadline e)"
      "chain_ok sequence previous" and r: "ResultVerify ed rv s = Inr r"
  shows "\<exists>payload d. marshalRecordPayload (newTerminalPayload e s r sequence previous) = Inr (payload, d) \<and>
    payload \<noteq> [] \<and> length payload \<le> MaxPayloadBytes"
proof -
  let ?q = "newTerminalPayload e s r sequence previous"
  let ?p = "?q\<lparr>pl_RecordChecksum := digestPayload (checksum_json ?q)\<rparr>"
  note texts = capability_texts [OF e(1)] and od = optionalDigest_valid [OF e(4)]
  have rd: "re_matches digestPattern (vr_digest r)" using ResultVerify_Inr [OF r] by simp
  have flat: "flat_doc (payload_members ?p)"
    using texts od rd
    by (intro payload_flat) (auto simp: newTerminalPayload_def Let_def encodeBytes_safe formatTime_safe record_constants_safe
        digest_safe digestPayload_eq)
  have b: "length (encodeBytes (sr_canonical s)) \<le> 10923" "length (encodeBytes (sr_signature s)) \<le> 86"
    using encodeBytes_length [of "sr_canonical s" 8192] encodeBytes_length [of "sr_signature s" 64] ResultVerify_sizes [OF r]
    by (simp_all add: MaxResultBytes_def)
  have p: "length x \<le> 71" if "optionalDigest previous = Some x" for x
    using that e(4) by (auto simp: optionalDigest_def chain_ok_def digest_length split: if_splits)
  have "length (payload_json ?p) \<le> MaxPayloadBytes"
    using b rd texts p record_sizes [OF e(1)] time_size [OF e(2)] time_size [OF e(3)]
    by (intro payload_size [OF flat]) (simp_all add: newTerminalPayload_def Let_def digest_length digestPayload_eq
        phaseTerminal_def SchemaRecordV1_def)
  then show ?thesis
    by (intro exI conjI) (auto simp: marshalRecordPayload_Inr newTerminalPayload_def Let_def payload_json_def)
qed

lemma Complete_succeeds:
  assumes j: "journal_inv ed cv rv j" "readyLocked j" "j_nextSequence j \<noteq> 0" "j_nextSequence j \<le> 2 ^ 53 - 1"
    and v: "ResultVerify ed rv s = Inr v" "map_of (j_entries j) (rs_CapabilityID (vr_value v)) = Some e"
      "BindTo v (st_verified e) = Inr b" "rs_JournalSequence (vr_value v) = st_sequence e" "st_terminal e = None"
    and t: "canonicalTime (st_received e)" "canonicalTime (st_deadline e)"
    and io: "durable io" and room: "j_size j + int MaxFrameBytes \<le> int MaxJournalBytes"
  shows "\<exists>j' snap. Complete ed rv io s j = (j', Inr (snap, True)) \<and> readyLocked j'"
proof -
  have ch: "chain_ok (j_nextSequence j) (j_lastRecordDigest j)" using journal_inv_index [OF j(1)] by (simp add: index_ok_def)
  have c: "CapabilityVerify ed cv (st_signed e) = Inr (st_verified e)"
    using journal_inv_entry [OF j(1) v(2)] by (simp add: entry_ok_def)
  obtain payload d where m: "marshalRecordPayload (newTerminalPayload e s v (j_nextSequence j) (j_lastRecordDigest j)) = Inr (payload, d)"
    and len: "payload \<noteq> []" "length payload \<le> MaxPayloadBytes"
    using terminal_fits [OF c t ch v(1)] by blast
  obtain frame where f: "encodeFrame recordTerminal (j_nextSequence j) payload = Inr frame"
    using j(3,4) len by (auto simp: encodeFrame_def Let_def not_less)
  obtain j1 where a: "appendLocked io frame j = (j1, None)" using durable_append [OF io f room] by blast
  have "\<not> j_closed j1 \<and> \<not> j_poisoned j1" using append_done [OF a] j(2) by (auto simp: readyLocked_def)
  then show ?thesis
    using v by (simp add: Complete_def j(2) m f a Let_def readyLocked_def [of "_\<lparr>j_lastRecordDigest := _\<rparr>"])
qed

lemma newUUIDv4_matches: "length b = 16 \<Longrightarrow> re_matches uuidPattern (newUUIDv4 b)"
  unfolding newUUIDv4_def Let_def
  by (rule uuidPatternI) (simp_all add: hexlow_hex_encode)

lemma verified_fields:
  assumes "CapabilityVerify ed cv s = Inr c"
  shows "cap_ok (vc_value c)" "vc_digest c = digestBytes (vc_canonical c)" "vc_canonical c \<noteq> []" "vc_digest c \<noteq> []"
    "vc_executorID c = cv_executorID cv"
  using CapabilityVerify_Inr [OF assms] CapabilityVerify_sizes [OF assms] by (auto simp: digestBytes_def)

section \<open>Time\<close>

lemma Truncate_ms: "Truncate t Millisecond \<le> t" "Truncate t Millisecond mod Millisecond = 0"
  by (simp_all add: Truncate_def minus_mod_eq_mult_div)

lemma Truncate_ge:
  assumes "a mod Millisecond = 0" "a \<le> t"
  shows "a \<le> Truncate t Millisecond"
proof -
  have "a div Millisecond \<le> t div Millisecond" using assms(2) by (simp add: zdiv_mono1)
  moreover have "a = Millisecond * (a div Millisecond)" using assms(1) by (metis add.right_neutral mult_div_mod_eq)
  ultimately have "a \<le> Millisecond * (t div Millisecond)" by simp
  then show ?thesis by (simp add: Truncate_def minus_mod_eq_mult_div)
qed

lemma deadline_bounds:
  assumes "t mod Millisecond = 0" "t \<le> r" "r mod Millisecond = 0" "t + 2 * Second \<le> expires" "\<forall>p. ctx = Some p \<longrightarrow> t + 2 * Second \<le> p"
  shows "t + 2 * Second \<le> deadline_of ctx r expires" "deadline_of ctx r expires \<le> r + 2 * Second"
    "deadline_of ctx r expires \<le> expires" "deadline_of ctx r expires mod Millisecond = 0"
proof -
  define m where "m = (if expires < r + MaxOperationDuration then expires else r + MaxOperationDuration)"
  define d where "d = (case ctx of None \<Rightarrow> m | Some c \<Rightarrow> if c < m then Truncate c Millisecond else m)"
  have e: "deadline_of ctx r expires = Truncate d Millisecond" unfolding deadline_of_def d_def m_def Let_def ..
  have m: "m \<le> expires" "m \<le> r + 2 * Second" "t + 2 * Second \<le> m"
    using assms(2,4) by (simp_all add: m_def MaxOperationDuration_def MaxDeadline_def)
  have a: "(t + 2 * Second) mod Millisecond = 0" using assms(1) by (simp add: mod_add_eq [symmetric])
  have "t + 2 * Second \<le> d"
    using m(3) assms(5) Truncate_ge [OF a] by (auto simp: d_def split: option.split)
  moreover have "d \<le> m"
    using Truncate_ms(1) by (auto simp: d_def split: option.split intro: order_trans less_imp_le)
  ultimately show "t + 2 * Second \<le> deadline_of ctx r expires" "deadline_of ctx r expires \<le> r + 2 * Second"
    "deadline_of ctx r expires \<le> expires" "deadline_of ctx r expires mod Millisecond = 0"
    using m Truncate_ge [OF a] Truncate_ms [of d] by (auto simp: e)
qed

section \<open>A cooperative environment\<close>

lemma bind_step: "m w = (Some (Inr x), v) \<Longrightarrow> bind_run m f w = f x v"
  by (simp add: bind_run_def)

lemma bind_pure [simp]: "bind_run (pure_run x) f w = f x w"
  by (simp add: bind_run_def pure_run_def)

lemma bind_lift [simp]: "bind_run (lift_run (Inr x)) f w = f x w"
  by (simp add: bind_run_def lift_run_def)

lemma bind_log [simp]: "bind_run (log_call c) f w = f () (w\<lparr>ew_calls := ew_calls w @ [c]\<rparr>)"
  by (simp add: bind_run_def log_call_def)

lemma bind_question: "alive env \<Longrightarrow> bind_run (question env) f w = f (ew_tick w) (w\<lparr>ew_tick := Suc (ew_tick w)\<rparr>)"
  by (simp add: alive_def bind_run_def question_def)

lemmas alive_run = bind_question ask_def call_runner_def bind_run_assoc

text \<open>
  \<open>cooperative\<close>: nothing dies, every append reaches the disk, randomness is available, and from instant \<open>t\<close> on
  the clocks agree, never run backwards and need at most a second for the whole request. \<open>installs\<close>: the runner
  sees no element for the target until question \<open>k\<close>, where a mutation succeeds, and the element from then on.
\<close>

definition cooperative :: "exec_env \<Rightarrow> gotime \<Rightarrow> bool" where
  "cooperative env t \<longleftrightarrow> alive env \<and> (\<forall>n. durable (ev_io env n)) \<and> (\<forall>n. \<exists>b. ev_random env n = Some b \<and> length b = 16) \<and>
     (\<forall>n. t \<le> ev_clock env n \<and> ev_clock env n \<le> t + Second \<and> ev_clock env n \<le> ev_clock env (Suc n) \<and>
       ev_wall env n = ev_clock env n)"

definition installs :: "exec_env \<Rightarrow> cap_value \<Rightarrow> nat \<Rightarrow> uint64 \<Rightarrow> bool" where
  "installs env v k ttl \<longleftrightarrow> ev_mutate env k = (NFTExitSuccess, False) \<and>
     (\<forall>n. ev_inspect env n = Some \<lparr>ob_State = if n < k then ReadbackAbsent else ReadbackActive,
        ob_TargetIPv4 = val_TargetIPv4 v, ob_OwnedSchemaDigest = val_OwnedSchemaDigest v,
        ob_RemainingTTLSeconds = if n < k then 0 else ttl\<rparr>)"

definition stamp :: "exec_env \<Rightarrow> nat \<Rightarrow> gotime" where
  "stamp env n = Truncate (ev_clock env n) Millisecond"

lemma bind_now: "alive env \<Longrightarrow> bind_run (now env) f w = f (stamp env (ew_tick w)) (w\<lparr>ew_tick := Suc (ew_tick w)\<rparr>)"
  by (simp add: now_def alive_run stamp_def)

lemma bind_deadline:
  assumes "alive env" "t < deadline_of ctx t expires" "deadline_of ctx t expires \<le> t + 2 * Second"
  shows "bind_run (operationDeadline env ctx t expires) f w = f (deadline_of ctx t expires) (w\<lparr>ew_tick := Suc (ew_tick w)\<rparr>)"
  using assms Sub_greater [of "2 * Second" "deadline_of ctx t expires" t]
  by (simp add: operationDeadline_def alive_run Let_def MaxOperationDuration_def MaxDeadline_def alive_def [THEN iffD1])

lemma clock_mono: "cooperative env t \<Longrightarrow> m \<le> n \<Longrightarrow> ev_clock env m \<le> ev_clock env n"
  by (rule lift_Suc_mono_le [of "ev_clock env"]) (simp_all add: cooperative_def)

lemma stamps:
  assumes "cooperative env t" "t mod Millisecond = 0"
  shows "t \<le> stamp env n" "stamp env n \<le> t + Second" "stamp env n mod Millisecond = 0" "stamp env n \<le> ev_clock env n"
    "m \<le> n \<Longrightarrow> stamp env m \<le> stamp env n"
proof -
  have c: "t \<le> ev_clock env i" "ev_clock env i \<le> t + Second" for i using assms(1) by (auto simp: cooperative_def)
  show "t \<le> stamp env n" unfolding stamp_def by (rule Truncate_ge [OF assms(2) c(1)])
  show s: "stamp env i mod Millisecond = 0" "stamp env i \<le> ev_clock env i" for i by (simp_all add: stamp_def Truncate_ms)
  from s(2) c(2) show "stamp env n \<le> t + Second" by (rule order_trans)
  show "stamp env m \<le> stamp env n" if "m \<le> n"
    unfolding stamp_def [of env n]
    by (rule Truncate_ge [OF s(1)]) (rule order_trans [OF s(2) clock_mono [OF assms(1) that]])
qed

section \<open>Up to the journal\<close>

definition earlier :: "exec_ctx \<Rightarrow> gotime \<Rightarrow> exec_ctx" where
  "earlier ctx d = (case ctx of None \<Rightarrow> Some d | Some p \<Rightarrow> if p < d then Some p else Some d)"

lemma bind_timeout:
  "alive env \<Longrightarrow> bind_run (WithTimeout env ctx d) f w = f (earlier ctx (ev_wall env (ew_tick w) + d)) (w\<lparr>ew_tick := Suc (ew_tick w)\<rparr>)"
  by (simp add: WithTimeout_def alive_run earlier_def)

lemma checkFreshValue_ok:
  assumes "cap_ok v" "val_NotBefore v \<le> t" "t < val_ExpiresAt v"
  shows "checkFreshValue v t = Inr ()"
  using assms by (auto simp: checkFreshValue_def cap_ok_def times_ok_def)

lemma states_distinct:
  "ReadbackAbsent \<noteq> ReadbackActive" "ReadbackActive \<noteq> ReadbackAbsent" "ReadbackAbsent \<noteq> ReadbackMismatch"
  "ReadbackAbsent \<noteq> ReadbackUnavailable" "ReadbackActive \<noteq> ReadbackMismatch" "ReadbackActive \<noteq> ReadbackUnavailable"
  by (simp_all add: ReadbackAbsent_def ReadbackActive_def ReadbackMismatch_def ReadbackUnavailable_def)

definition absent_observation :: "cap_value \<Rightarrow> observation" where
  "absent_observation v = \<lparr>ob_State = ReadbackAbsent, ob_TargetIPv4 = val_TargetIPv4 v,
     ob_OwnedSchemaDigest = val_OwnedSchemaDigest v, ob_RemainingTTLSeconds = 0\<rparr>"

lemma preflight_absent:
  assumes "alive env" "installs env v k ttl" "val_Operation v = OperationAdd" "ew_tick w < k"
  shows "preflight_inspect env v w =
    (Some (Inr (absent_observation v)), w\<lparr>ew_tick := Suc (ew_tick w), ew_calls := ew_calls w @ [RunInspect (inspectionFor v)]\<rparr>)"
  using assms
  by (simp add: preflight_inspect_def inspect_def installs_def alive_run validateObservation_def inspectionFor_def states_distinct pure_run_def
      absent_observation_def)

lemma world_order [simp]: "w\<lparr>ew_calls := c, ew_tick := n\<rparr> = w\<lparr>ew_tick := n, ew_calls := c\<rparr>"
  by (cases w) simp

lemma Sub_small: "0 \<le> t - u \<Longrightarrow> t - u \<le> 2 * Second \<Longrightarrow> Sub t u = t - u"
  by (simp add: Sub_def)

lemma processUnseen_begins:
  assumes env: "cooperative env t" "t mod Millisecond = 0" "installs env (vc_value c) k ttl" "ew_tick w + 3 < k"
    and c: "cap_ok (vc_value c)" "val_Operation (vc_value c) = OperationAdd"
    and v: "val_NotBefore (vc_value c) \<le> t" "t + 2 * Second \<le> val_ExpiresAt (vc_value c)"
    and ctx: "\<forall>p. ctx = Some p \<longrightarrow> t + 2 * Second \<le> p"
  shows "\<exists>d octx. t + 2 * Second \<le> d \<and> d \<le> stamp env (ew_tick w + 4) + 2 * Second \<and>
    d mod Millisecond = 0 \<and> d \<le> val_ExpiresAt (vc_value c) \<and>
    processUnseen ed sv env ctx s c w =
      bind_run (journal_begin ed sv env s (stamp env (ew_tick w + 4)) d) (begun ed sv env octx (absent_observation (vc_value c)))
      (w\<lparr>ew_tick := ew_tick w + 6, ew_calls := ew_calls w @ [RunInspect (inspectionFor (vc_value c))]\<rparr>)"
proof -
  let ?v = "vc_value c" and ?n = "ew_tick w"
  have a: "alive env" and wall: "\<And>i. ev_wall env i = ev_clock env i" using env(1) by (auto simp: cooperative_def)
  note st = stamps [OF env(1,2)]
  let ?r = "stamp env ?n" and ?b = "stamp env (?n + 4)"
  let ?d0 = "deadline_of ctx ?r (val_ExpiresAt ?v)"
  have fresh: "checkFreshValue ?v (stamp env i) = Inr ()" for i
    by (rule checkFreshValue_ok [OF c(1)]) (use st(1,2) [of i] v in linarith)+
  note d0 = deadline_bounds [OF env(2) st(1) [of ?n] st(3) [of ?n] v(2) ctx]
  have lt0: "?r < ?d0" using d0(1) st(2) [of ?n] by linarith
  have sub: "Sub ?d0 ?r = ?d0 - ?r" using d0(2) lt0 by (intro Sub_small) linarith+
  let ?wt = "ev_clock env (?n + 2) + (?d0 - ?r)"
  let ?octx = "earlier ctx ?wt"
  have "?r \<le> ev_clock env (?n + 2)" using st(4) [of ?n] clock_mono [OF env(1), of ?n "?n + 2"] by linarith
  then have o: "\<forall>p. ?octx = Some p \<longrightarrow> t + 2 * Second \<le> p"
    using d0(1) ctx by (auto simp: earlier_def split: option.splits if_splits)
  let ?d = "deadline_of ?octx ?b (val_ExpiresAt ?v)"
  note d = deadline_bounds [OF env(2) st(1) [of "?n + 4"] st(3) [of "?n + 4"] v(2) o]
  have lt: "?b < ?d" using d(1) st(2) [of "?n + 4"] by linarith
  have p: "preflight_inspect env ?v (w\<lparr>ew_tick := ?n + 3\<rparr>) = (Some (Inr (absent_observation ?v)),
      w\<lparr>ew_tick := Suc (?n + 3), ew_calls := ew_calls w @ [RunInspect (inspectionFor ?v)]\<rparr>)"
    using preflight_absent [OF a env(3) c(2), of "w\<lparr>ew_tick := ?n + 3\<rparr>"] env(4) by simp
  have nums: "?n + 2 = Suc (Suc ?n)" "?n + 3 = Suc (Suc (Suc ?n))" "?n + 4 = Suc (Suc (Suc (Suc ?n)))"
      "?n + 6 = Suc (Suc (Suc (Suc (Suc (Suc ?n)))))" by simp_all
  have "processUnseen ed sv env ctx s c w = bind_run (journal_begin ed sv env s ?b ?d) (begun ed sv env ?octx (absent_observation ?v))
      (w\<lparr>ew_tick := ?n + 6, ew_calls := ew_calls w @ [RunInspect (inspectionFor ?v)]\<rparr>)"
    unfolding nums
    by (simp add: processUnseen_def Let_def bind_now [OF a] fresh bind_timeout [OF a] sub wall
      bind_deadline [OF a lt0 d0(2)] bind_deadline [OF a lt d(2), unfolded nums]
      bind_step [of "preflight_inspect env ?v", OF p, unfolded nums])
  then show ?thesis using d by (intro exI [of _ ?d] exI [of _ ?octx]) simp
qed

section \<open>Finishing\<close>

text \<open>The service's result key pair, as its constructors make it.\<close>

definition paired :: "ed25519 \<Rightarrow> executor_service \<Rightarrow> bool" where
  "paired ed sv \<longleftrightarrow> ed25519_laws ed \<and> (\<exists>keyID key.
     NewResultSigner ed keyID (cv_executorID (sv_verifier sv)) key = Inr (sv_signer sv) \<and>
     NewResultVerifier keyID (cv_executorID (sv_verifier sv)) (drop 32 key) = Inr (sv_resultVerifier sv))"

lemma SignFor_succeeds:
  assumes p: "paired ed sv" and x: "result_ok x" "printable_year (rs_StartedAt x)" "printable_year (rs_CompletedAt x)"
    and b: "bindResult x c (cv_executorID (sv_verifier sv)) = Inr ()"
  shows "\<exists>s y. SignFor ed (sv_signer sv) c (checked_result_of x) = Inr s \<and> ResultVerify ed (sv_resultVerifier sv) s = Inr y \<and>
    vr_value y = x \<and> BindTo y c = Inr \<lparr>br_result = y, br_capability = c\<rparr>"
proof -
  obtain keyID key where laws: "ed25519_laws ed" and g: "NewResultSigner ed keyID (cv_executorID (sv_verifier sv)) key = Inr (sv_signer sv)"
    and v: "NewResultVerifier keyID (cv_executorID (sv_verifier sv)) (drop 32 key) = Inr (sv_resultVerifier sv)"
    using p by (auto simp: paired_def)
  have "sv_signer sv = \<lparr>sg_keyID = keyID, sg_executorID = cv_executorID (sv_verifier sv), sg_key = key\<rparr>" "length key = 64"
    using g by (auto simp: NewResultSigner_def validPrivateKey_def split: if_splits)
  then have g': "length (sg_key (sv_signer sv)) = 64" "sg_executorID (sv_signer sv) = cv_executorID (sv_verifier sv)" by simp_all
  have "\<exists>s. SignFor ed (sv_signer sv) c (checked_result_of x) = Inr s"
    using b g' by (simp add: SignFor_def checked_result_of_def marshalResult_nonempty)
  then obtain s where s: "SignFor ed (sv_signer sv) c (checked_result_of x) = Inr s" by blast
  from sign_result_verify [OF laws g v x s] s show ?thesis by blast
qed

definition attested :: "started_record \<Rightarrow> gotime \<Rightarrow> exec_result \<Rightarrow> bytes \<Rightarrow> exec_result" where
  "attested e completed r b = bound_value (r\<lparr>rs_StartedAt := st_received e, rs_CompletedAt := completed\<rparr>) (newUUIDv4 b)
     (snapshotStarted e) (vc_value (st_verified e))"

lemma finish_writes:
  assumes sv: "paired ed sv" "world_inv ed sv w" "readyLocked (ew_journal w)" and env: "cooperative env t"
    and e: "map_of (j_entries (ew_journal w)) (val_CapabilityID (vc_value (st_verified e))) = Some e" "st_terminal e = None"
      "canonicalTime (st_received e)" "canonicalTime (st_deadline e)"
    and j: "j_nextSequence (ew_journal w) \<noteq> 0" "j_nextSequence (ew_journal w) \<le> 2 ^ 53 - 1"
      "j_size (ew_journal w) + int MaxFrameBytes \<le> int MaxJournalBytes"
    and p: "pm_verified p = st_verified e" "stamp env (ew_tick w) \<le> st_deadline e" "printable_year (stamp env (ew_tick w))"
    and x: "\<And>b. length b = 16 \<Longrightarrow> result_ok (attested e (stamp env (ew_tick w)) r b) \<and>
      bindResult (attested e (stamp env (ew_tick w)) r b) (st_verified e) (cv_executorID (sv_verifier sv)) = Inr ()"
  shows "\<exists>s y b j. finish ed sv env (snapshotStarted e) (PermitAuthority p) r w =
      (Some (Inr s), w\<lparr>ew_tick := ew_tick w + 4, ew_journal := j\<rparr>) \<and> readyLocked j \<and> length b = 16 \<and>
    ResultVerify ed (sv_resultVerifier sv) s = Inr y \<and> vr_value y = attested e (stamp env (ew_tick w)) r b \<and>
    BindTo y (st_verified e) = Inr \<lparr>br_result = y, br_capability = st_verified e\<rparr>"
proof -
  have a: "alive env" and io: "\<And>n. durable (ev_io env n)" and rnd: "\<And>n. \<exists>b. ev_random env n = Some b \<and> length b = 16"
    using env by (auto simp: cooperative_def)
  have live: "\<And>n. \<not> ev_ctxErr env n" using a by (simp add: alive_def)
  let ?n = "ew_tick w" and ?j = "ew_journal w" and ?x = "attested e (stamp env (ew_tick w)) r"
  obtain b where b: "ev_random env (Suc (Suc ?n)) = Some b" "length b = 16" using rnd by blast
  note ok = x [OF b(2)]
  have y1: "printable_year (rs_StartedAt (?x b))" "printable_year (rs_CompletedAt (?x b))"
    using e(3) p(3) by (simp_all add: attested_def bound_value_def canonicalTime_iff four_digit_printable)
  obtain s y where s: "SignFor ed (sv_signer sv) (st_verified e) (checked_result_of (?x b)) = Inr s"
      "ResultVerify ed (sv_resultVerifier sv) s = Inr y" "vr_value y = ?x b"
      "BindTo y (st_verified e) = Inr \<lparr>br_result = y, br_capability = st_verified e\<rparr>"
    using SignFor_succeeds [OF sv(1) conjunct1 [OF ok] y1 conjunct2 [OF ok]] by blast
  have inv: "journal_inv ed (sv_verifier sv) (sv_resultVerifier sv) ?j" using sv(2) by (simp add: world_inv_def)
  have id: "rs_CapabilityID (vr_value y) = val_CapabilityID (vc_value (st_verified e))"
      "rs_JournalSequence (vr_value y) = st_sequence e"
    by (simp_all add: s(3) attested_def bound_value_def snapshotStarted_def Let_def)
  obtain j snap where c: "Complete ed (sv_resultVerifier sv) (ev_io env (Suc (Suc (Suc ?n)))) s ?j = (j, Inr (snap, True))" "readyLocked j"
    using Complete_succeeds [OF inv sv(3) j(1,2) s(2) _ s(4) id(2) e(2-4) io [of "Suc (Suc (Suc ?n))"] j(3)] e(1) id(1) by auto
  have snap: "ss_ReceivedAt (snapshotStarted e) = st_received e" "ss_DeadlineAt (snapshotStarted e) = st_deadline e"
    by (simp_all add: snapshotStarted_def Let_def)
  have check: "CheckResult (?x b) = Inr (checked_result_of (?x b))" using ok by (simp add: CheckResult_iff)
  have "finish ed sv env (snapshotStarted e) (PermitAuthority p) r w = (Some (Inr s), w\<lparr>ew_tick := ?n + 4, ew_journal := j\<rparr>)"
    using p b(1) s(1) c(1) a
    by (simp add: finish_def finishPrepared_def journal_complete_def bind_now alive_run live Let_def not_less [symmetric]
      snap attested_def [symmetric] check authority_capability_def SignResult_def PermitSignResult_def bind_run_def [of "use_journal _"]
      use_journal_def pure_run_def)
  with b(2) c(2) s(2-4) show ?thesis by blast
qed

text \<open>
  A runner that ignores cancellation: when more than two seconds have passed since the request was received, no result
  can be built at all, since results span at most two seconds. Nothing is attested and the journal keeps no terminal record.
\<close>

lemma late_completion_unattested:
  assumes a: "alive env" and late: "ss_ReceivedAt started + 2 * Second < stamp env (ew_tick w)" and b: "ev_random env (ew_tick w + 2) = Some b"
  shows "finish ed sv env started authority r w = (Some (Inl XErrorResult), w\<lparr>ew_tick := ew_tick w + 3\<rparr>)"
proof -
  have bad: "CheckResult (bound_value x (newUUIDv4 b) started v) = Inr y \<longleftrightarrow> False"
    if "rs_StartedAt x = ss_ReceivedAt started" "rs_CompletedAt x = stamp env (ew_tick w)" for x v y
    using that late by (simp add: CheckResult_iff result_ok_def bound_value_def)
  have unattested: "finishPrepared ed sv env started authority x (w\<lparr>ew_tick := ew_tick w + 2\<rparr>) = (Some (Inl XErrorResult), w\<lparr>ew_tick := ew_tick w + 3\<rparr>)"
    if "rs_StartedAt x = ss_ReceivedAt started" "rs_CompletedAt x = stamp env (ew_tick w)" for x
    using bad [OF that] a b by (auto simp: finishPrepared_def alive_run reject_run_def split: sum.split)
  show ?thesis
    using unattested a by (auto simp: finish_def bind_now alive_run Let_def classified_def)
qed

section \<open>A fresh add\<close>

definition active_observation :: "cap_value \<Rightarrow> uint64 \<Rightarrow> observation" where
  "active_observation v ttl = \<lparr>ob_State = ReadbackActive, ob_TargetIPv4 = val_TargetIPv4 v,
     ob_OwnedSchemaDigest = val_OwnedSchemaDigest v, ob_RemainingTTLSeconds = ttl\<rparr>"

lemma inspect_active:
  assumes "alive env" "installs env v k ttl" "\<not> ew_tick w < k" "ttl \<noteq> 0" "ttl \<le> maximum" "maximum \<le> 86400"
  shows "inspect env (inspectionFor v) maximum w = (Some (Inr (active_observation v ttl, None)),
    w\<lparr>ew_tick := Suc (ew_tick w), ew_calls := ew_calls w @ [RunInspect (inspectionFor v)]\<rparr>)"
proof -
  have "\<not> ucast nft_MaxTTLSeconds < ttl" using assms(5,6) by (simp add: nft_MaxTTLSeconds_def not_less)
  with assms show ?thesis
    by (simp add: inspect_def installs_def alive_run validateObservation_def inspectionFor_def states_distinct
        active_observation_def pure_run_def not_less)
qed

lemma mutate_done:
  assumes "alive env" "ev_mutate env (ew_tick w) = (NFTExitSuccess, False)"
  shows "mutate env m w = (Some (Inr NFTExitSuccess), w\<lparr>ew_tick := ew_tick w + 2, ew_calls := ew_calls w @ [RunMutate m]\<rparr>)"
  using assms by (simp add: mutate_def alive_run classifyMutation_def pure_run_def alive_def)

lemma ucast_le_86400: "(x :: uint32) \<le> 86400 \<Longrightarrow> (ucast x :: uint64) \<le> 86400"
  using unsigned_less [of x] by (simp add: word_le_nat_alt unsigned_ucast_eq take_bit_nat_eq_self)

lemma applied_result:
  assumes c: "CapabilityVerify ed cv s = Inr (st_verified e)" "val_Operation (vc_value (st_verified e)) = OperationAdd"
    and e: "canonicalTime (st_received e)" "st_sequence e \<noteq> 0" "st_sequence e \<le> 2 ^ 53 - 1"
      "val_NotBefore (vc_value (st_verified e)) \<le> st_received e"
    and t: "st_received e \<le> completed" "completed - st_received e \<le> 2 * Second" "completed mod Millisecond = 0"
    and ttl: "ttl \<noteq> 0" "ttl \<le> ucast (vc_addTTL (st_verified e))" "vc_addTTL (st_verified e) \<le> 86400"
    and b: "length b = 16" and x: "cv_executorID cv \<noteq> []"
  shows "\<exists>r. attested e completed (addResult (vc_value (st_verified e)) NFTExitSuccess
      (active_observation (vc_value (st_verified e)) ttl) None) b = r \<and> result_ok r \<and>
    bindResult r (st_verified e) (cv_executorID cv) = Inr () \<and>
    rs_Classification r = ClassificationApplied \<and> rs_RemainingTTLSeconds r = Some ttl"
proof -
  let ?c = "st_verified e"
  let ?v = "vc_value ?c"
  let ?r = "\<lparr>rs_ResultID = newUUIDv4 b, rs_CapabilityID = val_CapabilityID ?v, rs_CapabilityDigest = vc_digest ?c,
    rs_Operation = OperationAdd, rs_ActionID = val_ActionID ?v, rs_ArtifactDigest = val_ArtifactDigest ?v,
    rs_TargetIPv4 = val_TargetIPv4 ?v, rs_Classification = ClassificationApplied, rs_NFTExitClass = Some NFTExitSuccess,
    rs_ReadbackState = ReadbackActive, rs_ElementHandle = None, rs_RemainingTTLSeconds = Some ttl,
    rs_OwnedSchemaDigest = val_OwnedSchemaDigest ?v, rs_StartedAt = st_received e, rs_CompletedAt = completed,
    rs_JournalSequence = st_sequence e, rs_ErrorCode = ResultErrorNone\<rparr>"
  have r: "attested e completed (addResult ?v NFTExitSuccess (active_observation ?v ttl) None) b = ?r"
    by (simp add: attested_def addResult_def applyObservation_def active_observation_def classified_def baseResult_def
        bound_value_def snapshotStarted_def Let_def c(2))
  note ok = verified_fields [OF c(1)]
  have m: "ttl \<le> 86400" using ttl(2,3) by (meson order_trans ucast_le_86400)
  have o: "checkOutcome ?r = Inr ()"
    using ttl(1) by (simp add: checkOutcome_def positive_ttl_def ClassificationApplied_def ClassificationFailed_def ClassificationIndeterminate_def)
  have "result_ok ?r"
    using ok(1,2) e t m o newUUIDv4_matches [OF b]
    by (auto simp: result_ok_def cap_ok_def validClassification_def validExit_def validReadback_def validResultError_def
        millisecondAligned_iff canonicalTime_iff four_digit_time_def)
  moreover have "bindResult ?r ?c (cv_executorID cv) = Inr ()"
    using ok x e(4) c(2) ttl(1,2) by (auto simp: bindResult_def not_less digestEqual_iff cap_ok_def)
  ultimately show ?thesis using r by simp
qed

text \<open>What the requester learns: the result verifies, belongs to the capability and says that the element was added.\<close>

definition attests_add :: "ed25519 \<Rightarrow> executor_service \<Rightarrow> verified_capability \<Rightarrow> uint64 \<Rightarrow> signed_result \<Rightarrow> bool" where
  "attests_add ed sv c ttl s \<longleftrightarrow> (\<exists>y. ResultVerify ed (sv_resultVerifier sv) s = Inr y \<and>
     BindTo y c = Inr \<lparr>br_result = y, br_capability = c\<rparr> \<and>
     rs_Classification (vr_value y) = ClassificationApplied \<and> rs_RemainingTTLSeconds (vr_value y) = Some ttl)"

definition add_calls :: "verified_capability \<Rightarrow> runner_call list" where
  "add_calls c = [RunInspect (inspectionFor (vc_value c)),
     RunMutate \<lparr>mu_operation = OperationAdd, mu_stdin = vc_artifact c\<rparr>, RunInspect (inspectionFor (vc_value c))]"

lemma execute_adds:
  assumes a: "alive env" and k: "installs env (vc_value c) (ew_tick w + 1) ttl" and ttl: "ttl \<noteq> 0" "ttl \<le> ucast (vc_addTTL c)" "vc_addTTL c \<le> 86400"
    and p: "TakeAddAt permit (stamp env (ew_tick w)) = (p, Inr (ExecutableAdd c))" "pm_verified permit = c" "val_Operation (vc_value c) = OperationAdd"
  shows "execute ed sv env started permit (absent_observation (vc_value c)) w =
    finish ed sv env started (PermitAuthority p) (addResult (vc_value c) NFTExitSuccess (active_observation (vc_value c) ttl) None)
      (w\<lparr>ew_tick := ew_tick w + 4, ew_calls := ew_calls w @ tl (add_calls c)\<rparr>)"
proof -
  let ?n = "ew_tick w" and ?m = "\<lparr>mu_operation = OperationAdd, mu_stdin = vc_artifact c\<rparr>"
  have mu: "mutate env ?m (w\<lparr>ew_tick := Suc ?n\<rparr>) =
      (Some (Inr NFTExitSuccess), w\<lparr>ew_tick := ?n + 3, ew_calls := ew_calls w @ [RunMutate ?m]\<rparr>)"
    using mutate_done [OF a, of "w\<lparr>ew_tick := Suc ?n\<rparr>"] k by (simp add: installs_def)
  have ins: "inspect env (inspectionFor (vc_value c)) (ucast (vc_addTTL c)) (w\<lparr>ew_tick := ?n + 3, ew_calls := ew_calls w @ [RunMutate ?m]\<rparr>) =
      (Some (Inr (active_observation (vc_value c) ttl, None)), w\<lparr>ew_tick := ?n + 4, ew_calls := ew_calls w @ tl (add_calls c)\<rparr>)"
    using inspect_active [OF a k, of "w\<lparr>ew_tick := ?n + 3, ew_calls := ew_calls w @ [RunMutate ?m]\<rparr>"] ttl ucast_le_86400 [OF ttl(3)]
    by (simp add: add_calls_def)
  show ?thesis
    using p
    by (simp add: absent_observation_def execute_def Let_def bind_now [OF a] states_distinct CanonicalCommand_def TTLSeconds_def
        bind_step [of "mutate env _", OF mu] bind_step [of "inspect env _ _", OF ins])
qed

lemma execute_applies:
  assumes sv: "paired ed sv" "world_inv ed sv w" "readyLocked (ew_journal w)" "cv_executorID (sv_verifier sv) \<noteq> []"
    and env: "cooperative env t" "t mod Millisecond = 0" "installs env (vc_value (st_verified e)) (ew_tick w + 1) ttl"
    and e: "map_of (j_entries (ew_journal w)) (val_CapabilityID (vc_value (st_verified e))) = Some e" "st_terminal e = None"
      "canonicalTime (st_received e)" "canonicalTime (st_deadline e)" "st_sequence e \<noteq> 0" "st_sequence e \<le> 2 ^ 53 - 1"
    and c: "val_Operation (vc_value (st_verified e)) = OperationAdd" "val_NotBefore (vc_value (st_verified e)) \<le> t"
    and d: "t \<le> st_received e" "st_received e \<le> stamp env (ew_tick w)" "t + 2 * Second \<le> st_deadline e"
    and j: "j_nextSequence (ew_journal w) \<noteq> 0" "j_nextSequence (ew_journal w) \<le> 2 ^ 53 - 1"
      "j_size (ew_journal w) + int MaxFrameBytes \<le> int MaxJournalBytes"
    and ttl: "ttl \<noteq> 0" "ttl \<le> ucast (vc_addTTL (st_verified e))" 
  shows "\<exists>s j. execute ed sv env (snapshotStarted e) \<lparr>pm_verified = st_verified e, pm_deadline = st_deadline e, pm_used = False\<rparr> (absent_observation (vc_value (st_verified e))) w =
      (Some (Inr s), w\<lparr>ew_tick := ew_tick w + 8, ew_calls := ew_calls w @ tl (add_calls (st_verified e)), ew_journal := j\<rparr>) \<and>
    readyLocked j \<and> attests_add ed sv (st_verified e) ttl s"
proof -
  let ?c = "st_verified e" and ?n = "ew_tick w"
  let ?v = "vc_value ?c" and ?p = "\<lparr>pm_verified = ?c, pm_deadline = st_deadline e, pm_used = True\<rparr>"
  have a: "alive env" using env(1) by (simp add: cooperative_def)
  note st = stamps [OF env(1,2)]
  have eo: "entry_ok ed (sv_verifier sv) (val_CapabilityID ?v) e"
    using sv(2) e(1) journal_inv_entry by (auto simp: world_inv_def)
  then have v: "CapabilityVerify ed (sv_verifier sv) (st_signed e) = Inr ?c" and x: "st_deadline e \<le> val_ExpiresAt ?v"
    by (simp_all add: entry_ok_def)
  note ok = verified_fields [OF v]
  have s1: "val_IssuedAt ?v \<le> stamp env i" "val_NotBefore ?v \<le> stamp env i" "stamp env i < st_deadline e" "stamp env i < val_ExpiresAt ?v" for i
    using ok(1) st(1,2) [of i] c(2) d(3) x by (auto simp: cap_ok_def times_ok_def)
  have add: "AddAt ?c (stamp env ?n) = Inr (ExecutableAdd ?c)" using ok sv(4) c(1) s1 [of ?n] by (simp add: AddAt_iff checkFresh_iff)
  then have take_p: "TakeAddAt \<lparr>pm_verified = ?c, pm_deadline = st_deadline e, pm_used = False\<rparr> (stamp env ?n) = (?p, Inr (ExecutableAdd ?c))"
    using s1 c(1) by (simp add: TakeAddAt_def checkAndUse_def)
  have m: "vc_addTTL ?c \<le> 86400" using released_add [OF v add] by (auto simp: TTLSeconds_def word_le_nat_alt)
  let ?u = "w\<lparr>ew_tick := ?n + 4, ew_calls := ew_calls w @ tl (add_calls ?c)\<rparr>"
  let ?r = "addResult ?v NFTExitSuccess (active_observation ?v ttl) None" and ?f = "stamp env (?n + 4)"
  have f: "st_received e \<le> ?f" "?f - st_received e \<le> 2 * Second" "?f \<le> st_deadline e"
    using d(1,2) st(2) [of "?n + 4"] st(5) [of ?n "?n + 4"] d(3) by simp_all
  have py: "printable_year ?f"
    using ok(1) s1 [of "?n + 4"] by (intro four_digit_printable) (auto simp: four_digit_time_def cap_ok_def times_ok_def)
  have nb: "val_NotBefore ?v \<le> st_received e" using c(2) d(1) by simp
  note good = applied_result [OF v c(1) e(3,5,6) nb f(1,2) st(3) ttl m _ sv(4)]
  have w: "world_inv ed sv ?u" "readyLocked (ew_journal ?u)" using sv(2,3) by (simp_all add: world_inv_def)
  obtain s y b j where fin: "finish ed sv env (snapshotStarted e) (PermitAuthority ?p) ?r ?u =
        (Some (Inr s), ?u\<lparr>ew_tick := ew_tick ?u + 4, ew_journal := j\<rparr>)" and j': "readyLocked j" "length b = 16"
      "ResultVerify ed (sv_resultVerifier sv) s = Inr y" "vr_value y = attested e ?f ?r b"
      "BindTo y ?c = Inr \<lparr>br_result = y, br_capability = ?c\<rparr>"
    using finish_writes [OF sv(1) w env(1), of e ?p ?r] e(1-4) j f(3) py good by auto
  have att: "attests_add ed sv ?c ttl s" using j'(3-5) good [OF j'(2)] by (auto simp: attests_add_def)
  have "execute ed sv env (snapshotStarted e) \<lparr>pm_verified = ?c, pm_deadline = st_deadline e, pm_used = False\<rparr> (absent_observation ?v) w =
      (Some (Inr s), w\<lparr>ew_tick := ?n + 8, ew_calls := ew_calls w @ tl (add_calls ?c), ew_journal := j\<rparr>)"
    using execute_adds [OF a env(3) ttl m take_p] c(1) fin by simp
  then show ?thesis using j'(1) att by blast
qed

text \<open>Room for one more request: its two records fit into the file and the sequence numbers.\<close>

definition has_room :: "journal \<Rightarrow> bool" where
  "has_room j \<longleftrightarrow> readyLocked j \<and> j_nextSequence j \<noteq> 0 \<and> j_nextSequence j \<le> 2 ^ 53 - 2 \<and>
     j_size j + 2 * int MaxFrameBytes \<le> int MaxJournalBytes"

lemma next_sequence: "(x :: uint64) \<le> 2 ^ 53 - 2 \<Longrightarrow> x \<le> 2 ^ 53 - 1 \<and> x + 1 \<noteq> 0 \<and> x + 1 \<le> 2 ^ 53 - 1"
  by (simp add: word_le_nat_alt unat_word_ariths unat_eq_0 [symmetric])

lemma Begin_enters:
  assumes j: "journal_inv ed cv rv j" "has_room j"
    and c: "CapabilityVerify ed cv s = Inr c" "val_CapabilityID (vc_value c) \<notin> keys j"
    and t: "canonicalTime receivedAt" "canonicalTime deadlineAt" "receivedAt < deadlineAt"
      "\<not> MaxDeadline < Sub deadlineAt receivedAt" "deadlineAt \<le> val_ExpiresAt (vc_value c)" "journal_checkFresh c receivedAt = None"
    and io: "durable io"
    and e: "e = \<lparr>st_sequence = j_nextSequence j, st_signed = s, st_verified = c, st_received = receivedAt,
         st_deadline = deadlineAt, st_terminal = None\<rparr>"
  shows "\<exists>j' out. Begin ed cv io s receivedAt deadlineAt j = (j', Inr out) \<and> oc_state out = StateNewStarted \<and>
    oc_permit out = Some \<lparr>pm_verified = c, pm_deadline = deadlineAt, pm_used = False\<rparr> \<and> oc_started out = Some (snapshotStarted e) \<and>
    journal_inv ed cv rv j' \<and> map_of (j_entries j') (val_CapabilityID (vc_value c)) = Some e \<and> readyLocked j' \<and>
    j_nextSequence j' \<noteq> 0 \<and> j_nextSequence j' \<le> 2 ^ 53 - 1 \<and> j_size j' + int MaxFrameBytes \<le> int MaxJournalBytes"
proof -
  have q: "readyLocked j" "j_nextSequence j \<noteq> 0" "j_nextSequence j \<le> 2 ^ 53 - 1" "j_size j + int MaxFrameBytes \<le> int MaxJournalBytes"
    using j(2) next_sequence by (auto simp: has_room_def)
  let ?p = "\<lparr>pm_verified = c, pm_deadline = deadlineAt, pm_used = False\<rparr>"
  obtain j' out where b: "Begin ed cv io s receivedAt deadlineAt j = (j', Inr out)" "oc_state out = StateNewStarted"
      "oc_permit out = Some ?p" "oc_started out = Some (snapshotStarted e)"
    using Begin_succeeds [OF j(1) q(1-3) c t io q(4)] unfolding e by blast
  have p: "permit_of (Inr out) = Some ?p" using b(3) by (simp add: permit_of_def)
  obtain payload frame j1 d where f: "encodeFrame recordStarted (j_nextSequence j) payload = Inr frame" "appendLocked io frame j = (j1, None)"
    and j': "j' = j1\<lparr>j_entries := j_entries j @ [(val_CapabilityID (vc_value c), e)],
            j_nextSequence := j_nextSequence j + 1, j_lastRecordDigest := d\<rparr>"
    using Begin_new [OF b(1) p] c(1) unfolding e by auto
  have k: "map_of (j_entries j) (val_CapabilityID (vc_value c)) = None" using c(2) keys_None by blast
  have "length frame \<le> MaxFrameBytes"
    using encodeFrame_Inr [OF f(1)] by (auto simp: MaxFrameBytes_def frameHeaderBytes_def checksumBytes_def simp del: length_append)
  then have "readyLocked j' \<and> j_size j' + int MaxFrameBytes \<le> int MaxJournalBytes"
    using append_done [OF f(2)] j(2) by (auto simp: j' has_room_def readyLocked_def)
  moreover have "j_nextSequence j' \<noteq> 0 \<and> j_nextSequence j' \<le> 2 ^ 53 - 1" using j(2) next_sequence by (simp add: j' has_room_def)
  moreover have "map_of (j_entries j') (val_CapabilityID (vc_value c)) = Some e" using k by (simp add: j' map_add_def)
  ultimately show ?thesis using b Begin_started [OF j(1) b(1) p] by blast
qed

lemma Process_begins:
  assumes w: "readyLocked (ew_journal w)"
    and env: "cooperative env t" "t mod Millisecond = 0" "installs env (vc_value c) (ew_tick w + 11) ttl"
    and c: "admit ed sv s = Inr c" "val_CapabilityID (vc_value c) \<notin> keys (ew_journal w)" "val_Operation (vc_value c) = OperationAdd"
    and v: "val_NotBefore (vc_value c) \<le> t" "t + 2 * Second \<le> val_ExpiresAt (vc_value c)"
    and ctx: "\<forall>p. ctx = Some p \<longrightarrow> t + 2 * Second \<le> p"
  shows "\<exists>d octx. t + 2 * Second \<le> d \<and> d \<le> stamp env (ew_tick w + 7) + 2 * Second \<and> d mod Millisecond = 0 \<and>
      d \<le> val_ExpiresAt (vc_value c) \<and>
      Process ed sv env ctx s w =
        bind_run (journal_begin ed sv env s (stamp env (ew_tick w + 7)) d) (begun ed sv env octx (absent_observation (vc_value c)))
        (w\<lparr>ew_tick := ew_tick w + 9, ew_calls := ew_calls w @ [RunInspect (inspectionFor (vc_value c))]\<rparr>)"
proof -
  let ?w3 = "w\<lparr>ew_tick := ew_tick w + 3\<rparr>"
  have a: "alive env" using env(1) by (simp add: cooperative_def)
  have cv: "CapabilityVerify ed (sv_verifier sv) s = Inr c" using c(1) by (auto simp: admit_def split: sum.splits if_splits)
  have k: "map_of (j_entries (ew_journal w)) (val_CapabilityID (vc_value c)) = None" using c(2) keys_None by blast
  have "Process ed sv env ctx s w = processUnseen ed sv env ctx s c ?w3"
    using c(1) cv k w alive_acquire [OF a, of w]
    by (simp add: Process_def bind_run_def lift_run_def journal_lookup_def use_journal_def Lookup_def)
  then show ?thesis
    using processUnseen_begins [OF env(1,2,3) _ verified_fields(1) [OF cv] c(3) v ctx, where w = ?w3 and ed = ed and sv = sv and s = s]
    by (simp add: ac_simps)
qed

lemma begin_times:
  assumes env: "cooperative env t" "t mod Millisecond = 0"
    and c: "CapabilityVerify ed cv s = Inr c" "val_Operation (vc_value c) = OperationAdd" "val_NotBefore (vc_value c) \<le> t" "cv_executorID cv \<noteq> []"
    and d: "t + 2 * Second \<le> d" "d \<le> stamp env i + 2 * Second" "d mod Millisecond = 0" "d \<le> val_ExpiresAt (vc_value c)"
  shows "canonicalTime (stamp env i)" "canonicalTime d" "stamp env i < d" "\<not> MaxDeadline < Sub d (stamp env i)"
    "journal_checkFresh c (stamp env i) = None"
proof -
  note f = verified_fields [OF c(1)]
  have b: "t \<le> stamp env i" "stamp env i \<le> t + Second" "stamp env i mod Millisecond = 0" using stamps [OF env] by blast+
  have v: "0 < val_IssuedAt (vc_value c)" "val_IssuedAt (vc_value c) \<le> val_NotBefore (vc_value c)"
      "four_digit_time (val_ExpiresAt (vc_value c))" using f(1) by (simp_all add: cap_ok_def times_ok_def)
  show "stamp env i < d" using b d by simp
  show "canonicalTime (stamp env i)" "canonicalTime d"
    using b d v c(3) by (auto simp: canonicalTime_iff four_digit_time_def)
  show "\<not> MaxDeadline < Sub d (stamp env i)" using d(2) by (simp add: MaxDeadline_def Sub_greater)
  have "checkFresh c (stamp env i) = Inr ()" using f c(3,4) b d v by (simp add: checkFresh_iff)
  then show "journal_checkFresh c (stamp env i) = None" using c(2) by (simp add: journal_checkFresh_def AddAt_def)
qed

lemma actorPattern_nonempty: "\<not> re_matches actorPattern []"
  by code_simp

lemma paired_executor: "paired ed sv \<Longrightarrow> cv_executorID (sv_verifier sv) \<noteq> []"
  by (auto simp: paired_def NewResultSigner_def actorPattern_nonempty split: if_splits)

lemma Process_applies:
  assumes sv: "paired ed sv" "world_inv ed sv w" "has_room (ew_journal w)"
    and env: "cooperative env t" "t mod Millisecond = 0" "installs env (vc_value c) (ew_tick w + 11) ttl"
    and c: "admit ed sv s = Inr c" "val_CapabilityID (vc_value c) \<notin> keys (ew_journal w)" "val_Operation (vc_value c) = OperationAdd"
    and v: "val_NotBefore (vc_value c) \<le> t" "t + 2 * Second \<le> val_ExpiresAt (vc_value c)"
    and ctx: "\<forall>p. ctx = Some p \<longrightarrow> t + 2 * Second \<le> p"
    and ttl: "ttl \<noteq> 0" "ttl \<le> ucast (vc_addTTL c)"
  shows "\<exists>r j. Process ed sv env ctx s w =
      (Some (Inr r), w\<lparr>ew_tick := ew_tick w + 18, ew_calls := ew_calls w @ add_calls c, ew_journal := j\<rparr>) \<and>
    readyLocked j \<and> attests_add ed sv c ttl r"
proof -
  let ?n = "ew_tick w" and ?j = "ew_journal w" and ?v = "vc_value c"
  let ?b = "stamp env (?n + 7)" and ?calls = "ew_calls w @ [RunInspect (inspectionFor ?v)]"
  have a: "alive env" and io: "\<And>i. durable (ev_io env i)" using env(1) by (auto simp: cooperative_def)
  have cv: "CapabilityVerify ed (sv_verifier sv) s = Inr c" using c(1) by (auto simp: admit_def split: sum.splits if_splits)
  have inv: "journal_inv ed (sv_verifier sv) (sv_resultVerifier sv) ?j" using sv(2) by (simp add: world_inv_def)
  have rl: "readyLocked ?j" using sv(3) by (simp add: has_room_def)
  obtain d octx where d: "t + 2 * Second \<le> d" "d \<le> ?b + 2 * Second" "d mod Millisecond = 0" "d \<le> val_ExpiresAt ?v"
    and p: "Process ed sv env ctx s w = bind_run (journal_begin ed sv env s ?b d) (begun ed sv env octx (absent_observation ?v))
      (w\<lparr>ew_tick := ?n + 9, ew_calls := ?calls\<rparr>)"
    using Process_begins [OF rl env c v ctx] by (elim exE conjE) (rule that)
  define e where "e = \<lparr>st_sequence = j_nextSequence ?j, st_signed = s, st_verified = c, st_received = ?b,
         st_deadline = d, st_terminal = None\<rparr>"
  note b = begin_times [OF env(1,2) cv c(3) v(1) paired_executor [OF sv(1)] d]
  obtain j' out where j': "Begin ed (sv_verifier sv) (ev_io env (?n + 9)) s ?b d ?j = (j', Inr out)" "oc_state out = StateNewStarted"
      "oc_permit out = Some \<lparr>pm_verified = c, pm_deadline = d, pm_used = False\<rparr>" "oc_started out = Some (snapshotStarted e)"
    and i': "journal_inv ed (sv_verifier sv) (sv_resultVerifier sv) j'" "map_of (j_entries j') (val_CapabilityID ?v) = Some e" "readyLocked j'"
      "j_nextSequence j' \<noteq> 0" "j_nextSequence j' \<le> 2 ^ 53 - 1" "j_size j' + int MaxFrameBytes \<le> int MaxJournalBytes"
    using Begin_enters [OF inv sv(3) cv c(2) b(1-4) d(4) b(5) io e_def] by blast
  let ?u = "w\<lparr>ew_tick := ?n + 10, ew_calls := ?calls, ew_journal := j'\<rparr>"
  let ?p = "\<lparr>pm_verified = c, pm_deadline = d, pm_used = False\<rparr>"
  have "Process ed sv env ctx s w = execute ed sv env (snapshotStarted e) ?p (absent_observation ?v) ?u"
    unfolding p using j' a
    by (simp add: journal_begin_def alive_run bind_run_def [of "use_journal _"] use_journal_def begun_def add.commute [of 10])
  moreover have "\<exists>r j. execute ed sv env (snapshotStarted e) ?p (absent_observation ?v) ?u =
      (Some (Inr r), ?u\<lparr>ew_tick := ew_tick ?u + 8, ew_calls := ew_calls ?u @ tl (add_calls c), ew_journal := j\<rparr>) \<and>
      readyLocked j \<and> attests_add ed sv c ttl r"
    using execute_applies [where e = e and w = ?u and env = env and ttl = ttl, OF sv(1) _ _ paired_executor [OF sv(1)] env(1,2)] env(3) i' b(1,2)
      stamps(1) [OF env(1,2), of "?n + 7"] c(3) v(1) d(1) ttl stamps(5) [OF env(1,2), of "?n + 7" "?n + 10"] sv(3) next_sequence
    by (auto simp: e_def world_inv_def has_room_def add.commute [of 11] add.commute [of 18])
  ultimately show ?thesis by (auto simp: add_calls_def add.commute [of 18])
qed

section \<open>The response\<close>

lemma envelope_size:
  assumes "flat_doc (response_members \<lparr>pw_ResultJCSB64URL = b64_encode a, pw_ResultSignatureB64URL = b64_encode b,
      pw_SchemaVersion = ResponseEnvelopeSchemaVersion\<rparr>)" "length a \<le> MaxResultBytes" "length b = 64"
  shows "length (json_print (JObj (response_members \<lparr>pw_ResultJCSB64URL = b64_encode a, pw_ResultSignatureB64URL = b64_encode b,
      pw_SchemaVersion = ResponseEnvelopeSchemaVersion\<rparr>))) \<le> MaxFramePayloadBytes"
proof (rule order_trans [OF json_print_size [OF assms(1)]])
  show "2 + sum_list (map member_size (response_members \<lparr>pw_ResultJCSB64URL = b64_encode a, pw_ResultSignatureB64URL = b64_encode b,
      pw_SchemaVersion = ResponseEnvelopeSchemaVersion\<rparr>)) \<le> MaxFramePayloadBytes"
    using encodeBytes_length [of a 8192] encodeBytes_length [of b 64] assms(2,3)
    by (simp add: response_members_def member_size_def json_quote_length b64_safe encodeBytes_def MaxResultBytes_def
        MaxFramePayloadBytes_def ResponseEnvelopeSchemaVersion_def html_safe_def byte_in_def byte_val_def)
qed

lemma respond_verified:
  assumes "ResultVerify ed rv r = Inr y"
  shows "\<exists>b. respond r w = (Some (Inr b), w) \<and>
    DecodeResponseEnvelope b = Inr \<lparr>rp_resultJCS = sr_canonical r, rp_resultSignature = sr_signature r\<rparr>"
proof -
  have r: "result_ok (vr_value y)" "sr_canonical r = json_print (JObj (result_members (vr_value y)))" "length (sr_signature r) = 64"
      "length (sr_canonical r) \<le> MaxResultBytes"
    using ResultVerify_Inr [OF assms] ResultVerify_sizes [OF assms] by (simp_all add: marshalResult_print del: json_print.simps)
  let ?e = "\<lparr>rp_resultJCS = sr_canonical r, rp_resultSignature = sr_signature r\<rparr>"
  let ?ms = "response_members \<lparr>pw_ResultJCSB64URL = b64_encode (sr_canonical r), pw_ResultSignatureB64URL = b64_encode (sr_signature r),
      pw_SchemaVersion = ResponseEnvelopeSchemaVersion\<rparr>"
  have v: "validJSONObject (sr_canonical r)"
    unfolding r(2) using valid_object_print flat_doc_wf [OF result_flat [OF r(1)]] by blast
  have f: "flat_doc ?ms"
    by (simp add: flat_doc_def response_members_def b64_safe schema_versions_safe html_safe_def byte_in_def byte_val_def)
  have e: "EncodeResponseEnvelope ?e = Inr (json_print (JObj ?ms))"
    using v r(3) envelope_size [OF f r(4,3)] by (simp add: EncodeResponseEnvelope_def marshalBoundedEnvelope_iff del: json_print.simps)
  have n: "NewResponseEnvelope (sr_canonical r) (sr_signature r) = Inr ?e" using v r(3) by (simp add: NewResponseEnvelope_def)
  from response_roundtrip [OF e] e n show ?thesis
    by (intro exI [of _ "json_print (JObj ?ms)"]) (simp add: respond_def pure_run_def del: json_print.simps)
qed

lemma HandlePayload_applies:
  assumes sv: "paired ed sv" "world_inv ed sv w" "has_room (ew_journal w)"
    and env: "cooperative env t" "t mod Millisecond = 0" "installs env (vc_value c) (ew_tick w + 11) ttl"
    and p: "DecodeRequestEnvelope payload = Inr q" "\<not> rq_recoveryOnly q"
    and c: "admit ed sv (request_capability sv q) = Inr c" "val_CapabilityID (vc_value c) \<notin> keys (ew_journal w)"
      "val_Operation (vc_value c) = OperationAdd"
    and v: "val_NotBefore (vc_value c) \<le> t" "t + 2 * Second \<le> val_ExpiresAt (vc_value c)"
    and ctx: "\<forall>p. ctx = Some p \<longrightarrow> t + 2 * Second \<le> p"
    and ttl: "ttl \<noteq> 0" "ttl \<le> ucast (vc_addTTL c)"
  shows "\<exists>response r w'. HandlePayload ed sv env ctx payload w = (Some (Inr response), w') \<and>
    DecodeResponseEnvelope response = Inr \<lparr>rp_resultJCS = sr_canonical r, rp_resultSignature = sr_signature r\<rparr> \<and>
    attests_add ed sv c ttl r \<and> ew_calls w' = ew_calls w @ add_calls c \<and> readyLocked (ew_journal w')"
proof -
  obtain r j where r: "Process ed sv env ctx (request_capability sv q) w =
      (Some (Inr r), w\<lparr>ew_tick := ew_tick w + 18, ew_calls := ew_calls w @ add_calls c, ew_journal := j\<rparr>)"
    and j: "readyLocked j" "attests_add ed sv c ttl r"
    using Process_applies [OF sv env c v ctx ttl] by (elim exE conjE) (rule that)
  let ?w = "w\<lparr>ew_tick := ew_tick w + 18, ew_calls := ew_calls w @ add_calls c, ew_journal := j\<rparr>"
  obtain b where b: "respond r ?w = (Some (Inr b), ?w)"
      "DecodeResponseEnvelope b = Inr \<lparr>rp_resultJCS = sr_canonical r, rp_resultSignature = sr_signature r\<rparr>"
    using j(2) respond_verified by (metis attests_add_def)
  have "HandlePayload ed sv env ctx payload w = (Some (Inr b), ?w)"
    using r b(1) p(2) by (simp add: HandlePayload_decoded [OF p(1)] bind_run_def)
  with b(2) j show ?thesis by (intro exI [of _ b] exI [of _ r] exI [of _ ?w]) simp
qed

end
