(* ===== verification/Executor_Correct.thy ===== *)
theory Executor_Correct
  imports Executor_Run
begin

text \<open>
  What the executor guarantees, over all its histories of requests, kills and restarts: it asks for at most one
  mutation for a capability, its results are final, and it carries out a fresh add request when its environment
  cooperates. The sample history at the end is one add request on an empty journal.
\<close>

section \<open>Correctness\<close>

text \<open>
  C1: The executor changes the firewall at most once for a capability, and only as authorised. In every history of
  requests with any payload, clock, file system and runner, of kills at any moment and of restarts, after a crash of the
  process or of the machine, that find any bytes after the synchronised ones, the mutations asked of the runner can be assigned one to one to capability ids: the
  current journal has a started record for each of them, whose signed request the executor's verifier accepts, and
  the mutation has the operation of that capability, an add or a revoke, and exactly its signed artifact as input.
\<close>

theorem executor_mutates_at_most_once:
  assumes "crash_reach ed sv w n"
  shows "\<exists>ids. distinct ids \<and> list_all2 (\<lambda>k m. \<exists>e. map_of (j_entries (ew_journal w)) k = Some e \<and>
      CapabilityVerify ed (sv_verifier sv) (st_signed e) = Inr (st_verified e) \<and> val_CapabilityID (vc_value (st_verified e)) = k \<and>
      mu_operation m = val_Operation (vc_value (st_verified e)) \<and> mu_operation m \<in> {OperationAdd, OperationRevoke} \<and>
      mu_stdin m = sc_artifact (st_signed e)) ids (mutations w)"
proof -
  have w: "world_inv ed sv w" using crash_reach_inv [OF assms] by (simp add: crash_inv_def)
  obtain ids where ids: "accounted w ids" using crash_accounted [OF crash_reach_inv [OF assms]] by blast
  have entry: "\<exists>e. map_of (j_entries (ew_journal w)) k = Some e \<and>
      CapabilityVerify ed (sv_verifier sv) (st_signed e) = Inr (st_verified e) \<and> val_CapabilityID (vc_value (st_verified e)) = k \<and>
      mu_operation m = val_Operation (vc_value (st_verified e)) \<and> mu_operation m \<in> {OperationAdd, OperationRevoke} \<and>
      mu_stdin m = sc_artifact (st_signed e)" if k: "known w k = Some c" and m: "authorised c m" for k m c
  proof -
    obtain e where e: "map_of (j_entries (ew_journal w)) k = Some e" "st_verified e = c"
      using k by (auto simp: known_def caps_def)
    have "entry_ok ed (sv_verifier sv) k e" using w e(1) journal_inv_entry by (auto simp: world_inv_def)
    then have "CapabilityVerify ed (sv_verifier sv) (st_signed e) = Inr (st_verified e)" "val_CapabilityID (vc_value (st_verified e)) = k"
      by (simp_all add: entry_ok_def)
    moreover have "vc_artifact (st_verified e) = sc_artifact (st_signed e)" using CapabilityVerify_Inr [OF calculation(1)] by simp
    ultimately show ?thesis using e m by (auto simp: authorised_def)
  qed
  have "distinct ids" using ids by (simp add: accounted_def)
  then show ?thesis
    by (intro exI [of _ ids] conjI list_all2_mono [OF conjunct2 [OF ids [unfolded accounted_def]]]) (assumption, elim exE conjE, rule entry)
qed

text \<open>
  C6: A result once given is final. When a request has been answered, then after any further requests, kills and
  restarts of the process the same capability is answered with the same response bytes, whether it arrives as a normal or as a
  recovery request, also after it has expired, and the answer neither writes to the journal nor calls the runner.
  The journal must be open and healthy, and neither the process nor the request's context may end meanwhile. The
  restarts find what the journal counts as written, which includes the bytes of an existing file: \<open>Open\<close> does not
  synchronise these, and a crash of the machine that takes them away is outside this property.
\<close>

theorem result_is_final:
  assumes "exec_reach ed sv w" and first: "HandlePayload ed sv env ctx payload w = (Some (Inr response), w1)"
    and steps: "(exec_step ed sv)\<^sup>*\<^sup>* w1 w2" and "readyLocked (ew_journal w2)" "alive env'"
    and d: "DecodeRequestEnvelope payload = Inr e" "DecodeRequestEnvelope payload' = Inr (e\<lparr>rq_recoveryOnly := recovery_only\<rparr>)"
  shows "\<exists>n. HandlePayload ed sv env' ctx' payload' w2 = (Some (Inr response), w2\<lparr>ew_tick := n\<rparr>)"
proof -
  let ?s = "request_capability sv e"
  have same: "request_capability sv (e\<lparr>rq_recoveryOnly := recovery_only\<rparr>) = ?s" by (simp add: request_capability_def)
  obtain r v where r: "(if rq_recoveryOnly e then ProcessRecovery ed sv env ctx ?s else Process ed sv env ctx ?s) w = (Some (Inr r), v)"
    and b: "respond r v = (Some (Inr response), w1)"
    using first unfolding HandlePayload_decoded [OF d(1)] bind_run_Inr by blast
  have w1: "w1 = v" "\<And>u. respond r u = (Some (Inr response), u)" using respond_pure [OF b] by blast+
  have "stored ed sv ?s r w1"
    using r stores_requests exec_reach_inv [OF assms(1)] w1(1) by (auto simp: stores_def split: if_splits)
  moreover have "exec_reach ed sv w1" using exec_reach.continued [OF assms(1) exec_step.request [OF first]] .
  ultimately have st: "stored ed sv ?s r w2" using exec_steps_keep [OF steps] by blast
  obtain c where c: "admit ed sv ?s = Inr c"
    using r unfolding Process_looked_up looked_up_def
    by (auto simp: bind_run_Inr lift_run_def split: if_splits)
  obtain n where "(if recovery_only then ProcessRecovery ed sv env' ctx' ?s else Process ed sv env' ctx' ?s) w2 = (Some (Inr r), w2\<lparr>ew_tick := n\<rparr>)"
    using stored_answer [OF st assms(4,5) c] unfolding Process_looked_up by (cases recovery_only) auto
  then show ?thesis
    unfolding HandlePayload_decoded [OF d(2)] same by (auto simp: bind_run_Inr w1(2))
qed

text \<open>
  C11: A fresh add request succeeds. When neither process nor context ends, appends reach the disk, randomness is
  available, the clocks advance by at most a second during the request, and the runner first sees no element for the
  target, then adds it and sees it, a request for an admitted add capability that is not in the journal yet, is valid
  and has two more seconds to live is answered with a response that decodes to a signed result. The result verifies
  under the executor's key, is bound to the capability and says that the element was applied with the time to live
  that the runner saw. The runner has been called exactly three times: inspect, mutate with the signed artifact, inspect.
  (The mutation is the twelfth question that a request asks of its environment.)
\<close>

theorem fresh_add_applied:
  assumes "paired ed sv" and "exec_reach ed sv w" and "has_room (ew_journal w)"
    and "cooperative env t" and "t mod Millisecond = 0" and "installs env (vc_value c) (ew_tick w + 11) ttl"
    and "DecodeRequestEnvelope payload = Inr q" and "\<not> rq_recoveryOnly q"
    and "admit ed sv (request_capability sv q) = Inr c" and "val_CapabilityID (vc_value c) \<notin> keys (ew_journal w)"
    and "val_Operation (vc_value c) = OperationAdd"
    and "val_NotBefore (vc_value c) \<le> t" and "t + 2 * Second \<le> val_ExpiresAt (vc_value c)"
    and "\<forall>p. ctx = Some p \<longrightarrow> t + 2 * Second \<le> p" and "ttl \<noteq> 0" and "ttl \<le> ucast (vc_addTTL c)"
  shows "\<exists>response r w'. HandlePayload ed sv env ctx payload w = (Some (Inr response), w') \<and>
    DecodeResponseEnvelope response = Inr \<lparr>rp_resultJCS = sr_canonical r, rp_resultSignature = sr_signature r\<rparr> \<and>
    attests_add ed sv c ttl r \<and> ew_calls w' = ew_calls w @ add_calls c \<and> readyLocked (ew_journal w')"
  using HandlePayload_applies [OF assms(1) conjunct1 [OF exec_reach_inv [OF assms(2)]] assms(3-16)] .

section \<open>A sample history\<close>

definition sample_service :: executor_service where
  "sample_service = \<lparr>sv_verifier = sample_verifier, sv_signer = sample_signer, sv_resultVerifier = sample_result_verifier,
     sv_dispatchKeyID = ''dispatch-1''\<rparr>"

definition sample_world :: exec_world where
  "sample_world = \<lparr>ew_tick = 0, ew_journal = empty_journal, ew_calls = []\<rparr>"

definition sample_env :: exec_env where
  "sample_env = \<lparr>ev_killed = \<lambda>_. False, ev_clock = \<lambda>_. 63900000010000000000, ev_wall = \<lambda>_. 63900000010000000000,
     ev_ctxErr = \<lambda>_. False, ev_io = \<lambda>_. sample_io, ev_random = \<lambda>_. Some (replicate 16 CHR ''r''),
     ev_mutate = \<lambda>_. (NFTExitSuccess, False),
     ev_inspect = \<lambda>n. Some \<lparr>ob_State = if n < 11 then ReadbackAbsent else ReadbackActive,
        ob_TargetIPv4 = val_TargetIPv4 sample_value, ob_OwnedSchemaDigest = val_OwnedSchemaDigest sample_value,
        ob_RemainingTTLSeconds = if n < 11 then 0 else 1799\<rparr>\<rparr>"

lemma sample_paired: "paired sample_ed sample_service"
  unfolding paired_def using sample_ed_laws sample_result_parties
  by (auto simp: sample_service_def sample_verifier_def)

lemma sample_booted: "exec_reach sample_ed sample_service sample_world"
  using exec_reach.booted [of sample_ed sample_service good_open "[]" empty_journal] sample_open
  by (simp add: sample_service_def sample_world_def)

lemma sample_cooperates: "cooperative sample_env 63900000010000000000"
  by (simp add: cooperative_def alive_def sample_env_def sample_durable)

lemma sample_installs: "installs sample_env (vc_value sample_verified) (ew_tick sample_world + 11) 1799"
  by (simp add: installs_def sample_env_def sample_world_def sample_verified_fields)

lemma sample_room: "has_room (ew_journal sample_world)"
  by (simp add: has_room_def sample_world_def empty_journal_def readyLocked_def MaxFrameBytes_def frameHeaderBytes_def
      checksumBytes_def MaxPayloadBytes_def MaxJournalBytes_def)

lemma sample_admitted:
  "CapabilityVerify sample_ed sample_verifier s = Inr sample_verified \<Longrightarrow> admit sample_ed sample_service s = Inr sample_verified"
  using CapabilityVerify_Inr [of sample_ed sample_verifier s sample_verified]
  by (simp add: admit_def sample_service_def exactDigest_def digestBytes_def sample_verified_fields sample_value_def
      PinnedLiveSchemaDigest_def)

lemma sample_payload:
  "\<exists>payload q. DecodeRequestEnvelope payload = Inr q \<and> \<not> rq_recoveryOnly q \<and>
     admit sample_ed sample_service (request_capability sample_service q) = Inr sample_verified"
proof -
  obtain s where s: "CapabilityVerify sample_ed sample_verifier s = Inr sample_verified" using sample_verify by blast
  let ?q = "\<lparr>rq_capabilityJCS = sc_canonical s, rq_capabilitySignature = sc_signature s, rq_artifact = sc_artifact s, rq_recoveryOnly = False\<rparr>"
  let ?ms = "request_members \<lparr>qw_ArtifactB64URL = b64_encode (sc_artifact s), qw_CapabilityJCSB64URL = b64_encode (sc_canonical s),
    qw_CapabilitySignatureB64URL = b64_encode (sc_signature s), qw_SchemaVersion = RequestEnvelopeSchemaVersion\<rparr>"
  note c = CapabilityVerify_Inr [OF s] and z = CapabilityVerify_sizes [OF s]
  have a: "sc_artifact s = sample_artifact" using c by (simp add: sample_verified_fields)
  have al: "length sample_artifact \<le> 300" unfolding sample_artifact_def by code_simp
  have f: "flat_doc ?ms"
    by (simp add: flat_doc_def request_members_def b64_safe schema_versions_safe html_safe_def byte_in_def byte_val_def)
  have "2 + sum_list (map member_size ?ms) \<le> MaxFramePayloadBytes"
    using encodeBytes_length [of "sc_canonical s" 8192] encodeBytes_length [of "sc_signature s" 64]
      encodeBytes_length [of "sc_artifact s" 300] z al a
    by (simp add: request_members_def member_size_def json_quote_length b64_safe encodeBytes_def MaxCapabilityBytes_def
        MaxFramePayloadBytes_def RequestEnvelopeSchemaVersion_def html_safe_def byte_in_def byte_val_def)
  then have l: "length (json_print (JObj ?ms)) \<le> MaxFramePayloadBytes" by (rule order_trans [OF json_print_size [OF f]])
  have v: "validJSONObject (sc_canonical s)"
    using c valid_object_print flat_doc_wf [OF cap_flat, of "vc_value sample_verified"] by (metis marshalCapability_print)
  have "EncodeRequestEnvelope ?q = Inr (json_print (JObj ?ms))"
    using v z l by (simp add: EncodeRequestEnvelope_def marshalBoundedEnvelope_iff del: json_print.simps)
  note d = request_roundtrip [OF this]
  have "request_capability sample_service ?q = s"
    using c by (simp add: request_capability_def sample_service_def sample_verifier_def)
  with sample_admitted [OF s] have "admit sample_ed sample_service (request_capability sample_service ?q) = Inr sample_verified" by simp
  moreover have "\<not> rq_recoveryOnly ?q" by simp
  ultimately show ?thesis using d by blast
qed

lemma sample_unseen: "val_CapabilityID (vc_value sample_verified) \<notin> keys (ew_journal sample_world)"
  by (simp add: keys_def sample_world_def empty_journal_def)

lemma sample_valid:
  "val_Operation (vc_value sample_verified) = OperationAdd" "val_NotBefore (vc_value sample_verified) \<le> 63900000010000000000"
  "63900000010000000000 + 2 * Second \<le> val_ExpiresAt (vc_value sample_verified)"
  "(63900000010000000000 :: gotime) mod Millisecond = 0" "(1799 :: uint64) \<noteq> 0" "1799 \<le> (ucast (vc_addTTL sample_verified) :: uint64)"
  by (simp_all add: sample_verified_fields sample_value_def)

text \<open>The history after one request.\<close>

lemma sample_executor_history:
  "\<exists>payload q response w. DecodeRequestEnvelope payload = Inr q \<and> \<not> rq_recoveryOnly q \<and>
     HandlePayload sample_ed sample_service sample_env None payload sample_world = (Some (Inr response), w) \<and>
     ew_calls w = add_calls sample_verified \<and> readyLocked (ew_journal w) \<and> exec_reach sample_ed sample_service w"
proof -
  obtain payload q where q: "DecodeRequestEnvelope payload = Inr q" "\<not> rq_recoveryOnly q"
      "admit sample_ed sample_service (request_capability sample_service q) = Inr sample_verified" using sample_payload by blast
  obtain response w where h: "HandlePayload sample_ed sample_service sample_env None payload sample_world = (Some (Inr response), w)"
      "ew_calls w = ew_calls sample_world @ add_calls sample_verified" "readyLocked (ew_journal w)"
    using HandlePayload_applies [OF sample_paired conjunct1 [OF exec_reach_inv [OF sample_booted]] sample_room sample_cooperates
        sample_valid(4) sample_installs q sample_unseen sample_valid(1-3) _ sample_valid(5,6), of None] by auto
  have "exec_reach sample_ed sample_service w" by (rule exec_reach.continued [OF sample_booted exec_step.request [OF h(1)]])
  moreover have "ew_calls w = add_calls sample_verified" using h(2) by (simp add: sample_world_def)
  ultimately show ?thesis using q(1,2) h(1,3) by blast
qed

theorem executor_mutates_at_most_once_witness:
  "\<exists>w n e. crash_reach sample_ed sample_service w n \<and>
     mutations w = [\<lparr>mu_operation = OperationAdd, mu_stdin = sample_artifact\<rparr>] \<and>
     map_of (j_entries (ew_journal w)) (val_CapabilityID (vc_value (st_verified e))) = Some e \<and> sc_artifact (st_signed e) = sample_artifact"
proof -
  obtain w where w: "exec_reach sample_ed sample_service w" "ew_calls w = add_calls sample_verified" using sample_executor_history by blast
  have m: "mutations w = [\<lparr>mu_operation = OperationAdd, mu_stdin = sample_artifact\<rparr>]"
    using w(2) by (simp add: mutations_def add_calls_def sample_verified_fields)
  obtain n where n: "crash_reach sample_ed sample_service w n" using exec_reach_crash [OF w(1)] by blast
  from executor_mutates_at_most_once [OF this] m obtain e k where "map_of (j_entries (ew_journal w)) k = Some e"
      "val_CapabilityID (vc_value (st_verified e)) = k" "sc_artifact (st_signed e) = sample_artifact"
    by (fastforce simp: list_all2_Cons2)
  with n m show ?thesis by blast
qed

theorem result_is_final_witness:
  "\<exists>payload response w n. HandlePayload sample_ed sample_service sample_env None payload sample_world = (Some (Inr response), w) \<and>
     HandlePayload sample_ed sample_service sample_env None payload w = (Some (Inr response), w\<lparr>ew_tick := n\<rparr>)"
proof -
  obtain payload q response w where q: "DecodeRequestEnvelope payload = Inr q" "\<not> rq_recoveryOnly q"
    and h: "HandlePayload sample_ed sample_service sample_env None payload sample_world = (Some (Inr response), w)"
      "readyLocked (ew_journal w)" using sample_executor_history by blast
  have a: "alive sample_env" using sample_cooperates by (simp add: cooperative_def)
  have q': "DecodeRequestEnvelope payload = Inr (q\<lparr>rq_recoveryOnly := False\<rparr>)" using q by simp
  from result_is_final [OF sample_booted h(1) rtranclp.rtrancl_refl h(2) a q(1) q'] h(1) show ?thesis by blast
qed

theorem fresh_add_applied_witness:
  "\<exists>payload response r w. HandlePayload sample_ed sample_service sample_env None payload sample_world = (Some (Inr response), w) \<and>
     attests_add sample_ed sample_service sample_verified 1799 r \<and> ew_calls w = add_calls sample_verified"
proof -
  obtain payload q where q: "DecodeRequestEnvelope payload = Inr q" "\<not> rq_recoveryOnly q"
      "admit sample_ed sample_service (request_capability sample_service q) = Inr sample_verified" using sample_payload by blast
  have "\<forall>p. None = Some p \<longrightarrow> 63900000010000000000 + 2 * Second \<le> (p :: gotime)" by simp
  from fresh_add_applied [OF sample_paired sample_booted sample_room sample_cooperates sample_valid(4) sample_installs q
      sample_unseen sample_valid(1-3) this sample_valid(5,6)]
  show ?thesis by (auto simp: sample_world_def)
qed

end
