(* ===== verification/Go_Runes.thy ===== *)
theory Go_Runes
  imports Go_Json
begin

text \<open>
  The runes of a byte string, as \<open>range\<close> over a Go string and \<open>utf8.DecodeRuneInString\<close> see them:
  a byte that starts no well-formed sequence is U+FFFD and has width one. On top of them
  \<open>unicode.IsSpace\<close> and the length, content and encoding facts the human-decision contracts use.
\<close>

definition RuneError :: int where "RuneError = 0xFFFD"

definition bits6 :: "char \<Rightarrow> int" where
  "bits6 c = byte_val c mod 64"

text \<open>\<open>utf8.DecodeRuneInString\<close> on a non-empty string: the rune and its width.\<close>

fun DecodeRune :: "bytes \<Rightarrow> int \<times> nat" where
  "DecodeRune [] = (RuneError, 0)"
| "DecodeRune (a # s) =
     (let n = utf8_len (a # s) in
      if n = 0 then (RuneError, 1)
      else if n = 1 then (byte_val a, 1)
      else if n = 2 then (byte_val a mod 32 * 64 + bits6 (s ! 0), 2)
      else if n = 3 then (byte_val a mod 16 * 4096 + bits6 (s ! 0) * 64 + bits6 (s ! 1), 3)
      else (byte_val a mod 8 * 262144 + bits6 (s ! 0) * 4096 + bits6 (s ! 1) * 64 + bits6 (s ! 2), n))"

lemma DecodeRune_width: "s \<noteq> [] \<Longrightarrow> 0 < snd (DecodeRune s)"
  by (cases s) (auto simp: Let_def)

function runes :: "bytes \<Rightarrow> int list" where
  "runes s = (if s = [] then [] else fst (DecodeRune s) # runes (drop (snd (DecodeRune s)) s))"
  by auto

termination
  using DecodeRune_width by (relation "measure length") auto

declare runes.simps [simp del]

lemma runes_Nil [simp]: "runes [] = []"
  by (simp add: runes.simps)

lemma runes_ascii_Cons: "byte_in 0 0x7F a \<Longrightarrow> runes (a # s) = byte_val a # runes s"
  by (subst runes.simps) (simp add: utf8_len_ascii)

lemma runes_ascii: "list_all is_ascii s \<Longrightarrow> runes s = map byte_val s"
  by (induction s) (simp_all add: is_ascii_byte runes_ascii_Cons)

lemma runes_eq_Nil [simp]: "runes s = [] \<longleftrightarrow> s = []"
  by (subst runes.simps) simp

text \<open>\<open>unicode.IsSpace\<close>\<close>

definition IsSpace :: "int \<Rightarrow> bool" where
  "IsSpace r \<longleftrightarrow> (9 \<le> r \<and> r \<le> 13) \<or> r = 0x20 \<or> r = 0x85 \<or> r = 0xA0 \<or> r = 0x1680 \<or>
     (0x2000 \<le> r \<and> r \<le> 0x200A) \<or> r = 0x2028 \<or> r = 0x2029 \<or> r = 0x202F \<or> r = 0x205F \<or> r = 0x3000"

end
