(* ===== verification/Hil.thy ===== *)
theory Hil
  imports Go_Runes Capability_Parse Policy_Response Canonical_Lines
begin

text \<open>
  \<open>internal/hil\<close>: the human decision. A signed-in administrator gets a one-use challenge for exactly
  one checked policy artifact (\<open>Issue\<close>), and answers it with the nonce of that challenge, the same
  artifact, session and idempotency key, and a reason (\<open>Consume\<close>). The answer is a checked decision;
  only a fresh approval authorises the command it is bound to (\<open>AuthorizesAt\<close>).

  A \<open>time.Time\<close> that comes from outside is an instant and the offset of its zone in seconds; after
  \<open>normalizedTime\<close> the offset is zero. The clock reading and the answers of the entropy source are
  arguments of the operations that use them, an entropy answer \<open>None\<close> being a failed read. The Unicode
  normaliser of \<open>golang.org/x/text\<close> is the parameter \<open>normalizer\<close>. Pointers that are nil only for a
  service or a guard that was never made are not modelled.
\<close>

section \<open>Constants and errors (types.go)\<close>

type_synonym zoned = "gotime \<times> int"

definition ChallengeSchemaVersion :: string where "ChallengeSchemaVersion = ''hil-challenge-v1''"
definition DecisionSchemaVersion :: string where "DecisionSchemaVersion = ''hil-decision-v1''"
definition ReasonSchemaVersion :: string where "ReasonSchemaVersion = ''hil-reason-v1''"
definition ResourcePolicy :: string where "ResourcePolicy = ''policy''"
definition ResourceEnforcementAction :: string where "ResourceEnforcementAction = ''enforcement_action''"
definition ChallengeLifetime :: duration where "ChallengeLifetime = 5 * Minute"
definition DecisionLifetime :: duration where "DecisionLifetime = 5 * Minute"
definition ReauthAfter :: duration where "ReauthAfter = 15 * Minute"
definition MaxChallengeBytes :: nat where "MaxChallengeBytes = 8 * 1024"
definition MaxDecisionBytes :: nat where "MaxDecisionBytes = 8 * 1024"
definition MaxReasonBytes :: nat where "MaxReasonBytes = 4 * 1024"
definition MaxReasonRunes :: nat where "MaxReasonRunes = 500"
definition MinIdempotencyKeyBytes :: nat where "MinIdempotencyKeyBytes = 16"
definition MaxIdempotencyKeyBytes :: nat where "MaxIdempotencyKeyBytes = 256"
definition NonceBytes :: nat where "NonceBytes = 32"

definition hil_OperationApprove :: string where "hil_OperationApprove = ''approve''"
definition hil_OperationReject :: string where "hil_OperationReject = ''reject''"
definition hil_OperationRevoke :: string where "hil_OperationRevoke = ''revoke''"
definition DecisionApproved :: string where "DecisionApproved = ''approved''"
definition DecisionRejected :: string where "DecisionRejected = ''rejected''"
definition DecisionRevoked :: string where "DecisionRevoked = ''revoked''"

datatype hil_error =
    HilErrorConfiguration | HilErrorEncoding | HilErrorCanonical | HilErrorSchema | HilErrorField
  | HilErrorDigest | HilErrorTime | HilErrorReason | HilErrorArtifact | HilErrorArtifactMismatch
  | HilErrorValidationFailed | HilErrorValidationStale | HilErrorAuthentication | HilErrorStepUpRequired
  | HilErrorChallengeExpired | HilErrorChallengeMismatch | HilErrorNonce | HilErrorNonceUnavailable
  | HilErrorIdempotency | HilErrorConsumed | HilErrorConflict | HilErrorEntropy

section \<open>Small checks (types.go)\<close>

definition normalizedTime :: "zoned \<Rightarrow> gotime option" where
  "normalizedTime v =
     (if fst v = 0 \<or> Year (fst v) (snd v) < 1 \<or> 9999 < Year (fst v) (snd v) then None else Some (fst v))"

definition minTime :: "gotime \<Rightarrow> gotime list \<Rightarrow> gotime" where
  "minTime first rest = fold (\<lambda>candidate result. if candidate < result then candidate else result) rest first"

definition hil_digestBytes :: "bytes \<Rightarrow> string" where
  "hil_digestBytes v = ''sha256:'' @ hex_encode (sha256 v)"

definition constantStringEqual :: "string \<Rightarrow> string \<Rightarrow> bool" where
  "constantStringEqual left right \<longleftrightarrow> length left = length right \<and> left = right"

definition hil_digestEqual :: "string \<Rightarrow> string \<Rightarrow> bool" where
  "hil_digestEqual left right \<longleftrightarrow> length left = length right \<and> left = right"

definition hil_validDigest :: "string \<Rightarrow> bool" where
  "hil_validDigest v = re_matches digestPattern v"

definition validUUID :: "string \<Rightarrow> bool" where
  "validUUID v = re_matches uuidPattern v"

definition validCanonicalIPv4 :: "string \<Rightarrow> bool" where
  "validCanonicalIPv4 v = canonical_ipv4 v"

definition validPolicyOperation :: "string \<Rightarrow> bool" where
  "validPolicyOperation v \<longleftrightarrow> v = hil_OperationApprove \<or> v = hil_OperationReject"

definition validOperation :: "string \<Rightarrow> bool" where
  "validOperation v \<longleftrightarrow> validPolicyOperation v \<or> v = hil_OperationRevoke"

definition validDecision :: "string \<Rightarrow> string \<Rightarrow> bool" where
  "validDecision operation v \<longleftrightarrow>
     operation = hil_OperationApprove \<and> v = DecisionApproved \<or>
     operation = hil_OperationReject \<and> v = DecisionRejected \<or>
     operation = hil_OperationRevoke \<and> v = DecisionRevoked"

definition validChallengeBranch :: "string \<Rightarrow> string \<Rightarrow> string option \<Rightarrow> bool" where
  "validChallengeBranch operation resourceType originalAddDigest \<longleftrightarrow>
     (if operation = hil_OperationApprove \<or> operation = hil_OperationReject
      then resourceType = ResourcePolicy \<and> originalAddDigest = None
      else if operation = hil_OperationRevoke
      then resourceType = ResourceEnforcementAction \<and> originalAddDigest \<noteq> None
      else False)"

definition validDecisionBranch :: "string \<Rightarrow> string \<Rightarrow> string \<Rightarrow> string option \<Rightarrow> bool" where
  "validDecisionBranch operation decision resourceType originalAddDigest \<longleftrightarrow>
     validDecision operation decision \<and> validChallengeBranch operation resourceType originalAddDigest"

record session_binding =
  sb_SessionID :: string
  sb_SessionDigest :: string
  sb_ActorID :: string
  sb_AuthenticatedAt :: zoned
  sb_ExpiresAt :: zoned

definition checkSession :: "session_binding \<Rightarrow> zoned \<Rightarrow> hil_error + session_binding" where
  "checkSession v now =
     (if \<not> re_matches uuidPattern (sb_SessionID v) \<or> \<not> re_matches digestPattern (sb_SessionDigest v) \<or>
         \<not> re_matches actorPattern (sb_ActorID v) then Inl HilErrorAuthentication
      else case normalizedTime (sb_AuthenticatedAt v) of
        None \<Rightarrow> Inl HilErrorAuthentication
      | Some authenticatedAt \<Rightarrow>
          (case normalizedTime (sb_ExpiresAt v) of
             None \<Rightarrow> Inl HilErrorAuthentication
           | Some expiresAt \<Rightarrow>
               if \<not> authenticatedAt < expiresAt then Inl HilErrorAuthentication
               else (case normalizedTime now of
                  None \<Rightarrow> Inl HilErrorAuthentication
                | Some now \<Rightarrow>
                    if now < authenticatedAt \<or> \<not> now < expiresAt then Inl HilErrorAuthentication
                    else if authenticatedAt + ReauthAfter < now then Inl HilErrorStepUpRequired
                    else Inr (v\<lparr>sb_AuthenticatedAt := (authenticatedAt, 0), sb_ExpiresAt := (expiresAt, 0)\<rparr>))))"

definition sameSession :: "session_binding \<Rightarrow> session_binding \<Rightarrow> bool" where
  "sameSession left right \<longleftrightarrow>
     sb_SessionID left = sb_SessionID right \<and>
     constantStringEqual (sb_SessionDigest left) (sb_SessionDigest right) \<and>
     sb_ActorID left = sb_ActorID right \<and>
     fst (sb_AuthenticatedAt left) = fst (sb_AuthenticatedAt right) \<and>
     fst (sb_ExpiresAt left) = fst (sb_ExpiresAt right)"

text \<open>\<open>readEntropy\<close>: the answer of \<open>io.ReadFull\<close> on a buffer of the wanted size.\<close>

definition readEntropy :: "bytes option \<Rightarrow> hil_error + bytes" where
  "readEntropy answer = (case answer of None \<Rightarrow> Inl HilErrorEntropy | Some b \<Rightarrow> Inr b)"

definition formatUUID :: "bytes \<Rightarrow> string" where
  "formatUUID raw =
     hex_encode (take 4 raw) @ ''-'' @ hex_encode (take 2 (drop 4 raw)) @ ''-'' @
     hex_encode (take 2 (drop 6 raw)) @ ''-'' @ hex_encode (take 2 (drop 8 raw)) @ ''-'' @
     hex_encode (take 6 (drop 10 raw))"

definition makeUUID :: "bytes option \<Rightarrow> hil_error + string" where
  "makeUUID answer = bind_res (readEntropy answer) (\<lambda>raw.
     let raw = raw[6 := mask_byte 0x0F 0x40 (raw ! 6)];
         raw = raw[8 := mask_byte 0x3F 0x80 (raw ! 8)]
     in Inr (formatUUID raw))"

section \<open>Canonical JSON (jcs.go)\<close>

definition jcs_hex :: "int \<Rightarrow> char" where
  "jcs_hex d = ''0123456789abcdef'' ! nat d"

definition jcs_rune :: "int \<Rightarrow> bytes" where
  "jcs_rune r =
     (if r = 0x22 \<or> r = 0x5C then [BSLASH, byte_of r]
      else if r = 8 then [BSLASH, CHR ''b'']
      else if r = 9 then [BSLASH, CHR ''t'']
      else if r = 10 then [BSLASH, CHR ''n'']
      else if r = 12 then [BSLASH, CHR ''f'']
      else if r = 13 then [BSLASH, CHR ''r'']
      else if r < 0x20 then BSLASH # ''u00'' @ [jcs_hex (r div 16), jcs_hex (r mod 16)]
      else encode_rune r)"

definition appendJCSString :: "string \<Rightarrow> bytes" where
  "appendJCSString v = QUOTE # concat (map jcs_rune (runes v)) @ [QUOTE]"

definition appendOptionalJCSString :: "string option \<Rightarrow> bytes" where
  "appendOptionalJCSString v = (case v of None \<Rightarrow> ''null'' | Some s \<Rightarrow> appendJCSString s)"

text \<open>\<open>decodeStrict\<close> is the two-pass decoding of \<^const>\<open>strictDecode\<close> with its own error.\<close>

definition hil_decodeStrict :: "nat \<Rightarrow> (string \<times> 'r setter) list \<Rightarrow> 'r \<Rightarrow> bytes \<Rightarrow> hil_error + 'r" where
  "hil_decodeStrict maximum specs zero data =
     (case strictDecode maximum specs zero data of None \<Rightarrow> Inl HilErrorEncoding | Some w \<Rightarrow> Inr w)"

section \<open>Reasons (reason.go)\<close>

text \<open>\<open>norm.NFC.String\<close> and \<open>norm.NFC.IsNormalString\<close>.\<close>

record normalizer =
  nf_String :: "string \<Rightarrow> string"
  nf_IsNormalString :: "string \<Rightarrow> bool"

record reason =
  re_SchemaVersion :: string
  re_ReasonCode :: string
  re_ReasonText :: string

record checked_reason =
  cr_value :: reason
  cr_canonical :: bytes
  cr_digest :: string

definition validReasonCode :: "string \<Rightarrow> bool" where
  "validReasonCode v \<longleftrightarrow> v \<in> {''threat_confirmed'', ''false_positive'', ''business_exception'',
     ''emergency_revoke'', ''operator_request'', ''other''}"

definition marshalReasonJCS :: "reason \<Rightarrow> bytes" where
  \<open>marshalReasonJCS v =
     ''{"reason_code":'' @ appendJCSString (re_ReasonCode v) @
     '',"reason_text":'' @ appendJCSString (re_ReasonText v) @
     '',"schema_version":'' @ appendJCSString (re_SchemaVersion v) @ ''}''\<close>

definition CheckReason :: "normalizer \<Rightarrow> reason \<Rightarrow> hil_error + checked_reason" where
  "CheckReason nf v =
     (if re_SchemaVersion v \<noteq> ReasonSchemaVersion then Inl HilErrorSchema
      else if \<not> validReasonCode (re_ReasonCode v) \<or> re_ReasonText v = [] \<or>
              MaxReasonBytes < length (re_ReasonText v) \<or> \<not> utf8_valid (re_ReasonText v) then Inl HilErrorReason
      else let v = v\<lparr>re_ReasonText := nf_String nf (re_ReasonText v)\<rparr> in
        if list_all IsSpace (runes (re_ReasonText v)) \<or> MaxReasonRunes < length (runes (re_ReasonText v))
        then Inl HilErrorReason
        else if list_ex (\<lambda>r. r \<le> 0x1F \<or> r = 0x7F) (runes (re_ReasonText v)) then Inl HilErrorReason
        else let canonical = marshalReasonJCS v in
          if MaxReasonBytes < length canonical then Inl HilErrorReason
          else Inr \<lparr>cr_value = v, cr_canonical = canonical, cr_digest = hil_digestBytes canonical\<rparr>)"

record reason_wire =
  rw_ReasonCode :: string
  rw_ReasonText :: string
  rw_SchemaVersion :: string

definition zero_reason_wire :: reason_wire where
  "zero_reason_wire = \<lparr>rw_ReasonCode = [], rw_ReasonText = [], rw_SchemaVersion = []\<rparr>"

definition reason_fields :: "(string \<times> reason_wire setter) list" where
  "reason_fields =
     [(''reason_code'', set_string (\<lambda>x. rw_ReasonCode_update (\<lambda>_. x))),
      (''reason_text'', set_string (\<lambda>x. rw_ReasonText_update (\<lambda>_. x))),
      (''schema_version'', set_string (\<lambda>x. rw_SchemaVersion_update (\<lambda>_. x)))]"

definition ParseCanonicalReason :: "normalizer \<Rightarrow> bytes \<Rightarrow> hil_error + checked_reason" where
  "ParseCanonicalReason nf data =
     bind_res (hil_decodeStrict MaxReasonBytes reason_fields zero_reason_wire data) (\<lambda>wire.
     bind_res (CheckReason nf \<lparr>re_SchemaVersion = rw_SchemaVersion wire, re_ReasonCode = rw_ReasonCode wire,
       re_ReasonText = rw_ReasonText wire\<rparr>) (\<lambda>checked.
     if \<not> nf_IsNormalString nf (rw_ReasonText wire) \<or> data \<noteq> cr_canonical checked then Inl HilErrorCanonical
     else Inr checked))"

section \<open>Exact artifacts (artifact.go)\<close>

record time_value =
  tv_value :: int
  tv_nanos :: int

text \<open>The Unix epoch, in seconds since the zero \<open>time.Time\<close>.\<close>

definition unix_epoch :: int where "unix_epoch = 62135596800"

definition freezeTime :: "gotime \<Rightarrow> time_value" where
  "freezeTime t = \<lparr>tv_value = t div Second - unix_epoch, tv_nanos = t mod Second\<rparr>"

definition tv_Time :: "time_value \<Rightarrow> gotime" where
  "tv_Time v = (tv_value v + unix_epoch) * Second + tv_nanos v"

record exact_artifact =
  xa_policyID :: string
  xa_policyVersion :: uint32
  xa_targetIPv4 :: string
  xa_ttlSeconds :: uint32
  xa_policyDigest :: string
  xa_generatedDigest :: string
  xa_canonicalDigest :: string
  xa_evidenceSnapshotDigest :: string
  xa_validationSnapshotDigest :: string
  xa_validationCreatedAt :: time_value
  xa_validationValidUntil :: time_value
  xa_generatedBytes :: bytes
  xa_canonicalBytes :: bytes

definition exact_FreshAt :: "exact_artifact \<Rightarrow> zoned \<Rightarrow> bool" where
  "exact_FreshAt a now =
     (case normalizedTime now of
        None \<Rightarrow> False
      | Some now \<Rightarrow> \<not> now < tv_Time (xa_validationCreatedAt a) \<and> now < tv_Time (xa_validationValidUntil a))"

definition sameExactArtifact :: "exact_artifact \<Rightarrow> exact_artifact \<Rightarrow> bool" where
  "sameExactArtifact left right \<longleftrightarrow>
     xa_policyID left = xa_policyID right \<and> xa_policyVersion left = xa_policyVersion right \<and>
     xa_targetIPv4 left = xa_targetIPv4 right \<and> xa_ttlSeconds left = xa_ttlSeconds right \<and>
     constantStringEqual (xa_policyDigest left) (xa_policyDigest right) \<and>
     constantStringEqual (xa_generatedDigest left) (xa_generatedDigest right) \<and>
     constantStringEqual (xa_canonicalDigest left) (xa_canonicalDigest right) \<and>
     constantStringEqual (xa_evidenceSnapshotDigest left) (xa_evidenceSnapshotDigest right) \<and>
     constantStringEqual (xa_validationSnapshotDigest left) (xa_validationSnapshotDigest right) \<and>
     xa_validationCreatedAt left = xa_validationCreatedAt right \<and>
     xa_validationValidUntil left = xa_validationValidUntil right \<and>
     xa_generatedBytes left = xa_generatedBytes right \<and> xa_canonicalBytes left = xa_canonicalBytes right"

definition validExactArtifact :: "exact_artifact \<Rightarrow> bool" where
  "validExactArtifact v \<longleftrightarrow>
     validUUID (xa_policyID v) \<and> 0 < xa_policyVersion v \<and> xa_policyVersion v \<le> 2147483647 \<and>
     validCanonicalIPv4 (xa_targetIPv4 v) \<and> hil_validDigest (xa_policyDigest v) \<and>
     hil_validDigest (xa_generatedDigest v) \<and> hil_validDigest (xa_canonicalDigest v) \<and>
     hil_validDigest (xa_evidenceSnapshotDigest v) \<and> hil_validDigest (xa_validationSnapshotDigest v) \<and>
     xa_generatedBytes v \<noteq> [] \<and> xa_canonicalBytes v \<noteq> [] \<and>
     hil_digestBytes (xa_generatedBytes v) = xa_generatedDigest v \<and>
     hil_digestBytes (xa_canonicalBytes v) = xa_canonicalDigest v"

section \<open>Challenges (challenge.go)\<close>

record challenge =
  ch_SchemaVersion :: string
  ch_ChallengeID :: string
  ch_SessionDigest :: string
  ch_Operation :: string
  ch_ResourceType :: string
  ch_ResourceID :: string
  ch_ResourceVersion :: uint32
  ch_TargetIPv4 :: string
  ch_PolicyDigest :: string
  ch_GeneratedArtifactDigest :: string
  ch_CanonicalArtifactDigest :: string
  ch_OriginalAddDigest :: "string option"
  ch_EvidenceSnapshotDigest :: string
  ch_ValidationSnapshotDigest :: string
  ch_ValidationValidUntil :: zoned
  ch_NonceDigest :: string
  ch_AuthenticatedAt :: zoned
  ch_ReauthRequiredAfterSeconds :: uint32
  ch_IssuedAt :: zoned
  ch_ExpiresAt :: zoned

record checked_challenge =
  cc_value :: challenge
  cc_canonical :: bytes
  cc_digest :: string

definition marshalChallengeJCS :: "challenge \<Rightarrow> bytes" where
  \<open>marshalChallengeJCS v =
     ''{"authenticated_at":'' @ appendJCSString (format_rfc3339 (fst (ch_AuthenticatedAt v))) @
     '',"canonical_artifact_digest":'' @ appendJCSString (ch_CanonicalArtifactDigest v) @
     '',"challenge_id":'' @ appendJCSString (ch_ChallengeID v) @
     '',"evidence_snapshot_digest":'' @ appendJCSString (ch_EvidenceSnapshotDigest v) @
     '',"expires_at":'' @ appendJCSString (format_rfc3339 (fst (ch_ExpiresAt v))) @
     '',"generated_artifact_digest":'' @ appendJCSString (ch_GeneratedArtifactDigest v) @
     '',"issued_at":'' @ appendJCSString (format_rfc3339 (fst (ch_IssuedAt v))) @
     '',"nonce_digest":'' @ appendJCSString (ch_NonceDigest v) @
     '',"operation":'' @ appendJCSString (ch_Operation v) @
     '',"original_add_digest":'' @ appendOptionalJCSString (ch_OriginalAddDigest v) @
     '',"policy_digest":'' @ appendJCSString (ch_PolicyDigest v) @
     '',"reauth_required_after_seconds":'' @ appendUint32 (ch_ReauthRequiredAfterSeconds v) @
     '',"resource_id":'' @ appendJCSString (ch_ResourceID v) @
     '',"resource_type":'' @ appendJCSString (ch_ResourceType v) @
     '',"resource_version":'' @ appendUint32 (ch_ResourceVersion v) @
     '',"schema_version":'' @ appendJCSString (ch_SchemaVersion v) @
     '',"session_digest":'' @ appendJCSString (ch_SessionDigest v) @
     '',"target_ipv4":'' @ appendJCSString (ch_TargetIPv4 v) @
     '',"validation_snapshot_digest":'' @ appendJCSString (ch_ValidationSnapshotDigest v) @
     '',"validation_valid_until":'' @ appendJCSString (format_rfc3339 (fst (ch_ValidationValidUntil v))) @ ''}''\<close>

text \<open>The comparisons of the four times of a challenge, after normalisation.\<close>

definition challenge_times :: "gotime \<Rightarrow> gotime \<Rightarrow> gotime \<Rightarrow> gotime \<Rightarrow> bool" where
  "challenge_times authenticatedAt issuedAt expiresAt validationValidUntil \<longleftrightarrow>
     \<not> (issuedAt < authenticatedAt \<or> authenticatedAt + ReauthAfter < issuedAt \<or>
        \<not> issuedAt < expiresAt \<or> issuedAt + ChallengeLifetime < expiresAt \<or>
        validationValidUntil < expiresAt)"

definition CheckChallenge :: "challenge \<Rightarrow> hil_error + checked_challenge" where
  "CheckChallenge v =
     (if ch_SchemaVersion v \<noteq> ChallengeSchemaVersion \<or> \<not> validOperation (ch_Operation v) \<or>
         \<not> validChallengeBranch (ch_Operation v) (ch_ResourceType v) (ch_OriginalAddDigest v)
      then Inl HilErrorSchema
      else if \<not> validUUID (ch_ChallengeID v) \<or> \<not> validUUID (ch_ResourceID v) \<or>
              ch_ResourceVersion v = 0 \<or> 2147483647 < ch_ResourceVersion v \<or>
              \<not> validCanonicalIPv4 (ch_TargetIPv4 v) \<or> ch_ResourceID v = [] then Inl HilErrorField
      else if \<not> list_all hil_validDigest [ch_SessionDigest v, ch_PolicyDigest v, ch_GeneratedArtifactDigest v,
                ch_CanonicalArtifactDigest v, ch_EvidenceSnapshotDigest v, ch_ValidationSnapshotDigest v,
                ch_NonceDigest v] then Inl HilErrorDigest
      else if (case ch_OriginalAddDigest v of None \<Rightarrow> False | Some d \<Rightarrow> \<not> hil_validDigest d) then Inl HilErrorDigest
      else if ch_Operation v = hil_OperationRevoke \<and>
              \<not> hil_digestEqual (ch_GeneratedArtifactDigest v) (ch_CanonicalArtifactDigest v)
      then Inl HilErrorArtifactMismatch
      else if ch_ReauthRequiredAfterSeconds v \<noteq> 900 then Inl HilErrorField
      else case (normalizedTime (ch_AuthenticatedAt v), normalizedTime (ch_IssuedAt v),
                 normalizedTime (ch_ExpiresAt v), normalizedTime (ch_ValidationValidUntil v)) of
        (Some authenticatedAt, Some issuedAt, Some expiresAt, Some validationValidUntil) \<Rightarrow>
          if \<not> challenge_times authenticatedAt issuedAt expiresAt validationValidUntil then Inl HilErrorTime
          else let v = v\<lparr>ch_AuthenticatedAt := (authenticatedAt, 0), ch_IssuedAt := (issuedAt, 0),
                         ch_ExpiresAt := (expiresAt, 0), ch_ValidationValidUntil := (validationValidUntil, 0)\<rparr>;
                   canonical = marshalChallengeJCS v
               in if MaxChallengeBytes < length canonical then Inl HilErrorEncoding
                  else Inr \<lparr>cc_value = v, cc_canonical = canonical, cc_digest = hil_digestBytes canonical\<rparr>
      | _ \<Rightarrow> Inl HilErrorTime)"

record challenge_wire =
  hw_AuthenticatedAt :: string
  hw_CanonicalArtifactDigest :: string
  hw_ChallengeID :: string
  hw_EvidenceSnapshotDigest :: string
  hw_ExpiresAt :: string
  hw_GeneratedArtifactDigest :: string
  hw_IssuedAt :: string
  hw_NonceDigest :: string
  hw_Operation :: string
  hw_OriginalAddDigest :: "string option"
  hw_PolicyDigest :: string
  hw_ReauthRequiredAfterSeconds :: uint32
  hw_ResourceID :: string
  hw_ResourceType :: string
  hw_ResourceVersion :: uint32
  hw_SchemaVersion :: string
  hw_SessionDigest :: string
  hw_TargetIPv4 :: string
  hw_ValidationSnapshotDigest :: string
  hw_ValidationValidUntil :: string

definition zero_challenge_wire :: challenge_wire where
  "zero_challenge_wire = \<lparr>hw_AuthenticatedAt = [], hw_CanonicalArtifactDigest = [], hw_ChallengeID = [],
     hw_EvidenceSnapshotDigest = [], hw_ExpiresAt = [], hw_GeneratedArtifactDigest = [], hw_IssuedAt = [],
     hw_NonceDigest = [], hw_Operation = [], hw_OriginalAddDigest = None, hw_PolicyDigest = [],
     hw_ReauthRequiredAfterSeconds = 0, hw_ResourceID = [], hw_ResourceType = [], hw_ResourceVersion = 0,
     hw_SchemaVersion = [], hw_SessionDigest = [], hw_TargetIPv4 = [], hw_ValidationSnapshotDigest = [],
     hw_ValidationValidUntil = []\<rparr>"

definition challenge_fields :: "(string \<times> challenge_wire setter) list" where
  "challenge_fields =
     [(''authenticated_at'', set_string (\<lambda>x. hw_AuthenticatedAt_update (\<lambda>_. x))),
      (''canonical_artifact_digest'', set_string (\<lambda>x. hw_CanonicalArtifactDigest_update (\<lambda>_. x))),
      (''challenge_id'', set_string (\<lambda>x. hw_ChallengeID_update (\<lambda>_. x))),
      (''evidence_snapshot_digest'', set_string (\<lambda>x. hw_EvidenceSnapshotDigest_update (\<lambda>_. x))),
      (''expires_at'', set_string (\<lambda>x. hw_ExpiresAt_update (\<lambda>_. x))),
      (''generated_artifact_digest'', set_string (\<lambda>x. hw_GeneratedArtifactDigest_update (\<lambda>_. x))),
      (''issued_at'', set_string (\<lambda>x. hw_IssuedAt_update (\<lambda>_. x))),
      (''nonce_digest'', set_string (\<lambda>x. hw_NonceDigest_update (\<lambda>_. x))),
      (''operation'', set_string (\<lambda>x. hw_Operation_update (\<lambda>_. x))),
      (''original_add_digest'', set_string_ptr (\<lambda>x. hw_OriginalAddDigest_update (\<lambda>_. x))),
      (''policy_digest'', set_string (\<lambda>x. hw_PolicyDigest_update (\<lambda>_. x))),
      (''reauth_required_after_seconds'', set_uint 32 (\<lambda>x. hw_ReauthRequiredAfterSeconds_update (\<lambda>_. of_nat x))),
      (''resource_id'', set_string (\<lambda>x. hw_ResourceID_update (\<lambda>_. x))),
      (''resource_type'', set_string (\<lambda>x. hw_ResourceType_update (\<lambda>_. x))),
      (''resource_version'', set_uint 32 (\<lambda>x. hw_ResourceVersion_update (\<lambda>_. of_nat x))),
      (''schema_version'', set_string (\<lambda>x. hw_SchemaVersion_update (\<lambda>_. x))),
      (''session_digest'', set_string (\<lambda>x. hw_SessionDigest_update (\<lambda>_. x))),
      (''target_ipv4'', set_string (\<lambda>x. hw_TargetIPv4_update (\<lambda>_. x))),
      (''validation_snapshot_digest'', set_string (\<lambda>x. hw_ValidationSnapshotDigest_update (\<lambda>_. x))),
      (''validation_valid_until'', set_string (\<lambda>x. hw_ValidationValidUntil_update (\<lambda>_. x)))]"

definition challenge_of_wire :: "challenge_wire \<Rightarrow> zoned \<Rightarrow> zoned \<Rightarrow> zoned \<Rightarrow> zoned \<Rightarrow> challenge" where
  "challenge_of_wire w authenticatedAt issuedAt expiresAt validationValidUntil =
     \<lparr>ch_SchemaVersion = hw_SchemaVersion w, ch_ChallengeID = hw_ChallengeID w,
      ch_SessionDigest = hw_SessionDigest w, ch_Operation = hw_Operation w,
      ch_ResourceType = hw_ResourceType w, ch_ResourceID = hw_ResourceID w,
      ch_ResourceVersion = hw_ResourceVersion w, ch_TargetIPv4 = hw_TargetIPv4 w,
      ch_PolicyDigest = hw_PolicyDigest w, ch_GeneratedArtifactDigest = hw_GeneratedArtifactDigest w,
      ch_CanonicalArtifactDigest = hw_CanonicalArtifactDigest w, ch_OriginalAddDigest = hw_OriginalAddDigest w,
      ch_EvidenceSnapshotDigest = hw_EvidenceSnapshotDigest w,
      ch_ValidationSnapshotDigest = hw_ValidationSnapshotDigest w, ch_ValidationValidUntil = validationValidUntil,
      ch_NonceDigest = hw_NonceDigest w, ch_AuthenticatedAt = authenticatedAt,
      ch_ReauthRequiredAfterSeconds = hw_ReauthRequiredAfterSeconds w, ch_IssuedAt = issuedAt,
      ch_ExpiresAt = expiresAt\<rparr>"

definition ParseCanonicalChallenge :: "bytes \<Rightarrow> hil_error + checked_challenge" where
  "ParseCanonicalChallenge data =
     bind_res (hil_decodeStrict MaxChallengeBytes challenge_fields zero_challenge_wire data) (\<lambda>w.
       case (parse_rfc3339 (hw_AuthenticatedAt w), parse_rfc3339 (hw_IssuedAt w),
             parse_rfc3339 (hw_ExpiresAt w), parse_rfc3339 (hw_ValidationValidUntil w)) of
         (Some authenticatedAt, Some issuedAt, Some expiresAt, Some validationValidUntil) \<Rightarrow>
           bind_res (CheckChallenge (challenge_of_wire w authenticatedAt issuedAt expiresAt validationValidUntil))
             (\<lambda>checked. if data \<noteq> cc_canonical checked then Inl HilErrorCanonical else Inr checked)
       | _ \<Rightarrow> Inl HilErrorTime)"

section \<open>Decisions (decision.go)\<close>

record hil_decision =
  de_SchemaVersion :: string
  de_DecisionID :: string
  de_ChallengeID :: string
  de_SessionDigest :: string
  de_Operation :: string
  de_Decision :: string
  de_ResourceType :: string
  de_ResourceID :: string
  de_ResourceVersion :: uint32
  de_TargetIPv4 :: string
  de_PolicyDigest :: string
  de_GeneratedArtifactDigest :: string
  de_CanonicalArtifactDigest :: string
  de_OriginalAddDigest :: "string option"
  de_EvidenceSnapshotDigest :: string
  de_ValidationSnapshotDigest :: string
  de_ActorID :: string
  de_ReasonDigest :: string
  de_NonceDigest :: string
  de_IdempotencyKeyDigest :: string
  de_DecidedAt :: zoned
  de_DecisionValidUntil :: zoned

record checked_decision =
  cd_value :: hil_decision
  cd_canonical :: bytes
  cd_digest :: string
  cd_reasonCanonical :: bytes
  cd_canonicalCommandBytes :: bytes

definition AuthorizesAt :: "checked_decision \<Rightarrow> zoned \<Rightarrow> bool" where
  "AuthorizesAt d now =
     (if de_Operation (cd_value d) \<noteq> hil_OperationApprove \<or> de_Decision (cd_value d) \<noteq> DecisionApproved \<or>
         de_ResourceType (cd_value d) \<noteq> ResourcePolicy \<or> de_OriginalAddDigest (cd_value d) \<noteq> None \<or>
         cd_canonical d = [] \<or> cd_reasonCanonical d = [] \<or> cd_canonicalCommandBytes d = [] then False
      else case normalizedTime now of
        None \<Rightarrow> False
      | Some now \<Rightarrow>
          \<not> now < fst (de_DecidedAt (cd_value d)) \<and> now < fst (de_DecisionValidUntil (cd_value d)) \<and>
          hil_digestBytes (cd_canonicalCommandBytes d) = de_CanonicalArtifactDigest (cd_value d) \<and>
          hil_digestBytes (cd_reasonCanonical d) = de_ReasonDigest (cd_value d))"

definition marshalDecisionJCS :: "hil_decision \<Rightarrow> bytes" where
  \<open>marshalDecisionJCS v =
     ''{"actor_id":'' @ appendJCSString (de_ActorID v) @
     '',"canonical_artifact_digest":'' @ appendJCSString (de_CanonicalArtifactDigest v) @
     '',"challenge_id":'' @ appendJCSString (de_ChallengeID v) @
     '',"decided_at":'' @ appendJCSString (format_rfc3339 (fst (de_DecidedAt v))) @
     '',"decision":'' @ appendJCSString (de_Decision v) @
     '',"decision_id":'' @ appendJCSString (de_DecisionID v) @
     '',"decision_valid_until":'' @ appendJCSString (format_rfc3339 (fst (de_DecisionValidUntil v))) @
     '',"evidence_snapshot_digest":'' @ appendJCSString (de_EvidenceSnapshotDigest v) @
     '',"generated_artifact_digest":'' @ appendJCSString (de_GeneratedArtifactDigest v) @
     '',"idempotency_key_digest":'' @ appendJCSString (de_IdempotencyKeyDigest v) @
     '',"nonce_digest":'' @ appendJCSString (de_NonceDigest v) @
     '',"operation":'' @ appendJCSString (de_Operation v) @
     '',"original_add_digest":'' @ appendOptionalJCSString (de_OriginalAddDigest v) @
     '',"policy_digest":'' @ appendJCSString (de_PolicyDigest v) @
     '',"reason_digest":'' @ appendJCSString (de_ReasonDigest v) @
     '',"resource_id":'' @ appendJCSString (de_ResourceID v) @
     '',"resource_type":'' @ appendJCSString (de_ResourceType v) @
     '',"resource_version":'' @ appendUint32 (de_ResourceVersion v) @
     '',"schema_version":'' @ appendJCSString (de_SchemaVersion v) @
     '',"session_digest":'' @ appendJCSString (de_SessionDigest v) @
     '',"target_ipv4":'' @ appendJCSString (de_TargetIPv4 v) @
     '',"validation_snapshot_digest":'' @ appendJCSString (de_ValidationSnapshotDigest v) @ ''}''\<close>

definition CheckDecision :: "hil_decision \<Rightarrow> hil_error + checked_decision" where
  "CheckDecision v =
     (if de_SchemaVersion v \<noteq> DecisionSchemaVersion \<or> \<not> validOperation (de_Operation v) \<or>
         \<not> validDecisionBranch (de_Operation v) (de_Decision v) (de_ResourceType v) (de_OriginalAddDigest v)
      then Inl HilErrorSchema
      else if \<not> validUUID (de_DecisionID v) \<or> \<not> validUUID (de_ChallengeID v) \<or> \<not> validUUID (de_ResourceID v) \<or>
              de_ResourceVersion v = 0 \<or> 2147483647 < de_ResourceVersion v \<or>
              \<not> validCanonicalIPv4 (de_TargetIPv4 v) \<or> \<not> re_matches actorPattern (de_ActorID v)
      then Inl HilErrorField
      else if \<not> list_all hil_validDigest [de_SessionDigest v, de_PolicyDigest v, de_GeneratedArtifactDigest v,
                de_CanonicalArtifactDigest v, de_EvidenceSnapshotDigest v, de_ValidationSnapshotDigest v,
                de_ReasonDigest v, de_NonceDigest v, de_IdempotencyKeyDigest v] then Inl HilErrorDigest
      else if (case de_OriginalAddDigest v of None \<Rightarrow> False | Some d \<Rightarrow> \<not> hil_validDigest d) then Inl HilErrorDigest
      else if de_Operation v = hil_OperationRevoke \<and>
              \<not> hil_digestEqual (de_GeneratedArtifactDigest v) (de_CanonicalArtifactDigest v)
      then Inl HilErrorArtifactMismatch
      else case (normalizedTime (de_DecidedAt v), normalizedTime (de_DecisionValidUntil v)) of
        (Some decidedAt, Some validUntil) \<Rightarrow>
          if \<not> decidedAt < validUntil \<or> decidedAt + DecisionLifetime < validUntil then Inl HilErrorTime
          else let v = v\<lparr>de_DecidedAt := (decidedAt, 0), de_DecisionValidUntil := (validUntil, 0)\<rparr>;
                   canonical = marshalDecisionJCS v
               in if MaxDecisionBytes < length canonical then Inl HilErrorEncoding
                  else Inr \<lparr>cd_value = v, cd_canonical = canonical, cd_digest = hil_digestBytes canonical,
                            cd_reasonCanonical = [], cd_canonicalCommandBytes = []\<rparr>
      | _ \<Rightarrow> Inl HilErrorTime)"

record decision_wire =
  xw_ActorID :: string
  xw_CanonicalArtifactDigest :: string
  xw_ChallengeID :: string
  xw_DecidedAt :: string
  xw_Decision :: string
  xw_DecisionID :: string
  xw_DecisionValidUntil :: string
  xw_EvidenceSnapshotDigest :: string
  xw_GeneratedArtifactDigest :: string
  xw_IdempotencyKeyDigest :: string
  xw_NonceDigest :: string
  xw_Operation :: string
  xw_OriginalAddDigest :: "string option"
  xw_PolicyDigest :: string
  xw_ReasonDigest :: string
  xw_ResourceID :: string
  xw_ResourceType :: string
  xw_ResourceVersion :: uint32
  xw_SchemaVersion :: string
  xw_SessionDigest :: string
  xw_TargetIPv4 :: string
  xw_ValidationSnapshotDigest :: string

definition zero_decision_wire :: decision_wire where
  "zero_decision_wire = \<lparr>xw_ActorID = [], xw_CanonicalArtifactDigest = [], xw_ChallengeID = [],
     xw_DecidedAt = [], xw_Decision = [], xw_DecisionID = [], xw_DecisionValidUntil = [],
     xw_EvidenceSnapshotDigest = [], xw_GeneratedArtifactDigest = [], xw_IdempotencyKeyDigest = [],
     xw_NonceDigest = [], xw_Operation = [], xw_OriginalAddDigest = None, xw_PolicyDigest = [],
     xw_ReasonDigest = [], xw_ResourceID = [], xw_ResourceType = [], xw_ResourceVersion = 0,
     xw_SchemaVersion = [], xw_SessionDigest = [], xw_TargetIPv4 = [], xw_ValidationSnapshotDigest = []\<rparr>"

definition decision_fields :: "(string \<times> decision_wire setter) list" where
  "decision_fields =
     [(''actor_id'', set_string (\<lambda>x. xw_ActorID_update (\<lambda>_. x))),
      (''canonical_artifact_digest'', set_string (\<lambda>x. xw_CanonicalArtifactDigest_update (\<lambda>_. x))),
      (''challenge_id'', set_string (\<lambda>x. xw_ChallengeID_update (\<lambda>_. x))),
      (''decided_at'', set_string (\<lambda>x. xw_DecidedAt_update (\<lambda>_. x))),
      (''decision'', set_string (\<lambda>x. xw_Decision_update (\<lambda>_. x))),
      (''decision_id'', set_string (\<lambda>x. xw_DecisionID_update (\<lambda>_. x))),
      (''decision_valid_until'', set_string (\<lambda>x. xw_DecisionValidUntil_update (\<lambda>_. x))),
      (''evidence_snapshot_digest'', set_string (\<lambda>x. xw_EvidenceSnapshotDigest_update (\<lambda>_. x))),
      (''generated_artifact_digest'', set_string (\<lambda>x. xw_GeneratedArtifactDigest_update (\<lambda>_. x))),
      (''idempotency_key_digest'', set_string (\<lambda>x. xw_IdempotencyKeyDigest_update (\<lambda>_. x))),
      (''nonce_digest'', set_string (\<lambda>x. xw_NonceDigest_update (\<lambda>_. x))),
      (''operation'', set_string (\<lambda>x. xw_Operation_update (\<lambda>_. x))),
      (''original_add_digest'', set_string_ptr (\<lambda>x. xw_OriginalAddDigest_update (\<lambda>_. x))),
      (''policy_digest'', set_string (\<lambda>x. xw_PolicyDigest_update (\<lambda>_. x))),
      (''reason_digest'', set_string (\<lambda>x. xw_ReasonDigest_update (\<lambda>_. x))),
      (''resource_id'', set_string (\<lambda>x. xw_ResourceID_update (\<lambda>_. x))),
      (''resource_type'', set_string (\<lambda>x. xw_ResourceType_update (\<lambda>_. x))),
      (''resource_version'', set_uint 32 (\<lambda>x. xw_ResourceVersion_update (\<lambda>_. of_nat x))),
      (''schema_version'', set_string (\<lambda>x. xw_SchemaVersion_update (\<lambda>_. x))),
      (''session_digest'', set_string (\<lambda>x. xw_SessionDigest_update (\<lambda>_. x))),
      (''target_ipv4'', set_string (\<lambda>x. xw_TargetIPv4_update (\<lambda>_. x))),
      (''validation_snapshot_digest'', set_string (\<lambda>x. xw_ValidationSnapshotDigest_update (\<lambda>_. x)))]"

definition decision_of_wire :: "decision_wire \<Rightarrow> zoned \<Rightarrow> zoned \<Rightarrow> hil_decision" where
  "decision_of_wire w decidedAt validUntil =
     \<lparr>de_SchemaVersion = xw_SchemaVersion w, de_DecisionID = xw_DecisionID w, de_ChallengeID = xw_ChallengeID w,
      de_SessionDigest = xw_SessionDigest w, de_Operation = xw_Operation w, de_Decision = xw_Decision w,
      de_ResourceType = xw_ResourceType w, de_ResourceID = xw_ResourceID w,
      de_ResourceVersion = xw_ResourceVersion w, de_TargetIPv4 = xw_TargetIPv4 w,
      de_PolicyDigest = xw_PolicyDigest w, de_GeneratedArtifactDigest = xw_GeneratedArtifactDigest w,
      de_CanonicalArtifactDigest = xw_CanonicalArtifactDigest w, de_OriginalAddDigest = xw_OriginalAddDigest w,
      de_EvidenceSnapshotDigest = xw_EvidenceSnapshotDigest w,
      de_ValidationSnapshotDigest = xw_ValidationSnapshotDigest w, de_ActorID = xw_ActorID w,
      de_ReasonDigest = xw_ReasonDigest w, de_NonceDigest = xw_NonceDigest w,
      de_IdempotencyKeyDigest = xw_IdempotencyKeyDigest w, de_DecidedAt = decidedAt,
      de_DecisionValidUntil = validUntil\<rparr>"

definition ParseCanonicalDecision :: "bytes \<Rightarrow> hil_error + checked_decision" where
  "ParseCanonicalDecision data =
     bind_res (hil_decodeStrict MaxDecisionBytes decision_fields zero_decision_wire data) (\<lambda>w.
       case (parse_rfc3339 (xw_DecidedAt w), parse_rfc3339 (xw_DecisionValidUntil w)) of
         (Some decidedAt, Some validUntil) \<Rightarrow>
           bind_res (CheckDecision (decision_of_wire w decidedAt validUntil))
             (\<lambda>checked. if data \<noteq> cd_canonical checked then Inl HilErrorCanonical else Inr checked)
       | _ \<Rightarrow> Inl HilErrorTime)"

section \<open>Issuing and consuming (challenge.go, decision.go)\<close>

record bound_challenge =
  bc_artifact :: checked_challenge
  bc_session :: session_binding
  bc_exact :: exact_artifact
  bc_idempotencyKeyDigest :: string

record one_use_challenge =
  ou_bound :: bound_challenge
  ou_consumed :: "checked_decision option"
  ou_fingerprint :: string

record issued_challenge =
  is_guard :: one_use_challenge
  is_nonce :: bytes

record issue_request =
  iq_Operation :: string
  iq_Session :: session_binding
  iq_Artifact :: exact_artifact
  iq_IdempotencyKey :: bytes

definition service_now :: "zoned \<Rightarrow> hil_error + gotime" where
  "service_now clock = (case normalizedTime clock of None \<Rightarrow> Inl HilErrorTime | Some t \<Rightarrow> Inr t)"

definition validIdempotencyKey :: "bytes \<Rightarrow> bool" where
  "validIdempotencyKey v \<longleftrightarrow> MinIdempotencyKeyBytes \<le> length v \<and> length v \<le> MaxIdempotencyKeyBytes"

definition Issue :: "zoned \<Rightarrow> bytes option \<Rightarrow> bytes option \<Rightarrow> issue_request \<Rightarrow> hil_error + issued_challenge" where
  "Issue clock idEntropy nonceEntropy r =
     bind_res (service_now clock) (\<lambda>now.
     if \<not> validPolicyOperation (iq_Operation r) then Inl HilErrorField
     else bind_res (checkSession (iq_Session r) (now, 0)) (\<lambda>session.
     if \<not> validIdempotencyKey (iq_IdempotencyKey r) then Inl HilErrorIdempotency
     else let exact = iq_Artifact r in
     if \<not> validExactArtifact exact then Inl HilErrorArtifact
     else if \<not> exact_FreshAt exact (now, 0) then Inl HilErrorValidationStale
     else let expiresAt = minTime (now + ChallengeLifetime)
                [tv_Time (xa_validationValidUntil exact), fst (sb_ExpiresAt session)] in
     if \<not> now < expiresAt then Inl HilErrorChallengeExpired
     else bind_res (makeUUID idEntropy) (\<lambda>challengeID.
     bind_res (readEntropy nonceEntropy) (\<lambda>nonce.
     bind_res (CheckChallenge
       \<lparr>ch_SchemaVersion = ChallengeSchemaVersion, ch_ChallengeID = challengeID,
        ch_SessionDigest = sb_SessionDigest session, ch_Operation = iq_Operation r,
        ch_ResourceType = ResourcePolicy, ch_ResourceID = xa_policyID exact,
        ch_ResourceVersion = xa_policyVersion exact, ch_TargetIPv4 = xa_targetIPv4 exact,
        ch_PolicyDigest = xa_policyDigest exact, ch_GeneratedArtifactDigest = xa_generatedDigest exact,
        ch_CanonicalArtifactDigest = xa_canonicalDigest exact, ch_OriginalAddDigest = None,
        ch_EvidenceSnapshotDigest = xa_evidenceSnapshotDigest exact,
        ch_ValidationSnapshotDigest = xa_validationSnapshotDigest exact,
        ch_ValidationValidUntil = (tv_Time (xa_validationValidUntil exact), 0),
        ch_NonceDigest = hil_digestBytes nonce, ch_AuthenticatedAt = sb_AuthenticatedAt session,
        ch_ReauthRequiredAfterSeconds = 900, ch_IssuedAt = (now, 0), ch_ExpiresAt = (expiresAt, 0)\<rparr>) (\<lambda>checked.
     Inr \<lparr>is_guard = \<lparr>ou_bound = \<lparr>bc_artifact = checked, bc_session = session, bc_exact = exact,
            bc_idempotencyKeyDigest = hil_digestBytes (iq_IdempotencyKey r)\<rparr>,
            ou_consumed = None, ou_fingerprint = []\<rparr>,
          is_nonce = nonce\<rparr>)))))"

definition TakeNonce :: "issued_challenge \<Rightarrow> issued_challenge \<times> (hil_error + string)" where
  "TakeNonce i =
     (if length (is_nonce i) \<noteq> NonceBytes then (i, Inl HilErrorNonceUnavailable)
      else (i\<lparr>is_nonce := []\<rparr>, Inr (b64_encode (is_nonce i))))"

definition canonicalNonce :: "string \<Rightarrow> bytes option" where
  "canonicalNonce presented =
     (if length presented \<noteq> 43 then None
      else case b64_decode False presented of
        None \<Rightarrow> None
      | Some decoded \<Rightarrow>
          if length decoded \<noteq> NonceBytes \<or> b64_encode decoded \<noteq> presented then None else Some decoded)"

record decision_request =
  dq_Operation :: string
  dq_Session :: session_binding
  dq_Artifact :: exact_artifact
  dq_Nonce :: string
  dq_IdempotencyKey :: bytes
  dq_Reason :: reason

definition fingerprint_bytes :: "string \<Rightarrow> string \<Rightarrow> string \<Rightarrow> string \<Rightarrow> string \<Rightarrow> string \<Rightarrow> string \<Rightarrow> string \<Rightarrow> bytes" where
  \<open>fingerprint_bytes actor challengeDigest idempotencyDigest nonceDigest operation reasonDigest sessionDigest validationDigest =
     ''{"actor_id":'' @ appendJCSString actor @
     '',"challenge_digest":'' @ appendJCSString challengeDigest @
     '',"idempotency_key_digest":'' @ appendJCSString idempotencyDigest @
     '',"nonce_digest":'' @ appendJCSString nonceDigest @
     '',"operation":'' @ appendJCSString operation @
     '',"reason_digest":'' @ appendJCSString reasonDigest @
     '',"schema_version":"hil-decision-request-fingerprint-v1","session_digest":'' @ appendJCSString sessionDigest @
     '',"validation_snapshot_digest":'' @ appendJCSString validationDigest @ ''}''\<close>

definition decisionFingerprint ::
  "normalizer \<Rightarrow> bound_challenge \<Rightarrow> decision_request \<Rightarrow> hil_error + (string \<times> checked_reason \<times> string \<times> string)" where
  "decisionFingerprint nf bound r =
     (if \<not> validPolicyOperation (dq_Operation r) \<or> dq_Operation r \<noteq> ch_Operation (cc_value (bc_artifact bound))
      then Inl HilErrorChallengeMismatch
      else if \<not> validIdempotencyKey (dq_IdempotencyKey r) then Inl HilErrorIdempotency
      else let idempotencyDigest = hil_digestBytes (dq_IdempotencyKey r) in
      if \<not> hil_digestEqual idempotencyDigest (bc_idempotencyKeyDigest bound) then Inl HilErrorIdempotency
      else if \<not> sameExactArtifact (bc_exact bound) (dq_Artifact r) \<or> \<not> validExactArtifact (dq_Artifact r)
      then Inl HilErrorArtifactMismatch
      else if sb_SessionID (dq_Session r) \<noteq> sb_SessionID (bc_session bound) \<or>
              sb_ActorID (dq_Session r) \<noteq> sb_ActorID (bc_session bound) \<or>
              \<not> hil_digestEqual (sb_SessionDigest (dq_Session r)) (sb_SessionDigest (bc_session bound)) \<or>
              fst (sb_AuthenticatedAt (dq_Session r)) \<noteq> fst (sb_AuthenticatedAt (bc_session bound)) \<or>
              fst (sb_ExpiresAt (dq_Session r)) \<noteq> fst (sb_ExpiresAt (bc_session bound))
      then Inl HilErrorAuthentication
      else case canonicalNonce (dq_Nonce r) of
        None \<Rightarrow> Inl HilErrorNonce
      | Some nonce \<Rightarrow>
          let nonceDigest = hil_digestBytes nonce in
          if \<not> hil_digestEqual nonceDigest (ch_NonceDigest (cc_value (bc_artifact bound))) then Inl HilErrorNonce
          else bind_res (CheckReason nf (dq_Reason r)) (\<lambda>checkedReason.
            Inr (hil_digestBytes (fingerprint_bytes (sb_ActorID (dq_Session r)) (cc_digest (bc_artifact bound))
                   idempotencyDigest nonceDigest (dq_Operation r) (cr_digest checkedReason)
                   (sb_SessionDigest (dq_Session r)) (xa_validationSnapshotDigest (dq_Artifact r))),
                 checkedReason, nonceDigest, idempotencyDigest)))"

text \<open>The part of \<open>Consume\<close> that makes a new decision from the checked request.\<close>

definition decide ::
  "zoned \<Rightarrow> bytes option \<Rightarrow> bound_challenge \<Rightarrow> decision_request \<Rightarrow> checked_reason \<Rightarrow> string \<Rightarrow> string \<Rightarrow>
     hil_error + checked_decision" where
  "decide clock idEntropy bound r checkedReason nonceDigest idempotencyDigest =
     bind_res (service_now clock) (\<lambda>now.
     let challengeValue = cc_value (bc_artifact bound); exact = bc_exact bound in
     if now < fst (ch_IssuedAt challengeValue) then Inl HilErrorTime
     else if \<not> now < fst (ch_ExpiresAt challengeValue) then Inl HilErrorChallengeExpired
     else bind_res (checkSession (dq_Session r) (now, 0)) (\<lambda>currentSession.
     if \<not> sameSession (bc_session bound) currentSession then Inl HilErrorAuthentication
     else if \<not> exact_FreshAt (dq_Artifact r) (now, 0) \<or> \<not> exact_FreshAt exact (now, 0) then Inl HilErrorValidationStale
     else bind_res (makeUUID idEntropy) (\<lambda>decisionID.
     let decisionValue = (if dq_Operation r = hil_OperationApprove then DecisionApproved else DecisionRejected);
         validUntil = minTime (now + DecisionLifetime) [fst (ch_ExpiresAt challengeValue),
           tv_Time (xa_validationValidUntil exact), fst (sb_ExpiresAt currentSession)] in
     if \<not> now < validUntil then Inl HilErrorChallengeExpired
     else bind_res (CheckDecision
       \<lparr>de_SchemaVersion = DecisionSchemaVersion, de_DecisionID = decisionID,
        de_ChallengeID = ch_ChallengeID challengeValue, de_SessionDigest = sb_SessionDigest currentSession,
        de_Operation = dq_Operation r, de_Decision = decisionValue, de_ResourceType = ResourcePolicy,
        de_ResourceID = xa_policyID exact, de_ResourceVersion = xa_policyVersion exact,
        de_TargetIPv4 = xa_targetIPv4 exact, de_PolicyDigest = xa_policyDigest exact,
        de_GeneratedArtifactDigest = xa_generatedDigest exact,
        de_CanonicalArtifactDigest = xa_canonicalDigest exact, de_OriginalAddDigest = None,
        de_EvidenceSnapshotDigest = xa_evidenceSnapshotDigest exact,
        de_ValidationSnapshotDigest = xa_validationSnapshotDigest exact, de_ActorID = sb_ActorID currentSession,
        de_ReasonDigest = cr_digest checkedReason, de_NonceDigest = nonceDigest,
        de_IdempotencyKeyDigest = idempotencyDigest, de_DecidedAt = (now, 0),
        de_DecisionValidUntil = (validUntil, 0)\<rparr>) (\<lambda>checked.
     Inr (checked\<lparr>cd_reasonCanonical := cr_canonical checkedReason,
                  cd_canonicalCommandBytes := xa_canonicalBytes exact\<rparr>)))))"

definition Consume ::
  "normalizer \<Rightarrow> zoned \<Rightarrow> bytes option \<Rightarrow> decision_request \<Rightarrow> one_use_challenge \<Rightarrow>
     one_use_challenge \<times> (hil_error + checked_decision)" where
  "Consume nf clock idEntropy r g =
     (let static = decisionFingerprint nf (ou_bound g) r in
      case ou_consumed g of
        Some d \<Rightarrow>
          (g, case static of
                Inl _ \<Rightarrow> Inl HilErrorConflict
              | Inr (fingerprint, _) \<Rightarrow>
                  if hil_digestEqual fingerprint (ou_fingerprint g) then Inr d else Inl HilErrorConflict)
      | None \<Rightarrow>
          (case static of
             Inl e \<Rightarrow> (g, Inl e)
           | Inr (fingerprint, checkedReason, nonceDigest, idempotencyDigest) \<Rightarrow>
               (case decide clock idEntropy (ou_bound g) r checkedReason nonceDigest idempotencyDigest of
                  Inl e \<Rightarrow> (g, Inl e)
                | Inr checked \<Rightarrow> (g\<lparr>ou_consumed := Some checked, ou_fingerprint := fingerprint\<rparr>, Inr checked))))"

end
