(* ===== verification/Hil_Codec.thy ===== *)
theory Hil_Codec
  imports Hil
begin

text \<open>
  The challenge and decision documents of \<open>internal/hil\<close>: what \<open>CheckChallenge\<close> and \<open>CheckDecision\<close>
  accept, their canonical bytes as flat JSON documents, and strict parsing of those bytes.
\<close>

section \<open>Strings that need no escaping\<close>

lemma safe_rune: "html_safe c \<Longrightarrow> jcs_rune (byte_val c) = [c]"
proof -
  assume c: "html_safe c"
  have i: "byte_val c = k \<Longrightarrow> c = byte_of k" for k by (metis byte_of_val)
  have n: "\<not> html_safe (byte_of 0x22)" "\<not> html_safe (byte_of 0x5C)" by code_simp+
  have "byte_val c \<noteq> 0x22" "byte_val c \<noteq> 0x5C" using c n i by metis+
  moreover have "0x20 \<le> byte_val c" "byte_val c < 0x80"
    using c by (auto simp: html_safe_def byte_in_def)
  ultimately show ?thesis by (simp add: jcs_rune_def encode_rune_def)
qed

lemma appendJCSString_safe: "list_all html_safe s \<Longrightarrow> appendJCSString s = json_quote s"
proof -
  assume s: "list_all html_safe s"
  then have "runes s = map byte_val s"
    by (intro runes_ascii) (auto simp: list_all_iff html_safe_ascii)
  moreover have "concat (map (jcs_rune \<circ> byte_val) s) = s"
    using s by (induction s) (simp_all add: safe_rune)
  ultimately show ?thesis using s by (simp add: appendJCSString_def json_quote_safe)
qed

lemma appendOptional_safe:
  "(\<And>d. v = Some d \<Longrightarrow> list_all html_safe d) \<Longrightarrow> appendOptionalJCSString v = json_print (opt_str v)"
  by (cases v) (simp_all add: appendOptionalJCSString_def appendJCSString_safe)

lemma hil_keys:
  \<open>json_quote ''authenticated_at'' = ''"authenticated_at"''\<close>
  \<open>json_quote ''canonical_artifact_digest'' = ''"canonical_artifact_digest"''\<close>
  \<open>json_quote ''challenge_id'' = ''"challenge_id"''\<close>
  \<open>json_quote ''generated_artifact_digest'' = ''"generated_artifact_digest"''\<close>
  \<open>json_quote ''nonce_digest'' = ''"nonce_digest"''\<close>
  \<open>json_quote ''policy_digest'' = ''"policy_digest"''\<close>
  \<open>json_quote ''reauth_required_after_seconds'' = ''"reauth_required_after_seconds"''\<close>
  \<open>json_quote ''resource_id'' = ''"resource_id"''\<close>
  \<open>json_quote ''resource_type'' = ''"resource_type"''\<close>
  \<open>json_quote ''resource_version'' = ''"resource_version"''\<close>
  \<open>json_quote ''session_digest'' = ''"session_digest"''\<close>
  \<open>json_quote ''validation_valid_until'' = ''"validation_valid_until"''\<close>
  \<open>json_quote ''decided_at'' = ''"decided_at"''\<close>
  \<open>json_quote ''decision'' = ''"decision"''\<close>
  \<open>json_quote ''decision_id'' = ''"decision_id"''\<close>
  \<open>json_quote ''decision_valid_until'' = ''"decision_valid_until"''\<close>
  \<open>json_quote ''idempotency_key_digest'' = ''"idempotency_key_digest"''\<close>
  \<open>json_quote ''challenge_digest'' = ''"challenge_digest"''\<close>
  by (simp_all add: json_quote_safe html_safe_def byte_in_def byte_val_def QUOTE_def)

section \<open>Times\<close>

lemma normalizedTime_Some: "normalizedTime v = Some t \<Longrightarrow> t = fst v \<and> t \<noteq> 0"
  by (auto simp: normalizedTime_def split: if_splits)

lemma four_digit_Year: "four_digit_time t \<longleftrightarrow> 1 \<le> Year t 0 \<and> Year t 0 \<le> 9999"
  using Year_range Year_four_digit by blast

lemma normalizedTime_utc: "normalizedTime (t, 0) = Some u \<longleftrightarrow> u = t \<and> t \<noteq> 0 \<and> four_digit_time t"
  unfolding normalizedTime_def four_digit_Year fst_conv snd_conv by (simp add: not_less) blast

lemma utc_parse: "four_digit_time t \<Longrightarrow> parse_rfc3339 (format_rfc3339 t) = Some (t, 0)"
  by (rule parse_format_rfc3339)

lemma utc_time_parse: "snd t = 0 \<Longrightarrow> normalizedTime t \<noteq> None \<Longrightarrow> parse_rfc3339 (format_rfc3339 (fst t)) = Some t"
proof -
  assume t: "snd t = 0" "normalizedTime t \<noteq> None"
  then have "normalizedTime (fst t, 0) \<noteq> None" by (metis prod.collapse)
  then have "four_digit_time (fst t)" using normalizedTime_utc by blast
  then show ?thesis using utc_parse t(1) by (metis prod.collapse)
qed

lemma parsed_is_utc: "parse_rfc3339 (format_rfc3339 (fst x)) = Some x \<Longrightarrow> snd x = 0"
  using parse_rfc3339_offset by (metis prod.collapse)

section \<open>Challenges\<close>

definition challenge_utc :: "challenge \<Rightarrow> challenge" where
  "challenge_utc v = v\<lparr>ch_AuthenticatedAt := (fst (ch_AuthenticatedAt v), 0), ch_IssuedAt := (fst (ch_IssuedAt v), 0),
     ch_ExpiresAt := (fst (ch_ExpiresAt v), 0), ch_ValidationValidUntil := (fst (ch_ValidationValidUntil v), 0)\<rparr>"

definition challenge_static :: "challenge \<Rightarrow> bool" where
  "challenge_static v \<longleftrightarrow> ch_SchemaVersion v = ChallengeSchemaVersion \<and> validOperation (ch_Operation v) \<and>
     validChallengeBranch (ch_Operation v) (ch_ResourceType v) (ch_OriginalAddDigest v) \<and>
     validUUID (ch_ChallengeID v) \<and> validUUID (ch_ResourceID v) \<and> ch_ResourceVersion v \<noteq> 0 \<and>
     \<not> 2147483647 < ch_ResourceVersion v \<and> validCanonicalIPv4 (ch_TargetIPv4 v) \<and> ch_ResourceID v \<noteq> [] \<and>
     list_all hil_validDigest [ch_SessionDigest v, ch_PolicyDigest v, ch_GeneratedArtifactDigest v,
       ch_CanonicalArtifactDigest v, ch_EvidenceSnapshotDigest v, ch_ValidationSnapshotDigest v, ch_NonceDigest v] \<and>
     (\<forall>d. ch_OriginalAddDigest v = Some d \<longrightarrow> hil_validDigest d) \<and>
     \<not> (ch_Operation v = hil_OperationRevoke \<and> ch_GeneratedArtifactDigest v \<noteq> ch_CanonicalArtifactDigest v) \<and>
     ch_ReauthRequiredAfterSeconds v = 900"

definition challenge_timed :: "challenge \<Rightarrow> bool" where
  "challenge_timed v \<longleftrightarrow>
     list_all (\<lambda>t. normalizedTime t \<noteq> None) [ch_AuthenticatedAt v, ch_IssuedAt v, ch_ExpiresAt v, ch_ValidationValidUntil v] \<and>
     challenge_times (fst (ch_AuthenticatedAt v)) (fst (ch_IssuedAt v)) (fst (ch_ExpiresAt v)) (fst (ch_ValidationValidUntil v))"

definition checked_challenge_of :: "challenge \<Rightarrow> checked_challenge" where
  "checked_challenge_of v = \<lparr>cc_value = v, cc_canonical = marshalChallengeJCS v,
     cc_digest = hil_digestBytes (marshalChallengeJCS v)\<rparr>"

lemma hil_digestEqual_eq [simp]: "hil_digestEqual a b \<longleftrightarrow> a = b" "constantStringEqual a b \<longleftrightarrow> a = b"
  by (auto simp: hil_digestEqual_def constantStringEqual_def)

lemma marshal_challenge_utc: "marshalChallengeJCS (challenge_utc v) = marshalChallengeJCS v"
  by (simp add: marshalChallengeJCS_def challenge_utc_def)

lemma challenge_static_check:
  "\<not> challenge_static v \<Longrightarrow> \<exists>e. CheckChallenge v = Inl e"
  unfolding CheckChallenge_def challenge_static_def
  by (simp only: if_Inl_eq_Inr hil_digestEqual_eq de_Morgan_conj not_not) (auto split: if_splits option.splits)

lemma CheckChallenge_iff:
  "CheckChallenge v = Inr c \<longleftrightarrow> challenge_static v \<and> challenge_timed v \<and>
     length (marshalChallengeJCS v) \<le> MaxChallengeBytes \<and> c = checked_challenge_of (challenge_utc v)"
proof (cases "challenge_static v")
  case True
  have "CheckChallenge v =
     (case (normalizedTime (ch_AuthenticatedAt v), normalizedTime (ch_IssuedAt v),
                 normalizedTime (ch_ExpiresAt v), normalizedTime (ch_ValidationValidUntil v)) of
        (Some authenticatedAt, Some issuedAt, Some expiresAt, Some validationValidUntil) \<Rightarrow>
          if \<not> challenge_times authenticatedAt issuedAt expiresAt validationValidUntil then Inl HilErrorTime
          else let v = v\<lparr>ch_AuthenticatedAt := (authenticatedAt, 0), ch_IssuedAt := (issuedAt, 0),
                         ch_ExpiresAt := (expiresAt, 0), ch_ValidationValidUntil := (validationValidUntil, 0)\<rparr>;
                   canonical = marshalChallengeJCS v
               in if MaxChallengeBytes < length canonical then Inl HilErrorEncoding
                  else Inr \<lparr>cc_value = v, cc_canonical = canonical, cc_digest = hil_digestBytes canonical\<rparr>
      | _ \<Rightarrow> Inl HilErrorTime)"
    using True unfolding CheckChallenge_def challenge_static_def
    by (cases "ch_OriginalAddDigest v") (simp_all del: de_Morgan_conj)
  then show ?thesis using True
    by (auto simp: challenge_timed_def checked_challenge_of_def challenge_utc_def Let_def not_less
        marshal_challenge_utc [unfolded challenge_utc_def]
        dest!: normalizedTime_Some split: option.splits if_splits)
next
  case False
  then show ?thesis using challenge_static_check [of v] by auto
qed

definition challenge_members :: "challenge \<Rightarrow> (bytes \<times> json) list" where
  "challenge_members v =
     [(''authenticated_at'', JStr (format_rfc3339 (fst (ch_AuthenticatedAt v)))),
      (''canonical_artifact_digest'', JStr (ch_CanonicalArtifactDigest v)),
      (''challenge_id'', JStr (ch_ChallengeID v)),
      (''evidence_snapshot_digest'', JStr (ch_EvidenceSnapshotDigest v)),
      (''expires_at'', JStr (format_rfc3339 (fst (ch_ExpiresAt v)))),
      (''generated_artifact_digest'', JStr (ch_GeneratedArtifactDigest v)),
      (''issued_at'', JStr (format_rfc3339 (fst (ch_IssuedAt v)))),
      (''nonce_digest'', JStr (ch_NonceDigest v)), (''operation'', JStr (ch_Operation v)),
      (''original_add_digest'', opt_str (ch_OriginalAddDigest v)), (''policy_digest'', JStr (ch_PolicyDigest v)),
      (''reauth_required_after_seconds'', JNum (nat_str (unat (ch_ReauthRequiredAfterSeconds v)))),
      (''resource_id'', JStr (ch_ResourceID v)), (''resource_type'', JStr (ch_ResourceType v)),
      (''resource_version'', JNum (nat_str (unat (ch_ResourceVersion v)))),
      (''schema_version'', JStr (ch_SchemaVersion v)), (''session_digest'', JStr (ch_SessionDigest v)),
      (''target_ipv4'', JStr (ch_TargetIPv4 v)),
      (''validation_snapshot_digest'', JStr (ch_ValidationSnapshotDigest v)),
      (''validation_valid_until'', JStr (format_rfc3339 (fst (ch_ValidationValidUntil v))))]"

definition wire_of_challenge :: "challenge \<Rightarrow> challenge_wire" where
  "wire_of_challenge v = \<lparr>hw_AuthenticatedAt = format_rfc3339 (fst (ch_AuthenticatedAt v)),
     hw_CanonicalArtifactDigest = ch_CanonicalArtifactDigest v, hw_ChallengeID = ch_ChallengeID v,
     hw_EvidenceSnapshotDigest = ch_EvidenceSnapshotDigest v, hw_ExpiresAt = format_rfc3339 (fst (ch_ExpiresAt v)),
     hw_GeneratedArtifactDigest = ch_GeneratedArtifactDigest v, hw_IssuedAt = format_rfc3339 (fst (ch_IssuedAt v)),
     hw_NonceDigest = ch_NonceDigest v, hw_Operation = ch_Operation v, hw_OriginalAddDigest = ch_OriginalAddDigest v,
     hw_PolicyDigest = ch_PolicyDigest v, hw_ReauthRequiredAfterSeconds = ch_ReauthRequiredAfterSeconds v,
     hw_ResourceID = ch_ResourceID v, hw_ResourceType = ch_ResourceType v, hw_ResourceVersion = ch_ResourceVersion v,
     hw_SchemaVersion = ch_SchemaVersion v, hw_SessionDigest = ch_SessionDigest v, hw_TargetIPv4 = ch_TargetIPv4 v,
     hw_ValidationSnapshotDigest = ch_ValidationSnapshotDigest v,
     hw_ValidationValidUntil = format_rfc3339 (fst (ch_ValidationValidUntil v))\<rparr>"

lemmas hil_checks = hil_validDigest_def validUUID_def validCanonicalIPv4_def

lemma hil_constants_safe:
  "list_all html_safe ChallengeSchemaVersion" "list_all html_safe DecisionSchemaVersion"
  "list_all html_safe ReasonSchemaVersion"
  "list_all html_safe ResourcePolicy" "list_all html_safe ResourceEnforcementAction"
  "list_all html_safe hil_OperationApprove" "list_all html_safe hil_OperationReject"
  "list_all html_safe hil_OperationRevoke" "list_all html_safe DecisionApproved"
  "list_all html_safe DecisionRejected" "list_all html_safe DecisionRevoked"
  by code_simp+

lemma operation_safe: "validOperation op \<Longrightarrow> list_all html_safe op"
  by (auto simp: validOperation_def validPolicyOperation_def hil_constants_safe)

lemma resource_safe: "validChallengeBranch op ty d \<Longrightarrow> list_all html_safe ty"
  by (auto simp: validChallengeBranch_def hil_constants_safe split: if_splits)

lemma decision_safe: "validDecision op d \<Longrightarrow> list_all html_safe d"
  by (auto simp: validDecision_def hil_constants_safe)

lemmas text_safe = operation_safe resource_safe decision_safe hil_constants_safe uuid_safe digest_safe addr_safe
  actor_safe format_rfc3339_safe

lemma challenge_safe:
  assumes "challenge_static v"
  shows "list_all (list_all html_safe) [ch_CanonicalArtifactDigest v, ch_ChallengeID v, ch_EvidenceSnapshotDigest v,
      ch_GeneratedArtifactDigest v, ch_NonceDigest v, ch_Operation v, ch_PolicyDigest v, ch_ResourceID v,
      ch_ResourceType v, ch_SchemaVersion v, ch_SessionDigest v, ch_TargetIPv4 v, ch_ValidationSnapshotDigest v]"
    "\<And>d. ch_OriginalAddDigest v = Some d \<Longrightarrow> list_all html_safe d"
  using assms by (auto simp: challenge_static_def hil_checks text_safe)

lemma marshalChallenge_print:
  assumes "challenge_static v"
  shows "marshalChallengeJCS v = json_print (JObj (challenge_members v))"
  using challenge_safe [OF assms] unfolding marshalChallengeJCS_def challenge_members_def
  by (simp add: hil_keys contract_keys appendJCSString_safe appendOptional_safe format_rfc3339_safe appendUint32_nat_str)

lemma challenge_flat: "challenge_static v \<Longrightarrow> flat_doc (challenge_members v)"
proof -
  assume ok: "challenge_static v"
  have k: "list_all (\<lambda>m. list_all html_safe (fst m)) (challenge_members v)"
    by (simp add: challenge_members_def html_safe_def byte_in_def byte_val_def)
  have d: "distinct (map fst (challenge_members v))" by (simp add: challenge_members_def)
  have "list_all (\<lambda>m. flat_value (snd m)) (challenge_members v)"
    using challenge_safe [OF ok]
    by (auto simp: challenge_members_def format_rfc3339_safe flat_opt_str split: option.split)
  with k d show ?thesis by (simp add: flat_doc_def)
qed

lemma decode_challenge:
  "decode_struct challenge_fields (JObj (challenge_members v)) zero_challenge_wire = Some (wire_of_challenge v)"
  unfolding decode_struct_def challenge_members_def wire_of_challenge_def
  by (simp add: find_field_def challenge_fields_def zero_challenge_wire_def unat_less_32 [simplified])

lemma decodeStrict_challenge:
  assumes "challenge_static v" "length (marshalChallengeJCS v) \<le> MaxChallengeBytes"
  shows "hil_decodeStrict MaxChallengeBytes challenge_fields zero_challenge_wire (marshalChallengeJCS v) =
    Inr (wire_of_challenge v)"
proof -
  have "strictDecode MaxChallengeBytes challenge_fields zero_challenge_wire (marshalChallengeJCS v) =
      Some (wire_of_challenge v)"
    unfolding marshalChallenge_print [OF assms(1)]
    by (rule trans [OF strictDecode_print decode_challenge])
      (simp_all only: challenge_flat assms flip: marshalChallenge_print)
  then show ?thesis by (simp add: hil_decodeStrict_def)
qed

definition challenge_in_utc :: "challenge \<Rightarrow> bool" where
  "challenge_in_utc v \<longleftrightarrow>
     list_all (\<lambda>t. snd t = 0) [ch_AuthenticatedAt v, ch_IssuedAt v, ch_ExpiresAt v, ch_ValidationValidUntil v]"

lemma challenge_in_utc_eq: "challenge_in_utc v \<Longrightarrow> challenge_utc v = v"
  by (cases v) (auto simp: challenge_in_utc_def challenge_utc_def prod_eq_iff)

lemma challenge_of_wire_of:
  "challenge_of_wire (wire_of_challenge v) a i e u =
     v\<lparr>ch_AuthenticatedAt := a, ch_IssuedAt := i, ch_ExpiresAt := e, ch_ValidationValidUntil := u\<rparr>"
  by (simp add: challenge_of_wire_def wire_of_challenge_def)

lemma ParseCanonicalChallenge_canonical:
  assumes c: "CheckChallenge v = Inr c" and u: "challenge_in_utc v"
  shows "ParseCanonicalChallenge (cc_canonical c) = Inr c"
proof -
  have ok: "challenge_static v" "challenge_timed v" "length (marshalChallengeJCS v) \<le> MaxChallengeBytes"
    and c': "cc_canonical c = marshalChallengeJCS v"
    using c by (simp_all add: CheckChallenge_iff checked_challenge_of_def marshal_challenge_utc)
  have t: "parse_rfc3339 (format_rfc3339 (fst t)) = Some t"
    if "t \<in> {ch_AuthenticatedAt v, ch_IssuedAt v, ch_ExpiresAt v, ch_ValidationValidUntil v}" for t
    using that u ok(2) by (intro utc_time_parse) (auto simp: challenge_in_utc_def challenge_timed_def)
  have w: "hw_AuthenticatedAt (wire_of_challenge v) = format_rfc3339 (fst (ch_AuthenticatedAt v))"
      "hw_IssuedAt (wire_of_challenge v) = format_rfc3339 (fst (ch_IssuedAt v))"
      "hw_ExpiresAt (wire_of_challenge v) = format_rfc3339 (fst (ch_ExpiresAt v))"
      "hw_ValidationValidUntil (wire_of_challenge v) = format_rfc3339 (fst (ch_ValidationValidUntil v))"
    by (simp_all add: wire_of_challenge_def)
  show ?thesis
    unfolding ParseCanonicalChallenge_def c' decodeStrict_challenge [OF ok(1,3)]
    using c by (simp add: w t challenge_of_wire_of c')
qed

lemma ParseCanonicalChallenge_Inr:
  assumes "ParseCanonicalChallenge data = Inr c"
  shows "\<exists>v. CheckChallenge v = Inr c \<and> challenge_in_utc v \<and> data = cc_canonical c"
proof -
  obtain w where w: "hil_decodeStrict MaxChallengeBytes challenge_fields zero_challenge_wire data = Inr w"
    and r: "(case (parse_rfc3339 (hw_AuthenticatedAt w), parse_rfc3339 (hw_IssuedAt w),
             parse_rfc3339 (hw_ExpiresAt w), parse_rfc3339 (hw_ValidationValidUntil w)) of
         (Some authenticatedAt, Some issuedAt, Some expiresAt, Some validationValidUntil) \<Rightarrow>
           bind_res (CheckChallenge (challenge_of_wire w authenticatedAt issuedAt expiresAt validationValidUntil))
             (\<lambda>checked. if data \<noteq> cc_canonical checked then Inl HilErrorCanonical else Inr checked)
       | _ \<Rightarrow> Inl HilErrorTime) = Inr c"
    using assms unfolding ParseCanonicalChallenge_def bind_res_Inr_iff by blast
  obtain a where a: "parse_rfc3339 (hw_AuthenticatedAt w) = Some a"
    using r by (cases "parse_rfc3339 (hw_AuthenticatedAt w)") simp_all
  obtain i where i: "parse_rfc3339 (hw_IssuedAt w) = Some i"
    using r by (cases "parse_rfc3339 (hw_IssuedAt w)") (simp_all add: a)
  obtain e where e: "parse_rfc3339 (hw_ExpiresAt w) = Some e"
    using r by (cases "parse_rfc3339 (hw_ExpiresAt w)") (simp_all add: a i)
  obtain u where u: "parse_rfc3339 (hw_ValidationValidUntil w) = Some u"
    using r by (cases "parse_rfc3339 (hw_ValidationValidUntil w)") (simp_all add: a i e)
  note t = a i e u
  have c: "CheckChallenge (challenge_of_wire w a i e u) = Inr c" and data: "data = cc_canonical c"
    using r by (auto simp: t bind_res_Inr_iff if_Inl_eq_Inr split: if_splits)
  let ?v = "challenge_of_wire w a i e u"
  have ok: "challenge_static ?v" "length (marshalChallengeJCS ?v) \<le> MaxChallengeBytes"
    and d: "data = marshalChallengeJCS ?v"
    using c data by (simp_all add: CheckChallenge_iff checked_challenge_of_def marshal_challenge_utc)
  have "w = wire_of_challenge ?v" using w decodeStrict_challenge [OF ok] by (simp add: d)
  then have f: "hw_AuthenticatedAt w = format_rfc3339 (fst a)" "hw_IssuedAt w = format_rfc3339 (fst i)"
      "hw_ExpiresAt w = format_rfc3339 (fst e)" "hw_ValidationValidUntil w = format_rfc3339 (fst u)"
    by (auto simp: wire_of_challenge_def challenge_of_wire_def dest: arg_cong [of w _ hw_AuthenticatedAt]
        arg_cong [of w _ hw_IssuedAt] arg_cong [of w _ hw_ExpiresAt] arg_cong [of w _ hw_ValidationValidUntil])
  have "challenge_in_utc ?v" using t parsed_is_utc unfolding f by (simp add: challenge_in_utc_def challenge_of_wire_def)
  with c data show ?thesis by blast
qed

lemma uint_text: "length (nat_str (unat (v :: uint32))) \<le> 10"
  by (rule uint32_digits)

lemma operation_length: "validOperation op \<Longrightarrow> length op \<le> 7"
  by (auto simp: validOperation_def validPolicyOperation_def hil_OperationApprove_def hil_OperationReject_def
      hil_OperationRevoke_def)

lemma resource_length: "validChallengeBranch op ty d \<Longrightarrow> length ty \<le> 18"
  by (auto simp: validChallengeBranch_def ResourcePolicy_def ResourceEnforcementAction_def split: if_splits)

lemma quote_bound: "list_all html_safe s \<Longrightarrow> length s \<le> n \<Longrightarrow> length (json_quote s) \<le> n + 2"
  by (simp add: json_quote_length)

lemma operation_bound: "validOperation op \<Longrightarrow> length (json_quote op) \<le> 9"
  using quote_bound [of op 7] operation_length operation_safe by simp

lemma resource_bound: "validChallengeBranch op ty d \<Longrightarrow> length (json_quote ty) \<le> 20"
  using quote_bound [of ty 18] resource_length resource_safe by simp

lemma addr_bound: "canonical_ipv4 a \<Longrightarrow> length (json_quote a) \<le> 17"
  using quote_bound [of a 15] addr_length addr_safe by simp

lemma schema_bound:
  "length (json_quote ChallengeSchemaVersion) \<le> 18" "length (json_quote DecisionSchemaVersion) \<le> 17"
  by (simp_all add: json_quote_length hil_constants_safe) (simp_all add: ChallengeSchemaVersion_def DecisionSchemaVersion_def)

lemma time_bound: "four_digit_time t \<Longrightarrow> length (json_quote (format_rfc3339 t)) \<le> 32"
  using length_format_rfc3339 [of t] by (simp add: json_quote_length format_rfc3339_safe)

lemma optional_digest_bound:
  "(\<And>d. v = Some d \<Longrightarrow> re_matches digestPattern d) \<Longrightarrow> length (json_print (opt_str v)) \<le> 73"
  by (cases v) (simp_all add: quoted_length)

lemma challenge_size:
  assumes ok: "challenge_static v"
    and t: "list_all (\<lambda>t. four_digit_time (fst t)) [ch_AuthenticatedAt v, ch_IssuedAt v, ch_ExpiresAt v, ch_ValidationValidUntil v]"
  shows "length (marshalChallengeJCS v) \<le> MaxChallengeBytes"
proof -
  have q: "length (json_quote (ch_CanonicalArtifactDigest v)) = 73" "length (json_quote (ch_EvidenceSnapshotDigest v)) = 73"
      "length (json_quote (ch_GeneratedArtifactDigest v)) = 73" "length (json_quote (ch_NonceDigest v)) = 73"
      "length (json_quote (ch_PolicyDigest v)) = 73" "length (json_quote (ch_SessionDigest v)) = 73"
      "length (json_quote (ch_ValidationSnapshotDigest v)) = 73" "length (json_quote (ch_ChallengeID v)) = 38"
      "length (json_quote (ch_ResourceID v)) = 38"
    using ok by (simp_all add: challenge_static_def hil_checks quoted_length)
  have b: "length (json_quote (ch_Operation v)) \<le> 9" "length (json_quote (ch_ResourceType v)) \<le> 20"
      "length (json_quote (ch_TargetIPv4 v)) \<le> 17" "length (json_quote (ch_SchemaVersion v)) \<le> 18"
      "length (json_print (opt_str (ch_OriginalAddDigest v))) \<le> 73"
    using ok operation_bound resource_bound [of "ch_Operation v" "ch_ResourceType v" "ch_OriginalAddDigest v"] addr_bound
      schema_bound(1) optional_digest_bound [of "ch_OriginalAddDigest v"]
    by (simp_all add: challenge_static_def hil_checks)
  have f: "length (json_quote (format_rfc3339 (fst x))) \<le> 32"
    if "x \<in> {ch_AuthenticatedAt v, ch_IssuedAt v, ch_ExpiresAt v, ch_ValidationValidUntil v}" for x
    using that t time_bound by auto
  note n = uint_text [of "ch_ResourceVersion v"] uint_text [of "ch_ReauthRequiredAfterSeconds v"]
  have "length (marshalChallengeJCS v) \<le> 2 + sum_list (map member_size (challenge_members v))"
    unfolding marshalChallenge_print [OF ok] by (rule json_print_size [OF challenge_flat [OF ok]])
  also have "\<dots> \<le> MaxChallengeBytes"
    using b n f [of "ch_AuthenticatedAt v"] f [of "ch_IssuedAt v"] f [of "ch_ExpiresAt v"] f [of "ch_ValidationValidUntil v"]
    by (simp add: challenge_members_def member_size_def q MaxChallengeBytes_def)
  finally show ?thesis .
qed

section \<open>Decisions\<close>

definition decision_utc :: "hil_decision \<Rightarrow> hil_decision" where
  "decision_utc v = v\<lparr>de_DecidedAt := (fst (de_DecidedAt v), 0), de_DecisionValidUntil := (fst (de_DecisionValidUntil v), 0)\<rparr>"

definition decision_static :: "hil_decision \<Rightarrow> bool" where
  "decision_static v \<longleftrightarrow> de_SchemaVersion v = DecisionSchemaVersion \<and> validOperation (de_Operation v) \<and>
     validDecisionBranch (de_Operation v) (de_Decision v) (de_ResourceType v) (de_OriginalAddDigest v) \<and>
     validUUID (de_DecisionID v) \<and> validUUID (de_ChallengeID v) \<and> validUUID (de_ResourceID v) \<and>
     de_ResourceVersion v \<noteq> 0 \<and> \<not> 2147483647 < de_ResourceVersion v \<and> validCanonicalIPv4 (de_TargetIPv4 v) \<and>
     re_matches actorPattern (de_ActorID v) \<and>
     list_all hil_validDigest [de_SessionDigest v, de_PolicyDigest v, de_GeneratedArtifactDigest v,
       de_CanonicalArtifactDigest v, de_EvidenceSnapshotDigest v, de_ValidationSnapshotDigest v, de_ReasonDigest v,
       de_NonceDigest v, de_IdempotencyKeyDigest v] \<and>
     (\<forall>d. de_OriginalAddDigest v = Some d \<longrightarrow> hil_validDigest d) \<and>
     \<not> (de_Operation v = hil_OperationRevoke \<and> de_GeneratedArtifactDigest v \<noteq> de_CanonicalArtifactDigest v)"

definition decision_timed :: "hil_decision \<Rightarrow> bool" where
  "decision_timed v \<longleftrightarrow> list_all (\<lambda>t. normalizedTime t \<noteq> None) [de_DecidedAt v, de_DecisionValidUntil v] \<and>
     \<not> (\<not> fst (de_DecidedAt v) < fst (de_DecisionValidUntil v) \<or>
        fst (de_DecidedAt v) + DecisionLifetime < fst (de_DecisionValidUntil v))"

definition checked_decision_of :: "hil_decision \<Rightarrow> checked_decision" where
  "checked_decision_of v = \<lparr>cd_value = v, cd_canonical = marshalDecisionJCS v,
     cd_digest = hil_digestBytes (marshalDecisionJCS v), cd_reasonCanonical = [], cd_canonicalCommandBytes = []\<rparr>"

lemma marshal_decision_utc: "marshalDecisionJCS (decision_utc v) = marshalDecisionJCS v"
  by (simp add: marshalDecisionJCS_def decision_utc_def)

lemma decision_static_check: "\<not> decision_static v \<Longrightarrow> \<exists>e. CheckDecision v = Inl e"
  unfolding CheckDecision_def decision_static_def
  by (simp only: if_Inl_eq_Inr hil_digestEqual_eq de_Morgan_conj not_not) (auto split: if_splits option.splits)

lemma CheckDecision_iff:
  "CheckDecision v = Inr c \<longleftrightarrow> decision_static v \<and> decision_timed v \<and>
     length (marshalDecisionJCS v) \<le> MaxDecisionBytes \<and> c = checked_decision_of (decision_utc v)"
proof (cases "decision_static v")
  case True
  have "CheckDecision v =
     (case (normalizedTime (de_DecidedAt v), normalizedTime (de_DecisionValidUntil v)) of
        (Some decidedAt, Some validUntil) \<Rightarrow>
          if \<not> decidedAt < validUntil \<or> decidedAt + DecisionLifetime < validUntil then Inl HilErrorTime
          else let v = v\<lparr>de_DecidedAt := (decidedAt, 0), de_DecisionValidUntil := (validUntil, 0)\<rparr>;
                   canonical = marshalDecisionJCS v
               in if MaxDecisionBytes < length canonical then Inl HilErrorEncoding
                  else Inr \<lparr>cd_value = v, cd_canonical = canonical, cd_digest = hil_digestBytes canonical,
                            cd_reasonCanonical = [], cd_canonicalCommandBytes = []\<rparr>
      | _ \<Rightarrow> Inl HilErrorTime)"
    using True unfolding CheckDecision_def decision_static_def
    by (cases "de_OriginalAddDigest v") (simp_all del: de_Morgan_conj)
  then show ?thesis using True
    by (auto simp: decision_timed_def checked_decision_of_def decision_utc_def Let_def not_less
        marshal_decision_utc [unfolded decision_utc_def]
        dest!: normalizedTime_Some split: option.splits if_splits)
next
  case False
  then show ?thesis using decision_static_check [of v] by auto
qed

definition decision_members :: "hil_decision \<Rightarrow> (bytes \<times> json) list" where
  "decision_members v =
     [(''actor_id'', JStr (de_ActorID v)), (''canonical_artifact_digest'', JStr (de_CanonicalArtifactDigest v)),
      (''challenge_id'', JStr (de_ChallengeID v)),
      (''decided_at'', JStr (format_rfc3339 (fst (de_DecidedAt v)))), (''decision'', JStr (de_Decision v)),
      (''decision_id'', JStr (de_DecisionID v)),
      (''decision_valid_until'', JStr (format_rfc3339 (fst (de_DecisionValidUntil v)))),
      (''evidence_snapshot_digest'', JStr (de_EvidenceSnapshotDigest v)),
      (''generated_artifact_digest'', JStr (de_GeneratedArtifactDigest v)),
      (''idempotency_key_digest'', JStr (de_IdempotencyKeyDigest v)),
      (''nonce_digest'', JStr (de_NonceDigest v)), (''operation'', JStr (de_Operation v)),
      (''original_add_digest'', opt_str (de_OriginalAddDigest v)), (''policy_digest'', JStr (de_PolicyDigest v)),
      (''reason_digest'', JStr (de_ReasonDigest v)), (''resource_id'', JStr (de_ResourceID v)),
      (''resource_type'', JStr (de_ResourceType v)),
      (''resource_version'', JNum (nat_str (unat (de_ResourceVersion v)))),
      (''schema_version'', JStr (de_SchemaVersion v)), (''session_digest'', JStr (de_SessionDigest v)),
      (''target_ipv4'', JStr (de_TargetIPv4 v)),
      (''validation_snapshot_digest'', JStr (de_ValidationSnapshotDigest v))]"

definition wire_of_decision :: "hil_decision \<Rightarrow> decision_wire" where
  "wire_of_decision v = \<lparr>xw_ActorID = de_ActorID v, xw_CanonicalArtifactDigest = de_CanonicalArtifactDigest v,
     xw_ChallengeID = de_ChallengeID v, xw_DecidedAt = format_rfc3339 (fst (de_DecidedAt v)),
     xw_Decision = de_Decision v, xw_DecisionID = de_DecisionID v,
     xw_DecisionValidUntil = format_rfc3339 (fst (de_DecisionValidUntil v)),
     xw_EvidenceSnapshotDigest = de_EvidenceSnapshotDigest v, xw_GeneratedArtifactDigest = de_GeneratedArtifactDigest v,
     xw_IdempotencyKeyDigest = de_IdempotencyKeyDigest v, xw_NonceDigest = de_NonceDigest v,
     xw_Operation = de_Operation v, xw_OriginalAddDigest = de_OriginalAddDigest v, xw_PolicyDigest = de_PolicyDigest v,
     xw_ReasonDigest = de_ReasonDigest v, xw_ResourceID = de_ResourceID v, xw_ResourceType = de_ResourceType v,
     xw_ResourceVersion = de_ResourceVersion v, xw_SchemaVersion = de_SchemaVersion v,
     xw_SessionDigest = de_SessionDigest v, xw_TargetIPv4 = de_TargetIPv4 v,
     xw_ValidationSnapshotDigest = de_ValidationSnapshotDigest v\<rparr>"

lemma decision_text_safe:
  assumes "decision_static v"
  shows "list_all (list_all html_safe) [de_ActorID v, de_CanonicalArtifactDigest v, de_ChallengeID v, de_Decision v,
      de_DecisionID v, de_EvidenceSnapshotDigest v, de_GeneratedArtifactDigest v, de_IdempotencyKeyDigest v,
      de_NonceDigest v, de_Operation v, de_PolicyDigest v, de_ReasonDigest v, de_ResourceID v, de_ResourceType v,
      de_SchemaVersion v, de_SessionDigest v, de_TargetIPv4 v, de_ValidationSnapshotDigest v]"
    "\<And>d. de_OriginalAddDigest v = Some d \<Longrightarrow> list_all html_safe d"
  using assms by (auto simp: decision_static_def validDecisionBranch_def hil_checks text_safe)

lemma marshalDecision_print:
  assumes "decision_static v"
  shows "marshalDecisionJCS v = json_print (JObj (decision_members v))"
  using decision_text_safe [OF assms] unfolding marshalDecisionJCS_def decision_members_def
  by (simp add: hil_keys contract_keys appendJCSString_safe appendOptional_safe format_rfc3339_safe appendUint32_nat_str)

lemma decision_flat: "decision_static v \<Longrightarrow> flat_doc (decision_members v)"
proof -
  assume ok: "decision_static v"
  have k: "list_all (\<lambda>m. list_all html_safe (fst m)) (decision_members v)"
    by (simp add: decision_members_def html_safe_def byte_in_def byte_val_def)
  have d: "distinct (map fst (decision_members v))" by (simp add: decision_members_def)
  have "list_all (\<lambda>m. flat_value (snd m)) (decision_members v)"
    using decision_text_safe [OF ok]
    by (auto simp: decision_members_def format_rfc3339_safe flat_opt_str split: option.split)
  with k d show ?thesis by (simp add: flat_doc_def)
qed

lemma decode_decision:
  "decode_struct decision_fields (JObj (decision_members v)) zero_decision_wire = Some (wire_of_decision v)"
  unfolding decode_struct_def decision_members_def wire_of_decision_def
  by (simp add: find_field_def decision_fields_def zero_decision_wire_def unat_less_32 [simplified])

lemma decodeStrict_decision:
  assumes "decision_static v" "length (marshalDecisionJCS v) \<le> MaxDecisionBytes"
  shows "hil_decodeStrict MaxDecisionBytes decision_fields zero_decision_wire (marshalDecisionJCS v) =
    Inr (wire_of_decision v)"
proof -
  have "strictDecode MaxDecisionBytes decision_fields zero_decision_wire (marshalDecisionJCS v) =
      Some (wire_of_decision v)"
    unfolding marshalDecision_print [OF assms(1)]
    by (rule trans [OF strictDecode_print decode_decision])
      (simp_all only: decision_flat assms flip: marshalDecision_print)
  then show ?thesis by (simp add: hil_decodeStrict_def)
qed

definition decision_in_utc :: "hil_decision \<Rightarrow> bool" where
  "decision_in_utc v \<longleftrightarrow> snd (de_DecidedAt v) = 0 \<and> snd (de_DecisionValidUntil v) = 0"

lemma decision_of_wire_of:
  "decision_of_wire (wire_of_decision v) a u = v\<lparr>de_DecidedAt := a, de_DecisionValidUntil := u\<rparr>"
  by (simp add: decision_of_wire_def wire_of_decision_def)

lemma ParseCanonicalDecision_canonical:
  assumes c: "CheckDecision v = Inr c" and u: "decision_in_utc v"
  shows "ParseCanonicalDecision (cd_canonical c) = Inr c"
proof -
  have ok: "decision_static v" "decision_timed v" "length (marshalDecisionJCS v) \<le> MaxDecisionBytes"
    and c': "cd_canonical c = marshalDecisionJCS v"
    using c by (simp_all add: CheckDecision_iff checked_decision_of_def marshal_decision_utc)
  have t: "parse_rfc3339 (format_rfc3339 (fst (de_DecidedAt v))) = Some (de_DecidedAt v)"
      "parse_rfc3339 (format_rfc3339 (fst (de_DecisionValidUntil v))) = Some (de_DecisionValidUntil v)"
    using u ok(2) by (auto simp: decision_in_utc_def decision_timed_def intro!: utc_time_parse)
  have w: "xw_DecidedAt (wire_of_decision v) = format_rfc3339 (fst (de_DecidedAt v))"
      "xw_DecisionValidUntil (wire_of_decision v) = format_rfc3339 (fst (de_DecisionValidUntil v))"
    by (simp_all add: wire_of_decision_def)
  show ?thesis
    unfolding ParseCanonicalDecision_def c' decodeStrict_decision [OF ok(1,3)]
    using c by (simp add: w t decision_of_wire_of c')
qed

lemma ParseCanonicalDecision_Inr:
  assumes "ParseCanonicalDecision data = Inr c"
  shows "\<exists>v. CheckDecision v = Inr c \<and> decision_in_utc v \<and> data = cd_canonical c"
proof -
  obtain w where w: "hil_decodeStrict MaxDecisionBytes decision_fields zero_decision_wire data = Inr w"
    and r: "(case (parse_rfc3339 (xw_DecidedAt w), parse_rfc3339 (xw_DecisionValidUntil w)) of
         (Some decidedAt, Some validUntil) \<Rightarrow>
           bind_res (CheckDecision (decision_of_wire w decidedAt validUntil))
             (\<lambda>checked. if data \<noteq> cd_canonical checked then Inl HilErrorCanonical else Inr checked)
       | _ \<Rightarrow> Inl HilErrorTime) = Inr c"
    using assms unfolding ParseCanonicalDecision_def bind_res_Inr_iff by blast
  obtain a where a: "parse_rfc3339 (xw_DecidedAt w) = Some a"
    using r by (cases "parse_rfc3339 (xw_DecidedAt w)") simp_all
  obtain u where u: "parse_rfc3339 (xw_DecisionValidUntil w) = Some u"
    using r by (cases "parse_rfc3339 (xw_DecisionValidUntil w)") (simp_all add: a)
  have c: "CheckDecision (decision_of_wire w a u) = Inr c" and data: "data = cd_canonical c"
    using r by (auto simp: a u bind_res_Inr_iff if_Inl_eq_Inr split: if_splits)
  let ?v = "decision_of_wire w a u"
  have ok: "decision_static ?v" "length (marshalDecisionJCS ?v) \<le> MaxDecisionBytes"
    and d: "data = marshalDecisionJCS ?v"
    using c data by (simp_all add: CheckDecision_iff checked_decision_of_def marshal_decision_utc)
  have "w = wire_of_decision ?v" using w decodeStrict_decision [OF ok] by (simp add: d)
  then have f: "xw_DecidedAt w = format_rfc3339 (fst a)" "xw_DecisionValidUntil w = format_rfc3339 (fst u)"
    by (auto simp: wire_of_decision_def decision_of_wire_def dest: arg_cong [of w _ xw_DecidedAt]
        arg_cong [of w _ xw_DecisionValidUntil])
  have "decision_in_utc ?v"
    using parsed_is_utc [of a] parsed_is_utc [of u] a u unfolding f by (simp add: decision_in_utc_def decision_of_wire_def)
  with c data show ?thesis by blast
qed

lemma decision_size:
  assumes ok: "decision_static v"
    and t: "four_digit_time (fst (de_DecidedAt v))" "four_digit_time (fst (de_DecisionValidUntil v))"
  shows "length (marshalDecisionJCS v) \<le> MaxDecisionBytes"
proof -
  have q: "length (json_quote (de_CanonicalArtifactDigest v)) = 73" "length (json_quote (de_EvidenceSnapshotDigest v)) = 73"
      "length (json_quote (de_GeneratedArtifactDigest v)) = 73" "length (json_quote (de_NonceDigest v)) = 73"
      "length (json_quote (de_PolicyDigest v)) = 73" "length (json_quote (de_SessionDigest v)) = 73"
      "length (json_quote (de_ValidationSnapshotDigest v)) = 73" "length (json_quote (de_ReasonDigest v)) = 73"
      "length (json_quote (de_IdempotencyKeyDigest v)) = 73" "length (json_quote (de_ChallengeID v)) = 38"
      "length (json_quote (de_ResourceID v)) = 38" "length (json_quote (de_DecisionID v)) = 38"
    using ok by (simp_all add: decision_static_def hil_checks quoted_length)
  have d: "length (json_quote (de_Decision v)) \<le> 10" if "validDecision (de_Operation v) (de_Decision v)"
    using that decision_safe [OF that] quote_bound [of "de_Decision v" 8]
    by (auto simp: validDecision_def DecisionApproved_def DecisionRejected_def DecisionRevoked_def)
  have b: "length (json_quote (de_Operation v)) \<le> 9" "length (json_quote (de_ResourceType v)) \<le> 20"
      "length (json_quote (de_TargetIPv4 v)) \<le> 17" "length (json_quote (de_SchemaVersion v)) \<le> 17"
      "length (json_print (opt_str (de_OriginalAddDigest v))) \<le> 73" "length (json_quote (de_ActorID v)) \<le> 130"
    using ok operation_bound resource_bound [of "de_Operation v" "de_ResourceType v" "de_OriginalAddDigest v"] addr_bound
      schema_bound(2) optional_digest_bound [of "de_OriginalAddDigest v"]
      actor_length [of "de_ActorID v"] actor_safe [of "de_ActorID v"] quote_bound [of "de_ActorID v" 128]
    by (simp_all add: decision_static_def validDecisionBranch_def hil_checks)
  have "length (marshalDecisionJCS v) \<le> 2 + sum_list (map member_size (decision_members v))"
    unfolding marshalDecision_print [OF ok] by (rule json_print_size [OF decision_flat [OF ok]])
  also have "\<dots> \<le> MaxDecisionBytes"
    using ok b d uint_text [of "de_ResourceVersion v"] time_bound [OF t(1)] time_bound [OF t(2)]
    by (simp add: decision_members_def member_size_def q MaxDecisionBytes_def decision_static_def validDecisionBranch_def)
  finally show ?thesis .
qed

section \<open>Strict parsing\<close>

text \<open>
  C16: Strict parsing of human-decision documents accepts exactly the canonical encodings of valid ones:
  \<open>ParseCanonicalChallenge\<close> and \<open>ParseCanonicalDecision\<close> succeed on a byte string if and only if the bytes
  are the canonical JSON of a challenge (a decision) that \<open>CheckChallenge\<close> (\<open>CheckDecision\<close>) accepts with
  its times in UTC, and they return that checked value. A parsed decision never authorises a command.
\<close>

theorem hil_parse_accepts_exactly:
  "(ParseCanonicalChallenge data = Inr c \<longleftrightarrow>
      (\<exists>v. CheckChallenge v = Inr c \<and> challenge_in_utc v \<and> data = cc_canonical c)) \<and>
   (ParseCanonicalDecision data = Inr d \<longleftrightarrow>
      (\<exists>v. CheckDecision v = Inr d \<and> decision_in_utc v \<and> data = cd_canonical d)) \<and>
   (case ParseCanonicalDecision data of Inl _ \<Rightarrow> True | Inr x \<Rightarrow> \<not> AuthorizesAt x now)"
proof (intro conjI)
  show "ParseCanonicalChallenge data = Inr c \<longleftrightarrow>
      (\<exists>v. CheckChallenge v = Inr c \<and> challenge_in_utc v \<and> data = cc_canonical c)"
    using ParseCanonicalChallenge_Inr ParseCanonicalChallenge_canonical by blast
  show "ParseCanonicalDecision data = Inr d \<longleftrightarrow>
      (\<exists>v. CheckDecision v = Inr d \<and> decision_in_utc v \<and> data = cd_canonical d)"
    using ParseCanonicalDecision_Inr ParseCanonicalDecision_canonical by blast
  have "\<not> AuthorizesAt x now" if "ParseCanonicalDecision data = Inr x" for x
    using ParseCanonicalDecision_Inr [OF that] by (auto simp: CheckDecision_iff checked_decision_of_def AuthorizesAt_def)
  then show "case ParseCanonicalDecision data of Inl _ \<Rightarrow> True | Inr x \<Rightarrow> \<not> AuthorizesAt x now"
    by (auto split: sum.split)
qed

end
