(* ===== verification/Hil_Decision.thy ===== *)
theory Hil_Decision
  imports Hil_Codec
begin

text \<open>
  The life of one challenge: any sequence of \<open>Consume\<close> calls on the guard that \<open>Issue\<close> made, with any
  clock readings, entropy answers and requests. The locale \<open>one_use\<close> is the contract of a guard that is
  decided at most once; the guard of \<open>internal/hil\<close> is an instance of it.
\<close>

section \<open>A guard that is decided at most once\<close>

primrec use_all :: "('c \<Rightarrow> 'g \<Rightarrow> 'g \<times> 'r) \<Rightarrow> 'c list \<Rightarrow> 'g \<Rightarrow> 'g \<times> 'r list" where
  "use_all attempt [] g = (g, [])"
| "use_all attempt (c # cs) g =
     (case attempt c g of (g', r) \<Rightarrow> case use_all attempt cs g' of (g'', rs) \<Rightarrow> (g'', r # rs))"

locale one_use =
  fixes attempt :: "'c \<Rightarrow> 'g \<Rightarrow> 'g \<times> ('e + 'd)"
    and decided :: "'g \<Rightarrow> 'd option"
  assumes undecided: "decided g = None \<Longrightarrow> attempt c g = (g', r) \<Longrightarrow>
      (\<exists>e. r = Inl e \<and> g' = g) \<or> (\<exists>d. r = Inr d \<and> decided g' = Some d)"
    and settled: "decided g = Some d \<Longrightarrow> attempt c g = (g', r) \<Longrightarrow> g' = g \<and> (\<forall>d'. r = Inr d' \<longrightarrow> d' = d)"
begin

lemma settled_result: "decided g = Some d \<Longrightarrow> snd (attempt c g) = Inr d' \<Longrightarrow> d' = d"
  using settled [of g d c] by (cases "attempt c g") auto

lemma run_settled: "decided g = Some d \<Longrightarrow> use_all attempt cs g = (g, map (\<lambda>c. snd (attempt c g)) cs)"
proof (induction cs)
  case (Cons c cs)
  obtain g' r where a: "attempt c g = (g', r)" by (cases "attempt c g")
  with settled [OF Cons.prems a] Cons show ?case by simp
qed simp

text \<open>Either every attempt failed and the guard is as it was, or one attempt decided it for all later ones.\<close>

lemma run_cases:
  assumes "decided g = None" "use_all attempt cs g = (g', rs)"
  obtains (failed) es where "rs = map Inl es" "g' = g" "length es = length cs"
    | (decided) before c after es d where "cs = before @ c # after" "length es = length before"
      "attempt c g = (g', Inr d)" "decided g' = Some d"
      "rs = map Inl es @ Inr d # map (\<lambda>c. snd (attempt c g')) after"
      "\<And>c d'. snd (attempt c g') = Inr d' \<Longrightarrow> d' = d"
  using assms
proof (induction cs arbitrary: rs thesis)
  case (Cons c cs)
  obtain h r where a: "attempt c g = (h, r)" by (cases "attempt c g")
  obtain ts where t: "use_all attempt cs h = (g', ts)" and rs: "rs = r # ts"
    using Cons.prems(4) a by (auto split: prod.splits)
  from undecided [OF Cons.prems(3) a] consider e where "r = Inl e" "h = g" | d where "r = Inr d" "decided h = Some d"
    by blast
  then show ?case
  proof cases
    case 1
    show ?thesis
    proof (rule Cons.IH [OF _ _ Cons.prems(3) t [unfolded 1(2)]], goal_cases)
      case (1 es)
      with \<open>r = Inl e\<close> Cons.prems(1) [of "e # es"] show ?case by (simp add: rs)
    next
      case (2 before c' after es d)
      with \<open>r = Inl e\<close> Cons.prems(2) [of "c # before" c' after "e # es" d] show ?case by (simp add: rs)
    qed
  next
    case 2
    from run_settled [OF 2(2), of cs] t have "g' = h" "ts = map (\<lambda>c. snd (attempt c h)) cs"
by auto
    with 2 a settled_result [OF 2(2)] Cons.prems(2) [of "[]" c cs "[]" d] show ?thesis by (simp add: rs)
  qed
qed simp

end

section \<open>The guard of a challenge\<close>

lemma Consume_cases:
  assumes "ou_consumed g = None" "Consume nf clock entropy r g = (g', res)"
  obtains (refused) e where "res = Inl e" "g' = g"
    | (decided) fingerprint reason nonceDigest keyDigest d where
      "decisionFingerprint nf (ou_bound g) r = Inr (fingerprint, reason, nonceDigest, keyDigest)"
      "decide clock entropy (ou_bound g) r reason nonceDigest keyDigest = Inr d"
      "res = Inr d" "g' = g\<lparr>ou_consumed := Some d, ou_fingerprint := fingerprint\<rparr>"
proof (cases "decisionFingerprint nf (ou_bound g) r")
  case (Inl e)
  with assms show thesis by (intro refused [of e]) (auto simp: Consume_def)
next
  case (Inr p)
  obtain fp cr nd kd where p: "p = (fp, cr, nd, kd)" by (cases p)
  show thesis
  proof (cases "decide clock entropy (ou_bound g) r cr nd kd")
    case (Inl e)
    with assms Inr p show thesis by (intro refused [of e]) (auto simp: Consume_def)
  next
    case (Inr d)
    with assms \<open>decisionFingerprint nf (ou_bound g) r = Inr p\<close> p show thesis
      by (intro decided [of fp cr nd kd d]) (auto simp: Consume_def)
  qed
qed

lemma Consume_settled:
  "ou_consumed g = Some d \<Longrightarrow> Consume nf clock entropy r g =
     (g, case decisionFingerprint nf (ou_bound g) r of
           Inl _ \<Rightarrow> Inl HilErrorConflict
         | Inr (fingerprint, _) \<Rightarrow> if fingerprint = ou_fingerprint g then Inr d else Inl HilErrorConflict)"
  by (simp add: Consume_def split: sum.split)

record consume_call =
  kc_clock :: zoned
  kc_entropy :: "bytes option"
  kc_request :: decision_request

definition consume_one :: "normalizer \<Rightarrow> consume_call \<Rightarrow> one_use_challenge \<Rightarrow> one_use_challenge \<times> (hil_error + checked_decision)" where
  "consume_one nf k g = Consume nf (kc_clock k) (kc_entropy k) (kc_request k) g"

interpretation guard: one_use "consume_one nf" ou_consumed for nf
proof unfold_locales
  fix g c g' r
  assume "ou_consumed g = None" "consume_one nf c g = (g', r)"
  then show "(\<exists>e. r = Inl e \<and> g' = g) \<or> (\<exists>d. r = Inr d \<and> ou_consumed g' = Some d)"
    unfolding consume_one_def by (cases rule: Consume_cases) simp_all
next
  fix g d c g' r
  assume "ou_consumed g = Some d" "consume_one nf c g = (g', r)"
  then show "g' = g \<and> (\<forall>d'. r = Inr d' \<longrightarrow> d' = d)"
    by (auto simp: consume_one_def Consume_settled split: sum.splits if_splits)
qed

section \<open>What an issued challenge and a decision record\<close>

lemma hil_digestBytes_eq: "hil_digestBytes v = digest_text (sha256 v)"
  by (simp add: hil_digestBytes_def digest_text_def)

lemma hil_digestBytes_matches [simp]: "re_matches digestPattern (hil_digestBytes v)"
  by (simp add: hil_digestBytes_eq sha.digest_matches)

lemma hil_digestBytes_inj: "hil_digestBytes v = hil_digestBytes w \<longleftrightarrow> sha256 v = sha256 w"
  by (simp add: hil_digestBytes_eq digest_text_inj)

lemma sameExactArtifact_eq [simp]: "sameExactArtifact a b \<longleftrightarrow> a = b"
  by (cases a; cases b) (auto simp: sameExactArtifact_def)

lemma checkSession_Inr:
  "checkSession v now = Inr s \<longleftrightarrow>
     re_matches uuidPattern (sb_SessionID v) \<and> re_matches digestPattern (sb_SessionDigest v) \<and>
     re_matches actorPattern (sb_ActorID v) \<and>
     normalizedTime (sb_AuthenticatedAt v) \<noteq> None \<and> normalizedTime (sb_ExpiresAt v) \<noteq> None \<and> normalizedTime now \<noteq> None \<and>
     fst (sb_AuthenticatedAt v) \<le> fst now \<and> fst now < fst (sb_ExpiresAt v) \<and>
     fst now \<le> fst (sb_AuthenticatedAt v) + ReauthAfter \<and>
     s = v\<lparr>sb_AuthenticatedAt := (fst (sb_AuthenticatedAt v), 0), sb_ExpiresAt := (fst (sb_ExpiresAt v), 0)\<rparr>"
  unfolding checkSession_def by (auto simp: not_less split: option.splits if_splits dest!: normalizedTime_Some)

lemma service_now_Inr: "service_now clock = Inr t \<longleftrightarrow> normalizedTime clock = Some t"
  by (simp add: service_now_def split: option.splits)

lemma minTime_le: "t < minTime a xs \<longleftrightarrow> t < a \<and> (\<forall>x \<in> set xs. t < x)" "minTime a xs \<le> a"
proof -
  show "t < minTime a xs \<longleftrightarrow> t < a \<and> (\<forall>x \<in> set xs. t < x)" for t
    unfolding minTime_def by (induction xs arbitrary: a) auto
  then show "minTime a xs \<le> a" by (meson less_irrefl not_less)
qed

text \<open>The challenge that a request asks for.\<close>

definition requested_challenge :: "gotime \<Rightarrow> issue_request \<Rightarrow> string \<Rightarrow> bytes \<Rightarrow> challenge" where
  "requested_challenge now r challengeID nonce =
     \<lparr>ch_SchemaVersion = ChallengeSchemaVersion, ch_ChallengeID = challengeID,
      ch_SessionDigest = sb_SessionDigest (iq_Session r), ch_Operation = iq_Operation r,
      ch_ResourceType = ResourcePolicy, ch_ResourceID = xa_policyID (iq_Artifact r),
      ch_ResourceVersion = xa_policyVersion (iq_Artifact r), ch_TargetIPv4 = xa_targetIPv4 (iq_Artifact r),
      ch_PolicyDigest = xa_policyDigest (iq_Artifact r), ch_GeneratedArtifactDigest = xa_generatedDigest (iq_Artifact r),
      ch_CanonicalArtifactDigest = xa_canonicalDigest (iq_Artifact r), ch_OriginalAddDigest = None,
      ch_EvidenceSnapshotDigest = xa_evidenceSnapshotDigest (iq_Artifact r),
      ch_ValidationSnapshotDigest = xa_validationSnapshotDigest (iq_Artifact r),
      ch_ValidationValidUntil = (tv_Time (xa_validationValidUntil (iq_Artifact r)), 0),
      ch_NonceDigest = hil_digestBytes nonce, ch_AuthenticatedAt = (fst (sb_AuthenticatedAt (iq_Session r)), 0),
      ch_ReauthRequiredAfterSeconds = 900, ch_IssuedAt = (now, 0),
      ch_ExpiresAt = (minTime (now + ChallengeLifetime)
        [tv_Time (xa_validationValidUntil (iq_Artifact r)), fst (sb_ExpiresAt (iq_Session r))], 0)\<rparr>"

definition utc_session :: "session_binding \<Rightarrow> session_binding" where
  "utc_session v = v\<lparr>sb_AuthenticatedAt := (fst (sb_AuthenticatedAt v), 0), sb_ExpiresAt := (fst (sb_ExpiresAt v), 0)\<rparr>"

definition issue_ok :: "gotime \<Rightarrow> issue_request \<Rightarrow> bool" where
  "issue_ok now r \<longleftrightarrow> validPolicyOperation (iq_Operation r) \<and> checkSession (iq_Session r) (now, 0) = Inr (utc_session (iq_Session r)) \<and>
     validIdempotencyKey (iq_IdempotencyKey r) \<and> validExactArtifact (iq_Artifact r) \<and> exact_FreshAt (iq_Artifact r) (now, 0)"

definition issued_of :: "gotime \<Rightarrow> issue_request \<Rightarrow> string \<Rightarrow> bytes \<Rightarrow> issued_challenge" where
  "issued_of now r challengeID nonce =
     \<lparr>is_guard = \<lparr>ou_bound = \<lparr>bc_artifact = checked_challenge_of (requested_challenge now r challengeID nonce),
        bc_session = utc_session (iq_Session r), bc_exact = iq_Artifact r,
        bc_idempotencyKeyDigest = hil_digestBytes (iq_IdempotencyKey r)\<rparr>, ou_consumed = None, ou_fingerprint = []\<rparr>,
      is_nonce = nonce\<rparr>"

lemma requested_in_utc: "challenge_in_utc (requested_challenge now r challengeID nonce)"
  by (simp add: challenge_in_utc_def requested_challenge_def)

lemma checkSession_utc: "checkSession v now = Inr s \<Longrightarrow> s = utc_session v"
  by (simp add: checkSession_Inr utc_session_def)

lemma CheckChallenge_requested:
  "CheckChallenge (requested_challenge now r challengeID nonce) = Inr c \<Longrightarrow>
     c = checked_challenge_of (requested_challenge now r challengeID nonce)"
  by (simp add: CheckChallenge_iff challenge_in_utc_eq [OF requested_in_utc])

text \<open>\<open>Issue\<close> after its first five guards.\<close>

lemma Issue_eq:
  assumes "normalizedTime clock = Some now" "issue_ok now r"
  shows "Issue clock idEntropy nonceEntropy r =
    (if \<not> now < minTime (now + ChallengeLifetime)
        [tv_Time (xa_validationValidUntil (iq_Artifact r)), fst (sb_ExpiresAt (iq_Session r))] then Inl HilErrorChallengeExpired
     else bind_res (makeUUID idEntropy) (\<lambda>challengeID. bind_res (readEntropy nonceEntropy) (\<lambda>nonce.
       bind_res (CheckChallenge (requested_challenge now r challengeID nonce)) (\<lambda>checked.
         Inr ((issued_of now r challengeID nonce)\<lparr>is_guard := (is_guard (issued_of now r challengeID nonce))\<lparr>ou_bound :=
           (ou_bound (is_guard (issued_of now r challengeID nonce)))\<lparr>bc_artifact := checked\<rparr>\<rparr>\<rparr>)))))"
  using assms unfolding issue_ok_def Issue_def requested_challenge_def issued_of_def
  by (simp add: service_now_def utc_session_def Let_def cong: if_cong)

lemma Issue_guards:
  assumes "Issue clock idEntropy nonceEntropy r = Inr i"
  obtains now where "normalizedTime clock = Some now" "issue_ok now r"
proof -
  obtain now where now: "normalizedTime clock = Some now"
    using assms by (auto simp: Issue_def bind_res_Inr_iff service_now_Inr)
  obtain session where session: "checkSession (iq_Session r) (now, 0) = Inr session"
    using assms by (auto simp: Issue_def service_now_def now bind_res_Inr_iff if_Inl_eq_Inr)
  have "validPolicyOperation (iq_Operation r)" "validIdempotencyKey (iq_IdempotencyKey r)" "validExactArtifact (iq_Artifact r)"
      "exact_FreshAt (iq_Artifact r) (now, 0)"
    using assms by (auto simp: Issue_def service_now_def now session Let_def split: if_splits)
  with session checkSession_utc [OF session] now that show thesis by (simp add: issue_ok_def)
qed

lemma Issue_Inr:
  "Issue clock idEntropy nonceEntropy r = Inr i \<longleftrightarrow>
     (\<exists>now challengeID nonce. normalizedTime clock = Some now \<and> issue_ok now r \<and>
       now < fst (ch_ExpiresAt (requested_challenge now r challengeID nonce)) \<and> makeUUID idEntropy = Inr challengeID \<and>
       nonceEntropy = Some nonce \<and>
       CheckChallenge (requested_challenge now r challengeID nonce) =
         Inr (checked_challenge_of (requested_challenge now r challengeID nonce)) \<and>
       i = issued_of now r challengeID nonce)" (is "?l \<longleftrightarrow> ?r")
proof
  assume l: ?l
  obtain now where now: "normalizedTime clock = Some now" "issue_ok now r" by (rule Issue_guards [OF l])
  obtain challengeID nonce checked where e: "makeUUID idEntropy = Inr challengeID" "readEntropy nonceEntropy = Inr nonce"
      "CheckChallenge (requested_challenge now r challengeID nonce) = Inr checked"
    and t: "now < minTime (now + ChallengeLifetime)
        [tv_Time (xa_validationValidUntil (iq_Artifact r)), fst (sb_ExpiresAt (iq_Session r))]"
    using l unfolding Issue_eq [OF now] by (auto simp: bind_res_Inr_iff split: if_splits)
  have "nonceEntropy = Some nonce" using e(2) by (auto simp: readEntropy_def split: option.splits)
  moreover have c: "checked = checked_challenge_of (requested_challenge now r challengeID nonce)"
    by (rule CheckChallenge_requested [OF e(3)])
  moreover have "i = issued_of now r challengeID nonce"
    using l t unfolding Issue_eq [OF now] by (simp add: e c issued_of_def)
  ultimately show ?r using now e t
    by (intro exI [of _ now] exI [of _ challengeID] exI [of _ nonce]) (simp add: requested_challenge_def)
next
  assume ?r
  then obtain now challengeID nonce where now: "normalizedTime clock = Some now" "issue_ok now r"
    and t: "now < fst (ch_ExpiresAt (requested_challenge now r challengeID nonce))"
    and e: "makeUUID idEntropy = Inr challengeID" "nonceEntropy = Some nonce"
      "CheckChallenge (requested_challenge now r challengeID nonce) =
         Inr (checked_challenge_of (requested_challenge now r challengeID nonce))"
      "i = issued_of now r challengeID nonce" by blast
  have t': "now < minTime (now + ChallengeLifetime)
        [tv_Time (xa_validationValidUntil (iq_Artifact r)), fst (sb_ExpiresAt (iq_Session r))]"
    using t by (simp add: requested_challenge_def)
  show ?l unfolding Issue_eq [OF now] using t' by (simp add: e readEntropy_def issued_of_def)
qed

text \<open>A request that names the same things as the challenge it answers.\<close>

definition answers :: "bound_challenge \<Rightarrow> decision_request \<Rightarrow> bytes \<Rightarrow> bool" where
  "answers bound r nonce \<longleftrightarrow>
     validPolicyOperation (dq_Operation r) \<and> dq_Operation r = ch_Operation (cc_value (bc_artifact bound)) \<and>
     validIdempotencyKey (dq_IdempotencyKey r) \<and> hil_digestBytes (dq_IdempotencyKey r) = bc_idempotencyKeyDigest bound \<and>
     dq_Artifact r = bc_exact bound \<and> validExactArtifact (bc_exact bound) \<and>
     sb_SessionID (dq_Session r) = sb_SessionID (bc_session bound) \<and>
     sb_ActorID (dq_Session r) = sb_ActorID (bc_session bound) \<and>
     sb_SessionDigest (dq_Session r) = sb_SessionDigest (bc_session bound) \<and>
     fst (sb_AuthenticatedAt (dq_Session r)) = fst (sb_AuthenticatedAt (bc_session bound)) \<and>
     fst (sb_ExpiresAt (dq_Session r)) = fst (sb_ExpiresAt (bc_session bound)) \<and>
     canonicalNonce (dq_Nonce r) = Some nonce \<and> hil_digestBytes nonce = ch_NonceDigest (cc_value (bc_artifact bound))"

definition fingerprint_of :: "bound_challenge \<Rightarrow> string \<Rightarrow> string" where
  "fingerprint_of bound reasonDigest = hil_digestBytes (fingerprint_bytes (sb_ActorID (bc_session bound))
     (cc_digest (bc_artifact bound)) (bc_idempotencyKeyDigest bound) (ch_NonceDigest (cc_value (bc_artifact bound)))
     (ch_Operation (cc_value (bc_artifact bound))) reasonDigest (sb_SessionDigest (bc_session bound))
     (xa_validationSnapshotDigest (bc_exact bound)))"

lemma decisionFingerprint_Inr:
  "decisionFingerprint nf bound r = Inr (fingerprint, reason, nonceDigest, keyDigest) \<longleftrightarrow>
     (\<exists>nonce. answers bound r nonce \<and> CheckReason nf (dq_Reason r) = Inr reason \<and>
       nonceDigest = ch_NonceDigest (cc_value (bc_artifact bound)) \<and> keyDigest = bc_idempotencyKeyDigest bound \<and>
       fingerprint = fingerprint_of bound (cr_digest reason))" (is "?l \<longleftrightarrow> ?r")
proof
  assume l: ?l
  then obtain nonce where n: "canonicalNonce (dq_Nonce r) = Some nonce"
    unfolding decisionFingerprint_def by (cases "canonicalNonce (dq_Nonce r)") (simp_all add: Let_def split: if_splits)
  have a: "answers bound r nonce"
    using l unfolding decisionFingerprint_def n answers_def by (auto simp: Let_def split: if_splits)
  have "CheckReason nf (dq_Reason r) = Inr reason"
    using l unfolding decisionFingerprint_def n by (auto simp: Let_def bind_res_Inr_iff split: if_splits)
  with l a show ?r unfolding decisionFingerprint_def n answers_def
    by (intro exI [of _ nonce]) (auto simp: Let_def fingerprint_of_def answers_def n split: if_splits)
next
  assume ?r
  then show ?l unfolding decisionFingerprint_def answers_def by (auto simp: Let_def fingerprint_of_def)
qed

definition made_decision :: "bound_challenge \<Rightarrow> gotime \<Rightarrow> string \<Rightarrow> checked_reason \<Rightarrow> hil_decision" where
  "made_decision bound now decisionID reason =
     \<lparr>de_SchemaVersion = DecisionSchemaVersion, de_DecisionID = decisionID,
      de_ChallengeID = ch_ChallengeID (cc_value (bc_artifact bound)), de_SessionDigest = sb_SessionDigest (bc_session bound),
      de_Operation = ch_Operation (cc_value (bc_artifact bound)),
      de_Decision = (if ch_Operation (cc_value (bc_artifact bound)) = hil_OperationApprove then DecisionApproved else DecisionRejected),
      de_ResourceType = ResourcePolicy, de_ResourceID = xa_policyID (bc_exact bound),
      de_ResourceVersion = xa_policyVersion (bc_exact bound), de_TargetIPv4 = xa_targetIPv4 (bc_exact bound),
      de_PolicyDigest = xa_policyDigest (bc_exact bound), de_GeneratedArtifactDigest = xa_generatedDigest (bc_exact bound),
      de_CanonicalArtifactDigest = xa_canonicalDigest (bc_exact bound), de_OriginalAddDigest = None,
      de_EvidenceSnapshotDigest = xa_evidenceSnapshotDigest (bc_exact bound),
      de_ValidationSnapshotDigest = xa_validationSnapshotDigest (bc_exact bound),
      de_ActorID = sb_ActorID (bc_session bound), de_ReasonDigest = cr_digest reason,
      de_NonceDigest = ch_NonceDigest (cc_value (bc_artifact bound)), de_IdempotencyKeyDigest = bc_idempotencyKeyDigest bound,
      de_DecidedAt = (now, 0),
      de_DecisionValidUntil = (minTime (now + DecisionLifetime) [fst (ch_ExpiresAt (cc_value (bc_artifact bound))),
        tv_Time (xa_validationValidUntil (bc_exact bound)), fst (sb_ExpiresAt (bc_session bound))], 0)\<rparr>"

definition bound_decision :: "bound_challenge \<Rightarrow> gotime \<Rightarrow> string \<Rightarrow> checked_reason \<Rightarrow> checked_decision" where
  "bound_decision bound now decisionID reason =
     (checked_decision_of (made_decision bound now decisionID reason))
       \<lparr>cd_reasonCanonical := cr_canonical reason, cd_canonicalCommandBytes := xa_canonicalBytes (bc_exact bound)\<rparr>"

text \<open>When a request that answers the challenge can be decided.\<close>

definition in_time :: "bound_challenge \<Rightarrow> decision_request \<Rightarrow> gotime \<Rightarrow> bool" where
  "in_time bound r now \<longleftrightarrow> fst (ch_IssuedAt (cc_value (bc_artifact bound))) \<le> now \<and>
     now < fst (ch_ExpiresAt (cc_value (bc_artifact bound))) \<and>
     checkSession (dq_Session r) (now, 0) = Inr (utc_session (dq_Session r)) \<and> exact_FreshAt (bc_exact bound) (now, 0)"

lemma decide_Inr:
  assumes a: "answers bound r nonce"
  shows "decide clock idEntropy bound r reason (ch_NonceDigest (cc_value (bc_artifact bound))) (bc_idempotencyKeyDigest bound) = Inr d \<longleftrightarrow>
    (\<exists>now decisionID. normalizedTime clock = Some now \<and> in_time bound r now \<and> makeUUID idEntropy = Inr decisionID \<and>
      now < fst (de_DecisionValidUntil (made_decision bound now decisionID reason)) \<and>
      CheckDecision (made_decision bound now decisionID reason) =
        Inr (checked_decision_of (made_decision bound now decisionID reason)) \<and>
      d = bound_decision bound now decisionID reason)" (is "?l \<longleftrightarrow> ?r")
proof -
  have q: "dq_Operation r = ch_Operation (cc_value (bc_artifact bound))" "dq_Artifact r = bc_exact bound"
      "fst (sb_ExpiresAt (dq_Session r)) = fst (sb_ExpiresAt (bc_session bound))"
      "sb_SessionDigest (dq_Session r) = sb_SessionDigest (bc_session bound)" "sb_ActorID (dq_Session r) = sb_ActorID (bc_session bound)"
    and same: "sameSession (bc_session bound) (utc_session (dq_Session r))"
    using a by (simp_all add: answers_def sameSession_def utc_session_def)
  have eq: "decide clock idEntropy bound r reason (ch_NonceDigest (cc_value (bc_artifact bound))) (bc_idempotencyKeyDigest bound) =
     bind_res (makeUUID idEntropy) (\<lambda>decisionID.
       if \<not> now < fst (de_DecisionValidUntil (made_decision bound now decisionID reason)) then Inl HilErrorChallengeExpired
       else bind_res (CheckDecision (made_decision bound now decisionID reason)) (\<lambda>checked.
         Inr (checked\<lparr>cd_reasonCanonical := cr_canonical reason, cd_canonicalCommandBytes := xa_canonicalBytes (bc_exact bound)\<rparr>)))"
    if "normalizedTime clock = Some now" "in_time bound r now" for now
    using that same unfolding decide_def in_time_def made_decision_def
    by (cases "ch_Operation (cc_value (bc_artifact bound)) = hil_OperationApprove")
      (simp_all add: service_now_def q utc_session_def Let_def not_less cong: if_cong)
  have u: "CheckDecision (made_decision bound now decisionID reason) = Inr c \<Longrightarrow>
      c = checked_decision_of (made_decision bound now decisionID reason)" for now decisionID c
    by (auto simp: CheckDecision_iff decision_utc_def made_decision_def)
  show ?thesis
  proof
    assume l: ?l
    then obtain now session where now: "normalizedTime clock = Some now" and s: "checkSession (dq_Session r) (now, 0) = Inr session"
      unfolding decide_def by (auto simp: bind_res_Inr_iff service_now_Inr Let_def split: if_splits)
    then have t: "in_time bound r now"
      using l checkSession_utc [OF s] unfolding decide_def in_time_def
      by (auto simp: service_now_def not_less q Let_def split: if_splits)
    from l show ?r unfolding eq [OF now t] bound_decision_def using now t u
      by (auto simp: bind_res_Inr_iff split: if_splits)
  next
    assume ?r
    then show ?l using eq by (auto simp: bound_decision_def)
  qed
qed

section \<open>Repeated answers\<close>

definition collide :: "bytes \<Rightarrow> bytes \<Rightarrow> bool" where
  "collide a b \<longleftrightarrow> a \<noteq> b \<and> sha256 a = sha256 b"

lemma digest_eq_cases: "hil_digestBytes a = hil_digestBytes b \<Longrightarrow> a = b \<or> collide a b"
  by (simp add: hil_digestBytes_inj collide_def)

text \<open>
  Two requests give the same answer: same operation, artifact and session, same nonce and idempotency
  key, and reasons with the same canonical bytes.
\<close>

definition same_answer :: "normalizer \<Rightarrow> decision_request \<Rightarrow> decision_request \<Rightarrow> bool" where
  "same_answer nf q q' \<longleftrightarrow> dq_Operation q = dq_Operation q' \<and> dq_Artifact q = dq_Artifact q' \<and>
     sameSession (dq_Session q) (dq_Session q') \<and> dq_Nonce q = dq_Nonce q' \<and> dq_IdempotencyKey q = dq_IdempotencyKey q' \<and>
     (\<exists>c. CheckReason nf (dq_Reason q) = Inr c \<and> CheckReason nf (dq_Reason q') = Inr c)"

text \<open>The document that \<open>decisionFingerprint\<close> hashes for a request.\<close>

definition fingerprint_input :: "string \<Rightarrow> decision_request \<Rightarrow> checked_reason \<Rightarrow> bytes" where
  "fingerprint_input challengeDigest q c =
     fingerprint_bytes (sb_ActorID (dq_Session q)) challengeDigest (hil_digestBytes (dq_IdempotencyKey q))
       (hil_digestBytes (the (canonicalNonce (dq_Nonce q)))) (dq_Operation q) (cr_digest c)
       (sb_SessionDigest (dq_Session q)) (xa_validationSnapshotDigest (dq_Artifact q))"

text \<open>
  The same answer, except that a nonce, a key, a reason or the document that is hashed for the comparison
  may be replaced by another one with the same SHA-256 value.
\<close>

definition indistinguishable :: "normalizer \<Rightarrow> string \<Rightarrow> decision_request \<Rightarrow> decision_request \<Rightarrow> bool" where
  "indistinguishable nf challengeDigest q q' \<longleftrightarrow> dq_Operation q = dq_Operation q' \<and> dq_Artifact q = dq_Artifact q' \<and>
     sameSession (dq_Session q) (dq_Session q') \<and>
     (\<exists>n n'. canonicalNonce (dq_Nonce q) = Some n \<and> canonicalNonce (dq_Nonce q') = Some n' \<and> (n = n' \<or> collide n n')) \<and>
     (dq_IdempotencyKey q = dq_IdempotencyKey q' \<or> collide (dq_IdempotencyKey q) (dq_IdempotencyKey q')) \<and>
     (\<exists>c c'. CheckReason nf (dq_Reason q) = Inr c \<and> CheckReason nf (dq_Reason q') = Inr c' \<and>
       (cr_canonical c = cr_canonical c' \<or> collide (cr_canonical c) (cr_canonical c') \<or>
        collide (fingerprint_input challengeDigest q c) (fingerprint_input challengeDigest q' c')))"

lemma CheckReason_Inr: "CheckReason nf v = Inr c \<Longrightarrow> cr_digest c = hil_digestBytes (cr_canonical c) \<and> cr_canonical c \<noteq> []"
  by (auto simp: CheckReason_def Let_def marshalReasonJCS_def split: if_splits)

text \<open>The hashed document determines the digest of the reason.\<close>

lemma json_quote_end: "list_all html_safe a \<Longrightarrow> list_all html_safe b \<Longrightarrow> json_quote a @ s = json_quote b @ t \<Longrightarrow> a = b"
proof -
  assume a: "list_all html_safe a" and b: "list_all html_safe b" and eq: "json_quote a @ s = json_quote b @ t"
  have n: "QUOTE \<notin> set x" if "list_all html_safe x" for x
    using that by (auto simp: list_all_iff html_safe_def QUOTE_def)
  have "a @ QUOTE # s = b @ QUOTE # t" using eq a b by (simp add: json_quote_safe)
  from append_delim_eq [OF n [OF a] n [OF b] this] show ?thesis by simp
qed

lemma fingerprint_reason:
  assumes "fingerprint_bytes a b k n op d s v = fingerprint_bytes a b k n op d' s v"
    and "re_matches digestPattern d" "re_matches digestPattern d'"
  shows "d = d'"
  using assms json_quote_end [of d d'] digest_safe by (simp add: fingerprint_bytes_def appendJCSString_safe)

lemma answers_fingerprint:
  "answers bound q n \<Longrightarrow> fingerprint_of bound (cr_digest c) = hil_digestBytes (fingerprint_input (cc_digest (bc_artifact bound)) q c)"
  by (auto simp: fingerprint_of_def fingerprint_input_def answers_def)

lemma fingerprint_input_reason:
  assumes "answers bound q n" "answers bound q' n'" "fingerprint_input b q c = fingerprint_input b q' c'"
    "re_matches digestPattern (cr_digest c)" "re_matches digestPattern (cr_digest c')"
  shows "cr_digest c = cr_digest c'"
proof -
  have "sb_ActorID (dq_Session q) = sb_ActorID (dq_Session q')" "hil_digestBytes (dq_IdempotencyKey q) = hil_digestBytes (dq_IdempotencyKey q')"
      "hil_digestBytes (the (canonicalNonce (dq_Nonce q))) = hil_digestBytes (the (canonicalNonce (dq_Nonce q')))"
      "dq_Operation q = dq_Operation q'" "sb_SessionDigest (dq_Session q) = sb_SessionDigest (dq_Session q')" "dq_Artifact q = dq_Artifact q'"
    using assms(1,2) by (simp_all add: answers_def)
  then show ?thesis using assms(3) by (intro fingerprint_reason [OF _ assms(4,5)]) (simp add: fingerprint_input_def)
qed

lemma answers_twice:
  assumes a: "answers bound q n" "CheckReason nf (dq_Reason q) = Inr c"
    and b: "answers bound q' n'" "CheckReason nf (dq_Reason q') = Inr c'"
    and f: "fingerprint_of bound (cr_digest c) = fingerprint_of bound (cr_digest c')"
  shows "indistinguishable nf (cc_digest (bc_artifact bound)) q q'"
proof -
  let ?f = "fingerprint_input (cc_digest (bc_artifact bound))"
  note d = CheckReason_Inr [OF a(2)] CheckReason_Inr [OF b(2)]
  have "?f q c = ?f q' c' \<or> collide (?f q c) (?f q' c')"
    using f unfolding answers_fingerprint [OF a(1), of c] answers_fingerprint [OF b(1), of c'] by (rule digest_eq_cases)
  moreover have "cr_digest c = cr_digest c'" if "?f q c = ?f q' c'"
    by (rule fingerprint_input_reason [OF a(1) b(1) that]) (simp_all add: d)
  moreover have "cr_canonical c = cr_canonical c' \<or> collide (cr_canonical c) (cr_canonical c')" if "cr_digest c = cr_digest c'"
    using that d by (intro digest_eq_cases) simp
  ultimately have r: "cr_canonical c = cr_canonical c' \<or> collide (cr_canonical c) (cr_canonical c') \<or> collide (?f q c) (?f q' c')"
    by blast
  have k: "n = n' \<or> collide n n'" "dq_IdempotencyKey q = dq_IdempotencyKey q' \<or> collide (dq_IdempotencyKey q) (dq_IdempotencyKey q')"
    using a(1) b(1) by (auto simp: answers_def intro!: digest_eq_cases)
  have "dq_Operation q = dq_Operation q'" "dq_Artifact q = dq_Artifact q'" "sameSession (dq_Session q) (dq_Session q')"
      "canonicalNonce (dq_Nonce q) = Some n" "canonicalNonce (dq_Nonce q') = Some n'"
    using a(1) b(1) by (simp_all add: answers_def sameSession_def)
  then show ?thesis unfolding indistinguishable_def using a(2) b(2) k r by blast
qed

lemma same_answer_answers: "answers bound q n \<Longrightarrow> same_answer nf q q' \<Longrightarrow> answers bound q' n"
  by (auto simp: answers_def same_answer_def sameSession_def)

lemma decided_guard:
  assumes "ou_consumed g = None" "consume_one nf k g = (g', Inr d)"
  obtains nonce reason now decisionID where "answers (ou_bound g) (kc_request k) nonce"
    "CheckReason nf (dq_Reason (kc_request k)) = Inr reason" "normalizedTime (kc_clock k) = Some now"
    "in_time (ou_bound g) (kc_request k) now" "makeUUID (kc_entropy k) = Inr decisionID"
    "CheckDecision (made_decision (ou_bound g) now decisionID reason) =
        Inr (checked_decision_of (made_decision (ou_bound g) now decisionID reason))"
    "d = bound_decision (ou_bound g) now decisionID reason"
    "g' = g\<lparr>ou_consumed := Some d, ou_fingerprint := fingerprint_of (ou_bound g) (cr_digest reason)\<rparr>"
  using assms(1) assms(2) [unfolded consume_one_def]
proof (cases rule: Consume_cases)
  case (decided fingerprint reason nonceDigest keyDigest d')
  obtain nonce where a: "answers (ou_bound g) (kc_request k) nonce" "CheckReason nf (dq_Reason (kc_request k)) = Inr reason"
      "nonceDigest = ch_NonceDigest (cc_value (bc_artifact (ou_bound g)))" "keyDigest = bc_idempotencyKeyDigest (ou_bound g)"
      "fingerprint = fingerprint_of (ou_bound g) (cr_digest reason)"
    using decided(1) by (auto simp: decisionFingerprint_Inr)
  from decided(2) [unfolded a(3,4) decide_Inr [OF a(1)]] decided(3,4) a that show thesis by auto
qed simp

lemma later_result:
  assumes a: "answers (ou_bound g) q n" "CheckReason nf (dq_Reason q) = Inr c"
    and g: "g' = g\<lparr>ou_consumed := Some d, ou_fingerprint := fingerprint_of (ou_bound g) (cr_digest c)\<rparr>"
  shows "snd (consume_one nf k g') = Inr d \<and> indistinguishable nf (cc_digest (bc_artifact (ou_bound g))) q (kc_request k) \<or>
    snd (consume_one nf k g') = Inl HilErrorConflict \<and> \<not> same_answer nf q (kc_request k)"
proof -
  have e: "snd (consume_one nf k g') =
     (case decisionFingerprint nf (ou_bound g) (kc_request k) of
           Inl _ \<Rightarrow> Inl HilErrorConflict
         | Inr (fingerprint, _) \<Rightarrow> if fingerprint = fingerprint_of (ou_bound g) (cr_digest c) then Inr d else Inl HilErrorConflict)"
    by (simp add: g consume_one_def Consume_settled split: sum.split)
  show ?thesis
  proof (cases "\<exists>n' c'. answers (ou_bound g) (kc_request k) n' \<and> CheckReason nf (dq_Reason (kc_request k)) = Inr c' \<and>
      fingerprint_of (ou_bound g) (cr_digest c') = fingerprint_of (ou_bound g) (cr_digest c)")
    case True
    then obtain n' c' where b: "answers (ou_bound g) (kc_request k) n'" "CheckReason nf (dq_Reason (kc_request k)) = Inr c'"
        "fingerprint_of (ou_bound g) (cr_digest c') = fingerprint_of (ou_bound g) (cr_digest c)" by blast
    obtain nd kd where "decisionFingerprint nf (ou_bound g) (kc_request k) = Inr (fingerprint_of (ou_bound g) (cr_digest c'), c', nd, kd)"
      using b(1,2) decisionFingerprint_Inr by blast
    then show ?thesis using e b(3) answers_twice [OF a b(1,2)] by simp
  next
    case False
    have "snd (consume_one nf k g') = Inl HilErrorConflict"
      using False unfolding e by (auto simp: decisionFingerprint_Inr split: sum.splits prod.splits)
    moreover have "\<not> same_answer nf q (kc_request k)"
      using False same_answer_answers [OF a(1)] a(2) by (auto simp: same_answer_def)
    ultimately show ?thesis by simp
  qed
qed

end
