(* ===== verification/Hil_Correct.thy ===== *)
theory Hil_Correct
  imports Hil_Decision
begin

text \<open>
  What the human decision guarantees: one answer per challenge, every authorisation goes back to a
  deliberate and fresh approval of exactly the bytes that are authorised, and an administrator who
  answers in time gets a decision.
\<close>

section \<open>One answer per challenge\<close>

lemma issued_undecided: "Issue clock ie ne r = Inr i \<Longrightarrow> ou_consumed (is_guard i) = None"
  by (auto simp: Issue_Inr issued_of_def)

text \<open>
  C7: A challenge is decided at most once. Over any sequence of \<open>Consume\<close> calls on the guard of an issued
  challenge, with any clock, entropy and requests, either every call is refused, or one call makes a
  decision, all calls before it are refused, and every later call either gets that same decision again or
  is refused as a conflict. A repetition of the same answer always gets the decision, at any time; only a
  request with the same operation, artifact, session, nonce, key and reason gets it, up to an explicit
  SHA-256 collision of one of the compared values.
\<close>

theorem one_answer_per_challenge:
  assumes i: "Issue clock ie ne r = Inr i" and run: "use_all (consume_one nf) calls (is_guard i) = (g, results)"
  shows "length results = length calls \<and>
    ((\<forall>x \<in> set results. \<exists>e. x = Inl e) \<or>
     (\<exists>k d. k < length calls \<and> results ! k = Inr d \<and> (\<forall>j < k. \<exists>e. results ! j = Inl e) \<and>
       (\<forall>j. k < j \<and> j < length calls \<longrightarrow>
          results ! j = Inr d \<and> indistinguishable nf (cc_digest (bc_artifact (ou_bound (is_guard i))))
            (kc_request (calls ! k)) (kc_request (calls ! j)) \<or>
          results ! j = Inl HilErrorConflict \<and> \<not> same_answer nf (kc_request (calls ! k)) (kc_request (calls ! j)))))"
  using issued_undecided [OF i] run
proof (cases rule: guard.run_cases)
  case (failed es)
  then show ?thesis by auto
next
  case (decided before k after es d)
  obtain nonce reason now decisionID where a: "answers (ou_bound (is_guard i)) (kc_request k) nonce"
      "CheckReason nf (dq_Reason (kc_request k)) = Inr reason"
    and g: "g = (is_guard i)\<lparr>ou_consumed := Some d, ou_fingerprint := fingerprint_of (ou_bound (is_guard i)) (cr_digest reason)\<rparr>"
    by (rule decided_guard [OF issued_undecided [OF i] decided(3)])
  note later = later_result [OF a g]
  let ?n = "length before"
  have nth: "results ! ?n = Inr d" "\<And>j. j < ?n \<Longrightarrow> results ! j = Inl (es ! j)" "calls ! ?n = k"
    using decided(1,2,5) by (simp_all add: nth_append)
  have rest: "results ! j = snd (consume_one nf (calls ! j) g)"
    if "?n < j" "j < length calls" for j
    using that decided(1,2,5) by (auto simp: nth_append nth_Cons split: nat.splits)
  have "\<forall>j. ?n < j \<and> j < length calls \<longrightarrow>
          results ! j = Inr d \<and> indistinguishable nf (cc_digest (bc_artifact (ou_bound (is_guard i))))
            (kc_request (calls ! ?n)) (kc_request (calls ! j)) \<or>
          results ! j = Inl HilErrorConflict \<and> \<not> same_answer nf (kc_request (calls ! ?n)) (kc_request (calls ! j))"
    using later rest by (simp add: nth(3))
  moreover have "length results = length calls" "?n < length calls" using decided(1,2,5) by simp_all
  ultimately show ?thesis using nth(1,2) by blast
qed

section \<open>Approvals are deliberate\<close>

lemma exact_FreshAt_utc:
  "exact_FreshAt a (t, 0) \<Longrightarrow> tv_Time (xa_validationCreatedAt a) \<le> t \<and> t < tv_Time (xa_validationValidUntil a)"
  by (auto simp: exact_FreshAt_def not_less split: option.splits dest!: normalizedTime_Some)

lemma issued_fields:
  assumes "i = issued_of start r cid non"
  shows "bc_exact (ou_bound (is_guard i)) = iq_Artifact r"
    "bc_idempotencyKeyDigest (ou_bound (is_guard i)) = hil_digestBytes (iq_IdempotencyKey r)"
    "bc_session (ou_bound (is_guard i)) = utc_session (iq_Session r)"
    "cc_value (bc_artifact (ou_bound (is_guard i))) = requested_challenge start r cid non" "is_nonce i = non"
  using assms by (simp_all add: issued_of_def checked_challenge_of_def)

lemma decision_window:
  assumes i: "i = issued_of start r cid non" and a: "answers (ou_bound (is_guard i)) q nonce" and t: "in_time (ou_bound (is_guard i)) q now"
  shows "start \<le> now" "now < start + ChallengeLifetime" "tv_Time (xa_validationCreatedAt (iq_Artifact r)) \<le> now"
    "fst (sb_AuthenticatedAt (iq_Session r)) \<le> now" "now \<le> fst (sb_AuthenticatedAt (iq_Session r)) + ReauthAfter"
proof -
  have "fst (sb_AuthenticatedAt (dq_Session q)) = fst (sb_AuthenticatedAt (iq_Session r))"
    using a by (simp add: answers_def issued_fields [OF i] utc_session_def)
  then show "start \<le> now" "now < start + ChallengeLifetime" "tv_Time (xa_validationCreatedAt (iq_Artifact r)) \<le> now"
      "fst (sb_AuthenticatedAt (iq_Session r)) \<le> now" "now \<le> fst (sb_AuthenticatedAt (iq_Session r)) + ReauthAfter"
    using t exact_FreshAt_utc [of "iq_Artifact r" now]
    by (simp_all add: in_time_def issued_fields [OF i] requested_challenge_def checkSession_Inr minTime_le(1))
qed

lemma decision_use:
  assumes i: "i = issued_of start r cid non" and auth: "AuthorizesAt (bound_decision (ou_bound (is_guard i)) now did c) use"
  shows "iq_Operation r = hil_OperationApprove" "now \<le> fst use" "fst use < now + DecisionLifetime" "fst use < start + ChallengeLifetime"
    "fst use < tv_Time (xa_validationValidUntil (iq_Artifact r))" "fst use < fst (sb_ExpiresAt (iq_Session r))"
proof -
  have "iq_Operation r = hil_OperationApprove \<and> now \<le> fst use \<and>
      fst use < minTime (now + DecisionLifetime) [fst (ch_ExpiresAt (requested_challenge start r cid non)),
        tv_Time (xa_validationValidUntil (iq_Artifact r)), fst (sb_ExpiresAt (iq_Session r))]"
    using auth by (auto simp: bound_decision_def checked_decision_of_def made_decision_def AuthorizesAt_def issued_fields [OF i]
        utc_session_def requested_challenge_def not_less split: if_splits option.splits dest!: normalizedTime_Some)
  then show "iq_Operation r = hil_OperationApprove" "now \<le> fst use" "fst use < now + DecisionLifetime" "fst use < start + ChallengeLifetime"
      "fst use < tv_Time (xa_validationValidUntil (iq_Artifact r))" "fst use < fst (sb_ExpiresAt (iq_Session r))"
    by (simp_all add: minTime_le(1) requested_challenge_def)
qed

text \<open>
  C2: Every authorisation goes back to a deliberate approval. If any \<open>Consume\<close> call on the guard of an issued
  challenge returns a decision that authorises at some time, then the challenge was issued for an
  approval, and one of the calls approved it: with the artifact the challenge was issued for, by the same
  session of the same actor, with the nonce and the idempotency key of the challenge (up to an explicit
  SHA-256 collision) and with an accepted reason. That call came within five minutes of the challenge and
  within fifteen minutes of the log-in, while the validation was fresh. The authorised bytes are the
  canonical command of that artifact, and the time of use is within five minutes of the approval and
  before the challenge, the validation and the session end.
\<close>

theorem approval_is_deliberate:
  assumes i: "Issue clock ie ne r = Inr i" and run: "use_all (consume_one nf) calls (is_guard i) = (g, results)"
    and d: "Inr d \<in> set results" and auth: "AuthorizesAt d use"
  shows "iq_Operation r = hil_OperationApprove \<and> cd_canonicalCommandBytes d = xa_canonicalBytes (iq_Artifact r) \<and>
    (\<exists>k \<in> set calls. \<exists>nonce c. let q = kc_request k; t = fst (kc_clock k) in
       dq_Operation q = hil_OperationApprove \<and> dq_Artifact q = iq_Artifact r \<and> sameSession (dq_Session q) (iq_Session r) \<and>
       canonicalNonce (dq_Nonce q) = Some nonce \<and> (nonce = is_nonce i \<or> collide nonce (is_nonce i)) \<and>
       (dq_IdempotencyKey q = iq_IdempotencyKey r \<or> collide (dq_IdempotencyKey q) (iq_IdempotencyKey r)) \<and>
       CheckReason nf (dq_Reason q) = Inr c \<and> cd_reasonCanonical d = cr_canonical c \<and>
       fst clock \<le> t \<and> t < fst clock + 5 * Minute \<and>
       fst (sb_AuthenticatedAt (iq_Session r)) \<le> t \<and> t \<le> fst (sb_AuthenticatedAt (iq_Session r)) + 15 * Minute \<and>
       tv_Time (xa_validationCreatedAt (iq_Artifact r)) \<le> t \<and>
       t \<le> fst use \<and> fst use < t + 5 * Minute \<and> fst use < fst clock + 5 * Minute \<and>
       fst use < tv_Time (xa_validationValidUntil (iq_Artifact r)) \<and> fst use < fst (sb_ExpiresAt (iq_Session r)))"
  using issued_undecided [OF i] run
proof (cases rule: guard.run_cases)
  case (failed es)
  with d show ?thesis by auto
next
  case (decided before k after es d')
  have dd: "d' = d" using d decided(5) decided(6) [of _ d] by (auto dest: sym)
  let ?q = "kc_request k" and ?b = "ou_bound (is_guard i)"
  obtain nonce c now decisionID where a: "answers ?b ?q nonce" "CheckReason nf (dq_Reason ?q) = Inr c"
    and t: "normalizedTime (kc_clock k) = Some now" "in_time ?b ?q now" and m: "d' = bound_decision ?b now decisionID c"
    by (rule decided_guard [OF issued_undecided [OF i] decided(3)])
  obtain start cid non where s: "normalizedTime clock = Some start" "issue_ok start r" "i = issued_of start r cid non"
    using i by (auto simp: Issue_Inr)
  have now: "fst (kc_clock k) = now" "fst clock = start" using t(1) s(1) by (auto dest: normalizedTime_Some)
  note b = issued_fields [OF s(3)] and window = decision_window [OF s(3) a(1) t(2)] and used = decision_use [OF s(3) auth [folded dd, unfolded m]]
  have ids: "nonce = non \<or> collide nonce non"
      "dq_IdempotencyKey ?q = iq_IdempotencyKey r \<or> collide (dq_IdempotencyKey ?q) (iq_IdempotencyKey r)"
    using a(1) by (auto simp: answers_def b requested_challenge_def intro!: digest_eq_cases)
  have out: "cd_canonicalCommandBytes d = xa_canonicalBytes (iq_Artifact r)" "cd_reasonCanonical d = cr_canonical c"
    by (simp_all add: dd [symmetric] m bound_decision_def b)
  have req: "dq_Operation ?q = hil_OperationApprove" "dq_Artifact ?q = iq_Artifact r" "canonicalNonce (dq_Nonce ?q) = Some nonce"
      "sameSession (dq_Session ?q) (iq_Session r)"
    using a(1) used(1) by (simp_all add: answers_def b requested_challenge_def sameSession_def utc_session_def)
  show ?thesis
    using decided(1) a(2) window used ids out req unfolding Let_def now b ChallengeLifetime_def DecisionLifetime_def ReauthAfter_def
    by (intro conjI bexI [of _ k] exI [of _ nonce] exI [of _ c]) (simp_all add: now)
qed

section \<open>A challenge that is answered in time\<close>

definition answer_to :: "issue_request \<Rightarrow> string \<Rightarrow> reason \<Rightarrow> decision_request" where
  "answer_to r nonce c = \<lparr>dq_Operation = iq_Operation r, dq_Session = iq_Session r, dq_Artifact = iq_Artifact r,
     dq_Nonce = nonce, dq_IdempotencyKey = iq_IdempotencyKey r, dq_Reason = c\<rparr>"

lemma formatUUID_valid: "length raw = 16 \<Longrightarrow> re_matches uuidPattern (formatUUID raw)"
  unfolding formatUUID_def by (rule uuidPatternI) (simp_all add: hexlow_hex_encode)

lemma makeUUID_valid: "length b = 16 \<Longrightarrow> \<exists>u. makeUUID (Some b) = Inr u \<and> re_matches uuidPattern u"
  by (auto simp: makeUUID_def readEntropy_def Let_def intro!: formatUUID_valid)

lemma canonicalNonce_encode: "length n = NonceBytes \<Longrightarrow> canonicalNonce (b64_encode n) = Some n"
  using b64_exact [of False "b64_encode n" "\<lambda>_. True"]
  by (auto simp: canonicalNonce_def b64_encode_length NonceBytes_def b64_encode_inj)

lemma four_digit_between: "four_digit_time a \<Longrightarrow> a \<le> t \<Longrightarrow> t < b \<Longrightarrow> four_digit_time b \<Longrightarrow> four_digit_time t"
  by (simp add: four_digit_time_def)

definition session_years :: "session_binding \<Rightarrow> bool" where
  "session_years v \<longleftrightarrow> four_digit_time (fst (sb_AuthenticatedAt v)) \<and> four_digit_time (fst (sb_ExpiresAt v))"

lemma session_times:
  assumes "checkSession v (now, 0) = Inr s" "session_years v"
  shows "normalizedTime (fst (sb_AuthenticatedAt v), 0) \<noteq> None" "normalizedTime (fst (sb_ExpiresAt v), 0) \<noteq> None" "four_digit_time now" "now \<noteq> 0"
    "fst (sb_AuthenticatedAt v) \<le> now" "now \<le> fst (sb_AuthenticatedAt v) + ReauthAfter" "now < fst (sb_ExpiresAt v)"
proof -
  have n: "normalizedTime (now, 0) = Some now"
    using assms(1) by (auto simp: checkSession_Inr normalizedTime_utc)
  then show "four_digit_time now" "now \<noteq> 0" by (simp_all add: normalizedTime_utc)
  show "normalizedTime (fst (sb_AuthenticatedAt v), 0) \<noteq> None" "normalizedTime (fst (sb_ExpiresAt v), 0) \<noteq> None"
    using assms by (auto simp: checkSession_Inr session_years_def normalizedTime_utc dest!: normalizedTime_Some)
  show "fst (sb_AuthenticatedAt v) \<le> now" "now \<le> fst (sb_AuthenticatedAt v) + ReauthAfter" "now < fst (sb_ExpiresAt v)"
    using assms(1) by (simp_all add: checkSession_Inr)
qed

lemma requested_checked:
  assumes ok: "issue_ok now r" and y: "session_years (iq_Session r)" "four_digit_time (tv_Time (xa_validationValidUntil (iq_Artifact r)))"
    and u: "re_matches uuidPattern cid"
  shows "now < fst (ch_ExpiresAt (requested_challenge now r cid nonce))"
    "CheckChallenge (requested_challenge now r cid nonce) = Inr (checked_challenge_of (requested_challenge now r cid nonce))"
proof -
  let ?v = "requested_challenge now r cid nonce" and ?e = "minTime (now + ChallengeLifetime)
      [tv_Time (xa_validationValidUntil (iq_Artifact r)), fst (sb_ExpiresAt (iq_Session r))]"
  have ss: "checkSession (iq_Session r) (now, 0) = Inr (utc_session (iq_Session r))" and x: "validExactArtifact (iq_Artifact r)"
    and f: "exact_FreshAt (iq_Artifact r) (now, 0)" and op: "validPolicyOperation (iq_Operation r)"
    using ok by (simp_all add: issue_ok_def)
  note st = session_times [OF ss y(1)] and fr = exact_FreshAt_utc [OF f]
  have e: "now < ?e" using st fr by (simp add: minTime_le(1) ChallengeLifetime_def)
  then show "now < fst (ch_ExpiresAt ?v)" by (simp add: requested_challenge_def)
  have le: "?e \<le> tv_Time (xa_validationValidUntil (iq_Artifact r))" "?e \<le> now + ChallengeLifetime"
    using minTime_le(1) [of "tv_Time (xa_validationValidUntil (iq_Artifact r))"] minTime_le(2) by (auto simp: not_less [symmetric])
  have ye: "four_digit_time ?e" "?e \<noteq> 0" "tv_Time (xa_validationValidUntil (iq_Artifact r)) \<noteq> 0"
    using e le y(2) st(3,4) fr by (auto simp: four_digit_time_def)
  have static: "challenge_static ?v"
    using ss x op u by (auto simp: challenge_static_def requested_challenge_def checkSession_Inr validExactArtifact_def hil_checks
        validOperation_def validPolicyOperation_def validChallengeBranch_def not_less word_gt_0
        hil_OperationApprove_def hil_OperationReject_def hil_OperationRevoke_def dest: uuidPattern_length)
  have timed: "challenge_timed ?v"
    using st ye y(2) e le by (simp add: challenge_timed_def requested_challenge_def normalizedTime_utc challenge_times_def not_less)
  have "length (marshalChallengeJCS ?v) \<le> MaxChallengeBytes"
    using st ye y by (intro challenge_size static) (simp add: requested_challenge_def session_years_def)
  with static timed show "CheckChallenge ?v = Inr (checked_challenge_of ?v)"
    by (simp add: CheckChallenge_iff challenge_in_utc_eq [OF requested_in_utc])
qed

text \<open>A time at which an issued challenge can still be answered.\<close>

definition answerable :: "gotime \<Rightarrow> issue_request \<Rightarrow> gotime \<Rightarrow> bool" where
  "answerable now r later \<longleftrightarrow> now \<le> later \<and> later < now + 5 * Minute \<and>
     later < tv_Time (xa_validationValidUntil (iq_Artifact r)) \<and> later < fst (sb_ExpiresAt (iq_Session r)) \<and>
     later \<le> fst (sb_AuthenticatedAt (iq_Session r)) + 15 * Minute"

lemma answer_in_time:
  assumes ok: "issue_ok now r" and y: "session_years (iq_Session r)" "four_digit_time (tv_Time (xa_validationValidUntil (iq_Artifact r)))"
    and t: "answerable now r later"
  shows "in_time (ou_bound (is_guard (issued_of now r cid nonce))) (answer_to r n c) later" "four_digit_time later" "later \<noteq> 0"
proof -
  have ss: "checkSession (iq_Session r) (now, 0) = Inr (utc_session (iq_Session r))" and f: "exact_FreshAt (iq_Artifact r) (now, 0)"
    using ok by (simp_all add: issue_ok_def)
  note st = session_times [OF ss y(1)] and fr = exact_FreshAt_utc [OF f]
  show l: "four_digit_time later" "later \<noteq> 0" using st(3,4) t y(2) by (auto simp: answerable_def four_digit_time_def)
  then have n: "normalizedTime (later, 0) = Some later" by (simp add: normalizedTime_utc)
  have "checkSession (iq_Session r) (later, 0) = Inr (utc_session (iq_Session r))"
    using ss n t by (auto simp: checkSession_Inr utc_session_def answerable_def ReauthAfter_def)
  moreover have "exact_FreshAt (iq_Artifact r) (later, 0)"
    using n t fr by (auto simp: exact_FreshAt_def answerable_def)
  ultimately show "in_time (ou_bound (is_guard (issued_of now r cid nonce))) (answer_to r n c) later"
    using t by (simp add: in_time_def issued_fields [OF refl] requested_challenge_def answer_to_def answerable_def minTime_le(1) ChallengeLifetime_def)
qed

lemma answer_checked:
  assumes ok: "issue_ok now r" and y: "session_years (iq_Session r)" "four_digit_time (tv_Time (xa_validationValidUntil (iq_Artifact r)))"
    and t: "answerable now r later" and u: "re_matches uuidPattern cid" "re_matches uuidPattern did"
    and c: "CheckReason nf v = Inr c"
  fixes nonce
  defines "d \<equiv> made_decision (ou_bound (is_guard (issued_of now r cid nonce))) later did c"
  shows "later < fst (de_DecisionValidUntil d)" "CheckDecision d = Inr (checked_decision_of d)"
proof -
  define e where "e = minTime (later + DecisionLifetime) [minTime (now + ChallengeLifetime)
      [tv_Time (xa_validationValidUntil (iq_Artifact r)), fst (sb_ExpiresAt (iq_Session r))],
      tv_Time (xa_validationValidUntil (iq_Artifact r)), fst (sb_ExpiresAt (iq_Session r))]"
  have dt: "de_DecidedAt d = (later, 0)" "de_DecisionValidUntil d = (e, 0)"
    by (simp_all add: d_def e_def made_decision_def issued_fields [OF refl] requested_challenge_def utc_session_def)
  have l: "later < e" using t by (simp add: e_def minTime_le(1) answerable_def ChallengeLifetime_def DecisionLifetime_def)
  then show "later < fst (de_DecisionValidUntil d)" by (simp add: dt)
  have le: "e \<le> tv_Time (xa_validationValidUntil (iq_Artifact r))" "e \<le> later + DecisionLifetime"
    using minTime_le(1) [of "tv_Time (xa_validationValidUntil (iq_Artifact r))"] minTime_le(2) by (auto simp: e_def not_less [symmetric])
  note at = answer_in_time [OF ok y t]
  have ye: "four_digit_time e" "e \<noteq> 0" using l le(1) y(2) at(2,3) by (auto simp: four_digit_time_def)
  have ss: "checkSession (iq_Session r) (now, 0) = Inr (utc_session (iq_Session r))" and x: "validExactArtifact (iq_Artifact r)"
    and op: "validPolicyOperation (iq_Operation r)"
    using ok by (simp_all add: issue_ok_def)
  have static: "decision_static d"
    using ss x op u CheckReason_Inr [OF c]
    by (auto simp: decision_static_def d_def made_decision_def issued_fields [OF refl] requested_challenge_def utc_session_def
        checkSession_Inr validExactArtifact_def hil_checks validDecisionBranch_def validDecision_def
        validOperation_def validPolicyOperation_def validChallengeBranch_def not_less word_gt_0
        hil_OperationApprove_def hil_OperationReject_def hil_OperationRevoke_def)
  have timed: "decision_timed d"
    using l le(2) ye at(2,3) by (simp add: decision_timed_def dt normalizedTime_utc not_less)
  have "length (marshalDecisionJCS d) \<le> MaxDecisionBytes" using at(2) ye by (intro decision_size static) (simp_all add: dt)
  moreover have "decision_utc d = d" using dt by (simp add: decision_utc_def)
  ultimately show "CheckDecision d = Inr (checked_decision_of d)" using static timed by (simp add: CheckDecision_iff)
qed

lemma answer_answers:
  assumes "issue_ok now r" "length nonce = NonceBytes"
  shows "answers (ou_bound (is_guard (issued_of now r cid nonce))) (answer_to r (b64_encode nonce) v) nonce"
  using assms by (simp add: answers_def answer_to_def issued_fields [OF refl] requested_challenge_def utc_session_def
      canonicalNonce_encode issue_ok_def)

lemma answer_consumed:
  assumes ok: "issue_ok now r" and y: "session_years (iq_Session r)" "four_digit_time (tv_Time (xa_validationValidUntil (iq_Artifact r)))"
    and u: "re_matches uuidPattern cid" "makeUUID entropy = Inr did" "re_matches uuidPattern did" and n: "length nonce = NonceBytes"
    and later: "normalizedTime clock = Some later" "answerable now r later" and c: "CheckReason nf v = Inr c"
  defines "g \<equiv> is_guard (issued_of now r cid nonce)"
  shows "Consume nf clock entropy (answer_to r (b64_encode nonce) v) g =
    (g\<lparr>ou_consumed := Some (bound_decision (ou_bound g) later did c), ou_fingerprint := fingerprint_of (ou_bound g) (cr_digest c)\<rparr>,
     Inr (bound_decision (ou_bound g) later did c))"
proof -
  let ?b = "ou_bound g"
  note ac = answer_checked [OF ok y later(2) u(1,3) c, of nonce]
  have an: "answers ?b (answer_to r (b64_encode nonce) v) nonce" using answer_answers [OF ok n] by (simp add: g_def)
  have df: "decisionFingerprint nf ?b (answer_to r (b64_encode nonce) v) = Inr (fingerprint_of ?b (cr_digest c), c,
      ch_NonceDigest (cc_value (bc_artifact ?b)), bc_idempotencyKeyDigest ?b)"
    unfolding decisionFingerprint_Inr using an c by (auto simp: answer_to_def)
  have de: "decide clock entropy ?b (answer_to r (b64_encode nonce) v) c
      (ch_NonceDigest (cc_value (bc_artifact ?b))) (bc_idempotencyKeyDigest ?b) = Inr (bound_decision ?b later did c)"
    unfolding decide_Inr [OF an] using later(1) u(2) ac answer_in_time(1) [OF ok y later(2)] by (auto simp: g_def)
  have "ou_consumed g = None" by (simp add: g_def issued_of_def)
  then show ?thesis by (simp add: Consume_def df de)
qed

text \<open>
  C12: An administrator who answers in time is heard. If the session, the artifact and the idempotency key of
  an approval request pass their checks, the entropy source answers and all times have four-digit years,
  then a challenge is issued and its document parses; its nonce can be taken once and not again; and an
  answer with that nonce, within five minutes of the challenge, fifteen minutes of the log-in and before
  the session and the validation end, gets a decision that authorises the command of the artifact at
  that moment and whose document parses.
\<close>

theorem fresh_challenge_answered:
  assumes now: "normalizedTime clock = Some now" and ok: "issue_ok now r" and op: "iq_Operation r = hil_OperationApprove"
    and y: "session_years (iq_Session r)" "four_digit_time (tv_Time (xa_validationValidUntil (iq_Artifact r)))"
    and e: "length idBytes = 16" "length nonce = 32" "length idBytes' = 16"
    and later: "normalizedTime clock' = Some later" "answerable now r later" and c: "CheckReason nf v = Inr c"
  shows "\<exists>i i' n g d. Issue clock (Some idBytes) (Some nonce) r = Inr i \<and>
    ParseCanonicalChallenge (cc_canonical (bc_artifact (ou_bound (is_guard i)))) = Inr (bc_artifact (ou_bound (is_guard i))) \<and>
    TakeNonce i = (i', Inr n) \<and> TakeNonce i' = (i', Inl HilErrorNonceUnavailable) \<and>
    Consume nf clock' (Some idBytes') (answer_to r n v) (is_guard i') = (g, Inr d) \<and>
    AuthorizesAt d clock' \<and> cd_canonicalCommandBytes d = xa_canonicalBytes (iq_Artifact r) \<and>
    ParseCanonicalDecision (cd_canonical d) = Inr (d\<lparr>cd_reasonCanonical := [], cd_canonicalCommandBytes := []\<rparr>)"
proof -
  obtain cid did where u: "makeUUID (Some idBytes) = Inr cid" "re_matches uuidPattern cid"
      "makeUUID (Some idBytes') = Inr did" "re_matches uuidPattern did"
    using makeUUID_valid e(1,3) by blast
  define i where "i = issued_of now r cid nonce"
  let ?b = "ou_bound (is_guard i)"
  define d where "d = bound_decision ?b later did c"
  have n: "length nonce = NonceBytes" by (simp add: e NonceBytes_def)
  note rc = requested_checked [OF ok y u(2), of nonce] and ac = answer_checked [OF ok y later(2) u(2,4) c, of nonce]
  have issue: "Issue clock (Some idBytes) (Some nonce) r = Inr i"
    unfolding Issue_Inr i_def using now ok u(1) rc by blast
  have parse: "ParseCanonicalChallenge (cc_canonical (bc_artifact ?b)) = Inr (bc_artifact ?b)"
    using ParseCanonicalChallenge_canonical [OF rc(2) requested_in_utc] by (simp add: i_def issued_of_def)
  have consume: "Consume nf clock' (Some idBytes') (answer_to r (b64_encode nonce) v) (is_guard i) =
      ((is_guard i)\<lparr>ou_consumed := Some d, ou_fingerprint := fingerprint_of ?b (cr_digest c)\<rparr>, Inr d)"
    unfolding i_def d_def by (rule answer_consumed [OF ok y u(2-4) n later c])
  have auth: "AuthorizesAt d clock'"
    using op ok later(1) ac(1) CheckReason_Inr [OF c]
    by (auto simp: d_def i_def bound_decision_def checked_decision_of_def AuthorizesAt_def made_decision_def issued_fields [OF refl]
        requested_challenge_def marshalDecisionJCS_def issue_ok_def validExactArtifact_def)
  have "ParseCanonicalDecision (cd_canonical d) = Inr (d\<lparr>cd_reasonCanonical := [], cd_canonicalCommandBytes := []\<rparr>)"
    using ParseCanonicalDecision_canonical [OF ac(2)]
    by (simp add: d_def i_def bound_decision_def checked_decision_of_def decision_in_utc_def made_decision_def)
  moreover have "TakeNonce i = (i\<lparr>is_nonce := []\<rparr>, Inr (b64_encode nonce))"
      "TakeNonce (i\<lparr>is_nonce := []\<rparr>) = (i\<lparr>is_nonce := []\<rparr>, Inl HilErrorNonceUnavailable)"
    using n by (simp_all add: TakeNonce_def i_def issued_of_def NonceBytes_def)
  moreover have "cd_canonicalCommandBytes d = xa_canonicalBytes (iq_Artifact r)"
    by (simp add: d_def bound_decision_def i_def issued_fields [OF refl])
  ultimately show ?thesis using issue parse consume auth
    by (intro exI [of _ i] exI [of _ "i\<lparr>is_nonce := []\<rparr>"] exI [of _ "b64_encode nonce"] exI [of _ d] exI
        [of _ "(is_guard i)\<lparr>ou_consumed := Some d, ou_fingerprint := fingerprint_of ?b (cr_digest c)\<rparr>"]) simp
qed

section \<open>An example\<close>

definition sample_normalizer :: normalizer where
  "sample_normalizer = \<lparr>nf_String = (\<lambda>s. s), nf_IsNormalString = (\<lambda>s. True)\<rparr>"

definition sample_start :: gotime where "sample_start = 63900000000000000000"

definition sample_session :: session_binding where
  "sample_session = \<lparr>sb_SessionID = ''018f0000-0000-7000-8000-000000000011'',
     sb_SessionDigest = ''sha256:'' @ replicate 64 CHR ''c'', sb_ActorID = ''admin'',
     sb_AuthenticatedAt = (sample_start - 2 * Minute, 3600), sb_ExpiresAt = (sample_start + 60 * Minute, 3600)\<rparr>"

definition sample_bytes :: bytes where
  "sample_bytes = ''add element inet sentinelflow blacklist_ipv4 { 198.51.100.20 timeout 30m }'' @ [CHR 0x0A]"

definition sample_exact :: exact_artifact where
  "sample_exact = \<lparr>xa_policyID = ''018f0000-0000-7000-8000-000000000001'', xa_policyVersion = 1,
     xa_targetIPv4 = ''198.51.100.20'', xa_ttlSeconds = 1800, xa_policyDigest = ''sha256:'' @ replicate 64 CHR ''a'',
     xa_generatedDigest = hil_digestBytes sample_bytes, xa_canonicalDigest = hil_digestBytes sample_bytes,
     xa_evidenceSnapshotDigest = ''sha256:'' @ replicate 64 CHR ''b'',
     xa_validationSnapshotDigest = ''sha256:'' @ replicate 64 CHR ''d'',
     xa_validationCreatedAt = freezeTime (sample_start - Minute), xa_validationValidUntil = freezeTime (sample_start + 4 * Minute),
     xa_generatedBytes = sample_bytes, xa_canonicalBytes = sample_bytes\<rparr>"

definition sample_issue :: issue_request where
  "sample_issue = \<lparr>iq_Operation = ''approve'', iq_Session = sample_session, iq_Artifact = sample_exact,
     iq_IdempotencyKey = replicate 16 CHR ''k''\<rparr>"

definition sample_reason :: reason where
  "sample_reason = \<lparr>re_SchemaVersion = ''hil-reason-v1'', re_ReasonCode = ''threat_confirmed'', re_ReasonText = ''path scan''\<rparr>"

definition sample_nonce :: bytes where "sample_nonce = replicate 32 CHR ''n''"
definition sample_entropy :: bytes where "sample_entropy = replicate 16 CHR ''u''"

lemma sample_exact_valid: "validExactArtifact sample_exact"
proof -
  have "re_matches uuidPattern ''018f0000-0000-7000-8000-000000000001''" "canonical_ipv4 ''198.51.100.20''"
      "re_matches digestPattern (''sha256:'' @ replicate 64 CHR ''a'')" "re_matches digestPattern (''sha256:'' @ replicate 64 CHR ''b'')"
      "re_matches digestPattern (''sha256:'' @ replicate 64 CHR ''d'')"
    by code_simp+
  then show ?thesis unfolding validExactArtifact_def hil_checks sample_exact_def
    by (simp only: exact_artifact.select_convs hil_digestBytes_matches) (simp add: sample_bytes_def)
qed

lemma freezeTime_Time: "tv_Time (freezeTime t) = t"
  using div_mult_mod_eq [of t Second] by (simp add: tv_Time_def freezeTime_def)

lemma sample_validity:
  "tv_Time (xa_validationValidUntil sample_exact) = sample_start + 4 * Minute"
  "tv_Time (xa_validationCreatedAt sample_exact) = sample_start - Minute"
  by (simp_all add: sample_exact_def freezeTime_Time)

lemma sample_clock_times:
  "normalizedTime (sample_start, 3600) = Some sample_start" "normalizedTime (sample_start, 0) = Some sample_start"
  "normalizedTime (sample_start + Minute, 0) = Some (sample_start + Minute)"
  "four_digit_time (sample_start + 4 * Minute)" "session_years sample_session"
  by code_simp+

lemma sample_issue_ok: "issue_ok sample_start sample_issue"
proof -
  have s: "checkSession sample_session (sample_start, 0) = Inr (utc_session sample_session)" by code_simp
  have f: "exact_FreshAt sample_exact (sample_start, 0)" by (simp add: exact_FreshAt_def sample_clock_times sample_validity)
  show ?thesis unfolding issue_ok_def
    by (simp add: sample_issue_def s f sample_exact_valid validPolicyOperation_def hil_OperationApprove_def validIdempotencyKey_def
        MinIdempotencyKeyBytes_def MaxIdempotencyKeyBytes_def)
qed

lemma sample_reason_ok: "\<exists>c. CheckReason sample_normalizer sample_reason = Inr c"
proof -
  have "utf8_valid ''path scan''" "\<not> list_all IsSpace (runes ''path scan'')" "length (runes ''path scan'') = 9"
      "\<not> list_ex (\<lambda>r. r \<le> 0x1F \<or> r = 0x7F) (runes ''path scan'')" "length (marshalReasonJCS sample_reason) \<le> MaxReasonBytes"
    by code_simp+
  then show ?thesis
    by (simp add: CheckReason_def sample_normalizer_def sample_reason_def ReasonSchemaVersion_def validReasonCode_def MaxReasonBytes_def
        MaxReasonRunes_def Let_def)
qed

lemma sample_answerable: "answerable sample_start sample_issue (sample_start + Minute)"
  by (simp add: answerable_def sample_issue_def sample_validity sample_session_def)

text \<open>The challenge of the example, and a history in which it is answered twice in the same way.\<close>

lemma sample_issued:
  obtains cid did c where "Issue (sample_start, 3600) (Some sample_entropy) (Some sample_nonce) sample_issue =
      Inr (issued_of sample_start sample_issue cid sample_nonce)"
    "re_matches uuidPattern cid" "makeUUID (Some sample_entropy) = Inr did" "re_matches uuidPattern did"
    "CheckReason sample_normalizer sample_reason = Inr c"
proof -
  have y: "session_years (iq_Session sample_issue)" "four_digit_time (tv_Time (xa_validationValidUntil (iq_Artifact sample_issue)))"
    using sample_clock_times by (simp_all add: sample_issue_def sample_validity)
  obtain cid where u: "makeUUID (Some sample_entropy) = Inr cid" "re_matches uuidPattern cid"
    using makeUUID_valid [of sample_entropy] by (auto simp: sample_entropy_def)
  have "Issue (sample_start, 3600) (Some sample_entropy) (Some sample_nonce) sample_issue =
      Inr (issued_of sample_start sample_issue cid sample_nonce)"
    unfolding Issue_Inr using sample_clock_times(1) sample_issue_ok u(1) requested_checked [OF sample_issue_ok y u(2)] by blast
  with u sample_reason_ok that show thesis by blast
qed

definition sample_call :: "gotime \<Rightarrow> consume_call" where
  "sample_call t = \<lparr>kc_clock = (t, 0), kc_entropy = Some sample_entropy,
     kc_request = answer_to sample_issue (b64_encode sample_nonce) sample_reason\<rparr>"

definition sample_calls :: "consume_call list" where
  "sample_calls = [sample_call (sample_start + Minute), sample_call (sample_start + 10 * Minute)]"

lemma sample_answered:
  obtains i g d x where "Issue (sample_start, 3600) (Some sample_entropy) (Some sample_nonce) sample_issue = Inr i"
    "use_all (consume_one sample_normalizer) sample_calls (is_guard i) = (g, [Inr d, x])" "AuthorizesAt d (sample_start + Minute, 0)"
proof -
  obtain cid did c where i: "Issue (sample_start, 3600) (Some sample_entropy) (Some sample_nonce) sample_issue =
      Inr (issued_of sample_start sample_issue cid sample_nonce)"
    and u: "re_matches uuidPattern cid" "makeUUID (Some sample_entropy) = Inr did" "re_matches uuidPattern did"
    and c: "CheckReason sample_normalizer sample_reason = Inr c" by (rule sample_issued)
  have y: "session_years (iq_Session sample_issue)" "four_digit_time (tv_Time (xa_validationValidUntil (iq_Artifact sample_issue)))"
    using sample_clock_times by (simp_all add: sample_issue_def sample_validity)
  have n: "length sample_nonce = NonceBytes" by (simp add: sample_nonce_def NonceBytes_def)
  let ?g = "is_guard (issued_of sample_start sample_issue cid sample_nonce)"
  note con = answer_consumed [OF sample_issue_ok y u n sample_clock_times(3) sample_answerable c]
  have auth: "AuthorizesAt (bound_decision (ou_bound ?g) (sample_start + Minute) did c) (sample_start + Minute, 0)"
    using sample_clock_times(3) answer_checked(1) [OF sample_issue_ok y sample_answerable u(1,3) c, of sample_nonce] CheckReason_Inr [OF c]
      sample_exact_valid
    by (auto simp: bound_decision_def checked_decision_of_def AuthorizesAt_def made_decision_def issued_fields [OF refl]
        requested_challenge_def marshalDecisionJCS_def validExactArtifact_def sample_issue_def hil_OperationApprove_def)
  define second where "second = consume_one sample_normalizer (sample_call (sample_start + 10 * Minute))
    (fst (consume_one sample_normalizer (sample_call (sample_start + Minute)) ?g))"
  have "use_all (consume_one sample_normalizer) sample_calls ?g =
      (fst second, [Inr (bound_decision (ou_bound ?g) (sample_start + Minute) did c), snd second])"
    using con by (simp add: second_def sample_calls_def sample_call_def consume_one_def case_prod_unfold)
  then show thesis by (rule that [OF i _ auth])
qed

theorem one_answer_per_challenge_witness:
  "\<exists>i g d. Issue (sample_start, 3600) (Some sample_entropy) (Some sample_nonce) sample_issue = Inr i \<and>
     use_all (consume_one sample_normalizer) sample_calls (is_guard i) = (g, [Inr d, Inr d])"
proof -
  obtain i g d x where h: "Issue (sample_start, 3600) (Some sample_entropy) (Some sample_nonce) sample_issue = Inr i"
    "use_all (consume_one sample_normalizer) sample_calls (is_guard i) = (g, [Inr d, x])" by (rule sample_answered)
  have same: "same_answer sample_normalizer (kc_request (sample_calls ! 0)) (kc_request (sample_calls ! Suc 0))"
    using sample_reason_ok by (simp add: sample_calls_def sample_call_def same_answer_def answer_to_def sameSession_def constantStringEqual_def)
  have len: "length sample_calls = 2" by (simp add: sample_calls_def)
  have "\<not> (\<forall>y \<in> set [Inr d, x]. \<exists>e. y = Inl e)" by simp
  then obtain k d' where k: "[Inr d, x] ! k = Inr d'" "\<forall>j < k. \<exists>e. [Inr d, x] ! j = Inl e"
    "\<forall>j. k < j \<and> j < 2 \<longrightarrow> [Inr d, x] ! j = Inr d' \<or> \<not> same_answer sample_normalizer (kc_request (sample_calls ! k)) (kc_request (sample_calls ! j))"
    using one_answer_per_challenge [OF h] unfolding len by blast
  have k0: "k = 0" using k(2) by (cases k) auto
  then have "d' = d" "x = Inr d'" using k(1) k(3) [rule_format, of "Suc 0"] same by auto
  then have "x = Inr d" by simp
  with h show ?thesis by blast
qed

theorem approval_is_deliberate_witness:
  "\<exists>d. AuthorizesAt d (sample_start + Minute, 0) \<and> cd_canonicalCommandBytes d = sample_bytes"
proof -
  obtain i g d x where h: "Issue (sample_start, 3600) (Some sample_entropy) (Some sample_nonce) sample_issue = Inr i"
    "use_all (consume_one sample_normalizer) sample_calls (is_guard i) = (g, [Inr d, x])" "AuthorizesAt d (sample_start + Minute, 0)"
    by (rule sample_answered)
  then show ?thesis using approval_is_deliberate [OF h(1,2) _ h(3)] by (auto simp: sample_issue_def sample_exact_def)
qed

theorem fresh_challenge_answered_witness:
  "\<exists>i n g d. Issue (sample_start, 3600) (Some sample_entropy) (Some sample_nonce) sample_issue = Inr i \<and>
    Consume sample_normalizer (sample_start + Minute, 0) (Some sample_entropy) (answer_to sample_issue n sample_reason) (is_guard i) = (g, Inr d) \<and>
    AuthorizesAt d (sample_start + Minute, 0)"
proof -
  obtain c where c: "CheckReason sample_normalizer sample_reason = Inr c" using sample_reason_ok by blast
  have e: "length sample_entropy = 16" "length sample_nonce = 32" by (simp_all add: sample_entropy_def sample_nonce_def)
  have h: "iq_Operation sample_issue = hil_OperationApprove" "session_years (iq_Session sample_issue)"
      "four_digit_time (tv_Time (xa_validationValidUntil (iq_Artifact sample_issue)))"
    using sample_clock_times by (simp_all add: sample_issue_def sample_validity hil_OperationApprove_def)
  have "is_guard i' = is_guard i" if "TakeNonce i = (i', Inr n)" for i i' n
    using that by (auto simp: TakeNonce_def split: if_splits)
  then show ?thesis
    using fresh_challenge_answered [OF sample_clock_times(1) sample_issue_ok h e e(1) sample_clock_times(3) sample_answerable c] by metis
qed

end
