(* ===== verification/Spec2Isabelle.thy ===== *)
theory Spec2Isabelle
  imports Nft_Candidate Policy_Lifecycle Pipeline Executor_Correct Hil_Correct
begin

text \<open>
  \<^bold>\<open>SentinelFlow\<close>: a verification of the decision and enforcement core of a web-attack
  response system written in Go. A gateway reports events; deterministic detectors make signals of them; signals
  are correlated into incidents; an analysis proposes a policy with one firewall command; the policy is checked,
  validated and approved by a person; a dispatcher signs a capability for exactly that command; and an isolated
  executor carries it out at most once and signs the result. The development models the pure packages on this
  path and the executor with its journal, and shows for each what it guarantees.

  \<^bold>\<open>How the code is modelled.\<close> Go strings and byte slices are byte strings
  (\<^typ>\<open>string\<close>). \<open>uint32\<close> and \<open>uint64\<close> are words of that width. A
  \<open>time.Time\<close> is the number of nanoseconds since the zero time, with the offset of its zone where
  the code looks at it before converting to UTC. A struct is a record, an enumeration a datatype or the string
  the code stores. A fallible function returns a sum whose left side is the error, so every early return is a
  branch. Loops are structural recursion, or \<open>function\<close> with a termination proof. What the code
  does not decide is an argument: clock readings, answers of the file system, of readers and writers, of the
  random source, and of the firewall runner. Ed25519 and Unicode normalisation are record parameters; the laws
  of Ed25519 that a theorem uses are named in it and hold for the instance of its witness. SHA-256 is defined in
  full but never assumed to be injective: a theorem about digests ends in equality or in an explicit collision
  of two given byte strings.

  \<^bold>\<open>The Go library\<close> (theories \<open>Go_*\<close>, \<open>Contract_Text\<close>,
  \<open>Flat_Json\<close>): anchored regular expressions, SHA-256, \<open>net/netip\<close> on IPv4, UTF-8 and
  runes, \<open>time\<close> formatting and parsing with the exact calendar, \<open>encoding/json\<close>
  (strict decoding into structs, duplicate names, escaping) and URL-safe base64. Their round trips
  (\<open>parse_format_rfc3339\<close>, \<open>parse_doc_print\<close>, \<open>b64_exact\<close>) carry the
  codecs below. \<open>Prelude\<close> has the shared types, error sequencing and decimal text.

  \<^bold>\<open>Policies.\<close> \<open>Policy_Candidate\<close> (\<open>internal/policy/parser.go\<close>,
  \<open>artifact.go\<close>) is the closed grammar of one add command and the artifact built from it;
  \<open>Nft_Candidate\<close> (\<open>internal/enforcement/nftvalidate/candidate.go\<close>) is the independent
  second parser, shown to agree with the first on every input. \<open>Policy_Response\<close>
  (\<open>response_policy.go\<close>) is the immutable policy object, its canonical JSON and its revisions.
  \<open>Policy_Lifecycle\<close> (\<open>state.go\<close>) is the state row, an instance of the
  compare-and-swap contract of \<open>Cas_Machine\<close>; nothing is enforced without approval.

  \<^bold>\<open>Detection and correlation.\<close> \<open>Canonical_Lines\<close> and
  \<open>Keyed_Input\<close> are the digest lines and the input loop that both packages share.
  \<open>Detection\<close> (\<open>internal/detection\<close>) has the configuration, the input checks and the
  four rules; \<open>Detection_Rules\<close> compares each rule with a condition on the raw input.
  \<open>Correlation\<close>, \<open>Correlation_Groups\<close> and \<open>Correlation_Snapshot\<close>
  (\<open>internal/correlation\<close>) show that \<open>Correlate\<close> computes the connected components of
  related signals and that snapshot digests bind their contents. \<open>Incident\<close> and
  \<open>Incident_Lifecycle\<close> (\<open>lifecycle.go\<close>) are the incident aggregate: its invariant over
  all histories, idempotent replay, routing. \<open>Pipeline\<close> and the property below connect the two
  packages, and name the two limits of correlation that the detectors do not have.

  \<^bold>\<open>The human decision.\<close> \<open>Hil\<close> (\<open>internal/hil\<close>) has challenges,
  reasons, decisions and the one-use guard; \<open>Hil_Codec\<close> their documents and strict parsing;
  \<open>Hil_Decision\<close> the contract \<open>one_use\<close> of a guard that is decided at most once, with
  the guard of a challenge as its instance; \<open>Hil_Correct\<close> the guarantees: one answer per challenge,
  every authorisation goes back to a deliberate and fresh approval of exactly the authorised bytes, and an
  answer in time is accepted.

  \<^bold>\<open>Capabilities.\<close> \<open>Capability\<close>, \<open>Capability_Parse\<close>,
  \<open>Capability_Result\<close> and \<open>Capability_Signing\<close>
  (\<open>internal/enforcement/capability\<close>) construct, encode, parse, sign and verify requests and
  results. The parsers accept exactly the canonical encodings, and bytes are released for execution only from a
  verified, fresh request of the right kind, and only bytes with the digest that was signed.

  \<^bold>\<open>The executor.\<close> \<open>Ipc\<close> (\<open>internal/enforcement/ipc\<close>) is the wire
  contract. \<open>Journal_Frame\<close>, \<open>Journal\<close>, \<open>Journal_Recovery\<close> and
  \<open>Journal_Once\<close> (\<open>internal/enforcement/journal\<close>) are the append-only replay journal:
  the startup scan ends, reopening rebuilds the index, and executable bytes are released at most once across
  torn writes, failed synchronisations and restarts. Two kinds of history occur. After a restart of the process
  (\<open>exec_step\<close>) the file holds at least what the journal counted as written. A crash of the machine
  (\<open>replay_step\<close>, \<open>crash_reach\<close>) leaves for certain only what an append has
  synchronised: \<open>Open\<close> does not synchronise a file that exists. The at-most-once properties cover
  both, finality of results the first. \<open>Executor\<close> (\<open>internal/enforcement/executor\<close>) is
  the request path as a program in a state monad over an environment that answers numbered questions and may
  kill the process at any of them; \<open>Executor_Effects\<close>, \<open>Executor_Safety\<close>,
  \<open>Executor_Replay\<close> and \<open>Executor_Run\<close> reason about it, and
  \<open>Executor_Correct\<close> states the result: at most one mutation for a capability over all histories,
  final results, and progress in a cooperative environment.

  \<^bold>\<open>Bounds and fuel.\<close> Two loops have fuel. The scan of the journal gets one step for every
  57 bytes, the size of an empty frame, and one more, and \<open>scan_terminates\<close> shows that this always
  suffices. The JSON parser gets twice the length of its input, and more changes nothing
  (\<open>parse_fuel\<close>). Instants are unbounded integers; where the code's text format needs a year of
  four digits to be read back, the theorems say so (as a digest input the text is injective in every year), and
  \<open>year_check_before_utc\<close> shows what happens at the edge.

  \<^bold>\<open>Not modelled.\<close> The PostgreSQL stores, the workers that poll them, HTTP handlers,
  password hashing, senders and spools, because their behaviour is that of a database, a network or a library.
  The runner that starts \<open>nft\<close> and reads its output, the socket transport and key files: the
  executor takes them as an arbitrary environment. The snapshots of \<open>internal/validation\<close> and with
  them \<open>CheckExactArtifact\<close>, which builds the artifact of a challenge from them; an exact artifact
  is here any value that passes \<open>validExactArtifact\<close>. Revocation bindings, lifecycle artifacts, the
  historical-impact statistics, the analysis service, exports, demonstrations, configuration, metrics, the
  commands and the user interface.
\<close>

text \<open>
  C20: What correlation does with the signals the detectors emit, for any configuration and input. Validation
  accepts the signal of an evaluation unless its window starts at Go's zero time (refused with the window
  error) or it counts more than 1000000 events (refused with the metrics error): the detectors have neither
  limit, and these two are the only reasons for a refusal. On inputs of at most 1000000 events in all, which
  is what the detection worker prepares, the second cannot occur, and every signal of a window that does not
  start at the zero time is accepted.
\<close>

theorem detected_signals_accepted:
  assumes "New c = Inr d" "Evaluate d inp = Inr out"
    and "e \<in> set (out_PathScan out @ out_RequestBurst out @ out_LoginBruteForce out @ out_CredentialStuffing out)"
    and "ev_Signal e = Some sg"
  shows "validateSignal sg field =
      (if ev_WindowStart e = 0 then Some (CorrError CorrInvalidInput (field @ ''.window''))
       else if 1000000 < mt_EventCount (ev_Observed e) then Some (CorrError CorrInvalidInput (field @ ''.metrics''))
       else None) \<and>
    (length (ei_GatewayEvents inp) + length (ei_AuthEvents inp) \<le> 1000000 \<and> ev_WindowStart e \<noteq> 0 \<longrightarrow>
       validateSignal sg field = None)"
proof -
  have d: "detector_ok d" by (rule New_detector_ok [OF assms(1)])
  obtain n where n: "normalizeInput inp (dt_config d) = Inr n" and out: "out_PathScan out = evaluatePathScan d n"
    "out_RequestBurst out = evaluateRequestBurst d n" "out_LoginBruteForce out = evaluateLoginBruteForce d n"
    "out_CredentialStuffing out = evaluateCredentialStuffing d n"
    using Evaluate_Inr [OF assms(2)] by metis
  have "reports e sg \<and> mt_EventCount (ev_Observed e) \<le> int (length (ei_GatewayEvents inp) + length (ei_AuthEvents inp))"
    using assms(3) path_scan_signal_ok [OF d n _ assms(4)] request_burst_signal_ok [OF d n _ assms(4)]
      login_bruteforce_signal_ok [OF d n _ assms(4)] credential_stuffing_signal_ok [OF d n _ assms(4)]
    unfolding out set_append by fastforce
  then show ?thesis using validate_emitted [of sg field] by (auto simp: reports_def)
qed

theorem detected_signals_accepted_witness:
  "\<exists>out e sg. Evaluate example_detector scan_up = Inr out \<and> e \<in> set (out_PathScan out) \<and> ev_Signal e = Some sg \<and>
     validateSignal sg ''signals[0]'' = None"
proof -
  obtain out e sg where o: "Evaluate example_detector scan_up = Inr out" "e \<in> set (out_PathScan out)" "ev_Signal e = Some sg"
    "ev_WindowStart e = 999 * Minute" using example_matched by metis
  moreover have "length (ei_GatewayEvents scan_up) + length (ei_AuthEvents scan_up) \<le> 1000000"
    by (simp add: example_input_def)
  ultimately have "validateSignal sg ''signals[0]'' = None"
    using detected_signals_accepted [OF example_New o(1) _ o(3), of "''signals[0]''"] by auto
  with o show ?thesis by blast
qed

end
